(* ===== verification/Js_Values.thy ===== *)
theory Js_Values
  imports Complex_Main "HOL-Library.List_Lexorder" "HOL-Library.Char_ord" "HOL-Library.AList"
begin

text \<open>
  The prelude of the development: the JavaScript values the sync core computes with, the
  object, string and number operations of the language the sources use, and the generic
  lemmas on them that the component theories share.

  The sync core treats a synced entity as an open object: it spreads it, tests own keys,
  deletes keys, distinguishes a missing key from an explicit \<open>undefined\<close> and keeps props it
  does not know. An entity is therefore a value of the datatype \<open>js\<close> below and not a closed
  record. Conventions of the model:
  \<^item> a string is the list of its code units, all below 256 (the type \<open>char\<close>); HOL's order on
    such lists is JavaScript's \<open><\<close> on strings;
  \<^item> a finite number is a rational, \<open>NaN\<close> and the infinities are constructors of their own;
    the arithmetic of the sources stays inside the integers a double represents exactly;
  \<^item> an object is the list of its own enumerable properties in insertion order; its keys are
    never integer-like, so insertion order is enumeration order.
\<close>

section \<open>Values\<close>

datatype js =
    JUndef
  | JNull
  | JBool bool
  | JNum rat
  | JNaN
  | JInf bool
  | JStr string
  | JArr "js list"
  | JObj "(string \<times> js) list"

type_synonym entity = js

named_theorems js_simps \<open>rewrite rules for object access and update\<close>
named_theorems js_strings \<open>rewrite rules for the string operations\<close>

text \<open>Truthiness, \<open>??\<close>, \<open>||\<close> and the \<open>typeof\<close> tests.\<close>

fun truthy :: "js \<Rightarrow> bool" where
  "truthy JUndef = False"
| "truthy JNull = False"
| "truthy (JBool b) = b"
| "truthy (JNum n) = (n \<noteq> 0)"
| "truthy JNaN = False"
| "truthy (JInf _) = True"
| "truthy (JStr s) = (s \<noteq> [])"
| "truthy (JArr _) = True"
| "truthy (JObj _) = True"

definition nullish :: "js \<Rightarrow> bool" where
  "nullish v \<longleftrightarrow> v = JUndef \<or> v = JNull"

definition coalesce :: "js \<Rightarrow> js \<Rightarrow> js" where
  "coalesce a b = (if nullish a then b else a)"

definition or_else :: "js \<Rightarrow> js \<Rightarrow> js" where
  "or_else a b = (if truthy a then a else b)"

fun is_str :: "js \<Rightarrow> bool" where
  "is_str (JStr _) = True"
| "is_str _ = False"

fun is_arr :: "js \<Rightarrow> bool" where
  "is_arr (JArr _) = True"
| "is_arr _ = False"

fun is_obj :: "js \<Rightarrow> bool" where
  "is_obj (JObj _) = True"
| "is_obj _ = False"

fun the_str :: "js \<Rightarrow> string" where
  "the_str (JStr s) = s"
| "the_str _ = []"

fun elems :: "js \<Rightarrow> js list" where
  "elems (JArr xs) = xs"
| "elems _ = []"

fun props :: "js \<Rightarrow> (string \<times> js) list" where
  "props (JObj kvs) = kvs"
| "props _ = []"

lemma truthy_not_nullish [simp]: "truthy v \<Longrightarrow> \<not> nullish v"
  by (cases v) (auto simp: nullish_def)

lemma nullish_simps [simp]:
  "nullish JUndef" "nullish JNull" "\<not> nullish (JStr s)" "\<not> nullish (JNum n)"
  "\<not> nullish (JBool b)" "\<not> nullish (JArr xs)" "\<not> nullish (JObj kvs)"
  by (simp_all add: nullish_def)

lemma is_str_the_str: "is_str v \<Longrightarrow> v = JStr (the_str v)"
  by (cases v) auto

lemma not_is_str_cases: "is_str v \<longleftrightarrow> (\<exists>s. v = JStr s)"
  by (cases v) auto

section \<open>Objects\<close>

text \<open>
  \<open>get\<close> is the property read \<open>v.k\<close> (and \<open>v?.k\<close>): a missing key reads as \<open>undefined\<close>.
  \<open>put v k x\<close> is \<open>{...v, k: x}\<close>: an existing key keeps its position, a new one is appended.
  \<open>puts\<close> is the object literal with several properties after the spread and \<open>del\<close> is a copy
  without the key.
\<close>

definition get :: "js \<Rightarrow> string \<Rightarrow> js" where
  "get v k = (case map_of (props v) k of None \<Rightarrow> JUndef | Some x \<Rightarrow> x)"

definition put :: "js \<Rightarrow> string \<Rightarrow> js \<Rightarrow> js" where
  "put v k x = JObj (AList.update k x (props v))"

primrec puts :: "js \<Rightarrow> (string \<times> js) list \<Rightarrow> js" where
  "puts v [] = v"
| "puts v (kx # kxs) = puts (put v (fst kx) (snd kx)) kxs"

definition del :: "js \<Rightarrow> string \<Rightarrow> js" where
  "del v k = JObj (AList.delete k (props v))"

definition keys :: "js \<Rightarrow> string list" where
  "keys v = map fst (props v)"

definition has_own :: "js \<Rightarrow> string \<Rightarrow> bool" where
  "has_own v k \<longleftrightarrow> k \<in> set (keys v)"

definition obj_wf :: "js \<Rightarrow> bool" where
  "obj_wf v \<longleftrightarrow> is_obj v \<and> distinct (keys v)"

lemma get_put [simp, js_simps]: "get (put v k x) k' = (if k' = k then x else get v k')"
  by (simp add: get_def put_def update_conv')

lemma get_del [simp, js_simps]: "get (del v k) k' = (if k' = k then JUndef else get v k')"
  by (simp add: get_def del_def delete_conv')

lemma get_JObj_Nil [simp]: "get (JObj []) k = JUndef"
  by (simp add: get_def)

lemma get_JObj_Cons [simp]: "get (JObj ((k, x) # kvs)) k' = (if k' = k then x else get (JObj kvs) k')"
  by (simp add: get_def)

lemma is_obj_put [simp]: "is_obj (put v k x)"
  by (simp add: put_def)

lemma is_obj_del [simp]: "is_obj (del v k)"
  by (simp add: del_def)

lemma is_obj_puts: "is_obj v \<Longrightarrow> is_obj (puts v kxs)"
  by (induction kxs arbitrary: v) auto

lemma keys_put: "keys (put v k x) = (if k \<in> set (keys v) then keys v else keys v @ [k])"
  by (simp add: keys_def put_def update_keys)

lemma put_commute: "k \<noteq> k' \<Longrightarrow> has_own v k' \<Longrightarrow> put (put v k x) k' y = put (put v k' y) k x"
proof -
  have "AList.update k' y (AList.update k x kvs) = AList.update k x (AList.update k' y kvs)"
    if "k \<noteq> k'" "k' \<in> fst ` set kvs" for kvs
    using that by (induction kvs) auto
  then show "k \<noteq> k' \<Longrightarrow> has_own v k' \<Longrightarrow> put (put v k x) k' y = put (put v k' y) k x"
    by (simp add: put_def has_own_def keys_def)
qed

lemma has_own_put [simp]: "has_own (put v k x) k' \<longleftrightarrow> k' = k \<or> has_own v k'"
  by (auto simp: has_own_def keys_put)

lemma has_own_del [simp]: "has_own (del v k) k' \<longleftrightarrow> k' \<noteq> k \<and> has_own v k'"
  by (auto simp: has_own_def keys_def del_def delete_keys)

lemma obj_wf_put: "obj_wf v \<Longrightarrow> obj_wf (put v k x)"
  by (auto simp: obj_wf_def keys_put)

lemma obj_wf_puts: "obj_wf v \<Longrightarrow> obj_wf (puts v kxs)"
  by (induction kxs arbitrary: v) (auto simp: obj_wf_put)

lemma get_not_own: "\<not> has_own v k \<Longrightarrow> get v k = JUndef"
  by (auto simp: has_own_def keys_def get_def map_of_eq_None_iff split: option.splits)
     (metis domI dom_map_of_conv_image_fst option.simps(3) image_set)

lemma get_own_eq: "map_of (props v) k = Some x \<Longrightarrow> get v k = x"
  by (simp add: get_def)

lemma update_same: "map_of kvs k = Some x \<Longrightarrow> AList.update k x kvs = kvs"
  by (induction kvs) auto

lemma put_same: "is_obj v \<Longrightarrow> has_own v k \<Longrightarrow> get v k = x \<Longrightarrow> put v k x = v"
  by (cases v) (auto simp: put_def get_def has_own_def keys_def intro!: update_same
      split: option.splits dest: map_of_eq_None_iff [THEN iffD1])

lemma get_puts: "get (puts v kxs) k = (case map_of (rev kxs) k of Some x \<Rightarrow> x | None \<Rightarrow> get v k)"
  by (induction kxs arbitrary: v) (auto simp: map_add_def split: option.split)

lemma has_own_puts: "has_own (puts v kxs) k \<longleftrightarrow> k \<in> fst ` set kxs \<or> has_own v k"
  by (induction kxs arbitrary: v) auto

lemma obj_wf_del: "obj_wf v \<Longrightarrow> obj_wf (del v k)"
  by (simp add: obj_wf_def keys_def del_def distinct_delete)

lemma map_of_rev_same: "distinct (map fst kxs) \<Longrightarrow> map_of (rev kxs) = map_of kxs"
  by (simp add: map_of_inject_set rev_map [symmetric])

section \<open>Strings\<close>

definition js_ws :: "char \<Rightarrow> bool" where
  "js_ws c \<longleftrightarrow> (of_char c :: nat) \<in> set [9, 10, 11, 12, 13, 32, 160]"

definition trim_str :: "string \<Rightarrow> string" where
  "trim_str s = rev (dropWhile js_ws (rev (dropWhile js_ws s)))"

definition lower_char :: "char \<Rightarrow> char" where
  "lower_char c =
     (let n = of_char c :: nat
      in if (65 \<le> n \<and> n \<le> 90) \<or> (192 \<le> n \<and> n \<le> 222 \<and> n \<noteq> 215) then char_of (n + 32) else c)"

definition lower :: "string \<Rightarrow> string" where
  "lower = map lower_char"

definition starts_with :: "string \<Rightarrow> string \<Rightarrow> bool" where
  "starts_with s p \<longleftrightarrow> take (length p) s = p"

definition ends_with :: "string \<Rightarrow> string \<Rightarrow> bool" where
  "ends_with s p \<longleftrightarrow> starts_with (rev s) (rev p)"

definition nul :: char where
  "nul = char_of (0 :: nat)"

lemma dropWhile_idem [simp]: "dropWhile P (dropWhile P xs) = dropWhile P xs"
  by (induction xs) auto

lemma dropWhile_rev_dropWhile:
  "dropWhile P (rev (dropWhile P (rev (dropWhile P xs)))) = rev (dropWhile P (rev (dropWhile P xs)))"
proof (cases "rev (dropWhile P (rev (dropWhile P xs)))")
  case Nil
  show ?thesis unfolding Nil by simp
next
  case (Cons a as)
  let ?ys = "dropWhile P xs"
  from Cons obtain zs where split: "?ys = (a # as) @ zs"
    by (metis append_take_drop_id dropWhile_eq_drop rev_append rev_rev_ident)
  then have "\<not> P a"
    by (metis append_Cons hd_dropWhile list.distinct(1) list.sel(1))
  with Cons show ?thesis by simp
qed

lemma trim_str_idem [simp, js_strings]: "trim_str (trim_str s) = trim_str s"
  by (simp add: trim_str_def dropWhile_rev_dropWhile)

lemma trim_str_Nil [simp, js_strings]: "trim_str [] = []"
  by (simp add: trim_str_def)

lemma char_of_nat_lower: "lower_char (lower_char c) = lower_char c"
  by (auto simp: lower_char_def Let_def)

lemma lower_idem [simp, js_strings]: "lower (lower s) = lower s"
  by (simp add: lower_def char_of_nat_lower)

text \<open>\<open>isNonEmptyString\<close> of the sources: a string with something besides white space.\<close>

definition non_blank :: "string \<Rightarrow> bool" where
  "non_blank s \<longleftrightarrow> trim_str s \<noteq> []"

lemma non_blank_not_Nil: "non_blank s \<Longrightarrow> s \<noteq> []"
  by (auto simp: non_blank_def)

lemma non_blank_trim [simp]: "non_blank (trim_str s) \<longleftrightarrow> non_blank s"
  by (simp add: non_blank_def)

section \<open>Numbers\<close>

definition rat_is_int :: "rat \<Rightarrow> bool" where
  "rat_is_int q \<longleftrightarrow> of_int \<lfloor>q\<rfloor> = q"

lemma rat_is_int_of_int [simp]: "rat_is_int (of_int n)"
  by (simp add: rat_is_int_def)

lemma rat_is_int_numeral [simp]: "rat_is_int 0" "rat_is_int 1" "rat_is_int (numeral n)"
  by (simp_all add: rat_is_int_def)

lemma rat_is_int_plus1 [simp]: "rat_is_int (q + 1) \<longleftrightarrow> rat_is_int q"
  by (simp add: rat_is_int_def)

fun finite_num :: "js \<Rightarrow> bool" where
  "finite_num (JNum _) = True"
| "finite_num _ = False"

fun the_num :: "js \<Rightarrow> rat" where
  "the_num (JNum n) = n"
| "the_num _ = 0"

section \<open>Maps and sets in insertion order\<close>

text \<open>
  \<open>new Map(entries)\<close>: a later entry replaces the value of an earlier one and keeps its
  position. \<open>map_of\<close> is \<open>Map.get\<close>, \<open>map fst\<close> its key order.
\<close>

definition js_map :: "('k \<times> 'v) list \<Rightarrow> ('k \<times> 'v) list" where
  "js_map ps = foldl (\<lambda>m p. AList.update (fst p) (snd p) m) [] ps"

definition uniq :: "'k list \<Rightarrow> 'k list" where
  "uniq ks = map fst (js_map (map (\<lambda>k. (k, ())) ks))"

lemma js_map_snoc: "js_map (ps @ [p]) = AList.update (fst p) (snd p) (js_map ps)"
  by (simp add: js_map_def)

lemma js_map_Nil [simp]: "js_map [] = []"
  by (simp add: js_map_def)

lemma map_of_js_map: "map_of (js_map ps) = map_of (rev ps)"
  by (induction ps rule: rev_induct) (auto simp: js_map_snoc update_conv' fun_eq_iff)

lemma distinct_js_map [simp]: "distinct (map fst (js_map ps))"
  by (induction ps rule: rev_induct) (auto simp: js_map_snoc distinct_update)

lemma set_keys_js_map [simp]: "fst ` set (js_map ps) = fst ` set ps"
  by (metis dom_map_of_conv_image_fst map_of_js_map set_rev)

lemma set_uniq [simp]: "set (uniq ks) = set ks"
  by (auto simp: uniq_def image_image)

lemma distinct_uniq [simp]: "distinct (uniq ks)"
  by (simp add: uniq_def)

lemma uniq_snoc: "uniq (xs @ [y]) = (if y \<in> set xs then uniq xs else uniq xs @ [y])"
  using set_uniq [of xs] by (simp add: uniq_def js_map_snoc update_keys)

lemma uniq_distinct: "distinct xs \<Longrightarrow> uniq xs = xs"
  by (induction xs rule: rev_induct) (auto simp: uniq_snoc, simp add: uniq_def)

lemma uniq_absorb: "distinct xs \<Longrightarrow> set ys \<subseteq> set xs \<Longrightarrow> uniq (xs @ ys) = xs"
proof (induction ys rule: rev_induct)
  case (snoc y ys)
  then show ?case using uniq_snoc [of "xs @ ys" y] by simp
qed (simp add: uniq_distinct)

lemma map_of_js_map_SomeD: "map_of (js_map ps) k = Some v \<Longrightarrow> (k, v) \<in> set ps"
  by (metis map_of_js_map map_of_SomeD set_rev)

lemma map_of_js_map_None: "map_of (js_map ps) k = None \<longleftrightarrow> k \<notin> fst ` set ps"
  by (metis dom_map_of_conv_image_fst domIff map_of_js_map set_rev)

lemma js_map_distinct_snoc: "fst p \<notin> fst ` set ps \<Longrightarrow> js_map (ps @ [p]) = js_map ps @ [p]"
proof -
  assume "fst p \<notin> fst ` set ps"
  then have "fst p \<notin> fst ` set (js_map ps)" by simp
  moreover have "AList.update k v m = m @ [(k, v)]" if "k \<notin> fst ` set m" for k v and m :: "('a \<times> 'b) list"
    using that by (induction m) auto
  ultimately show ?thesis by (simp add: js_map_snoc)
qed

lemma js_map_distinct: "distinct (map fst ps) \<Longrightarrow> js_map ps = ps"
  by (induction ps rule: rev_induct) (auto simp: js_map_distinct_snoc)

section \<open>Sorting\<close>

text \<open>\<open>Array.prototype.sort\<close> with a comparator: a stable insertion sort.\<close>

fun insert_by :: "('a \<Rightarrow> 'a \<Rightarrow> int) \<Rightarrow> 'a \<Rightarrow> 'a list \<Rightarrow> 'a list" where
  "insert_by cmp x [] = [x]"
| "insert_by cmp x (y # ys) = (if cmp x y \<le> 0 then x # y # ys else y # insert_by cmp x ys)"

primrec sort_by :: "('a \<Rightarrow> 'a \<Rightarrow> int) \<Rightarrow> 'a list \<Rightarrow> 'a list" where
  "sort_by cmp [] = []"
| "sort_by cmp (x # xs) = insert_by cmp x (sort_by cmp xs)"

end
