(* ===== verification/Js_Text.thy ===== *)
theory Js_Text
  imports Js_Values
begin

text \<open>
  The parts of the language's library that turn values into text and text into time:
  \<open>String(n)\<close>, \<open>JSON.stringify\<close>, \<open>Date.parse\<close> and \<open>Date.prototype.toISOString\<close>, with the
  round trip between the last two that the retry schedule of the sync cycle relies on.

  \<open>Date.parse\<close> is computed for the date-time string format of the language standard with an
  explicit time zone and for its date-only forms. Every other string is implementation
  defined or depends on the local time zone; the host's answer for it is the field
  \<open>parse_other\<close> of the record \<open>host\<close>, an argument of every definition that parses a date.
  \<open>locale_compare\<close> is the host's collation and \<open>url_pathname\<close> the URL class of the web
  platform; \<open>date_now\<close> is the clock. The time zone of the host is \<open>local_time\<close> (the instant of a
  local wall-clock reading: year, month from 1, day, hour, minute, second, millisecond) and
  \<open>local_day_end\<close> (the last millisecond of the local day of an instant); \<open>parse_iso\<close> and
  \<open>format_seconds\<close> are \<open>parseISO\<close> and \<open>format\<close> (with the pattern the sources use) of the date
  library.
\<close>

record host =
  parse_other :: "string \<Rightarrow> int option"
  locale_compare :: "string \<Rightarrow> string \<Rightarrow> int"
  url_pathname :: "string \<Rightarrow> string option"
  date_now :: int
  local_time :: "int \<Rightarrow> int \<Rightarrow> int \<Rightarrow> int \<Rightarrow> int \<Rightarrow> int \<Rightarrow> int \<Rightarrow> int option"
  local_day_end :: "int \<Rightarrow> int"
  parse_iso :: "string \<Rightarrow> int option"
  format_seconds :: "int \<Rightarrow> string"

section \<open>Numbers as text\<close>

definition digit_char :: "nat \<Rightarrow> char" where
  "digit_char n = char_of (48 + n)"

fun nat_str :: "nat \<Rightarrow> string" where
  "nat_str n = (if n < 10 then [digit_char n] else nat_str (n div 10) @ [digit_char (n mod 10)])"

declare nat_str.simps [simp del]

definition int_str :: "int \<Rightarrow> string" where
  "int_str i = (if i < 0 then ''-'' @ nat_str (nat (- i)) else nat_str (nat i))"

text \<open>The decimal digits of a fraction in \<open>[0, 1)\<close>, at most \<open>n\<close> of them.\<close>

primrec frac_digits :: "nat \<Rightarrow> rat \<Rightarrow> string" where
  "frac_digits 0 q = []"
| "frac_digits (Suc n) q =
     (if q = 0 then [] else digit_char (nat \<lfloor>q * 10\<rfloor>) # frac_digits n (q * 10 - of_int \<lfloor>q * 10\<rfloor>))"

text \<open>
  \<open>String(n)\<close> for a finite number: the decimal notation, with no exponent. A model number
  stands for the double that prints as that decimal (17 significant digits are enough).
\<close>

definition num_str :: "rat \<Rightarrow> string" where
  "num_str q =
     (if rat_is_int q then int_str \<lfloor>q\<rfloor>
      else (if q < 0 then ''-'' else []) @ nat_str (nat \<lfloor>\<bar>q\<bar>\<rfloor>) @ ''.'' @ frac_digits 17 (\<bar>q\<bar> - of_int \<lfloor>\<bar>q\<bar>\<rfloor>))"

section \<open>JSON.stringify\<close>

definition hex_digit :: "nat \<Rightarrow> char" where
  "hex_digit n = (if n < 10 then char_of (48 + n) else char_of (87 + n))"

definition json_char :: "char \<Rightarrow> string" where
  "json_char c =
     (let n = of_char c :: nat
      in if n = 34 then [CHR 0x5C, CHR 0x22]
         else if n = 92 then [CHR 0x5C, CHR 0x5C]
         else if n = 8 then [CHR 0x5C, CHR ''b'']
         else if n = 9 then [CHR 0x5C, CHR ''t'']
         else if n = 10 then [CHR 0x5C, CHR ''n'']
         else if n = 12 then [CHR 0x5C, CHR ''f'']
         else if n = 13 then [CHR 0x5C, CHR ''r'']
         else if n < 32 then [CHR 0x5C, CHR ''u'', CHR ''0'', CHR ''0'', hex_digit (n div 16), hex_digit (n mod 16)]
         else [c])"

definition json_quote :: "string \<Rightarrow> string" where
  "json_quote s = [CHR 0x22] @ concat (map json_char s) @ [CHR 0x22]"

fun join :: "string \<Rightarrow> string list \<Rightarrow> string" where
  "join sep [] = []"
| "join sep [s] = s"
| "join sep (s # t # ss) = s @ sep @ join sep (t # ss)"

text \<open>\<open>None\<close> is the \<open>undefined\<close> that \<open>JSON.stringify(undefined)\<close> returns.\<close>

fun json :: "js \<Rightarrow> string option" where
  "json JUndef = None"
| "json JNull = Some ''null''"
| "json (JBool b) = Some (if b then ''true'' else ''false'')"
| "json (JNum q) = Some (num_str q)"
| "json JNaN = Some ''null''"
| "json (JInf _) = Some ''null''"
| "json (JStr s) = Some (json_quote s)"
| "json (JArr xs) =
     Some (''['' @ join '','' (map (\<lambda>x. case json x of None \<Rightarrow> ''null'' | Some s \<Rightarrow> s) xs) @ '']'')"
| "json (JObj kvs) =
     Some (''{'' @ join '','' (concat (map (\<lambda>kv. case json (snd kv) of
         None \<Rightarrow> [] | Some s \<Rightarrow> [json_quote (fst kv) @ '':'' @ s]) kvs)) @ ''}'')"

lemma json_eq_None [simp]: "json v = None \<longleftrightarrow> v = JUndef"
  by (cases v) auto

section \<open>Calendar arithmetic\<close>

text \<open>\<open>DayFromYear\<close> of the language standard: the day number of January 1st, day 0 being 1970-01-01.\<close>

definition day_from_year :: "int \<Rightarrow> int" where
  "day_from_year y =
     365 * (y - 1970) + (y - 1969) div 4 - (y - 1901) div 100 + (y - 1601) div 400"

definition leap_year :: "int \<Rightarrow> bool" where
  "leap_year y \<longleftrightarrow> y mod 4 = 0 \<and> (y mod 100 \<noteq> 0 \<or> y mod 400 = 0)"

definition days_in_month :: "int \<Rightarrow> int \<Rightarrow> int" where
  "days_in_month y m =
     (if m = 2 then (if leap_year y then 29 else 28)
      else if m = 4 \<or> m = 6 \<or> m = 9 \<or> m = 11 then 30 else 31)"

definition month_start :: "int \<Rightarrow> int \<Rightarrow> int" where
  "month_start y m =
     (let l = (if leap_year y then 1 else 0)
      in if m \<le> 1 then 0 else if m = 2 then 31 else if m = 3 then 59 + l else if m = 4 then 90 + l
         else if m = 5 then 120 + l else if m = 6 then 151 + l else if m = 7 then 181 + l
         else if m = 8 then 212 + l else if m = 9 then 243 + l else if m = 10 then 273 + l
         else if m = 11 then 304 + l else if m = 12 then 334 + l else 365 + l)"

definition day_number :: "int \<Rightarrow> int \<Rightarrow> int \<Rightarrow> int" where
  "day_number y m d = day_from_year y + month_start y m + d - 1"

text \<open>\<open>YearFromTime\<close>: the largest year that starts no later than the day.\<close>

definition year_of_day :: "int \<Rightarrow> int" where
  "year_of_day n =
     (let y = 1970 + (400 * n) div 146097
      in if n < day_from_year y then y - 1 else if day_from_year (y + 1) \<le> n then y + 1 else y)"

definition month_of_day :: "int \<Rightarrow> int \<Rightarrow> int" where
  "month_of_day y k =
     (if k < month_start y 2 then 1 else if k < month_start y 3 then 2 else if k < month_start y 4 then 3
      else if k < month_start y 5 then 4 else if k < month_start y 6 then 5 else if k < month_start y 7 then 6
      else if k < month_start y 8 then 7 else if k < month_start y 9 then 8 else if k < month_start y 10 then 9
      else if k < month_start y 11 then 10 else if k < month_start y 12 then 11 else 12)"

definition civil_of_day :: "int \<Rightarrow> int \<times> int \<times> int" where
  "civil_of_day n =
     (let y = year_of_day n; k = n - day_from_year y; m = month_of_day y k
      in (y, m, k - month_start y m + 1))"

section \<open>Date.parse\<close>

definition digit_val :: "char \<Rightarrow> nat option" where
  "digit_val c = (let n = of_char c :: nat in if 48 \<le> n \<and> n \<le> 57 then Some (n - 48) else None)"

fun digits_val :: "nat \<Rightarrow> string \<Rightarrow> nat option" where
  "digits_val acc [] = Some acc"
| "digits_val acc (c # cs) = (case digit_val c of None \<Rightarrow> None | Some d \<Rightarrow> digits_val (10 * acc + d) cs)"

text \<open>Exactly \<open>n\<close> digits at the front of the string: their value and the rest.\<close>

definition scan_num :: "nat \<Rightarrow> string \<Rightarrow> (int \<times> string) option" where
  "scan_num n s =
     (if length s < n then None
      else map_option (\<lambda>v. (int v, drop n s)) (digits_val 0 (take n s)))"

definition scan_char :: "char \<Rightarrow> string \<Rightarrow> string option" where
  "scan_char c s = (case s of [] \<Rightarrow> None | x # xs \<Rightarrow> if x = c then Some xs else None)"

definition scan_sep_num :: "char \<Rightarrow> nat \<Rightarrow> string \<Rightarrow> (int \<times> string) option" where
  "scan_sep_num c n s = Option.bind (scan_char c s) (scan_num n)"

definition scan_year :: "string \<Rightarrow> (int \<times> string) option" where
  "scan_year s =
     (case s of
        [] \<Rightarrow> None
      | c # cs \<Rightarrow>
          if c = CHR ''+'' then scan_num 6 cs
          else if c = CHR ''-'' then
            (case scan_num 6 cs of Some (y, r) \<Rightarrow> if y = 0 then None else Some (- y, r) | None \<Rightarrow> None)
          else scan_num 4 s)"

text \<open>Optional \<open>-MM\<close> and \<open>-DD\<close>; a missing part is 1.\<close>

definition scan_opt :: "char \<Rightarrow> nat \<Rightarrow> int \<Rightarrow> string \<Rightarrow> (bool \<times> int \<times> string) option" where
  "scan_opt c n dflt s =
     (case scan_char c s of
        None \<Rightarrow> Some (False, dflt, s)
      | Some r \<Rightarrow> map_option (\<lambda>(v, r'). (True, v, r')) (scan_num n r))"

text \<open>The zone: \<open>Z\<close>, or a signed offset in minutes.\<close>

definition scan_zone :: "string \<Rightarrow> int option" where
  "scan_zone s =
     (case s of
        [] \<Rightarrow> None
      | c # cs \<Rightarrow>
          if c = CHR ''Z'' then (if cs = [] then Some 0 else None)
          else if c = CHR ''+'' \<or> c = CHR ''-'' then
            (case scan_num 2 cs of
               None \<Rightarrow> None
             | Some (hh, r) \<Rightarrow>
                 (case scan_sep_num (CHR '':'') 2 r of
                    Some (mm, []) \<Rightarrow>
                      if hh \<le> 23 \<and> mm \<le> 59
                      then Some ((if c = CHR ''-'' then - 1 else 1) * (hh * 60 + mm)) else None
                  | _ \<Rightarrow> None))
          else None)"

text \<open>\<open>HH:mm[:ss[.sss]]\<close> and the zone, as milliseconds after midnight UTC.\<close>

definition scan_time :: "string \<Rightarrow> int option" where
  "scan_time s =
     (case scan_num 2 s of None \<Rightarrow> None | Some (hh, r1) \<Rightarrow>
      (case scan_sep_num (CHR '':'') 2 r1 of None \<Rightarrow> None | Some (mi, r2) \<Rightarrow>
       (case scan_opt (CHR '':'') 2 0 r2 of None \<Rightarrow> None | Some (has_sec, sec, r3) \<Rightarrow>
        (case (if has_sec then scan_opt (CHR ''.'') 3 0 r3 else Some (False, 0, r3)) of
           None \<Rightarrow> None
         | Some (_, ms, r4) \<Rightarrow>
            (case scan_zone r4 of None \<Rightarrow> None | Some off \<Rightarrow>
              if mi \<le> 59 \<and> sec \<le> 59 \<and> (hh \<le> 23 \<or> (hh = 24 \<and> mi = 0 \<and> sec = 0 \<and> ms = 0))
              then Some (hh * 3600000 + mi * 60000 + sec * 1000 + ms - off * 60000) else None)))))"

definition max_time :: int where
  "max_time = 8640000000000000"

definition iso_ms :: "string \<Rightarrow> int option" where
  "iso_ms s =
     (case scan_year s of None \<Rightarrow> None | Some (y, r1) \<Rightarrow>
      (case scan_opt (CHR ''-'') 2 1 r1 of None \<Rightarrow> None | Some (has_m, m, r2) \<Rightarrow>
       (case (if has_m then scan_opt (CHR ''-'') 2 1 r2 else Some (False, 1, r2)) of
          None \<Rightarrow> None
        | Some (has_d, d, r3) \<Rightarrow>
           (if m < 1 \<or> 12 < m \<or> d < 1 \<or> days_in_month y m < d then None
            else
              (case (if r3 = [] then Some 0 else Option.bind (scan_char (CHR ''T'') r3) scan_time) of
                 None \<Rightarrow> None
               | Some tod \<Rightarrow>
                  (let t = day_number y m d * 86400000 + tod
                   in if - max_time \<le> t \<and> t \<le> max_time then Some t else None))))))"

definition date_parse :: "host \<Rightarrow> string \<Rightarrow> int option" where
  "date_parse h s = (case iso_ms s of Some t \<Rightarrow> Some t | None \<Rightarrow> parse_other h s)"

text \<open>\<open>new Date(v).getTime()\<close>: \<open>None\<close> is \<open>NaN\<close>.\<close>

fun date_time :: "host \<Rightarrow> js \<Rightarrow> int option" where
  "date_time h (JStr s) = date_parse h s"
| "date_time h (JNum n) = (if of_int (- max_time) \<le> n \<and> n \<le> of_int max_time
      then Some (if 0 \<le> n then \<lfloor>n\<rfloor> else \<lceil>n\<rceil>) else None)"
| "date_time h JNull = Some 0"
| "date_time h (JBool b) = Some (if b then 1 else 0)"
| "date_time h _ = None"

text \<open>\<open>Date.parse(v)\<close> under a \<open>typeof v === 'string'\<close> guard.\<close>

fun parse_js :: "host \<Rightarrow> js \<Rightarrow> int option" where
  "parse_js h (JStr s) = date_parse h s"
| "parse_js h _ = None"

section \<open>toISOString\<close>

definition pad_num :: "nat \<Rightarrow> int \<Rightarrow> string" where
  "pad_num w n = (let s = nat_str (nat n) in replicate (w - length s) (CHR ''0'') @ s)"

definition year_str :: "int \<Rightarrow> string" where
  "year_str y =
     (if 0 \<le> y \<and> y \<le> 9999 then pad_num 4 y
      else (if y < 0 then ''-'' else ''+'') @ pad_num 6 \<bar>y\<bar>)"

definition iso_string :: "int \<Rightarrow> string" where
  "iso_string t =
     (let (y, m, d) = civil_of_day (t div 86400000); r = t mod 86400000
      in year_str y @ ''-'' @ pad_num 2 m @ ''-'' @ pad_num 2 d @ ''T'' @
         pad_num 2 (r div 3600000) @ '':'' @ pad_num 2 (r div 60000 mod 60) @ '':'' @
         pad_num 2 (r div 1000 mod 60) @ ''.'' @ pad_num 3 (r mod 1000) @ ''Z'')"

text \<open>
  A concrete host for closed examples: its clock stands at the epoch, its zone is UTC, and it
  parses no string beyond the standard format.
\<close>

definition utc_time :: "int \<Rightarrow> int \<Rightarrow> int \<Rightarrow> int \<Rightarrow> int \<Rightarrow> int \<Rightarrow> int \<Rightarrow> int option" where
  "utc_time y m d hh mi sec ms = Some (day_number y m d * 86400000 + hh * 3600000 + mi * 60000 + sec * 1000 + ms)"

definition host0 :: host where
  "host0 = \<lparr>parse_other = (\<lambda>_. None), locale_compare = (\<lambda>a b. if a < b then - 1 else if a = b then 0 else 1),
     url_pathname = (\<lambda>_. None), date_now = 0, local_time = utc_time,
     local_day_end = (\<lambda>t. t div 86400000 * 86400000 + 86399999), parse_iso = iso_ms,
     format_seconds = (\<lambda>t. take 19 (iso_string t))\<rparr>"

section \<open>The round trip of times and their texts\<close>

lemma div_bounds: "0 < (k::int) \<Longrightarrow> k * (x div k) \<le> x" "0 < (k::int) \<Longrightarrow> x < k * (x div k) + k"
  using mult_div_mod_eq [of k x] pos_mod_sign [of k x] pos_mod_bound [of k x] by linarith+

lemma div_step: "1 < (k::int) \<Longrightarrow> (x + 1) div k = x div k + (if (x + 1) mod k = 0 then 1 else 0)"
proof -
  assume k: "1 < k"
  let ?q = "(x + 1) div k" and ?r = "(x + 1) mod k"
  have e: "x + 1 = k * ?q + ?r" by simp
  have r: "0 \<le> ?r" "?r < k" using k by simp_all
  show ?thesis
  proof (cases "?r = 0")
    case True
    then have "x = k * (?q - 1) + (k - 1)" using e by (simp add: algebra_simps)
    then have "x div k = ?q - 1" using k by (intro int_div_pos_eq [of x k "?q - 1" "k - 1"]) auto
    with True show ?thesis by simp
  next
    case False
    then have "x = k * ?q + (?r - 1)" using e by linarith
    then have "x div k = ?q" using k r False by (intro int_div_pos_eq [of x k ?q "?r - 1"]) linarith+
    with False show ?thesis by simp
  qed
qed

lemma day_from_year_Suc: "day_from_year (y + 1) = day_from_year y + (if leap_year y then 366 else 365)"
proof -
  have m: "(y - 1969 + 1) mod 4 = y mod 4" "(y - 1901 + 1) mod 100 = y mod 100" "(y - 1601 + 1) mod 400 = y mod 400"
    by (simp_all add: mod_diff_eq [symmetric] flip: mod_diff_left_eq)
  have d: "y mod 400 = 0 \<Longrightarrow> y mod 100 = 0" "y mod 100 = 0 \<Longrightarrow> y mod 4 = 0"
    using dvd_trans [of 100 400 y] dvd_trans [of 4 100 y] by (simp_all add: mod_eq_0_iff_dvd)
  have s: "(y - 1969 + 1) div 4 = (y - 1969) div 4 + (if y mod 4 = 0 then 1 else 0)"
    "(y - 1901 + 1) div 100 = (y - 1901) div 100 + (if y mod 100 = 0 then 1 else 0)"
    "(y - 1601 + 1) div 400 = (y - 1601) div 400 + (if y mod 400 = 0 then 1 else 0)"
    by (simp_all only: div_step m)
  have e: "y + 1 - c = y - c + 1" for c by simp
  define p q r where "p = (y - 1969) div 4" "q = (y - 1901) div 100" "r = (y - 1601) div 400"
  define A B C where "A = (y mod 4 = 0)" "B = (y mod 100 = 0)" "C = (y mod 400 = 0)"
  have "C \<longrightarrow> B" "B \<longrightarrow> A" using d by (simp_all add: A_B_C_def)
  then have "365 * (y - 1970 + 1) + (p + (if A then 1 else 0)) - (q + (if B then 1 else 0)) + (r + (if C then 1 else 0))
      = 365 * (y - 1970) + p - q + r + (if A \<and> (\<not> B \<or> C) then 366 else 365)"
    by (cases A; cases B; cases C) simp_all
  then show ?thesis
    by (simp only: day_from_year_def e s leap_year_def p_q_r_def A_B_C_def)
qed

lemma day_from_year_bounds:
  "400 * day_from_year y \<le> 146097 * (y - 1970) + 600"
  "146097 * (y - 1970) - 600 \<le> 400 * day_from_year y"
  using div_bounds [of 4 "y - 1969"] div_bounds [of 100 "y - 1901"] div_bounds [of 400 "y - 1601"]
  by (simp_all add: day_from_year_def)

lemma year_of_day_bounds:
  "day_from_year (year_of_day n) \<le> n" "n < day_from_year (year_of_day n + 1)"
proof -
  define y where "y = 1970 + (400 * n) div 146097"
  have l: "146097 * (y - 1970) \<le> 400 * n" and u: "400 * n < 146097 * (y - 1970) + 146097"
    using div_bounds [of 146097 "400 * n"] by (simp_all add: y_def)
  have p: "day_from_year (y - 1) \<le> n" using day_from_year_bounds(1) [of "y - 1"] l by (simp add: algebra_simps)
  have q: "n < day_from_year (y + 1 + 1)" using day_from_year_bounds(2) [of "y + 1 + 1"] u by (simp add: algebra_simps)
  show "day_from_year (year_of_day n) \<le> n" "n < day_from_year (year_of_day n + 1)"
    unfolding year_of_day_def Let_def y_def [symmetric] using p q by (auto simp: algebra_simps)
qed

lemma month_of_day_bounds:
  assumes "0 \<le> k" "k < (if leap_year y then 366 else 365)"
  shows "1 \<le> month_of_day y k" "month_of_day y k \<le> 12"
    "month_start y (month_of_day y k) \<le> k"
    "k < month_start y (month_of_day y k) + days_in_month y (month_of_day y k)"
  using assms
  by (cases "leap_year y"; simp add: month_of_day_def month_start_def days_in_month_def)+

lemma civil_of_day:
  assumes "civil_of_day n = (y, m, d)"
  shows "1 \<le> m" "m \<le> 12" "1 \<le> d" "d \<le> days_in_month y m" "day_number y m d = n" "y = year_of_day n"
proof -
  let ?k = "n - day_from_year (year_of_day n)"
  have k: "0 \<le> ?k" "?k < (if leap_year (year_of_day n) then 366 else 365)"
    using year_of_day_bounds [of n] by (simp_all add: day_from_year_Suc)
  from assms have e: "y = year_of_day n" "m = month_of_day y ?k" "d = ?k - month_start y m + 1"
    by (auto simp: civil_of_day_def Let_def)
  from month_of_day_bounds [OF k] e
  show "1 \<le> m" "m \<le> 12" "1 \<le> d" "d \<le> days_in_month y m" "day_number y m d = n" "y = year_of_day n"
    by (auto simp: day_number_def)
qed

lemma digit_val_char [simp]: "n < 10 \<Longrightarrow> digit_val (digit_char n) = Some n"
  by (simp add: digit_val_def digit_char_def)

lemma digits_val_append: "digits_val a (xs @ ys) = Option.bind (digits_val a xs) (\<lambda>b. digits_val b ys)"
  by (induction xs arbitrary: a) (auto split: option.splits)

lemma digits_val_nat_str: "digits_val 0 (nat_str n) = Some n"
proof (induction n rule: nat_str.induct)
  case (1 n)
  show ?case
  proof (cases "n < 10")
    case True
    then show ?thesis by (subst nat_str.simps) simp
  next
    case False
    with 1 show ?thesis by (subst nat_str.simps) (simp add: digits_val_append)
  qed
qed

lemma digits_val_zeros: "digits_val 0 (replicate k (CHR ''0'') @ s) = digits_val 0 s"
  by (induction k) (simp_all add: digit_val_def)

lemma length_nat_str: "0 < w \<Longrightarrow> n < 10 ^ w \<Longrightarrow> length (nat_str n) \<le> w"
proof (induction w arbitrary: n)
  case 0
  then show ?case by simp
next
  case (Suc w)
  show ?case
  proof (cases "n < 10")
    case True
    then show ?thesis by (subst nat_str.simps) simp
  next
    case False
    then have w: "0 < w" using Suc.prems by (cases w) auto
    have "n div 10 < 10 ^ w" using Suc.prems by (simp add: less_mult_imp_div_less mult.commute)
    from Suc.IH [OF w this] False show ?thesis by (subst nat_str.simps) simp
  qed
qed

lemma scan_pad_num:
  assumes "0 < w" "0 \<le> n" "n < 10 ^ w"
  shows "scan_num w (pad_num w n @ r) = Some (n, r)"
proof -
  have "nat n < 10 ^ w" using assms by (simp add: nat_less_iff)
  then have len: "length (pad_num w n) = w"
    using length_nat_str [of w "nat n"] assms by (simp add: pad_num_def Let_def)
  have "digits_val 0 (pad_num w n) = Some (nat n)"
    by (simp add: pad_num_def Let_def digits_val_zeros digits_val_nat_str)
  with len assms show ?thesis by (simp add: scan_num_def)
qed

lemma scan_pad_num_2 [simp]:
  "0 \<le> n \<Longrightarrow> n < 100 \<Longrightarrow> scan_num 2 (pad_num 2 n @ r) = Some (n, r)"
  by (rule scan_pad_num) simp_all

lemma scan_pad_num_3 [simp]:
  "0 \<le> n \<Longrightarrow> n < 1000 \<Longrightarrow> scan_num 3 (pad_num 3 n @ r) = Some (n, r)"
  by (rule scan_pad_num) simp_all

lemma digit_char_0: "digit_char 0 = CHR ''0''"
  by code_simp

lemma pad_num_head: "\<exists>k cs. k < 10 \<and> pad_num w n @ r = digit_char k # cs"
proof -
  have nat_head: "\<exists>k cs. k < 10 \<and> nat_str m = digit_char k # cs" for m
    by (induction m rule: nat_str.induct) (subst nat_str.simps, fastforce)
  show ?thesis
  proof (cases "w - length (nat_str (nat n))")
    case 0
    with nat_head [of "nat n"] show ?thesis by (auto simp: pad_num_def Let_def)
  next
    case (Suc j)
    then have "pad_num w n @ r = digit_char 0 # (replicate j (CHR ''0'') @ nat_str (nat n) @ r)"
      by (simp add: pad_num_def Let_def digit_char_0)
    then show ?thesis by (metis zero_less_numeral)
  qed
qed

lemma digit_char_neq: "k < 10 \<Longrightarrow> digit_char k \<noteq> CHR ''+''" "k < 10 \<Longrightarrow> digit_char k \<noteq> CHR ''-''"
proof -
  have of: "k < 10 \<Longrightarrow> of_char (digit_char k) = 48 + k" for k :: nat
    by (simp add: digit_char_def)
  show "k < 10 \<Longrightarrow> digit_char k \<noteq> CHR ''+''" "k < 10 \<Longrightarrow> digit_char k \<noteq> CHR ''-''"
    by (auto dest!: of)
qed

lemma scan_year_str:
  assumes "0 \<le> y" "y \<le> 9999"
  shows "scan_year (year_str y @ r) = Some (y, r)"
proof -
  obtain k cs where k: "k < 10" "pad_num 4 y @ r = digit_char k # cs"
    using pad_num_head by blast
  have "scan_num 4 (pad_num 4 y @ r) = Some (y, r)" using assms by (intro scan_pad_num) auto
  with k digit_char_neq [OF k(1)] assms show ?thesis
    by (simp add: scan_year_def year_str_def)
qed

lemma scan_opt_pad: "0 \<le> n \<Longrightarrow> n < 100 \<Longrightarrow> scan_opt c 2 d (c # pad_num 2 n @ r) = Some (True, n, r)"
  by (simp add: scan_opt_def scan_char_def)

lemma scan_time_pad:
  assumes "0 \<le> hh" "hh \<le> 23" "0 \<le> mi" "mi \<le> 59" "0 \<le> sec" "sec \<le> 59" "0 \<le> ms" "ms \<le> 999"
  shows "scan_time (pad_num 2 hh @ CHR '':'' # pad_num 2 mi @ CHR '':'' # pad_num 2 sec @ CHR ''.'' # pad_num 3 ms @ ''Z'')
    = Some (hh * 3600000 + mi * 60000 + sec * 1000 + ms)"
  using assms by (simp add: scan_time_def scan_sep_num_def scan_char_def scan_opt_pad scan_opt_def scan_zone_def)

lemma iso_ms_pad:
  assumes "0 \<le> y" "y \<le> 9999" "1 \<le> m" "m \<le> 12" "1 \<le> d" "d \<le> days_in_month y m" "d \<le> 31"
    and "scan_time r = Some tod" "t = day_number y m d * 86400000 + tod" "- max_time \<le> t" "t \<le> max_time"
  shows "iso_ms (year_str y @ CHR ''-'' # pad_num 2 m @ CHR ''-'' # pad_num 2 d @ CHR ''T'' # r) = Some t"
  using assms by (simp add: iso_ms_def scan_year_str scan_opt_pad scan_char_def)

lemma scan_time_iso:
  assumes "0 \<le> r" "r < 86400000"
  shows "scan_time (pad_num 2 (r div 3600000) @ CHR '':'' # pad_num 2 (r div 60000 mod 60) @ CHR '':'' #
     pad_num 2 (r div 1000 mod 60) @ CHR ''.'' # pad_num 3 (r mod 1000) @ ''Z'') = Some r"
proof -
  have b: "0 \<le> r div 3600000" "r div 3600000 \<le> 23" using assms div_bounds(1) [of 3600000 r] by (simp_all add: pos_imp_zdiv_nonneg_iff)
  have m: "r div 60000 mod 60 \<le> 59" "r div 1000 mod 60 \<le> 59"
    using pos_mod_bound [of 60 "r div 60000"] pos_mod_bound [of 60 "r div 1000"] by simp_all
  have e: "r div 3600000 * 3600000 + r div 60000 mod 60 * 60000 + r div 1000 mod 60 * 1000 + r mod 1000 = r"
  proof -
    define a b c where "a = r div 1000" "b = a div 60" "c = b div 60"
    have c: "r div 60000 = b" "r div 3600000 = c"
      using zdiv_zmult2_eq [of 60 r 1000] zdiv_zmult2_eq [of 60 a 60] zdiv_zmult2_eq [of 3600 r 1000]
      by (simp_all add: a_b_c_def)
    have "r = 1000 * a + r mod 1000" "a = 60 * b + a mod 60" "b = 60 * c + b mod 60"
      by (simp_all add: a_b_c_def)
    then show ?thesis unfolding c a_b_c_def(1) [symmetric] by (simp add: algebra_simps)
  qed
  have n: "0 \<le> r div 60000 mod 60" "0 \<le> r div 1000 mod 60" "0 \<le> r mod 1000" "r mod 1000 \<le> 999"
    using pos_mod_bound [of 1000 r] by simp_all
  show ?thesis using scan_time_pad [OF b(1) b(2) n(1) m(1) n(2) m(2) n(3) n(4)] unfolding e .
qed

text \<open>The round trip between \<open>toISOString\<close> and \<open>Date.parse\<close>, for four-digit years.\<close>

lemma date_parse_iso_string:
  assumes "0 \<le> year_of_day (t div 86400000)" "year_of_day (t div 86400000) \<le> 9999"
    and "- max_time \<le> t" "t \<le> max_time"
  shows "date_parse h (iso_string t) = Some t"
proof -
  obtain y m d where c: "civil_of_day (t div 86400000) = (y, m, d)" by (cases "civil_of_day (t div 86400000)") auto
  note civ = civil_of_day [OF c]
  have d31: "d \<le> 31" using civ(4) by (auto simp: days_in_month_def split: if_splits)
  let ?r = "t mod 86400000"
  have tod: "0 \<le> ?r" "?r < 86400000" by simp_all
  have t: "t = day_number y m d * 86400000 + ?r" using civ(5) by simp
  have "iso_ms (iso_string t) = Some t"
    using iso_ms_pad [OF _ _ civ(1-4) d31 scan_time_iso [OF tod] t assms(3,4)] assms(1,2) civ(6)
    by (simp add: iso_string_def c Let_def)
  then show ?thesis by (simp add: date_parse_def)
qed

end
