(* ===== verification/App_Data.thy ===== *)
theory App_Data
  imports Js_Text
begin

text \<open>
  The document the sync core exchanges (\<open>AppData\<close> of \<^verbatim>\<open>packages/core/src/types.ts\<close>): five
  collections of entities and the settings object. The collections are arrays once
  \<open>normalizeAppData\<close> has run, so they are lists here; \<open>people\<close>, optional in the type, is the
  empty list when absent.
\<close>

record AppData =
  tasks :: "entity list"
  projects :: "entity list"
  sections :: "entity list"
  areas :: "entity list"
  people :: "entity list"
  settings :: js

definition deleted :: "entity \<Rightarrow> bool" where
  "deleted e \<longleftrightarrow> truthy (get e ''deletedAt'')"

definition ids :: "entity list \<Rightarrow> js list" where
  "ids xs = map (\<lambda>e. get e ''id'') xs"

lemma ids_simps [simp]: "ids [] = []" "ids (x # xs) = get x ''id'' # ids xs" "ids (xs @ ys) = ids xs @ ids ys"
  by (simp_all add: ids_def)

lemma set_ids: "set (ids xs) = (\<lambda>e. get e ''id'') ` set xs"
  by (simp add: ids_def)

lemma ids_map: "(\<And>x. x \<in> set xs \<Longrightarrow> get (f x) ''id'' = get x ''id'') \<Longrightarrow> ids (map f xs) = ids xs"
  by (simp add: ids_def)

end
