(* ===== verification/Sync_Signatures.thy ===== *)
theory Sync_Signatures
  imports App_Data "HOL-Library.Word"
begin

unbundle bit_operations_syntax

text \<open>
  Comparable signatures (\<^verbatim>\<open>packages/core/src/sync-signatures.ts\<close>): the canonical text two
  copies of an entity are compared by, and the deterministic tie-break on it. The identity
  keyed caches of the source return what they would compute, so they are not part of the
  model.
\<close>

section \<open>Project options\<close>

definition normalizeProjectSequentialScope :: "js \<Rightarrow> js" where
  "normalizeProjectSequentialScope v = (if v = JStr ''section'' \<or> v = JStr ''project'' then v else JUndef)"

definition PROJECT_TASK_SORT_BY_VALUES :: "string list" where
  "PROJECT_TASK_SORT_BY_VALUES =
     [''due'', ''start'', ''review'', ''title'', ''timeEstimate'', ''created'', ''created-desc'', ''completed'']"

definition normalizeProjectTaskSortBy :: "js \<Rightarrow> js" where
  "normalizeProjectTaskSortBy v = (case v of JStr s \<Rightarrow> if s \<in> set PROJECT_TASK_SORT_BY_VALUES then v else JUndef | _ \<Rightarrow> JUndef)"

section \<open>Content comparison views\<close>

definition CONTENT_DIFF_IGNORED_KEYS :: "string list" where
  "CONTENT_DIFF_IGNORED_KEYS =
     [''rev'', ''revBy'', ''updatedAt'', ''createdAt'', ''localStatus'', ''purgedAt'', ''order'', ''orderNum'',
      ''boardOrder'', ''focusOrder'']"

definition SIGNATURE_OPAQUE_KEYS :: "string list" where
  "SIGNATURE_OPAQUE_KEYS =
     [''statusBeforeProjectArchive'', ''completedAtBeforeProjectArchive'', ''isFocusedTodayBeforeProjectArchive'',
      ''deletedAtBeforeProjectArchive'', ''projectArchivedAt'']"

definition normalizeOptionalArrayForComparison :: "js \<Rightarrow> js" where
  "normalizeOptionalArrayForComparison v = (if elems v \<noteq> [] then v else JUndef)"

definition canonicalizeStringMapForComparison :: "js \<Rightarrow> js" where
  "canonicalizeStringMapForComparison v =
     (let entries = sort_key fst (filter (\<lambda>kv. is_str (snd kv) \<and> snd kv \<noteq> JStr '''') (props v))
      in if entries = [] then JUndef else JObj entries)"

definition normalizeAttachmentForContentComparison :: "js \<Rightarrow> js" where
  "normalizeAttachmentForContentComparison a =
     (if get a ''kind'' = JStr ''link'' then
        JObj [(''id'', get a ''id''), (''kind'', get a ''kind''), (''title'', get a ''title''), (''uri'', get a ''uri''),
              (''deletedAt'', get a ''deletedAt'')]
      else
        JObj [(''id'', get a ''id''), (''kind'', get a ''kind''), (''title'', get a ''title''),
              (''deletedAt'', get a ''deletedAt'')])"

definition normalizeAttachmentsForContentComparison :: "host \<Rightarrow> js \<Rightarrow> js" where
  "normalizeAttachmentsForContentComparison h v =
     (if elems v = [] then JUndef
      else JArr (map normalizeAttachmentForContentComparison
        (sort_by (\<lambda>a b. locale_compare h (the_str (get a ''id'')) (the_str (get b ''id''))) (elems v))))"

definition if_truthy :: "js \<Rightarrow> js" where
  "if_truthy v = (if truthy v then JBool True else JUndef)"

definition normalizeTaskForContentComparison :: "host \<Rightarrow> entity \<Rightarrow> js" where
  "normalizeTaskForContentComparison h task =
     (let hasRecurrence = \<not> nullish (get task ''recurrence'')
      in JObj
       [(''id'', get task ''id''),
        (''title'', get task ''title''),
        (''status'', if get task ''status'' = JStr ''inbox'' then JUndef else get task ''status''),
        (''priority'', get task ''priority''),
        (''energyLevel'', get task ''energyLevel''),
        (''assignedTo'', get task ''assignedTo''),
        (''taskMode'', get task ''taskMode''),
        (''startTime'', get task ''startTime''),
        (''relativeStartOffset'', get task ''relativeStartOffset''),
        (''dueDate'', get task ''dueDate''),
        (''recurrence'', get task ''recurrence''),
        (''tags'', normalizeOptionalArrayForComparison (get task ''tags'')),
        (''contexts'', normalizeOptionalArrayForComparison (get task ''contexts'')),
        (''checklist'', normalizeOptionalArrayForComparison (get task ''checklist'')),
        (''description'', get task ''description''),
        (''textDirection'', get task ''textDirection''),
        (''attachments'', if truthy (get task ''deletedAt'') then JUndef
                          else normalizeAttachmentsForContentComparison h (get task ''attachments'')),
        (''location'', get task ''location''),
        (''projectId'', get task ''projectId''),
        (''sectionId'', get task ''sectionId''),
        (''viewSectionIds'', canonicalizeStringMapForComparison (get task ''viewSectionIds'')),
        (''areaId'', get task ''areaId''),
        (''isFocusedToday'', if_truthy (get task ''isFocusedToday'')),
        (''timeEstimate'', get task ''timeEstimate''),
        (''timeSpentMinutes'', if truthy (get task ''timeSpentMinutes'') then get task ''timeSpentMinutes'' else JUndef),
        (''showFutureRecurrence'',
           if hasRecurrence then if_truthy (get task ''showFutureRecurrence'') else JUndef),
        (''suppressMindwtrReminders'', if_truthy (get task ''suppressMindwtrReminders'')),
        (''pushCount'', if get task ''pushCount'' = JNum 0 then JUndef else get task ''pushCount''),
        (''repeatReminderMinutes'',
           if truthy (get task ''repeatReminderMinutes'') then get task ''repeatReminderMinutes'' else JUndef),
        (''reviewAt'', get task ''reviewAt''),
        (''completedAt'', get task ''completedAt''),
        (''cancelledAt'', get task ''cancelledAt''),
        (''deletedAt'', get task ''deletedAt'')])"

definition normalizeProjectForContentComparison :: "host \<Rightarrow> entity \<Rightarrow> js" where
  "normalizeProjectForContentComparison h project =
     (let comparable = puts project
        [(''tagIds'', normalizeOptionalArrayForComparison (get project ''tagIds'')),
         (''attachments'', if truthy (get project ''deletedAt'') then JUndef
                           else normalizeAttachmentsForContentComparison h (get project ''attachments'')),
         (''isSequential'', if_truthy (get project ''isSequential'')),
         (''sequentialScope'',
            if truthy (get project ''isSequential'')
               \<and> normalizeProjectSequentialScope (get project ''sequentialScope'') = JStr ''section''
            then JStr ''section'' else JUndef),
         (''taskSortBy'', normalizeProjectTaskSortBy (get project ''taskSortBy'')),
         (''isFocused'', if_truthy (get project ''isFocused''))];
          c1 = (if get project ''status'' = JStr ''active'' then del comparable ''status'' else comparable)
      in if get project ''color'' = JStr ''#6B7280'' then del c1 ''color'' else c1)"

definition normalizeSectionForContentComparison :: "entity \<Rightarrow> js" where
  "normalizeSectionForContentComparison section = put section ''isCollapsed'' (if_truthy (get section ''isCollapsed''))"

definition normalizeAreaForContentComparison :: "entity \<Rightarrow> js" where
  "normalizeAreaForContentComparison area =
     puts area [(''color'', if get area ''color'' = JStr ''#6B7280'' then JUndef else get area ''color''),
                (''order'', JUndef)]"

text \<open>\<open>value?.trim() || undefined\<close>\<close>

definition trim_or_undef :: "js \<Rightarrow> js" where
  "trim_or_undef v = (case v of JStr s \<Rightarrow> if trim_str s \<noteq> [] then JStr (trim_str s) else JUndef | _ \<Rightarrow> JUndef)"

definition normalizePersonForContentComparison :: "entity \<Rightarrow> js" where
  "normalizePersonForContentComparison person =
     puts person [(''note'', trim_or_undef (get person ''note'')),
                  (''referenceLink'', trim_or_undef (get person ''referenceLink''))]"

section \<open>Comparable values and signatures\<close>

definition comparable_key :: "bool \<Rightarrow> js \<Rightarrow> (string \<times> js) \<Rightarrow> bool" where
  "comparable_key includeIgnoredKeys kind kv \<longleftrightarrow>
     \<not> nullish (snd kv)
     \<and> fst kv \<notin> set SIGNATURE_OPAQUE_KEYS
     \<and> (includeIgnoredKeys \<or> fst kv \<notin> set CONTENT_DIFF_IGNORED_KEYS)
     \<and> (includeIgnoredKeys \<or> fst kv \<noteq> ''uri'' \<or> kind \<noteq> JStr ''file'')"

fun toComparableValue :: "bool \<Rightarrow> js \<Rightarrow> js" where
  "toComparableValue inc (JArr xs) =
     (let comparableArray = filter (\<lambda>v. \<not> nullish v) (map (toComparableValue inc) xs)
      in if comparableArray \<noteq> [] then JArr comparableArray else JUndef)"
| "toComparableValue inc (JObj kvs) =
     (let entries = map (\<lambda>kv. (fst kv, toComparableValue inc (snd kv)))
            (filter (comparable_key inc (get (JObj kvs) ''kind'')) kvs);
          comparable = filter (\<lambda>kv. \<not> nullish (snd kv)) (sort_key fst entries)
      in if comparable \<noteq> [] then JObj comparable else JUndef)"
| "toComparableValue inc (JStr s) = (if trim_str s \<noteq> [] then JStr (trim_str s) else JUndef)"
| "toComparableValue inc v = v"

definition computeSignature :: "bool \<Rightarrow> js \<Rightarrow> string option" where
  "computeSignature inc v = json (toComparableValue inc v)"

definition toComparableSignature :: "js \<Rightarrow> string option" where
  "toComparableSignature v = computeSignature False v"

definition toDeterministicSignature :: "js \<Rightarrow> string option" where
  "toDeterministicSignature v = computeSignature True v"

definition getMergeComparableSignature :: "(js \<Rightarrow> js) option \<Rightarrow> js \<Rightarrow> string option" where
  "getMergeComparableSignature normalizeForComparison item =
     (case normalizeForComparison of
        None \<Rightarrow> toComparableSignature item
      | Some f \<Rightarrow> computeSignature False (f item))"

text \<open>\<open>a > b\<close> on two signatures; a comparison with \<open>undefined\<close> is false.\<close>

fun sig_gt :: "string option \<Rightarrow> string option \<Rightarrow> bool" where
  "sig_gt (Some a) (Some b) = (b < a)"
| "sig_gt _ _ = False"

datatype side = LocalSide | IncomingSide

text \<open>
  The winner is the side it comes from: the sources test object identity
  (\<open>winner === normalizedIncomingItem\<close>).
\<close>

definition chooseDeterministicWinner :: "js \<Rightarrow> js \<Rightarrow> side" where
  "chooseDeterministicWinner localItem incomingItem =
     (let localSignature = toComparableSignature localItem;
          incomingSignature = toComparableSignature incomingItem
      in if localSignature = incomingSignature then
           (let localFullSignature = toDeterministicSignature localItem;
                incomingFullSignature = toDeterministicSignature incomingItem
            in if localFullSignature = incomingFullSignature then IncomingSide
               else if sig_gt incomingFullSignature localFullSignature then IncomingSide else LocalSide)
         else if sig_gt incomingSignature localSignature then IncomingSide else LocalSide)"

section \<open>Signature hashes\<close>

fun hex_str :: "nat \<Rightarrow> string" where
  "hex_str n = (if n < 16 then [hex_digit n] else hex_str (n div 16) @ [hex_digit (n mod 16)])"

declare hex_str.simps [simp del]

definition hex8 :: "32 word \<Rightarrow> string" where
  "hex8 w = (let s = hex_str (unat w) in replicate (8 - length s) (CHR ''0'') @ s)"

definition fnv_step :: "32 word \<Rightarrow> char \<Rightarrow> 32 word" where
  "fnv_step hash c = (hash XOR of_char c) * 0x01000193"

definition hashComparableSignature :: "string \<Rightarrow> string" where
  "hashComparableSignature signature = hex8 (foldl fnv_step 0x811c9dc5 signature)"

section \<open>Differing keys\<close>

lemma size_get_less: "has_own (JObj kvs) k \<Longrightarrow> size (get (JObj kvs) k) < size (JObj kvs)"
proof (induction kvs)
  case Nil
  then show ?case by (simp add: has_own_def keys_def)
next
  case (Cons kv kvs)
  show ?case
  proof (cases "k = fst kv")
    case True
    then show ?thesis by (cases kv) simp
  next
    case False
    with Cons.prems have "has_own (JObj kvs) k" by (simp add: has_own_def keys_def)
    from Cons.IH [OF this] False show ?thesis by (cases kv) simp
  qed
qed

definition path_or_root :: "string \<Rightarrow> string" where
  "path_or_root path = (if path = [] then ''(root)'' else path)"

function visit_diff :: "nat \<Rightarrow> js \<Rightarrow> js \<Rightarrow> string \<Rightarrow> string list \<Rightarrow> string list" where
  "visit_diff limit left right path acc =
     (if limit \<le> length acc then acc
      else if left = right then acc
      else (case left of
        JArr ls \<Rightarrow>
          (case right of
             JArr rs \<Rightarrow>
               (if length ls \<noteq> length rs then acc @ [path_or_root path]
                else foldl (\<lambda>acc' i. visit_diff limit (ls ! i) (rs ! i) (path @ ''['' @ nat_str i @ '']'') acc')
                       acc [0..<length ls])
           | _ \<Rightarrow> acc @ [path_or_root path])
      | JObj lks \<Rightarrow>
          (case right of
             JObj rks \<Rightarrow>
               foldl (\<lambda>acc' k.
                   let nextPath = (if path \<noteq> [] then path @ ''.'' @ k else k)
                   in if limit \<le> length acc' then acc'
                      else if \<not> has_own left k \<or> \<not> has_own right k then acc' @ [nextPath]
                      else visit_diff limit (get left k) (get right k) nextPath acc')
                 acc (sort (uniq (keys left @ keys right)))
           | _ \<Rightarrow> acc @ [path_or_root path])
      | _ \<Rightarrow> acc @ [path_or_root path]))"
  by pat_completeness auto
termination
proof (relation "measure (\<lambda>(_, left, _). size left)", goal_cases)
  case 1
  show ?case by simp
next
  case (2 limit left right path acc ls rs acc' i)
  then have "size (ls ! i) \<le> size_list size ls" by (intro size_list_estimation' [OF nth_mem]) auto
  with 2 show ?case by simp
next
  case (3 limit left right path acc lks rks acc' k)
  then show ?case using size_get_less by simp
qed

declare visit_diff.simps [simp del]

definition collectComparableDiffKeys :: "js \<Rightarrow> js \<Rightarrow> nat \<Rightarrow> string list" where
  "collectComparableDiffKeys localValue incomingValue limit = visit_diff limit localValue incomingValue '''' []"

end
