(* ===== verification/Sync_Revision.thy ===== *)
theory Sync_Revision
  imports Js_Text
begin

text \<open>
  Sync revisions (\<^verbatim>\<open>packages/core/src/sync-revision.ts\<close>): the counter every synced write
  bumps. A revision read from a document is untrusted: anything but a non-negative integer
  counts as 0 and a value above the cap counts as the cap. Warnings are log output and not
  part of the model.
\<close>

definition MAX_SYNC_REVISION :: rat where
  "MAX_SYNC_REVISION = 2147483647"

definition SYNC_BACKUP_RESTORE_REV_BY :: string where
  "SYNC_BACKUP_RESTORE_REV_BY = ''backup-restore''"

definition SYNC_REPAIR_REV_BY :: string where
  "SYNC_REPAIR_REV_BY = ''sync-repair''"

record RevisionCoercion =
  revision :: rat
  clamped :: bool

fun coerceRevision :: "js \<Rightarrow> RevisionCoercion" where
  "coerceRevision (JNum value) =
     (if \<not> rat_is_int value \<or> value < 0 then \<lparr>revision = 0, clamped = False\<rparr>
      else if MAX_SYNC_REVISION < value then \<lparr>revision = MAX_SYNC_REVISION, clamped = True\<rparr>
      else \<lparr>revision = value, clamped = False\<rparr>)"
| "coerceRevision _ = \<lparr>revision = 0, clamped = False\<rparr>"

fun isValidRevision :: "js \<Rightarrow> bool" where
  "isValidRevision (JNum value) = (rat_is_int value \<and> 0 \<le> value)"
| "isValidRevision _ = False"

definition normalizeRevision :: "js \<Rightarrow> rat" where
  "normalizeRevision value = revision (coerceRevision value)"

definition nextRevision :: "js \<Rightarrow> rat" where
  "nextRevision value =
     (let coerced = coerceRevision value
      in if clamped coerced \<or> MAX_SYNC_REVISION \<le> revision coerced then MAX_SYNC_REVISION
         else revision coerced + 1)"

lemma coerce_range: "0 \<le> revision (coerceRevision v) \<and> revision (coerceRevision v) \<le> MAX_SYNC_REVISION
    \<and> rat_is_int (revision (coerceRevision v))"
  by (cases v rule: coerceRevision.cases) (auto simp: MAX_SYNC_REVISION_def)

lemma coerce_clamped: "clamped (coerceRevision v) \<Longrightarrow> revision (coerceRevision v) = MAX_SYNC_REVISION"
  by (cases v rule: coerceRevision.cases) (auto split: if_splits)

lemma nextRevision_eq: "nextRevision v = min MAX_SYNC_REVISION (normalizeRevision v + 1)"
proof -
  have gap: "r + 1 \<le> MAX_SYNC_REVISION" if "rat_is_int r" "r < MAX_SYNC_REVISION" for r
  proof -
    from that(1) obtain n where n: "r = of_int n" by (auto simp: rat_is_int_def)
    with that(2) have "of_int n < (of_int 2147483647 :: rat)" by (simp add: MAX_SYNC_REVISION_def)
    then have "of_int (n + 1) \<le> (of_int 2147483647 :: rat)" by (simp only: of_int_less_iff of_int_le_iff)
    with n show ?thesis by (simp add: MAX_SYNC_REVISION_def)
  qed
  show ?thesis
    using coerce_range [of v] coerce_clamped [of v] gap [of "revision (coerceRevision v)"]
    by (auto simp: nextRevision_def normalizeRevision_def Let_def min_def)
qed

text \<open>
  The revision sequence of an entity: normalizing keeps a revision between 0 and the cap and
  is idempotent, and the next revision is an integer in the same range, strictly larger than
  the normalized one until the cap is reached, where it stays.
\<close>

lemma nextRevision_advances:
  "0 \<le> nextRevision v \<and> nextRevision v \<le> MAX_SYNC_REVISION \<and> rat_is_int (nextRevision v)
   \<and> normalizeRevision (JNum (nextRevision v)) = nextRevision v
   \<and> (if normalizeRevision v = MAX_SYNC_REVISION then nextRevision v = MAX_SYNC_REVISION
      else nextRevision v = normalizeRevision v + 1)"
proof -
  note r = coerce_range [of v]
  have i: "rat_is_int (nextRevision v)"
    using r by (auto simp: nextRevision_eq normalizeRevision_def min_def MAX_SYNC_REVISION_def)
  have b: "0 \<le> nextRevision v" "nextRevision v \<le> MAX_SYNC_REVISION"
    using r by (auto simp: nextRevision_eq normalizeRevision_def min_def MAX_SYNC_REVISION_def)
  have "normalizeRevision (JNum (nextRevision v)) = nextRevision v"
    using i b by (simp add: normalizeRevision_def)
  moreover have "if normalizeRevision v = MAX_SYNC_REVISION then nextRevision v = MAX_SYNC_REVISION
      else nextRevision v = normalizeRevision v + 1"
    using r coerce_clamped [of v] by (auto simp: nextRevision_def normalizeRevision_def Let_def)
  ultimately show ?thesis using i b by blast
qed

lemma normalizeRevision_range:
  "0 \<le> normalizeRevision v" "normalizeRevision v \<le> MAX_SYNC_REVISION" "rat_is_int (normalizeRevision v)"
  using coerce_range [of v] by (simp_all add: normalizeRevision_def)

lemma nextRevision_valid [simp]: "isValidRevision (JNum (nextRevision v))"
  using coerce_range [of v]
  by (auto simp: nextRevision_eq normalizeRevision_def min_def MAX_SYNC_REVISION_def)

lemma normalizeRevision_valid [simp]: "isValidRevision (JNum (normalizeRevision v))"
  using coerce_range [of v] by (simp add: normalizeRevision_def)

end
