(* ===== verification/Sync_Merge.thy ===== *)
theory Sync_Merge
  imports Sync_Signatures Sync_Revision
begin

text \<open>
  The entity merge (\<^verbatim>\<open>mergeEntitiesWithStats\<close> of \<^verbatim>\<open>packages/core/src/sync.ts\<close>): two lists of
  entities are joined by id, an entity on both sides is resolved to one of its two copies,
  and the statistics of the cycle are counted on the way. The inner functions of the source
  are definitions of their own; a mutable counter of the source is a field of the statistics
  record that is passed along. Log output is not part of the model.
\<close>

section \<open>Statistics\<close>

datatype ConflictReason = RevisionReason | DeleteStateReason | ContentReason

datatype ClockSkewDirection = LocalAhead | RemoteAhead

definition CLOCK_SKEW_THRESHOLD_MS :: int where
  "CLOCK_SKEW_THRESHOLD_MS = 5 * 60 * 1000"

definition DELETE_VS_LIVE_AMBIGUOUS_WINDOW_MS :: int where
  "DELETE_VS_LIVE_AMBIGUOUS_WINDOW_MS = 30 * 1000"

definition CONFLICT_SAMPLE_LIMIT :: nat where
  "CONFLICT_SAMPLE_LIMIT = 5"

definition CONFLICT_DIFF_KEY_LIMIT :: nat where
  "CONFLICT_DIFF_KEY_LIMIT = 8"

record MergeConflictSample =
  sample_id :: js
  sample_winner :: side
  sample_reasons :: "ConflictReason list"
  sample_hasRevision :: bool
  sample_timeDiffMs :: int
  sample_localUpdatedAt :: js
  sample_incomingUpdatedAt :: js
  sample_localDeletedAt :: js
  sample_incomingDeletedAt :: js
  sample_localRev :: rat
  sample_incomingRev :: rat
  sample_localRevBy :: string
  sample_incomingRevBy :: string
  sample_localComparableHash :: string
  sample_incomingComparableHash :: string
  sample_diffKeys :: "string list"

record EntityMergeStats =
  localTotal :: nat
  incomingTotal :: nat
  mergedTotal :: nat
  localOnly :: nat
  incomingOnly :: nat
  conflicts :: nat
  resolvedUsingLocal :: nat
  resolvedUsingIncoming :: nat
  deletionsWon :: nat
  conflictIds :: "js list"
  maxClockSkewMs :: int
  maxClockSkewDirection :: "ClockSkewDirection option"
  invalidTimestamps :: nat
  timestampAdjustments :: nat
  timestampAdjustmentIds :: "js list"
  futureTimestampClamps :: nat
  futureTimestampClampIds :: "js list"
  conflictReasonCounts :: "(ConflictReason \<times> nat) list"
  conflictSamples :: "MergeConflictSample list"

definition createEmptyEntityStats :: "nat \<Rightarrow> nat \<Rightarrow> EntityMergeStats" where
  "createEmptyEntityStats n m =
     \<lparr>localTotal = n, incomingTotal = m, mergedTotal = 0, localOnly = 0, incomingOnly = 0, conflicts = 0,
      resolvedUsingLocal = 0, resolvedUsingIncoming = 0, deletionsWon = 0, conflictIds = [],
      maxClockSkewMs = 0, maxClockSkewDirection = None, invalidTimestamps = 0, timestampAdjustments = 0,
      timestampAdjustmentIds = [], futureTimestampClamps = 0, futureTimestampClampIds = [],
      conflictReasonCounts = [], conflictSamples = []\<rparr>"

text \<open>\<open>if (xs.length < n) xs.push(x)\<close>\<close>

definition push_upto :: "nat \<Rightarrow> 'a \<Rightarrow> 'a list \<Rightarrow> 'a list" where
  "push_upto n x xs = (if length xs < n then xs @ [x] else xs)"

section \<open>Timestamps\<close>

record MergeTimestampInfo =
  raw :: int
  safe :: int
  wasClamped :: bool

definition parseMergeTimestamp :: "host \<Rightarrow> js \<Rightarrow> int \<Rightarrow> MergeTimestampInfo" where
  "parseMergeTimestamp h v maxAllowedMs =
     (case parse_js h v of
        None \<Rightarrow> \<lparr>raw = - 1, safe = - 1, wasClamped = False\<rparr>
      | Some parsed \<Rightarrow>
          if maxAllowedMs + CLOCK_SKEW_THRESHOLD_MS < parsed
          then \<lparr>raw = parsed, safe = maxAllowedMs, wasClamped = True\<rparr>
          else \<lparr>raw = parsed, safe = parsed, wasClamped = False\<rparr>)"

definition getMergeTimestampComparison :: "MergeTimestampInfo \<Rightarrow> MergeTimestampInfo \<Rightarrow> int" where
  "getMergeTimestampComparison localTime incomingTime =
     (let safeDiff = safe incomingTime - safe localTime
      in if safeDiff \<noteq> 0 then safeDiff
         else if wasClamped localTime \<and> wasClamped incomingTime \<and> raw incomingTime \<noteq> raw localTime
         then raw incomingTime - raw localTime
         else 0)"

definition maxAllowedMergeTime :: "host \<Rightarrow> js \<Rightarrow> int" where
  "maxAllowedMergeTime h nowIso =
     (case (if truthy nowIso then date_time h nowIso else None) of Some t \<Rightarrow> t | None \<Rightarrow> date_now h)"

definition recoverCreatedAtFromCounterpart :: "host \<Rightarrow> js \<Rightarrow> js option \<Rightarrow> js" where
  "recoverCreatedAtFromCounterpart h item counterpart =
     (case counterpart of
        None \<Rightarrow> JUndef
      | Some c \<Rightarrow>
          if \<not> truthy (get c ''createdAt'') then JUndef
          else (case (date_time h (get item ''updatedAt''), date_time h (get c ''createdAt'')) of
                  (Some updatedTime, Some counterpartCreatedTime) \<Rightarrow>
                    if updatedTime < counterpartCreatedTime then JUndef else get c ''createdAt''
                | _ \<Rightarrow> JUndef))"

text \<open>The item and whether it was adjusted.\<close>

definition normalizeTimestamps :: "host \<Rightarrow> js option \<Rightarrow> js \<Rightarrow> js \<times> bool" where
  "normalizeTimestamps h counterpart item =
     (if \<not> truthy (get item ''createdAt'') then (item, False)
      else (case (date_time h (get item ''createdAt''), date_time h (get item ''updatedAt'')) of
              (Some createdTime, Some updatedTime) \<Rightarrow>
                if createdTime \<le> updatedTime then (item, False)
                else (put item ''createdAt''
                        (coalesce (recoverCreatedAtFromCounterpart h item counterpart) (get item ''updatedAt'')), True)
            | _ \<Rightarrow> (item, False)))"

definition count_adjustment :: "js \<times> bool \<Rightarrow> EntityMergeStats \<Rightarrow> EntityMergeStats" where
  "count_adjustment r st =
     (if \<not> snd r then st
      else st\<lparr>timestampAdjustments := timestampAdjustments st + 1,
              timestampAdjustmentIds :=
                (if truthy (get (fst r) ''id'') then push_upto 20 (get (fst r) ''id'') (timestampAdjustmentIds st)
                 else timestampAdjustmentIds st)\<rparr>)"

section \<open>Choosing the winner\<close>

definition item_of :: "side \<Rightarrow> 'a \<Rightarrow> 'a \<Rightarrow> 'a" where
  "item_of w l i = (case w of LocalSide \<Rightarrow> l | IncomingSide \<Rightarrow> i)"

definition item_rev :: "js \<Rightarrow> rat" where
  "item_rev item = (case get item ''rev'' of JNum q \<Rightarrow> q | _ \<Rightarrow> 0)"

definition item_revBy :: "js \<Rightarrow> string" where
  "item_revBy item = (case get item ''revBy'' of JStr s \<Rightarrow> s | _ \<Rightarrow> [])"

definition hasRevision :: "js \<Rightarrow> js \<Rightarrow> bool" where
  "hasRevision l i \<longleftrightarrow> 0 < item_rev l \<or> 0 < item_rev i \<or> item_revBy l \<noteq> [] \<or> item_revBy i \<noteq> []"

definition updated_time :: "host \<Rightarrow> int \<Rightarrow> js \<Rightarrow> MergeTimestampInfo" where
  "updated_time h maxT item = parseMergeTimestamp h (get item ''updatedAt'') maxT"

definition comparableUpdatedTimeDiff :: "host \<Rightarrow> int \<Rightarrow> js \<Rightarrow> js \<Rightarrow> int" where
  "comparableUpdatedTimeDiff h maxT l i = getMergeTimestampComparison (updated_time h maxT l) (updated_time h maxT i)"

definition resolveOperationTime :: "host \<Rightarrow> int \<Rightarrow> js \<Rightarrow> int" where
  "resolveOperationTime h maxT item =
     (let safeUpdatedTime = safe (updated_time h maxT item)
      in if \<not> deleted item then safeUpdatedTime
         else (case date_time h (get item ''deletedAt'') of
                 None \<Rightarrow> safeUpdatedTime
               | Some deletedTimeRaw \<Rightarrow>
                   max safeUpdatedTime
                     (if maxT + CLOCK_SKEW_THRESHOLD_MS < deletedTimeRaw then maxT else deletedTimeRaw)))"

definition invalid_deleted_at :: "host \<Rightarrow> js \<Rightarrow> bool" where
  "invalid_deleted_at h item \<longleftrightarrow> deleted item \<and> date_time h (get item ''deletedAt'') = None"

definition preferDeletedCandidate :: "js \<Rightarrow> js \<Rightarrow> side" where
  "preferDeletedCandidate l i =
     (if deleted l \<and> \<not> deleted i then LocalSide
      else if deleted i \<and> \<not> deleted l then IncomingSide
      else chooseDeterministicWinner l i)"

definition preferLiveCandidate :: "js \<Rightarrow> js \<Rightarrow> side" where
  "preferLiveCandidate l i =
     (if deleted l \<and> \<not> deleted i then IncomingSide
      else if deleted i \<and> \<not> deleted l then LocalSide
      else chooseDeterministicWinner l i)"

definition isBackupRestoreLiveCandidate :: "js \<Rightarrow> bool" where
  "isBackupRestoreLiveCandidate item \<longleftrightarrow> \<not> deleted item \<and> get item ''revBy'' = JStr SYNC_BACKUP_RESTORE_REV_BY"

text \<open>
  Delete against live. \<open>None\<close> in the first definition is the fall through to the rules below
  the backup-restore exception.
\<close>

definition restoreWinner :: "host \<Rightarrow> int \<Rightarrow> js \<Rightarrow> js \<Rightarrow> side option" where
  "restoreWinner h maxT l i =
     (let localOpTime = resolveOperationTime h maxT l; incomingOpTime = resolveOperationTime h maxT i
      in if isBackupRestoreLiveCandidate l then (if incomingOpTime \<le> localOpTime then Some LocalSide else None)
         else if isBackupRestoreLiveCandidate i then (if localOpTime \<le> incomingOpTime then Some IncomingSide else None)
         else None)"

definition operationDiff :: "host \<Rightarrow> int \<Rightarrow> js \<Rightarrow> js \<Rightarrow> int" where
  "operationDiff h maxT l i = resolveOperationTime h maxT i - resolveOperationTime h maxT l"

definition resolveDeleteVsLiveWinner :: "host \<Rightarrow> int \<Rightarrow> js \<Rightarrow> js \<Rightarrow> side" where
  "resolveDeleteVsLiveWinner h maxT l i =
     (case restoreWinner h maxT l i of
        Some w \<Rightarrow> w
      | None \<Rightarrow>
          (let diff = operationDiff h maxT l i; revDiff = item_rev l - item_rev i
           in if \<bar>diff\<bar> \<le> DELETE_VS_LIVE_AMBIGUOUS_WINDOW_MS then
                (if hasRevision l i \<and> revDiff \<noteq> 0 then (if 0 < revDiff then LocalSide else IncomingSide)
                 else if hasRevision l i then preferLiveCandidate l i
                 else preferDeletedCandidate l i)
              else if 0 < diff then IncomingSide
              else if diff < 0 then LocalSide
              else preferDeletedCandidate l i))"

definition laterSide :: "int \<Rightarrow> side" where
  "laterSide diff = (if 0 < diff then IncomingSide else LocalSide)"

definition resolveRevisionWinner :: "host \<Rightarrow> int \<Rightarrow> js \<Rightarrow> js \<Rightarrow> side" where
  "resolveRevisionWinner h maxT l i =
     (let revDiff = item_rev l - item_rev i; diff = comparableUpdatedTimeDiff h maxT l i;
          localRevBy = item_revBy l; incomingRevBy = item_revBy i
      in if revDiff \<noteq> 0 then (if 0 < revDiff then LocalSide else IncomingSide)
         else if diff \<noteq> 0 then laterSide diff
         else if localRevBy \<noteq> incomingRevBy \<and> localRevBy \<noteq> [] \<and> incomingRevBy \<noteq> []
         then (if localRevBy < incomingRevBy then IncomingSide else LocalSide)
         else chooseDeterministicWinner l i)"

definition resolveLegacyWinner :: "host \<Rightarrow> int \<Rightarrow> js \<Rightarrow> js \<Rightarrow> side" where
  "resolveLegacyWinner h maxT l i =
     (let lt = updated_time h maxT l; it = updated_time h maxT i;
          diff = comparableUpdatedTimeDiff h maxT l i;
          hasInvalidTimestamp = (raw lt < 0 \<or> raw it < 0);
          requiresStrictTimestampOrdering = (diff \<noteq> 0 \<and> (hasInvalidTimestamp \<or> wasClamped lt \<or> wasClamped it));
          withinSkew = (\<bar>safe it - safe lt\<bar> \<le> CLOCK_SKEW_THRESHOLD_MS)
      in if requiresStrictTimestampOrdering then laterSide diff
         else if withinSkew then chooseDeterministicWinner l i
         else if diff \<noteq> 0 then laterSide diff
         else chooseDeterministicWinner l i)"

definition resolveWinner :: "host \<Rightarrow> int \<Rightarrow> js \<Rightarrow> js \<Rightarrow> side" where
  "resolveWinner h maxT l i =
     (if deleted l \<noteq> deleted i then resolveDeleteVsLiveWinner h maxT l i
      else if hasRevision l i then resolveRevisionWinner h maxT l i
      else resolveLegacyWinner h maxT l i)"

section \<open>Conflicts\<close>

definition unresolvedDeleteStateDiff :: "js \<Rightarrow> js \<Rightarrow> bool" where
  "unresolvedDeleteStateDiff l i \<longleftrightarrow>
     deleted l \<noteq> deleted i \<and> (\<not> hasRevision l i \<or> item_rev l - item_rev i = 0)"

definition contentDiff :: "(js \<Rightarrow> js) option \<Rightarrow> js \<Rightarrow> js \<Rightarrow> bool" where
  "contentDiff nrm l i \<longleftrightarrow>
     (if hasRevision l i then item_rev l - item_rev i = 0 \<and> deleted l = deleted i else deleted l = deleted i)
     \<and> getMergeComparableSignature nrm l \<noteq> getMergeComparableSignature nrm i"

definition conflictReasons :: "(js \<Rightarrow> js) option \<Rightarrow> js \<Rightarrow> js \<Rightarrow> ConflictReason list" where
  "conflictReasons nrm l i =
     (if unresolvedDeleteStateDiff l i then [DeleteStateReason] else []) @
     (if contentDiff nrm l i then [ContentReason] else [])"

definition differs :: "(js \<Rightarrow> js) option \<Rightarrow> js \<Rightarrow> js \<Rightarrow> bool" where
  "differs nrm l i \<longleftrightarrow>
     (if hasRevision l i then unresolvedDeleteStateDiff l i \<or> contentDiff nrm l i
      else deleted l \<noteq> deleted i \<or> contentDiff nrm l i)"

definition bump_reason :: "(ConflictReason \<times> nat) list \<Rightarrow> ConflictReason \<Rightarrow> (ConflictReason \<times> nat) list" where
  "bump_reason counts reason =
     AList.update reason ((case map_of counts reason of None \<Rightarrow> 0 | Some n \<Rightarrow> n) + 1) counts"

definition sample_of :: "host \<Rightarrow> int \<Rightarrow> (js \<Rightarrow> js) option \<Rightarrow> js \<Rightarrow> js \<Rightarrow> js \<Rightarrow> side \<Rightarrow> MergeConflictSample" where
  "sample_of h maxT nrm key l i w =
     (let view = (\<lambda>e. toComparableValue False (case nrm of None \<Rightarrow> e | Some f \<Rightarrow> f e));
          sig = (\<lambda>e. case getMergeComparableSignature nrm e of None \<Rightarrow> '''' | Some s \<Rightarrow> s);
          diffKeys = (if contentDiff nrm l i \<and> view l \<noteq> JUndef \<and> view i \<noteq> JUndef
                      then collectComparableDiffKeys (view l) (view i) CONFLICT_DIFF_KEY_LIMIT else [])
      in \<lparr>sample_id = key, sample_winner = w, sample_reasons = conflictReasons nrm l i,
          sample_hasRevision = hasRevision l i,
          sample_timeDiffMs = safe (updated_time h maxT i) - safe (updated_time h maxT l),
          sample_localUpdatedAt = get l ''updatedAt'', sample_incomingUpdatedAt = get i ''updatedAt'',
          sample_localDeletedAt = get l ''deletedAt'', sample_incomingDeletedAt = get i ''deletedAt'',
          sample_localRev = item_rev l, sample_incomingRev = item_rev i,
          sample_localRevBy = item_revBy l, sample_incomingRevBy = item_revBy i,
          sample_localComparableHash = hashComparableSignature (sig l),
          sample_incomingComparableHash = hashComparableSignature (sig i),
          sample_diffKeys = diffKeys\<rparr>)"

text \<open>The statistics of one pair, in the order the loop body updates them.\<close>

definition count_clamps :: "host \<Rightarrow> int \<Rightarrow> js \<Rightarrow> js \<Rightarrow> js \<Rightarrow> EntityMergeStats \<Rightarrow> EntityMergeStats" where
  "count_clamps h maxT key l i st =
     (let cl = wasClamped (updated_time h maxT l); ci = wasClamped (updated_time h maxT i)
      in if cl \<or> ci
         then st\<lparr>futureTimestampClamps := futureTimestampClamps st + of_bool cl + of_bool ci,
                 futureTimestampClampIds := push_upto 20 key (futureTimestampClampIds st)\<rparr>
         else st)"

definition count_conflict :: "host \<Rightarrow> int \<Rightarrow> (js \<Rightarrow> js) option \<Rightarrow> js \<Rightarrow> js \<Rightarrow> js \<Rightarrow> EntityMergeStats \<Rightarrow> EntityMergeStats" where
  "count_conflict h maxT nrm key l i st =
     (if \<not> differs nrm l i then st
      else
        let st1 = st\<lparr>conflicts := conflicts st + 1,
                     conflictIds := push_upto 20 key (conflictIds st),
                     conflictReasonCounts := foldl bump_reason (conflictReasonCounts st) (conflictReasons nrm l i)\<rparr>;
            safeTimeDiff = safe (updated_time h maxT i) - safe (updated_time h maxT l)
        in if maxClockSkewMs st1 < \<bar>safeTimeDiff\<bar>
           then st1\<lparr>maxClockSkewMs := \<bar>safeTimeDiff\<bar>,
                    maxClockSkewDirection := Some (if 0 \<le> safeTimeDiff then RemoteAhead else LocalAhead)\<rparr>
           else st1)"

definition count_invalid :: "host \<Rightarrow> js \<Rightarrow> js \<Rightarrow> EntityMergeStats \<Rightarrow> EntityMergeStats" where
  "count_invalid h l i st =
     (if deleted l \<noteq> deleted i
      then st\<lparr>invalidTimestamps := invalidTimestamps st + of_bool (invalid_deleted_at h l) + of_bool (invalid_deleted_at h i)\<rparr>
      else st)"

definition count_winner :: "(js \<Rightarrow> js) option \<Rightarrow> js \<Rightarrow> js \<Rightarrow> side \<Rightarrow> EntityMergeStats \<Rightarrow> EntityMergeStats" where
  "count_winner nrm l i w st =
     (let st1 = (if w = IncomingSide then st\<lparr>resolvedUsingIncoming := resolvedUsingIncoming st + 1\<rparr>
                 else st\<lparr>resolvedUsingLocal := resolvedUsingLocal st + 1\<rparr>)
      in if deleted (item_of w l i) \<and> (\<not> deleted l \<or> \<not> deleted i \<or> differs nrm l i)
         then st1\<lparr>deletionsWon := deletionsWon st1 + 1\<rparr> else st1)"

definition count_sample :: "host \<Rightarrow> int \<Rightarrow> (js \<Rightarrow> js) option \<Rightarrow> js \<Rightarrow> js \<Rightarrow> js \<Rightarrow> side \<Rightarrow> EntityMergeStats \<Rightarrow> EntityMergeStats" where
  "count_sample h maxT nrm key l i w st =
     (if differs nrm l i \<and> length (conflictSamples st) < CONFLICT_SAMPLE_LIMIT
      then st\<lparr>conflictSamples := conflictSamples st @ [sample_of h maxT nrm key l i w]\<rparr> else st)"

section \<open>The merge\<close>

type_synonym merge_conflict = "js \<Rightarrow> js \<Rightarrow> side \<Rightarrow> js"

definition merge_pair ::
  "host \<Rightarrow> int \<Rightarrow> merge_conflict option \<Rightarrow> (js \<Rightarrow> js) option \<Rightarrow> js \<Rightarrow> js \<Rightarrow> js \<Rightarrow> EntityMergeStats \<Rightarrow> js \<times> EntityMergeStats" where
  "merge_pair h maxT mc nrm key localItem incomingItem st =
     (let nl = normalizeTimestamps h (Some incomingItem) localItem;
          ni = normalizeTimestamps h (Some localItem) incomingItem;
          l = fst nl; i = fst ni;
          w = resolveWinner h maxT l i;
          st1 = count_adjustment ni (count_adjustment nl st);
          st2 = count_conflict h maxT nrm key l i (count_clamps h maxT key l i st1);
          st3 = count_winner nrm l i w (count_invalid h l i st2);
          st4 = count_sample h maxT nrm key l i w st3;
          mergedItem = (case mc of None \<Rightarrow> item_of w l i | Some f \<Rightarrow> f l i w);
          nm = normalizeTimestamps h None mergedItem
      in (fst nm, count_adjustment nm st4))"

definition merge_single :: "host \<Rightarrow> side \<Rightarrow> js \<Rightarrow> EntityMergeStats \<Rightarrow> js \<times> EntityMergeStats" where
  "merge_single h w item st =
     (let st1 = (case w of
            LocalSide \<Rightarrow> st\<lparr>localOnly := localOnly st + 1, resolvedUsingLocal := resolvedUsingLocal st + 1\<rparr>
          | IncomingSide \<Rightarrow> st\<lparr>incomingOnly := incomingOnly st + 1, resolvedUsingIncoming := resolvedUsingIncoming st + 1\<rparr>);
          nm = normalizeTimestamps h None item
      in (fst nm, count_adjustment nm st1))"

definition merge_step ::
  "host \<Rightarrow> int \<Rightarrow> merge_conflict option \<Rightarrow> (js \<Rightarrow> js) option \<Rightarrow> (js \<times> js) list \<Rightarrow> (js \<times> js) list
   \<Rightarrow> js list \<times> EntityMergeStats \<Rightarrow> js \<Rightarrow> js list \<times> EntityMergeStats" where
  "merge_step h maxT mc nrm localMap incomingMap acc key =
     (case (map_of localMap key, map_of incomingMap key) of
        (None, None) \<Rightarrow> acc
      | (Some l, None) \<Rightarrow> (let r = merge_single h LocalSide l (snd acc) in (fst acc @ [fst r], snd r))
      | (None, Some i) \<Rightarrow> (let r = merge_single h IncomingSide i (snd acc) in (fst acc @ [fst r], snd r))
      | (Some l, Some i) \<Rightarrow> (let r = merge_pair h maxT mc nrm key l i (snd acc) in (fst acc @ [fst r], snd r)))"

definition id_map :: "entity list \<Rightarrow> (js \<times> js) list" where
  "id_map es = js_map (map (\<lambda>e. (get e ''id'', e)) es)"

definition all_ids :: "entity list \<Rightarrow> entity list \<Rightarrow> js list" where
  "all_ids local incoming = uniq (map fst (id_map local) @ map fst (id_map incoming))"

definition mergeEntitiesWithStats ::
  "host \<Rightarrow> entity list \<Rightarrow> entity list \<Rightarrow> merge_conflict option \<Rightarrow> (js \<Rightarrow> js) option \<Rightarrow> js \<Rightarrow> entity list \<times> EntityMergeStats" where
  "mergeEntitiesWithStats h local incoming mc nrm nowIso =
     (let maxT = maxAllowedMergeTime h nowIso;
          r = foldl (merge_step h maxT mc nrm (id_map local) (id_map incoming))
                ([], createEmptyEntityStats (length local) (length incoming)) (all_ids local incoming)
      in (fst r, (snd r)\<lparr>mergedTotal := length (fst r)\<rparr>))"

section \<open>Areas and the clock skew warning\<close>

definition area_order :: "js \<Rightarrow> rat" where
  "area_order area = (case get area ''order'' of JNum q \<Rightarrow> q | _ \<Rightarrow> - 1)"

text \<open>The \<open>map\<close> of \<open>mergeAreas\<close> with its running \<open>fallbackOrder\<close>.\<close>

fun assign_orders :: "rat \<Rightarrow> entity list \<Rightarrow> entity list" where
  "assign_orders fallbackOrder [] = []"
| "assign_orders fallbackOrder (area # rest) =
     (if finite_num (get area ''order'') then put area ''order'' (get area ''order'') # assign_orders fallbackOrder rest
      else puts area [(''order'', JNum fallbackOrder), (''rev'', JNum (nextRevision (get area ''rev''))),
                      (''revBy'', JStr SYNC_REPAIR_REV_BY)]
           # assign_orders (fallbackOrder + 1) rest)"

definition mergeAreas :: "host \<Rightarrow> entity list \<Rightarrow> entity list \<Rightarrow> js \<Rightarrow> entity list \<times> EntityMergeStats" where
  "mergeAreas h local incoming nowIso =
     (let result = mergeEntitiesWithStats h local incoming None (Some normalizeAreaForContentComparison) nowIso;
          fallbackOrder = foldl (\<lambda>m area. max m (area_order area)) (- 1) (fst result) + 1
      in (assign_orders fallbackOrder (fst result), snd result))"

definition getClockSkewWarning :: "EntityMergeStats list \<Rightarrow> (int \<times> ClockSkewDirection) option" where
  "getClockSkewWarning stats =
     (case sort_by (\<lambda>l r. maxClockSkewMs r - maxClockSkewMs l)
        (filter (\<lambda>s. CLOCK_SKEW_THRESHOLD_MS < maxClockSkewMs s \<and> maxClockSkewDirection s \<noteq> None) stats) of
        [] \<Rightarrow> None
      | s # _ \<Rightarrow> map_option (\<lambda>dir. (maxClockSkewMs s, dir)) (maxClockSkewDirection s))"

end
