(* ===== verification/Attachment_Uri.thy ===== *)
theory Attachment_Uri
  imports App_Data
begin

text \<open>
  Sanitising attachment metadata before it reaches the file system or a cloud backend
  (\<^verbatim>\<open>packages/core/src/sync-normalization.ts\<close>, \<^verbatim>\<open>sync.ts\<close> and \<^verbatim>\<open>attachment-hash.ts\<close>): a URI with a
  parent segment, in any of the forms repeated percent decoding or URL parsing give it, is
  dropped. The URL parser is the host's \<open>url_pathname\<close>.
\<close>

section \<open>Percent decoding\<close>

text \<open>
  \<open>decodeURIComponent\<close>: \<open>None\<close> is its \<open>URIError\<close>. The alphabet of the model ends at 255, so a
  well-formed escape of a larger code point stays as it is written; it stands for one character
  that is no separator, and neither are its percent sign and its digits.
\<close>

definition hex_val :: "char \<Rightarrow> nat option" where
  "hex_val c =
     (let n = of_char c :: nat
      in if 48 \<le> n \<and> n \<le> 57 then Some (n - 48)
         else if 65 \<le> n \<and> n \<le> 70 then Some (n - 55)
         else if 97 \<le> n \<and> n \<le> 102 then Some (n - 87)
         else None)"

fun percent_byte :: "string \<Rightarrow> (nat \<times> string) option" where
  "percent_byte (p # a # b # rest) =
     (if p = CHR ''%'' then
        (case (hex_val a, hex_val b) of (Some x, Some y) \<Rightarrow> Some (16 * x + y, rest) | _ \<Rightarrow> None)
      else None)"
| "percent_byte _ = None"

fun continuation :: "nat \<Rightarrow> string \<Rightarrow> (nat list \<times> string) option" where
  "continuation 0 s = Some ([], s)"
| "continuation (Suc n) s =
     (case percent_byte s of
        Some (b, rest) \<Rightarrow>
          if 128 \<le> b \<and> b < 192 then map_option (\<lambda>(bs, r). (b # bs, r)) (continuation n rest) else None
      | None \<Rightarrow> None)"

text \<open>The code point a UTF-8 sequence stands for, when the sequence is well formed.\<close>

definition utf8_point :: "nat \<Rightarrow> nat list \<Rightarrow> nat option" where
  "utf8_point lead tail =
     (let p = foldl (\<lambda>acc b. acc * 64 + (b - 128))
                (if length tail = 1 then lead - 192 else if length tail = 2 then lead - 224 else lead - 240) tail
      in if length tail = 1 then (if 128 \<le> p then Some p else None)
         else if length tail = 2 then (if 2048 \<le> p \<and> \<not> (55296 \<le> p \<and> p \<le> 57343) then Some p else None)
         else if 65536 \<le> p \<and> p \<le> 1114111 then Some p else None)"

definition utf8_tail_length :: "nat \<Rightarrow> nat option" where
  "utf8_tail_length lead =
     (if 194 \<le> lead \<and> lead < 224 then Some 1 else if 224 \<le> lead \<and> lead < 240 then Some 2
      else if 240 \<le> lead \<and> lead < 245 then Some 3 else None)"

text \<open>One escape: its decoded text and the rest of the input.\<close>

definition decode_escape :: "string \<Rightarrow> (string \<times> string) option" where
  "decode_escape s =
     (case percent_byte s of
        None \<Rightarrow> None
      | Some (b, rest) \<Rightarrow>
          if b < 128 then Some ([char_of b], rest)
          else (case utf8_tail_length b of
                  None \<Rightarrow> None
                | Some n \<Rightarrow>
                    (case continuation n rest of
                       None \<Rightarrow> None
                     | Some (bs, r) \<Rightarrow>
                         (case utf8_point b bs of
                            None \<Rightarrow> None
                          | Some p \<Rightarrow> Some (if p < 256 then [char_of p] else take (3 * (n + 1)) s, r)))))"

lemma percent_byte_shorter: "percent_byte s = Some (b, r) \<Longrightarrow> length r < length s"
  by (cases s rule: percent_byte.cases) (auto split: option.splits if_splits)

lemma continuation_shorter: "continuation n s = Some (bs, r) \<Longrightarrow> length r \<le> length s"
  by (induction n arbitrary: s bs)
     (auto split: option.splits if_splits dest!: percent_byte_shorter, fastforce)

lemma decode_escape_shorter: "decode_escape s = Some (d, r) \<Longrightarrow> length r < length s"
  by (auto simp: decode_escape_def split: option.splits if_splits
      dest!: percent_byte_shorter continuation_shorter)

function decodeURIComponent :: "string \<Rightarrow> string option" where
  "decodeURIComponent [] = Some []"
| "decodeURIComponent (c # cs) =
     (if c \<noteq> CHR ''%'' then map_option ((#) c) (decodeURIComponent cs)
      else (case decode_escape (c # cs) of
              None \<Rightarrow> None
            | Some (d, r) \<Rightarrow> map_option ((@) d) (decodeURIComponent r)))"
  by pat_completeness auto
termination
  by (relation "measure length") (auto dest!: decode_escape_shorter)

section \<open>Traversal segments\<close>

definition path_sep :: "char \<Rightarrow> bool" where
  "path_sep c \<longleftrightarrow> c = CHR ''/'' \<or> c = CHR 0x5C"

fun segments :: "string \<Rightarrow> string list" where
  "segments [] = [[]]"
| "segments (c # cs) =
     (if path_sep c then [] # segments cs
      else (case segments cs of [] \<Rightarrow> [[c]] | s # ss \<Rightarrow> (c # s) # ss))"

text \<open>\<open>/(^|[\\/])\.\.([\\/]|$)/.test(value)\<close>\<close>

definition has_traversal :: "string \<Rightarrow> bool" where
  "has_traversal s \<longleftrightarrow> ''..'' \<in> set (segments s)"

definition alpha_char :: "char \<Rightarrow> bool" where
  "alpha_char c \<longleftrightarrow> (let n = of_char c :: nat in (65 \<le> n \<and> n \<le> 90) \<or> (97 \<le> n \<and> n \<le> 122))"

definition alnum_char :: "char \<Rightarrow> bool" where
  "alnum_char c \<longleftrightarrow> alpha_char c \<or> (let n = of_char c :: nat in 48 \<le> n \<and> n \<le> 57)"

text \<open>\<open>/^[A-Za-z][A-Za-z0-9+.-]*:/.test(s)\<close>\<close>

definition has_scheme :: "string \<Rightarrow> bool" where
  "has_scheme s =
     (case s of
        [] \<Rightarrow> False
      | c # cs \<Rightarrow> alpha_char c \<and>
          take 1 (dropWhile (\<lambda>d. alnum_char d \<or> d \<in> set ''+.-'') cs) = '':'')"

definition derived_candidates :: "host \<Rightarrow> string \<Rightarrow> string list" where
  "derived_candidates h current =
     (let decoded = (case decodeURIComponent current of Some d \<Rightarrow> if d \<noteq> current then [d] else [] | None \<Rightarrow> []);
          trimmed = trim_str current;
          pathname = (\<lambda>u. case url_pathname h u of Some p \<Rightarrow> [p] | None \<Rightarrow> [])
      in decoded @
         (if starts_with trimmed ''//'' then pathname (''file:'' @ trimmed)
          else if has_scheme trimmed then pathname trimmed else []))"

definition enqueueCandidate :: "string list \<Rightarrow> string \<Rightarrow> string list" where
  "enqueueCandidate queue candidate = (if candidate = [] \<or> candidate \<in> set queue then queue else queue @ [candidate])"

text \<open>The loop over the growing queue: \<open>n\<close> iterations are left, \<open>index\<close> is the next one.\<close>

primrec expand_queue :: "host \<Rightarrow> nat \<Rightarrow> nat \<Rightarrow> string list \<Rightarrow> string list" where
  "expand_queue h 0 index queue = queue"
| "expand_queue h (Suc n) index queue =
     (if index < length queue
      then expand_queue h n (Suc index) (foldl enqueueCandidate queue (derived_candidates h (queue ! index)))
      else queue)"

definition traversal_within :: "host \<Rightarrow> nat \<Rightarrow> string \<Rightarrow> bool" where
  "traversal_within h limit value \<longleftrightarrow> (\<exists>candidate\<in>set (expand_queue h limit 0 [value]). has_traversal candidate)"

text \<open>
  The two copies of the check: \<^verbatim>\<open>sync-normalization.ts\<close> with a decode limit of 4, \<^verbatim>\<open>sync.ts\<close>
  with a limit of 32 (its cache returns what the check computes).
\<close>

definition containsAttachmentTraversalSegment :: "host \<Rightarrow> string \<Rightarrow> bool" where
  "containsAttachmentTraversalSegment h value = traversal_within h 4 value"

definition containsAttachmentTraversalSegmentMerge :: "host \<Rightarrow> string \<Rightarrow> bool" where
  "containsAttachmentTraversalSegmentMerge h value = traversal_within h 32 value"

section \<open>Sanitisers\<close>

definition sanitize_with :: "(string \<Rightarrow> bool) \<Rightarrow> js \<Rightarrow> js" where
  "sanitize_with unsafe v =
     (case v of
        JStr s \<Rightarrow>
          (let trimmed = trim_str s
           in if trimmed = [] \<or> nul \<in> set trimmed then JUndef
              else if unsafe trimmed then JUndef else JStr trimmed)
      | _ \<Rightarrow> JUndef)"

definition sanitizeMergedAttachmentUri :: "host \<Rightarrow> js \<Rightarrow> js" where
  "sanitizeMergedAttachmentUri h v = sanitize_with (containsAttachmentTraversalSegmentMerge h) v"

definition sanitizeAttachmentUriForSyncMerge :: "host \<Rightarrow> js \<Rightarrow> js" where
  "sanitizeAttachmentUriForSyncMerge h v = sanitize_with (containsAttachmentTraversalSegment h) v"

definition word_char :: "char \<Rightarrow> bool" where
  "word_char c \<longleftrightarrow> alnum_char c \<or> c = CHR ''_'' \<or> c = CHR ''-''"

definition key_stem :: "string \<Rightarrow> bool" where
  "key_stem s \<longleftrightarrow> s \<noteq> [] \<and> alnum_char (hd s) \<and> list_all word_char s"

text \<open>\<open>ATTACHMENT_CLOUD_KEY_PATTERN\<close>\<close>

definition cloud_key_pattern :: "string \<Rightarrow> bool" where
  "cloud_key_pattern s \<longleftrightarrow>
     (if starts_with s ''attachments/'' then
        (let body = drop 12 s;
             stem = takeWhile (\<lambda>c. c \<noteq> CHR ''.'') body; ext = dropWhile (\<lambda>c. c \<noteq> CHR ''.'') body
         in key_stem stem \<and>
            (ext = [] \<or>
             (let e = tl ext
              in e \<noteq> [] \<and> alnum_char (hd e) \<and> length e \<le> 128 \<and> list_all (\<lambda>c. word_char c \<or> c = CHR ''.'') e)))
      else starts_with s ''cloudkit:'' \<and> key_stem (drop 9 s))"

definition sanitizeAttachmentCloudKeyForSyncMerge :: "host \<Rightarrow> js \<Rightarrow> js" where
  "sanitizeAttachmentCloudKeyForSyncMerge h v =
     (case sanitize_with (containsAttachmentTraversalSegment h) v of
        JStr s \<Rightarrow> if cloud_key_pattern s then JStr s else JUndef
      | _ \<Rightarrow> JUndef)"

definition isSha256Hex :: "js \<Rightarrow> bool" where
  "isSha256Hex v = (case v of JStr s \<Rightarrow> length s = 64 \<and> list_all (\<lambda>c. hex_val c \<noteq> None) s | _ \<Rightarrow> False)"

definition sanitizeAttachmentFileHashForSyncMerge :: "js \<Rightarrow> js" where
  "sanitizeAttachmentFileHashForSyncMerge v = (if isSha256Hex v then v else JUndef)"

section \<open>What the check guarantees\<close>

lemma has_traversal_Nil [simp]: "\<not> has_traversal []"
  by (simp add: has_traversal_def)

lemma set_enqueue: "set (foldl enqueueCandidate q cs) = set q \<union> (set cs - {[]})"
  by (induction cs arbitrary: q) (auto simp: enqueueCandidate_def)

lemma enqueue_prefix: "\<exists>zs. foldl enqueueCandidate q cs = q @ zs"
proof (induction cs arbitrary: q)
  case (Cons c cs)
  then obtain zs where "foldl enqueueCandidate (enqueueCandidate q c) cs = enqueueCandidate q c @ zs" by blast
  moreover have "enqueueCandidate q c = q \<or> enqueueCandidate q c = q @ [c]" by (simp add: enqueueCandidate_def)
  ultimately show ?case by auto
qed simp

lemma expand_queue_prefix: "\<exists>zs. expand_queue h n index q = q @ zs"
proof (induction n arbitrary: index q)
  case (Suc n)
  obtain zs where "foldl enqueueCandidate q (derived_candidates h (q ! index)) = q @ zs"
    using enqueue_prefix by blast
  with Suc [of "Suc index" "q @ zs"] show ?case by auto
qed simp

lemma expand_queue_processed:
  assumes "index \<le> j" "j < index + n" "j < length (expand_queue h n index q)"
  shows "set (derived_candidates h (expand_queue h n index q ! j)) - {[]} \<subseteq> set (expand_queue h n index q)"
  using assms
proof (induction n arbitrary: index q)
  case (Suc n)
  show ?case
  proof (cases "index < length q")
    case True
    let ?q = "foldl enqueueCandidate q (derived_candidates h (q ! index))"
    obtain ys zs where ext: "?q = q @ ys" "expand_queue h n (Suc index) ?q = ?q @ zs"
      using enqueue_prefix expand_queue_prefix by metis
    show ?thesis
    proof (cases "j = index")
      case True
      then have "expand_queue h (Suc n) index q ! j = q ! index"
        using \<open>index < length q\<close> ext by (simp add: nth_append)
      then show ?thesis using \<open>index < length q\<close> ext(2) set_enqueue [of q "derived_candidates h (q ! index)"] by auto
    next
      case False
      then show ?thesis using Suc.IH [of "Suc index" ?q] Suc.prems \<open>index < length q\<close> by simp
    qed
  next
    case False
    then show ?thesis using Suc.prems by simp
  qed
qed simp

lemma decoded_candidate:
  "decodeURIComponent u = Some d \<Longrightarrow> d \<noteq> u \<Longrightarrow> \<exists>cs. derived_candidates h u = d # cs"
  by (simp add: derived_candidates_def Let_def)

text \<open>A value that passes the check is safe after no, one and two rounds of decoding.\<close>

lemma not_traversal_within:
  assumes "\<not> traversal_within h limit u" "2 \<le> limit"
  shows "\<not> has_traversal u"
    and "decodeURIComponent u = Some d \<Longrightarrow> \<not> has_traversal d"
    and "decodeURIComponent u = Some d \<Longrightarrow> decodeURIComponent d = Some d2 \<Longrightarrow> \<not> has_traversal d2"
proof -
  let ?r = "expand_queue h limit 0 [u]"
  have safe: "\<not> has_traversal c" if "c \<in> set ?r" for c
    using assms(1) that by (auto simp: traversal_within_def)
  obtain zs where r: "?r = u # zs" using expand_queue_prefix [of h limit 0 "[u]"] by auto
  then show "\<not> has_traversal u" using safe by simp
  have first: "set (derived_candidates h u) - {[]} \<subseteq> set ?r"
    using expand_queue_processed [of 0 0 limit h "[u]"] assms(2) r by simp
  show one: "\<not> has_traversal d" if "decodeURIComponent u = Some d"
    using decoded_candidate [OF that, of h] first safe \<open>\<not> has_traversal u\<close>
    by (cases "d = u"; cases "d = []") auto
  show "\<not> has_traversal d2" if d: "decodeURIComponent u = Some d" "decodeURIComponent d = Some d2"
  proof (cases "d = u \<or> d = [] \<or> d2 = []")
    case True
    then show ?thesis using d one by auto
  next
    case False
    then obtain cs where cs: "derived_candidates h u = d # cs" using decoded_candidate d by blast
    obtain m where m: "limit = Suc m" using assms(2) by (cases limit) auto
    have "\<exists>ys. foldl enqueueCandidate [u] (derived_candidates h u) = u # d # ys"
      using False enqueue_prefix [of "[u, d]" cs] by (simp add: cs enqueueCandidate_def)
    then have "\<exists>ys. ?r = u # d # ys"
      using expand_queue_prefix [of h m 1 "foldl enqueueCandidate [u] (derived_candidates h u)"] by (auto simp: m)
    then have "set (derived_candidates h d) - {[]} \<subseteq> set ?r"
      using expand_queue_processed [of 0 1 limit h "[u]"] assms(2) by auto
    then show ?thesis using decoded_candidate [OF d(2), of h] False safe one [OF d(1)] by (cases "d2 = d") auto
  qed
qed

lemma sanitize_with_StrD:
  assumes "sanitize_with unsafe v = JStr u"
  shows "u \<noteq> [] \<and> trim_str u = u \<and> nul \<notin> set u \<and> \<not> unsafe u"
  using assms by (auto simp: sanitize_with_def Let_def split: js.splits if_splits)

lemma sanitize_with_result: "sanitize_with unsafe v = JUndef \<or> (\<exists>u. sanitize_with unsafe v = JStr u)"
  by (auto simp: sanitize_with_def Let_def split: js.split)

lemma sanitize_with_idem: "sanitize_with unsafe (sanitize_with unsafe v) = sanitize_with unsafe v"
  by (auto simp: sanitize_with_def Let_def split: js.splits)

text \<open>
  C25. An attachment URI that the merge lets through is trimmed, not empty, free of NUL, and has
  no parent segment as written, after percent decoding, and after decoding twice, so a doubly
  encoded traversal is refused too. This holds for both sanitisers, whatever the host's URL
  parser returns.
\<close>

theorem sanitized_uri_is_safe:
  assumes "sanitizeMergedAttachmentUri h v = JStr u \<or> sanitizeAttachmentUriForSyncMerge h v = JStr u"
  shows "u \<noteq> [] \<and> trim_str u = u \<and> nul \<notin> set u \<and> \<not> has_traversal u
    \<and> (case decodeURIComponent u of None \<Rightarrow> True
       | Some d \<Rightarrow> \<not> has_traversal d
           \<and> (case decodeURIComponent d of None \<Rightarrow> True | Some d2 \<Rightarrow> \<not> has_traversal d2))"
proof -
  have "\<not> traversal_within h 32 u \<or> \<not> traversal_within h 4 u"
    using assms sanitize_with_StrD unfolding sanitizeMergedAttachmentUri_def sanitizeAttachmentUriForSyncMerge_def
      containsAttachmentTraversalSegment_def containsAttachmentTraversalSegmentMerge_def by blast
  then obtain limit where "2 \<le> limit" "\<not> traversal_within h limit u"
    by (metis numeral_le_iff semiring_norm(68) semiring_norm(69) semiring_norm(71))
  note safe = not_traversal_within [OF this(2,1)]
  have "u \<noteq> [] \<and> trim_str u = u \<and> nul \<notin> set u"
    using assms sanitize_with_StrD
    unfolding sanitizeMergedAttachmentUri_def sanitizeAttachmentUriForSyncMerge_def by blast
  with safe show ?thesis by (auto split: option.split)
qed

theorem sanitized_uri_is_safe_witness:
  "(sanitizeMergedAttachmentUri host0 (JStr '' a%2Fb '') = JStr ''a%2Fb''
    \<or> sanitizeAttachmentUriForSyncMerge host0 (JStr '' a%2Fb '') = JStr ''a%2Fb'') \<and> \<not> has_traversal ''a%2Fb''
   \<and> sanitizeMergedAttachmentUri host0 (JStr ''%252e%252e/s'') = JUndef"
proof -
  have ok: "sanitizeMergedAttachmentUri host0 (JStr '' a%2Fb '') = JStr ''a%2Fb''
    \<or> sanitizeAttachmentUriForSyncMerge host0 (JStr '' a%2Fb '') = JStr ''a%2Fb''" (is "?a \<or> ?b")
    and "sanitizeMergedAttachmentUri host0 (JStr ''%252e%252e/s'') = JUndef" (is ?c)
  proof -
    have "?a \<and> ?c" by code_simp
    then show "?a \<or> ?b" and ?c by blast+
  qed
  then show ?thesis using sanitized_uri_is_safe [OF ok] by blast
qed

end
