(* ===== verification/Js_Library.thy ===== *)
theory Js_Library
  imports Attachment_Uri
begin

text \<open>
  More of the language's library, as the recurrence and task normalisers use it: \<open>String(v)\<close>,
  \<open>Number(s)\<close>, \<open>toUpperCase\<close>, \<open>split\<close>, \<open>encodeURIComponent\<close> and \<open>Math.round\<close>, and the date
  parser of \<^verbatim>\<open>packages/core/src/date.ts\<close> on top of the host's time zone.
\<close>

section \<open>Strings\<close>

text \<open>
  \<open>toUpperCase\<close> on the Latin-1 range. The two characters whose capital lies outside the
  alphabet of the model, micro sign and y with diaeresis, stay as they are.
\<close>

definition upper_char :: "char \<Rightarrow> string" where
  "upper_char c =
     (let n = of_char c :: nat
      in if (97 \<le> n \<and> n \<le> 122) \<or> (224 \<le> n \<and> n \<le> 254 \<and> n \<noteq> 247) then [char_of (n - 32)]
         else if n = 223 then ''SS'' else [c])"

definition upper :: "string \<Rightarrow> string" where
  "upper s = concat (map upper_char s)"

text \<open>\<open>s.split(c)\<close>\<close>

fun split_on :: "char \<Rightarrow> string \<Rightarrow> string list" where
  "split_on c [] = [[]]"
| "split_on c (x # xs) =
     (if x = c then [] # split_on c xs
      else (case split_on c xs of [] \<Rightarrow> [[x]] | p # ps \<Rightarrow> (x # p) # ps))"

text \<open>\<open>String(v)\<close>\<close>

fun js_string :: "js \<Rightarrow> string" where
  "js_string JUndef = ''undefined''"
| "js_string JNull = ''null''"
| "js_string (JBool b) = (if b then ''true'' else ''false'')"
| "js_string (JNum q) = num_str q"
| "js_string JNaN = ''NaN''"
| "js_string (JInf neg) = (if neg then ''-Infinity'' else ''Infinity'')"
| "js_string (JStr s) = s"
| "js_string (JArr xs) = join '','' (map (\<lambda>x. if nullish x then [] else js_string x) xs)"
| "js_string (JObj kvs) = ''[object Object]''"

section \<open>Number(s)\<close>

definition js_digit :: "char \<Rightarrow> bool" where
  "js_digit c \<longleftrightarrow> digit_val c \<noteq> None"

definition digits_nat :: "string \<Rightarrow> nat" where
  "digits_nat s = (case digits_val 0 s of Some n \<Rightarrow> n | None \<Rightarrow> 0)"

text \<open>An optional exponent part: its value, when the rest of the literal is one.\<close>

definition scan_exponent :: "string \<Rightarrow> int option" where
  "scan_exponent s =
     (case s of
        [] \<Rightarrow> Some 0
      | e # r \<Rightarrow>
          if e \<noteq> CHR ''e'' \<and> e \<noteq> CHR ''E'' then None
          else
            let neg = (take 1 r = ''-''); ds = (if take 1 r = ''-'' \<or> take 1 r = ''+'' then tl r else r)
            in if ds \<noteq> [] \<and> list_all js_digit ds then Some ((if neg then - 1 else 1) * int (digits_nat ds)) else None)"

definition pow10 :: "int \<Rightarrow> rat" where
  "pow10 n = (if 0 \<le> n then 10 ^ nat n else 1 / 10 ^ nat (- n))"

definition unsigned_decimal :: "string \<Rightarrow> rat option" where
  "unsigned_decimal s =
     (let whole = takeWhile js_digit s; r = dropWhile js_digit s;
          frac = (if take 1 r = ''.'' then takeWhile js_digit (tl r) else []);
          r2 = (if take 1 r = ''.'' then dropWhile js_digit (tl r) else r)
      in if whole = [] \<and> frac = [] then None
         else (case scan_exponent r2 of
                 None \<Rightarrow> None
               | Some x \<Rightarrow> Some ((of_nat (digits_nat whole) + of_nat (digits_nat frac) / 10 ^ length frac) * pow10 x)))"

definition radix_digits :: "nat \<Rightarrow> string \<Rightarrow> js" where
  "radix_digits base s =
     (if s \<noteq> [] \<and> list_all (\<lambda>c. case hex_val c of Some d \<Rightarrow> d < base | None \<Rightarrow> False) s
      then JNum (of_nat (foldl (\<lambda>acc c. acc * base + (case hex_val c of Some d \<Rightarrow> d | None \<Rightarrow> 0)) 0 s))
      else JNaN)"

definition js_number :: "string \<Rightarrow> js" where
  "js_number str =
     (let s = trim_str str; p = lower (take 2 s);
          neg = (take 1 s = ''-''); u = (if take 1 s = ''-'' \<or> take 1 s = ''+'' then tl s else s)
      in if s = [] then JNum 0
         else if p = ''0x'' then radix_digits 16 (drop 2 s)
         else if p = ''0o'' then radix_digits 8 (drop 2 s)
         else if p = ''0b'' then radix_digits 2 (drop 2 s)
         else if u = ''Infinity'' then JInf neg
         else (case unsigned_decimal u of
                 None \<Rightarrow> JNaN
               | Some q \<Rightarrow> if 2 ^ 1024 \<le> q then JInf neg else JNum (if neg then - q else q)))"

text \<open>\<open>Math.round\<close>: half way rounds up.\<close>

definition round_half_up :: "rat \<Rightarrow> int" where
  "round_half_up q = \<lfloor>q + 1 / 2\<rfloor>"

section \<open>encodeURIComponent\<close>

definition hex_upper :: "nat \<Rightarrow> char" where
  "hex_upper n = (if n < 10 then char_of (48 + n) else char_of (55 + n))"

definition percent :: "nat \<Rightarrow> string" where
  "percent b = [CHR ''%'', hex_upper (b div 16), hex_upper (b mod 16)]"

definition uri_unreserved :: "char \<Rightarrow> bool" where
  "uri_unreserved c \<longleftrightarrow> alnum_char c \<or> c \<in> set (''-_.!~*()'' @ [CHR 0x27])"

definition encode_char :: "char \<Rightarrow> string" where
  "encode_char c =
     (let n = of_char c :: nat
      in if uri_unreserved c then [c]
         else if n < 128 then percent n
         else percent (192 + n div 64) @ percent (128 + n mod 64))"

definition encodeURIComponent :: "string \<Rightarrow> string" where
  "encodeURIComponent s = concat (map encode_char s)"

text \<open>Decoding takes back what encoding wrote.\<close>

lemma hex_val_hex_upper: "k < 16 \<Longrightarrow> hex_val (hex_upper k) = Some k"
  by (simp add: hex_val_def hex_upper_def Let_def)

lemma percent_byte_percent: "b < 256 \<Longrightarrow> percent_byte (percent b @ rest) = Some (b, rest)"
  by (simp add: percent_def hex_val_hex_upper)

lemma percent_Cons: "percent b @ rest = CHR ''%'' # tl (percent b) @ rest"
  by (simp add: percent_def)

lemma decode_encode_char: "decodeURIComponent (encode_char c @ rest) = map_option ((#) c) (decodeURIComponent rest)"
proof -
  let ?n = "of_char c :: nat"
  have n: "?n < 256" by simp
  show ?thesis
  proof (cases "uri_unreserved c")
    case True
    moreover have "\<not> uri_unreserved (CHR ''%'')" by code_simp
    ultimately show ?thesis by (auto simp: encode_char_def Let_def)
  next
    case False
    have step: "decodeURIComponent (percent b @ r) = (case decode_escape (percent b @ r) of
        None \<Rightarrow> None | Some (d, r') \<Rightarrow> map_option ((@) d) (decodeURIComponent r'))" for b r
      by (simp add: percent_def)
    have pb: "b < 256 \<Longrightarrow> percent_byte (percent b @ r) = Some (b, r)" for b r
      by (rule percent_byte_percent)
    have c: "(@) [c] = (#) c" by auto
    show ?thesis
    proof (cases "?n < 128")
      case True
      then have "decode_escape (percent ?n @ rest) = Some ([c], rest)"
        by (simp add: decode_escape_def pb)
      then show ?thesis using False True by (simp add: encode_char_def Let_def step c)
    next
      case two: False
      let ?q = "?n div 64" and ?r = "?n mod 64"
      have q: "2 \<le> ?q" "?q < 4" using two n by (auto simp: div_le_mono less_mult_imp_div_less)
      have r: "?r < 64" and nqr: "?q * 64 + ?r = ?n" by simp_all
      have "utf8_tail_length (192 + ?q) = Some 1" using q by (simp add: utf8_tail_length_def)
      moreover have "continuation 1 (percent (128 + ?r) @ rest) = Some ([128 + ?r], rest)"
        using r by (simp only: One_nat_def continuation.simps pb) (simp del: of_char_mod_256)
      moreover have "utf8_point (192 + ?q) [128 + ?r] = Some ?n"
        using two nqr by (simp only: utf8_point_def Let_def) simp
      moreover have "percent_byte (percent (192 + ?q) @ r) = Some (192 + ?q, r)" for r
        using q by (intro pb) simp
      ultimately have "decode_escape (percent (192 + ?q) @ percent (128 + ?r) @ rest) = Some ([c], rest)"
        using n by (simp only: decode_escape_def option.case prod.case) simp
      then have "decodeURIComponent (percent (192 + ?q) @ percent (128 + ?r) @ rest) = map_option ((#) c) (decodeURIComponent rest)"
        by (simp only: step option.case prod.case c)
      moreover have "encode_char c = percent (192 + ?q) @ percent (128 + ?r)"
        using False two by (simp only: encode_char_def Let_def if_False)
      ultimately show ?thesis by (simp only: append_assoc)
    qed
  qed
qed

lemma decode_encode [simp]: "decodeURIComponent (encodeURIComponent s) = Some s"
  by (induction s) (simp_all add: encodeURIComponent_def decode_encode_char)

lemma encode_char_safe: "c \<in> set (encode_char d) \<Longrightarrow> c = CHR ''%'' \<or> uri_unreserved c"
proof -
  have hex: "uri_unreserved (hex_upper k)" if "k < 16" for k
    using that by (auto simp: uri_unreserved_def alnum_char_def alpha_char_def hex_upper_def Let_def)
  have pct: "c = CHR ''%'' \<or> uri_unreserved c" if "c \<in> set (percent b)" "b < 256" for b
    using that hex [of "b div 16"] hex [of "b mod 16"] by (auto simp: percent_def less_mult_imp_div_less)
  assume c: "c \<in> set (encode_char d)"
  have "of_char d < (256 :: nat)" by simp
  then have "192 + (of_char d :: nat) div 64 < 256" by linarith
  moreover have "128 + (of_char d :: nat) mod 64 < 256"
    using mod_less_divisor [of 64 "of_char d :: nat"] by linarith
  moreover have "c = d \<and> uri_unreserved d \<or> c \<in> set (percent (of_char d))
      \<or> c \<in> set (percent (192 + of_char d div 64)) \<or> c \<in> set (percent (128 + of_char d mod 64))"
    using c unfolding encode_char_def Let_def by (simp only: split: if_splits) (simp_all only: set_append Un_iff, auto)
  ultimately show ?thesis
    using pct \<open>of_char d < (256 :: nat)\<close> by blast
qed

lemma encoded_safe: "c \<in> set (encodeURIComponent s) \<Longrightarrow> c = CHR ''%'' \<or> uri_unreserved c"
  by (auto simp: encodeURIComponent_def dest: encode_char_safe)

lemma trim_no_ws: "\<forall>c\<in>set s. \<not> js_ws c \<Longrightarrow> trim_str s = s"
proof -
  assume plain: "\<forall>c\<in>set s. \<not> js_ws c"
  have "dropWhile js_ws xs = xs" if "set xs \<subseteq> set s" for xs
    using that plain by (cases xs) auto
  then show ?thesis by (simp add: trim_str_def)
qed

lemma unreserved_not_ws: "uri_unreserved c \<Longrightarrow> \<not> js_ws c \<and> c \<noteq> CHR '';'' \<and> c \<noteq> CHR ''=''"
  by (auto simp: uri_unreserved_def js_ws_def alnum_char_def alpha_char_def Let_def)

lemma encoded_plain:
  "trim_str (encodeURIComponent s) = encodeURIComponent s" "CHR '';'' \<notin> set (encodeURIComponent s)"
  "CHR ''='' \<notin> set (encodeURIComponent s)"
proof -
  have "\<not> js_ws c \<and> c \<noteq> CHR '';'' \<and> c \<noteq> CHR ''=''" if "c \<in> set (encodeURIComponent s)" for c
    using encoded_safe [OF that] unreserved_not_ws [of c] by (auto simp: js_ws_def)
  then show "trim_str (encodeURIComponent s) = encodeURIComponent s" "CHR '';'' \<notin> set (encodeURIComponent s)"
    "CHR ''='' \<notin> set (encodeURIComponent s)" by (auto intro: trim_no_ws)
qed

lemma encoded_Nil: "encodeURIComponent s = [] \<longleftrightarrow> s = []"
  by (cases s) (auto simp: encodeURIComponent_def encode_char_def percent_def Let_def)

text \<open>Splitting what was joined.\<close>

lemma split_on_not_Nil [simp]: "split_on c s \<noteq> []"
  by (induction s) (auto split: list.split)

lemma split_on_plain: "c \<notin> set s \<Longrightarrow> split_on c s = [s]"
  by (induction s) auto

lemma split_on_append: "c \<notin> set s \<Longrightarrow> split_on c (s @ c # t) = s # split_on c t"
  by (induction s) auto

lemma split_on_join: "ps \<noteq> [] \<Longrightarrow> \<forall>p\<in>set ps. c \<notin> set p \<Longrightarrow> split_on c (join [c] ps) = ps"
  by (induction ps rule: induct_list012) (auto simp: split_on_plain split_on_append)

lemma split_on_parts: "p \<in> set (split_on c s) \<Longrightarrow> c \<notin> set p"
  by (induction s arbitrary: p) (auto split: if_splits list.splits)

section \<open>safeParseDate\<close>

definition isValidCalendarDate :: "int \<Rightarrow> int \<Rightarrow> int \<Rightarrow> bool" where
  "isValidCalendarDate y m d \<longleftrightarrow> 1 \<le> m \<and> m \<le> 12 \<and> 1 \<le> d \<and> d \<le> days_in_month y m"

definition scan_ymd :: "string \<Rightarrow> (int \<times> int \<times> int \<times> string) option" where
  "scan_ymd s =
     (case scan_num 4 s of None \<Rightarrow> None | Some (y, r1) \<Rightarrow>
      (case scan_sep_num (CHR ''-'') 2 r1 of None \<Rightarrow> None | Some (m, r2) \<Rightarrow>
       map_option (\<lambda>(d, r3). (y, m, d, r3)) (scan_sep_num (CHR ''-'') 2 r2)))"

text \<open>One to three digits after the point, as milliseconds, and the rest.\<close>

definition scan_fraction :: "string \<Rightarrow> (int \<times> string) option" where
  "scan_fraction s =
     (let ds = takeWhile js_digit s
      in if ds = [] \<or> 3 < length ds then None
         else Some (int (digits_nat (take 3 (ds @ ''00''))), dropWhile js_digit s))"

definition offset_tail :: "string \<Rightarrow> bool" where
  "offset_tail s \<longleftrightarrow>
     s = ''Z'' \<or>
     (take 1 s = ''+'' \<or> take 1 s = ''-'') \<and>
     (case scan_num 2 (tl s) of Some (_, r) \<Rightarrow> (case scan_sep_num (CHR '':'') 2 r of Some (_, []) \<Rightarrow> True | _ \<Rightarrow> False) | None \<Rightarrow> False)"

text \<open>\<open>ISO_INSTANT_PATTERN\<close>: the date of a match.\<close>

definition iso_instant :: "string \<Rightarrow> (int \<times> int \<times> int) option" where
  "iso_instant s =
     (case scan_ymd s of None \<Rightarrow> None | Some (y, m, d, r1) \<Rightarrow>
      (case Option.bind (scan_char (CHR ''T'') r1) (scan_num 2) of None \<Rightarrow> None | Some (_, r2) \<Rightarrow>
       (case scan_sep_num (CHR '':'') 2 r2 of None \<Rightarrow> None | Some (_, r3) \<Rightarrow>
        if offset_tail r3 then Some (y, m, d)
        else (case scan_sep_num (CHR '':'') 2 r3 of None \<Rightarrow> None | Some (_, r4) \<Rightarrow>
          if offset_tail r4 then Some (y, m, d)
          else (case Option.bind (scan_char (CHR ''.'') r4) scan_fraction of None \<Rightarrow> None | Some (_, r5) \<Rightarrow>
            if offset_tail r5 then Some (y, m, d) else None)))))"

text \<open>\<open>/Z$|[+-]\d{2}:?\d{2}$/.test(s)\<close>\<close>

definition has_timezone :: "string \<Rightarrow> bool" where
  "has_timezone s \<longleftrightarrow>
     (let sign = (\<lambda>c. c = CHR ''+'' \<or> c = CHR ''-''); t5 = drop (length s - 5) s; t6 = drop (length s - 6) s
      in ends_with s ''Z'' \<or>
         (length t5 = 5 \<and> sign (t5 ! 0) \<and> list_all js_digit (tl t5)) \<or>
         (length t6 = 6 \<and> sign (t6 ! 0) \<and> t6 ! 3 = CHR '':'' \<and> list_all js_digit [t6 ! 1, t6 ! 2, t6 ! 4, t6 ! 5]))"

text \<open>
  \<open>/^(\d{4})-(\d{2})-(\d{2})(?:[T\s](\d{2})(?::(\d{2})(?::(\d{2})(?:\.(\d{1,3}))?)?)?)?$/\<close>:
  date, hour, minute, second and millisecond.
\<close>

definition local_pattern :: "string \<Rightarrow> (int \<times> int \<times> int \<times> int \<times> int \<times> int \<times> int) option" where
  "local_pattern s =
     (case scan_ymd s of None \<Rightarrow> None | Some (y, m, d, r) \<Rightarrow>
      if r = [] then Some (y, m, d, 0, 0, 0, 0)
      else if hd r \<noteq> CHR ''T'' \<and> \<not> js_ws (hd r) then None
      else (case scan_num 2 (tl r) of None \<Rightarrow> None | Some (hh, r1) \<Rightarrow>
        if r1 = [] then Some (y, m, d, hh, 0, 0, 0)
        else (case scan_sep_num (CHR '':'') 2 r1 of None \<Rightarrow> None | Some (mi, r2) \<Rightarrow>
          if r2 = [] then Some (y, m, d, hh, mi, 0, 0)
          else (case scan_sep_num (CHR '':'') 2 r2 of None \<Rightarrow> None | Some (sec, r3) \<Rightarrow>
            if r3 = [] then Some (y, m, d, hh, mi, sec, 0)
            else (case Option.bind (scan_char (CHR ''.'') r3) scan_fraction of
                    Some (ms, []) \<Rightarrow> Some (y, m, d, hh, mi, sec, ms) | _ \<Rightarrow> None)))))"

definition safeParseDate :: "host \<Rightarrow> js \<Rightarrow> int option" where
  "safeParseDate h v =
     (let s = the_str v;
          general = (case (if has_timezone s then None else local_pattern s) of
            Some (y, m, d, hh, mi, sec, ms) \<Rightarrow>
              if isValidCalendarDate y m d then local_time h y m d hh mi sec ms else None
          | None \<Rightarrow> parse_iso h s)
      in if s = [] then None
         else (case iso_instant s of
                 Some (y, m, d) \<Rightarrow>
                   (case (if isValidCalendarDate y m d then date_parse h s else None) of
                      Some t \<Rightarrow> Some t | None \<Rightarrow> general)
               | None \<Rightarrow> general))"

end
