(* ===== verification/Recurrence_Rule.thy ===== *)
theory Recurrence_Rule
  imports Js_Library Sync_Revision
begin

text \<open>
  Recurrence values (\<^verbatim>\<open>packages/core/src/recurrence.ts\<close>, the part the sync core runs on every
  task): reading and writing an RRULE text, the series identity carried in it, and
  \<open>normalizeRecurrenceForLoad\<close>. A value of the TypeScript type \<open>string[]\<close> is read as one: where
  the code calls a string method on an element without a guard, a non-string element, on which
  it would throw, reads as the empty string.
\<close>

section \<open>Tokens\<close>

definition RECURRENCE_RULES :: "string list" where
  "RECURRENCE_RULES = [''daily'', ''weekly'', ''monthly'', ''yearly'']"

definition RRULE_SERIES_ID_KEY :: string where
  "RRULE_SERIES_ID_KEY = ''X-MINDWTR-SERIES-ID''"

definition WEEKDAY_ORDER :: "string list" where
  "WEEKDAY_ORDER = [''SU'', ''MO'', ''TU'', ''WE'', ''TH'', ''FR'', ''SA'']"

definition isRecurrenceRule :: "js \<Rightarrow> bool" where
  "isRecurrenceRule v = (case v of JStr s \<Rightarrow> s \<in> set RECURRENCE_RULES | _ \<Rightarrow> False)"

definition RRULE_FREQ_MAP :: "(string \<times> string) list" where
  "RRULE_FREQ_MAP = [(''DAILY'', ''daily''), (''WEEKLY'', ''weekly''), (''MONTHLY'', ''monthly''), (''YEARLY'', ''yearly'')]"

text \<open>\<open>part.slice(0, part.indexOf('='))\<close>: without a separator the index is -1.\<close>

definition before_eq :: "string \<Rightarrow> string" where
  "before_eq part = (if CHR ''='' \<in> set part then takeWhile (\<lambda>c. c \<noteq> CHR ''='') part else butlast part)"

definition after_eq :: "string \<Rightarrow> string" where
  "after_eq part = (if CHR ''='' \<in> set part then tl (dropWhile (\<lambda>c. c \<noteq> CHR ''='') part) else part)"

definition is_series_token :: "string \<Rightarrow> bool" where
  "is_series_token part \<longleftrightarrow> upper (trim_str (before_eq part)) = RRULE_SERIES_ID_KEY"

text \<open>The empty string is the \<open>undefined\<close> of the optional string results.\<close>

definition getSeriesIdFromRRule :: "string \<Rightarrow> string" where
  "getSeriesIdFromRRule rrule =
     (if rrule = [] then []
      else (case find is_series_token (split_on (CHR '';'') rrule) of
              None \<Rightarrow> []
            | Some token \<Rightarrow>
                (let series = trim_str (after_eq token)
                 in if series = [] then []
                    else (case decodeURIComponent series of Some d \<Rightarrow> trim_str d | None \<Rightarrow> series))))"

definition withSeriesIdInRRule :: "string \<Rightarrow> string \<Rightarrow> string" where
  "withSeriesIdInRRule rrule seriesId =
     join '';'' (filter (\<lambda>part. \<not> is_series_token part) (split_on (CHR '';'') rrule)
               @ [RRULE_SERIES_ID_KEY @ ''='' @ encodeURIComponent seriesId])"

text \<open>\<open>/^(-1|1|2|3|4)?(SU|MO|TU|WE|TH|FR|SA)$/\<close> on the trimmed capitals.\<close>

definition parseByDayToken :: "string \<Rightarrow> string option" where
  "parseByDayToken token =
     (let t = trim_str (upper token); day = drop (length t - 2) t; ordinal = take (length t - 2) t
      in if 2 \<le> length t \<and> day \<in> set WEEKDAY_ORDER \<and> ordinal \<in> {[], ''-1'', ''1'', ''2'', ''3'', ''4''}
         then Some t else None)"

definition normalizeWeekdays :: "js \<Rightarrow> js" where
  "normalizeWeekdays days =
     (let normalized = List.map_filter (\<lambda>d. parseByDayToken (the_str d)) (elems days)
      in if normalized = [] then JUndef else JArr (map JStr (uniq normalized)))"

definition normalizeWeekStart :: "js \<Rightarrow> js" where
  "normalizeWeekStart v =
     (case parseByDayToken (js_string (or_else v (JStr ''''))) of
        Some p \<Rightarrow> if p \<in> set WEEKDAY_ORDER then JStr p else JUndef
      | None \<Rightarrow> JUndef)"

definition valid_month_day :: "js \<Rightarrow> rat option" where
  "valid_month_day v =
     (case v of JNum day \<Rightarrow> if (1 \<le> day \<and> day \<le> 31) \<or> day = - 1 then Some day else None | _ \<Rightarrow> None)"

definition normalizeMonthDays :: "string list \<Rightarrow> js" where
  "normalizeMonthDays days =
     (let unique = sort (uniq (List.map_filter (\<lambda>d. valid_month_day (js_number d)) days))
      in if unique = [] then JUndef else JArr (map JNum unique))"

definition normalizeAnchorDay :: "js \<Rightarrow> js" where
  "normalizeAnchorDay v =
     (case v of JNum q \<Rightarrow> if 1 \<le> \<lfloor>q\<rfloor> \<and> \<lfloor>q\<rfloor> \<le> 31 then JNum (of_int \<lfloor>q\<rfloor>) else JUndef | _ \<Rightarrow> JUndef)"

section \<open>UNTIL\<close>

definition all_digits :: "string \<Rightarrow> bool" where
  "all_digits s \<longleftrightarrow> list_all js_digit s"

definition date_with_dashes :: "string \<Rightarrow> string" where
  "date_with_dashes s = take 4 s @ ''-'' @ take 2 (drop 4 s) @ ''-'' @ take 2 (drop 6 s)"

text \<open>\<open>/^(\d{4})(\d{2})(\d{2})T(\d{2})(\d{2})(\d{2})?(Z)?$/i\<close>: the ISO text and whether it is UTC.\<close>

definition until_date_time :: "string \<Rightarrow> (string \<times> bool) option" where
  "until_date_time s =
     (let day = take 8 s; r = drop 9 s; utc = (r \<noteq> [] \<and> last r \<in> set ''Zz''); digits = (if utc then butlast r else r);
          sec = (if length digits = 6 then drop 4 digits else ''00'')
      in if 9 \<le> length s \<and> all_digits day \<and> s ! 8 \<in> set ''Tt'' \<and> all_digits digits \<and> length digits \<in> {4, 6}
         then Some (date_with_dashes day @ ''T'' @ take 2 digits @ '':'' @ take 2 (drop 2 digits) @ '':'' @ sec
                    @ (if utc then ''Z'' else []), utc)
         else None)"

definition parseUntilToken :: "host \<Rightarrow> js \<Rightarrow> js" where
  "parseUntilToken h v =
     (let trimmed = trim_str (js_string (or_else v (JStr '''')))
      in if trimmed = [] then JUndef
         else if length trimmed = 8 \<and> all_digits trimmed then JStr (date_with_dashes trimmed)
         else (case until_date_time trimmed of
                 None \<Rightarrow> JUndef
               | Some (isoText, utc) \<Rightarrow>
                   (case safeParseDate h (JStr isoText) of
                      None \<Rightarrow> JUndef
                    | Some t \<Rightarrow> JStr (if utc then iso_string t else format_seconds h t))))"

definition formatUntilToken :: "host \<Rightarrow> js \<Rightarrow> string" where
  "formatUntilToken h v =
     (let trimmed = trim_str (js_string (or_else v (JStr '''')))
      in if trimmed = [] then []
         else if length trimmed = 10 \<and> (case scan_ymd trimmed of Some _ \<Rightarrow> True | None \<Rightarrow> False)
         then filter (\<lambda>c. c \<noteq> CHR ''-'') trimmed
         else (case safeParseDate h (JStr trimmed) of
                 None \<Rightarrow> []
               | Some t \<Rightarrow>
                   (let (y, m, d) = civil_of_day (t div 86400000); r = t mod 86400000
                    in (if y < 0 then (let s = int_str y in replicate (4 - length s) (CHR ''0'') @ s) else pad_num 4 y)
                       @ pad_num 2 m @ pad_num 2 d @ ''T'' @ pad_num 2 (r div 3600000)
                       @ pad_num 2 (r div 60000 mod 60) @ pad_num 2 (r div 1000 mod 60) @ ''Z'')))"

section \<open>RRULE texts\<close>

text \<open>\<open>const [key, value] = part.split('=')\<close> and the token table.\<close>

definition rrule_tokens :: "string \<Rightarrow> (string \<times> string) list" where
  "rrule_tokens rrule =
     foldl (\<lambda>acc part.
       (let kv = split_on (CHR ''='') part
        in if 2 \<le> length kv \<and> kv ! 0 \<noteq> [] \<and> kv ! 1 \<noteq> [] then AList.update (upper (kv ! 0)) (kv ! 1) acc else acc))
       [] (split_on (CHR '';'') rrule)"

definition token :: "(string \<times> string) list \<Rightarrow> string \<Rightarrow> js" where
  "token tokens key = (case map_of tokens key of Some v \<Rightarrow> JStr v | None \<Rightarrow> JUndef)"

definition positive_js :: "js \<Rightarrow> bool" where
  "positive_js v = (case v of JNum q \<Rightarrow> 0 < q | JInf neg \<Rightarrow> \<not> neg | _ \<Rightarrow> False)"

definition round_js :: "js \<Rightarrow> js" where
  "round_js v = (case v of JNum q \<Rightarrow> JNum (of_int (round_half_up q)) | _ \<Rightarrow> v)"

definition parseRRuleString :: "host \<Rightarrow> string \<Rightarrow> js" where
  "parseRRuleString h rrule =
     (if rrule = [] then JObj []
      else
        let tokens = rrule_tokens rrule;
            num = (\<lambda>key. if truthy (token tokens key) then js_number (the_str (token tokens key)) else JUndef);
            list = (\<lambda>key. split_on (CHR '','') (the_str (token tokens key)))
        in JObj
          [(''rule'', case map_of RRULE_FREQ_MAP (upper (the_str (token tokens ''FREQ''))) of Some r \<Rightarrow> JStr r | None \<Rightarrow> JUndef),
           (''byDay'', if truthy (token tokens ''BYDAY'') then normalizeWeekdays (JArr (map JStr (list ''BYDAY''))) else JUndef),
           (''byMonthDay'', if truthy (token tokens ''BYMONTHDAY'') then normalizeMonthDays (list ''BYMONTHDAY'') else JUndef),
           (''interval'', if positive_js (num ''INTERVAL'') then num ''INTERVAL'' else JUndef),
           (''weekStart'', normalizeWeekStart (token tokens ''WKST'')),
           (''count'', if positive_js (num ''COUNT'') then round_js (num ''COUNT'') else JUndef),
           (''until'', parseUntilToken h (token tokens ''UNTIL''))])"

definition weekday_only :: "js \<Rightarrow> string list" where
  "weekday_only days = filter (\<lambda>d. d \<in> set WEEKDAY_ORDER) (map the_str (elems days))"

definition normalizeWeeklyByDay :: "js \<Rightarrow> string list" where
  "normalizeWeeklyByDay days = uniq (weekday_only (normalizeWeekdays days))"

definition buildRRuleString :: "host \<Rightarrow> string \<Rightarrow> js \<Rightarrow> js \<Rightarrow> js \<Rightarrow> string" where
  "buildRRuleString h rrule byDay interval options =
     (let normalizedDays = normalizeWeekdays byDay;
          weekly = filter (\<lambda>day. day \<in> set (normalizeWeeklyByDay normalizedDays)) WEEKDAY_ORDER;
          monthDays = normalizeMonthDays (map js_string (elems (get options ''byMonthDay'')));
          weekStart = normalizeWeekStart (get options ''weekStart'');
          untilToken = formatUntilToken h (get options ''until'')
      in join '';''
        ([''FREQ='' @ upper rrule] @
         (case interval of
            JNum q \<Rightarrow> if 1 < q then [''INTERVAL='' @ num_str q] else []
          | JInf False \<Rightarrow> [''INTERVAL=Infinity''] | _ \<Rightarrow> []) @
         (if normalizedDays \<noteq> JUndef then
            (if rrule = ''weekly'' then (if weekly \<noteq> [] then [''BYDAY='' @ join '','' weekly] else [])
             else if rrule = ''monthly''
             then [''BYDAY='' @ join '','' (sort_by (locale_compare h) (map the_str (elems normalizedDays)))]
             else [])
          else if rrule = ''monthly'' \<and> monthDays \<noteq> JUndef
          then [''BYMONTHDAY='' @ join '','' (map js_string (elems monthDays))] else []) @
         (if positive_js (get options ''count'') then [''COUNT='' @ js_string (round_js (get options ''count''))] else []) @
         (if rrule = ''weekly'' \<and> weekStart \<noteq> JUndef then [''WKST='' @ the_str weekStart] else []) @
         (if untilToken \<noteq> [] then [''UNTIL='' @ untilToken] else [])))"

section \<open>normalizeRecurrenceForLoad\<close>

definition entry_if :: "bool \<Rightarrow> string \<Rightarrow> js \<Rightarrow> (string \<times> js) list" where
  "entry_if b k v = (if b then [(k, v)] else [])"

definition recurrence_of_text :: "host \<Rightarrow> string \<Rightarrow> js" where
  "recurrence_of_text h text =
     (let trimmed = trim_str text; parsed = parseRRuleString h trimmed;
          opt = (\<lambda>k. entry_if (truthy (get parsed k)) k (get parsed k))
      in if trimmed = [] then JUndef
         else if isRecurrenceRule (JStr trimmed) then JObj [(''rule'', JStr trimmed)]
         else if truthy (get parsed ''rule'')
         then JObj ([(''rule'', get parsed ''rule'')] @ opt ''byDay'' @ opt ''byMonthDay'' @ opt ''weekStart'' @ opt ''count''
                    @ opt ''until'' @ [(''rrule'', JStr trimmed)])
         else JUndef)"

definition positive_count :: "js \<Rightarrow> js \<Rightarrow> js" where
  "positive_count v fallback =
     (case v of JNum q \<Rightarrow> if 0 < q then JNum (of_int (round_half_up q)) else fallback | _ \<Rightarrow> fallback)"

definition recurrence_of_object :: "host \<Rightarrow> js \<Rightarrow> js" where
  "recurrence_of_object h r =
     (let rrule = (case get r ''rrule'' of JStr s \<Rightarrow> trim_str s | _ \<Rightarrow> []);
          parsed = (if rrule \<noteq> [] then parseRRuleString h rrule else JObj []);
          rule = (if isRecurrenceRule (get r ''rule'') then get r ''rule'' else get parsed ''rule'');
          explicitSeriesId = (case get r ''seriesId'' of JStr s \<Rightarrow> trim_str s | _ \<Rightarrow> []);
          seriesId = (if explicitSeriesId \<noteq> [] then explicitSeriesId else getSeriesIdFromRRule rrule);
          strategy = get r ''strategy'';
          byDay = coalesce (if is_arr (get r ''byDay'') then normalizeWeekdays (get r ''byDay'') else JUndef) (get parsed ''byDay'');
          byMonthDay = coalesce
            (if is_arr (get r ''byMonthDay'') then normalizeMonthDays (map js_string (elems (get r ''byMonthDay''))) else JUndef)
            (get parsed ''byMonthDay'');
          weekStart = coalesce (normalizeWeekStart (get r ''weekStart'')) (get parsed ''weekStart'');
          count = positive_count (get r ''count'') (get parsed ''count'');
          until = (case get r ''until'' of JStr s \<Rightarrow> if non_blank s then JStr s else get parsed ''until'' | _ \<Rightarrow> get parsed ''until'');
          completedOccurrences = (case get r ''completedOccurrences'' of
             JNum q \<Rightarrow> if 0 \<le> q then JNum (of_int \<lfloor>q\<rfloor>) else JUndef | _ \<Rightarrow> JUndef);
          compatibleRRule =
            (if seriesId \<noteq> [] then
               withSeriesIdInRRule
                 (if rrule \<noteq> [] then rrule
                  else buildRRuleString h (the_str rule) byDay (get parsed ''interval'')
                    (JObj [(''byMonthDay'', byMonthDay), (''weekStart'', weekStart), (''count'', count), (''until'', until)]))
                 seriesId
             else rrule);
          anchor = (\<lambda>k. entry_if (truthy (normalizeAnchorDay (get r k))) k (normalizeAnchorDay (get r k)))
      in if \<not> truthy rule then JUndef
         else JObj ([(''rule'', rule)]
           @ entry_if (seriesId \<noteq> []) ''seriesId'' (JStr seriesId)
           @ entry_if (strategy = JStr ''fluid'' \<or> strategy = JStr ''strict'') ''strategy'' strategy
           @ entry_if (truthy byDay) ''byDay'' byDay
           @ entry_if (truthy byMonthDay) ''byMonthDay'' byMonthDay
           @ entry_if (truthy weekStart) ''weekStart'' weekStart
           @ entry_if (truthy count) ''count'' count
           @ entry_if (truthy until) ''until'' until
           @ entry_if (completedOccurrences \<noteq> JUndef) ''completedOccurrences'' completedOccurrences
           @ anchor ''anchorDay'' @ anchor ''startAnchorDay'' @ anchor ''dueAnchorDay'' @ anchor ''reviewAnchorDay''
           @ entry_if (compatibleRRule \<noteq> []) ''rrule'' (JStr compatibleRRule)))"

definition normalizeRecurrenceForLoad :: "host \<Rightarrow> js \<Rightarrow> js" where
  "normalizeRecurrenceForLoad h v =
     (case v of JStr s \<Rightarrow> recurrence_of_text h s | JObj _ \<Rightarrow> recurrence_of_object h v | _ \<Rightarrow> JUndef)"

section \<open>The series identity survives the text\<close>

lemma series_token:
  "is_series_token (RRULE_SERIES_ID_KEY @ CHR ''='' # e)" "after_eq (RRULE_SERIES_ID_KEY @ CHR ''='' # e) = e"
proof -
  have key: "\<forall>c\<in>set RRULE_SERIES_ID_KEY. c \<noteq> CHR ''=''" "upper (trim_str RRULE_SERIES_ID_KEY) = RRULE_SERIES_ID_KEY"
    by code_simp+
  then have "takeWhile (\<lambda>c. c \<noteq> CHR ''='') (RRULE_SERIES_ID_KEY @ CHR ''='' # e) = RRULE_SERIES_ID_KEY"
    "dropWhile (\<lambda>c. c \<noteq> CHR ''='') (RRULE_SERIES_ID_KEY @ CHR ''='' # e) = CHR ''='' # e"
    by (simp_all add: takeWhile_append2 dropWhile_append2)
  with key show "is_series_token (RRULE_SERIES_ID_KEY @ CHR ''='' # e)" "after_eq (RRULE_SERIES_ID_KEY @ CHR ''='' # e) = e"
    by (simp_all add: is_series_token_def before_eq_def after_eq_def)
qed

text \<open>
  C24. Older clients keep only the RRULE text of a recurrence, so the series id is carried in it.
  Whatever the text and whatever id it held before, the id written into it is the id read back
  (without surrounding white space), and exactly one id token is left in the text.
\<close>

theorem series_id_roundtrip:
  "getSeriesIdFromRRule (withSeriesIdInRRule rrule seriesId) = trim_str seriesId
   \<and> length (filter is_series_token (split_on (CHR '';'') (withSeriesIdInRRule rrule seriesId))) = 1"
proof -
  let ?t = "RRULE_SERIES_ID_KEY @ ''='' @ encodeURIComponent seriesId"
  let ?ps = "filter (\<lambda>part. \<not> is_series_token part) (split_on (CHR '';'') rrule)"
  have "CHR '';'' \<notin> set RRULE_SERIES_ID_KEY" by code_simp
  then have parts: "split_on (CHR '';'') (withSeriesIdInRRule rrule seriesId) = ?ps @ [?t]"
    unfolding withSeriesIdInRRule_def
    by (intro split_on_join) (auto simp: encoded_plain dest: split_on_parts)
  have "find is_series_token (?ps @ [?t]) = Some ?t"
  proof -
    have "find is_series_token (ps @ [?t]) = Some ?t" if "\<forall>p\<in>set ps. \<not> is_series_token p" for ps
      using that by (induction ps) (simp_all add: series_token)
    then show ?thesis by simp
  qed
  moreover have "withSeriesIdInRRule rrule seriesId \<noteq> []"
  proof
    assume "withSeriesIdInRRule rrule seriesId = []"
    with parts have "?ps @ [?t] = [[]]" by simp
    then show False by (cases ?ps) (auto simp: RRULE_SERIES_ID_KEY_def)
  qed
  ultimately have "getSeriesIdFromRRule (withSeriesIdInRRule rrule seriesId) = trim_str seriesId"
    by (auto simp: getSeriesIdFromRRule_def Let_def parts series_token encoded_plain encoded_Nil)
  then show ?thesis by (simp only: parts filter_append filter_filter) (use series_token(1) [of "encodeURIComponent seriesId"] in simp)
qed

end
