(* ===== verification/Task_Status.thy ===== *)
theory Task_Status
  imports Recurrence_Rule
begin

text \<open>
  Task lifecycle normalisation (\<^verbatim>\<open>packages/core/src/task-status.ts\<close> with the field normalisers of
  \<^verbatim>\<open>time-spent.ts\<close>, \<^verbatim>\<open>schedule-utils.ts\<close>, \<^verbatim>\<open>task-relative-start.ts\<close> and \<^verbatim>\<open>shallow-identity.ts\<close>).
  The sources hand back the input object when the normalised one holds the same values; the
  model compares nested values structurally, so the two can differ in key order only.
\<close>

section \<open>Shallow identity\<close>

definition sameShallowRecord :: "js \<Rightarrow> js \<Rightarrow> bool" where
  "sameShallowRecord input candidate \<longleftrightarrow>
     length (keys input) = length (keys candidate) \<and>
     list_all (\<lambda>k. has_own input k \<and> get input k = get candidate k) (keys candidate)"

text \<open>\<open>sameShallowRecord(input, candidate) ? input : candidate\<close>\<close>

definition keep_same :: "js \<Rightarrow> js \<Rightarrow> js" where
  "keep_same input candidate = (if sameShallowRecord input candidate then input else candidate)"

section \<open>Status\<close>

definition TASK_STATUS_VALUES :: "string list" where
  "TASK_STATUS_VALUES = [''inbox'', ''next'', ''waiting'', ''someday'', ''reference'', ''done'', ''archived'']"

definition LEGACY_STATUS_MAP :: "(string \<times> string) list" where
  "LEGACY_STATUS_MAP = [(''planned'', ''next''), (''pending'', ''next''), (''in-progress'', ''next''), (''doing'', ''next'')]"

definition normalizeTaskStatus :: "js \<Rightarrow> js" where
  "normalizeTaskStatus v =
     (case v of
        JStr s \<Rightarrow>
          if s \<in> set TASK_STATUS_VALUES then v
          else (let lowered = trim_str (lower s)
                in if lowered \<in> set TASK_STATUS_VALUES then JStr lowered
                   else (case map_of LEGACY_STATUS_MAP lowered of Some m \<Rightarrow> JStr m | None \<Rightarrow> JStr ''inbox''))
      | _ \<Rightarrow> JStr ''inbox'')"

definition isTaskFinished :: "js \<Rightarrow> bool" where
  "isTaskFinished status \<longleftrightarrow> status = JStr ''done'' \<or> status = JStr ''archived''"

definition isTaskActionable :: "js \<Rightarrow> bool" where
  "isTaskActionable status \<longleftrightarrow> status \<noteq> JStr ''done'' \<and> status \<noteq> JStr ''archived'' \<and> status \<noteq> JStr ''reference''"

text \<open>\<open>ISO_DATETIME_WITH_TIMEZONE\<close>: date, time and offset of a match.\<close>

definition iso_datetime_with_timezone :: "string \<Rightarrow> (int \<times> int \<times> int \<times> int \<times> int \<times> int \<times> int \<times> int) option" where
  "iso_datetime_with_timezone s =
     (case scan_ymd s of None \<Rightarrow> None | Some (y, m, d, r1) \<Rightarrow>
      (case scan_sep_num (CHR ''T'') 2 r1 of None \<Rightarrow> None | Some (hh, r2) \<Rightarrow>
       (case scan_sep_num (CHR '':'') 2 r2 of None \<Rightarrow> None | Some (mi, r3) \<Rightarrow>
        (case scan_sep_num (CHR '':'') 2 r3 of None \<Rightarrow> None | Some (sec, r4) \<Rightarrow>
         (let frac = (take 1 r4 = ''.''); ds = takeWhile js_digit (tl r4);
              r5 = (if frac \<and> ds \<noteq> [] then dropWhile js_digit (tl r4) else r4)
          in if r5 = ''Z'' then Some (y, m, d, hh, mi, sec, 0, 0)
             else if take 1 r5 = ''+'' \<or> take 1 r5 = ''-'' then
               (case scan_num 2 (tl r5) of None \<Rightarrow> None | Some (oh, r6) \<Rightarrow>
                 (case scan_sep_num (CHR '':'') 2 r6 of Some (om, []) \<Rightarrow> Some (y, m, d, hh, mi, sec, oh, om) | _ \<Rightarrow> None))
             else None)))))"

definition normalizeCancellationTimestamp :: "host \<Rightarrow> js \<Rightarrow> js" where
  "normalizeCancellationTimestamp h v =
     (case v of
        JStr s \<Rightarrow>
          (case iso_datetime_with_timezone s of
             None \<Rightarrow> JUndef
           | Some (year, month, day, hour, minute, second, offsetHour, offsetMinute) \<Rightarrow>
               if month < 1 \<or> 12 < month \<or> day < 1 \<or> days_in_month year month < day \<or> 23 < hour \<or> 59 < minute
                  \<or> 59 < second \<or> 23 < offsetHour \<or> 59 < offsetMinute then JUndef
               else if date_parse h s \<noteq> None then v else JUndef)
      | _ \<Rightarrow> JUndef)"

definition isTaskCancelled :: "host \<Rightarrow> entity \<Rightarrow> bool" where
  "isTaskCancelled h task \<longleftrightarrow>
     get task ''status'' = JStr ''archived'' \<and> normalizeCancellationTimestamp h (get task ''cancelledAt'') \<noteq> JUndef"

definition isTaskCompleted :: "host \<Rightarrow> entity \<Rightarrow> bool" where
  "isTaskCompleted h task \<longleftrightarrow> isTaskFinished (get task ''status'') \<and> \<not> isTaskCancelled h task"

definition isFutureStart :: "host \<Rightarrow> entity \<Rightarrow> string \<Rightarrow> bool" where
  "isFutureStart h task nowIso =
     (case (safeParseDate h (get task ''startTime''), date_parse h nowIso) of
        (Some start, Some now) \<Rightarrow> local_day_end h now < start | _ \<Rightarrow> False)"

definition lifecycle_fields :: "host \<Rightarrow> entity \<Rightarrow> (string \<times> js) list" where
  "lifecycle_fields h task =
     (let status = get task ''status'';
          cancelledAt = (if status = JStr ''archived'' then normalizeCancellationTimestamp h (get task ''cancelledAt'') else JUndef);
          completedAt = (if truthy cancelledAt then JUndef
             else if isTaskFinished status
             then or_else (or_else (get task ''completedAt'') (get task ''updatedAt'')) (get task ''createdAt'') else JUndef)
      in [(''cancelledAt'', cancelledAt), (''completedAt'', completedAt)] @
         (if isTaskFinished status then [(''isFocusedToday'', JBool False), (''focusOrder'', JUndef)] else []))"

definition normalizeTaskLifecycleFields :: "host \<Rightarrow> entity \<Rightarrow> entity" where
  "normalizeTaskLifecycleFields h task = keep_same task (puts task (lifecycle_fields h task))"

section \<open>Field normalisers\<close>

definition TIME_SPENT_MAX_MINUTES :: int where
  "TIME_SPENT_MAX_MINUTES = 100000"

definition normalizeTimeSpentMinutes :: "js \<Rightarrow> js" where
  "normalizeTimeSpentMinutes v =
     (case v of
        JNum q \<Rightarrow> (let rounded = round_half_up q
                   in if rounded \<le> 0 then JUndef else JNum (of_int (min rounded TIME_SPENT_MAX_MINUTES)))
      | _ \<Rightarrow> JUndef)"

definition addTimeSpentMinutes :: "js \<Rightarrow> js \<Rightarrow> js" where
  "addTimeSpentMinutes current addMinutes =
     normalizeTimeSpentMinutes
       (JNum (the_num (coalesce (normalizeTimeSpentMinutes current) (JNum 0))
            + the_num (coalesce (normalizeTimeSpentMinutes addMinutes) (JNum 0))))"

definition formatTimeSpentLabel :: "js \<Rightarrow> string option" where
  "formatTimeSpentLabel v =
     (case normalizeTimeSpentMinutes v of
        JNum q \<Rightarrow>
          (let minutes = \<lfloor>q\<rfloor>; hrs = minutes div 60; mins = minutes mod 60
           in if hrs \<le> 0 then Some (int_str mins @ ''m'')
              else if 0 < mins then Some (int_str hrs @ ''h '' @ int_str mins @ ''m'') else Some (int_str hrs @ ''h''))
      | _ \<Rightarrow> None)"

definition normalizeRepeatReminderMinutes :: "js \<Rightarrow> js" where
  "normalizeRepeatReminderMinutes v = (case v of JNum q \<Rightarrow> if q \<in> {5, 10, 15, 30, 60} then v else JUndef | _ \<Rightarrow> JUndef)"

definition normalizeRelativeStartOffset :: "js \<Rightarrow> js" where
  "normalizeRelativeStartOffset v =
     (case (get v ''unit'', get v ''amount'') of
        (JStr unit, JNum amount) \<Rightarrow>
          if is_obj v \<and> unit \<in> {''minute'', ''hour'', ''day'', ''week''} \<and> rat_is_int amount \<and> - 10000 \<le> amount \<and> amount \<le> 0
          then JObj [(''amount'', JNum amount), (''unit'', JStr unit)] else JUndef
      | _ \<Rightarrow> JUndef)"

section \<open>normalizeTaskForLoad\<close>

definition load_rev :: "js \<Rightarrow> js" where
  "load_rev v = (case v of JNum q \<Rightarrow> if rat_is_int q \<and> 0 \<le> q then JNum q else JNum 0 | _ \<Rightarrow> JNum 0)"

definition load_revBy :: "js \<Rightarrow> string" where
  "load_revBy v = (case v of JStr s \<Rightarrow> trim_str s | _ \<Rightarrow> [])"

definition load_order :: "entity \<Rightarrow> js" where
  "load_order task =
     (if finite_num (get task ''order'') then get task ''order''
      else if finite_num (get task ''orderNum'') then get task ''orderNum'' else JUndef)"

definition load_created :: "host \<Rightarrow> entity \<Rightarrow> string \<Rightarrow> string" where
  "load_created h task nowIso =
     (case get task ''createdAt'' of JStr s \<Rightarrow> if date_parse h s \<noteq> None then s else nowIso | _ \<Rightarrow> nowIso)"

definition load_updated :: "host \<Rightarrow> entity \<Rightarrow> string \<Rightarrow> string" where
  "load_updated h task nowIso =
     (let createdAtIso = load_created h task nowIso;
          updatedAtIso = (case get task ''updatedAt'' of JStr s \<Rightarrow> s | _ \<Rightarrow> createdAtIso)
      in (case date_parse h updatedAtIso of
            None \<Rightarrow> createdAtIso
          | Some u \<Rightarrow> (case date_parse h createdAtIso of
                         Some c \<Rightarrow> if u < c then createdAtIso else updatedAtIso
                       | None \<Rightarrow> updatedAtIso)))"

definition non_blank_or_undef :: "js \<Rightarrow> js" where
  "non_blank_or_undef v = (case v of JStr s \<Rightarrow> if non_blank s then v else JUndef | _ \<Rightarrow> JUndef)"

definition load_fields :: "host \<Rightarrow> entity \<Rightarrow> string \<Rightarrow> (string \<times> js) list" where
  "load_fields h task nowIso =
     (let projectId = non_blank_or_undef (get task ''projectId'');
          textDirection = get task ''textDirection''
      in [(''createdAt'', JStr (load_created h task nowIso)),
          (''updatedAt'', JStr (load_updated h task nowIso)),
          (''status'', normalizeTaskStatus (get task ''status'')),
          (''projectId'', projectId),
          (''areaId'', if projectId \<noteq> JUndef then JUndef else non_blank_or_undef (get task ''areaId'')),
          (''order'', load_order task),
          (''orderNum'', load_order task),
          (''recurrence'', normalizeRecurrenceForLoad h (get task ''recurrence'')),
          (''repeatReminderMinutes'', normalizeRepeatReminderMinutes (get task ''repeatReminderMinutes'')),
          (''timeSpentMinutes'', normalizeTimeSpentMinutes (get task ''timeSpentMinutes'')),
          (''relativeStartOffset'',
             if truthy (get task ''dueDate'') then normalizeRelativeStartOffset (get task ''relativeStartOffset'') else JUndef),
          (''rev'', load_rev (get task ''rev''))]
         @ entry_if (load_revBy (get task ''revBy'') \<noteq> []) ''revBy'' (JStr (load_revBy (get task ''revBy'')))
         @ entry_if (textDirection \<in> {JStr ''auto'', JStr ''ltr'', JStr ''rtl''}) ''textDirection'' textDirection
         @ entry_if (\<not> finite_num (get task ''pushCount'') \<and> \<not> truthy (get task ''purgedAt'')) ''pushCount'' (JNum 0))"

definition load_next :: "host \<Rightarrow> entity \<Rightarrow> string \<Rightarrow> entity" where
  "load_next h task nowIso = puts (del (del task ''rev'') ''revBy'') (load_fields h task nowIso)"

definition normalizeTaskForLoad :: "host \<Rightarrow> entity \<Rightarrow> string \<Rightarrow> entity" where
  "normalizeTaskForLoad h task nowIso =
     (let lifecycleNormalized = normalizeTaskLifecycleFields h (load_next h task nowIso);
          final = (if truthy (get lifecycleNormalized ''isFocusedToday'') \<and> isFutureStart h lifecycleNormalized nowIso
                   then puts lifecycleNormalized [(''isFocusedToday'', JBool False), (''focusOrder'', JUndef)]
                   else lifecycleNormalized)
      in keep_same task final)"

section \<open>Keeping identity keeps the values\<close>

lemma keep_same_own:
  assumes "obj_wf b"
  shows "has_own (keep_same a b) k = has_own b k"
proof (cases "sameShallowRecord a b")
  case True
  then have sub: "set (keys b) \<subseteq> set (keys a)" and len: "length (keys a) = length (keys b)"
    by (auto simp: sameShallowRecord_def list_all_iff has_own_def)
  have "card (set (keys a)) \<le> card (set (keys b))"
    using assms len card_length [of "keys a"] by (simp add: obj_wf_def distinct_card)
  with sub have "set (keys b) = set (keys a)" by (simp add: card_seteq)
  then show ?thesis using True by (simp add: keep_same_def has_own_def)
qed (simp add: keep_same_def)

lemma keep_same_get:
  assumes "obj_wf b"
  shows "get (keep_same a b) k = get b k"
proof (cases "sameShallowRecord a b \<and> has_own b k")
  case True
  then show ?thesis by (auto simp: keep_same_def sameShallowRecord_def list_all_iff has_own_def)
next
  case False
  then show ?thesis using keep_same_own [OF assms, of a k] get_not_own [of a k] get_not_own [of b k]
    by (auto simp: keep_same_def split: if_splits)
qed

lemma keep_same_wf: "obj_wf a \<Longrightarrow> obj_wf b \<Longrightarrow> obj_wf (keep_same a b)"
  by (simp add: keep_same_def)

text \<open>An object whose candidate has the same keys and values is kept.\<close>

lemma keep_same_fixed:
  assumes "obj_wf a" "obj_wf b" "\<And>k. has_own b k = has_own a k" "\<And>k. get b k = get a k"
  shows "keep_same a b = a"
proof -
  have "set (keys a) = set (keys b)" using assms(3) by (auto simp: has_own_def)
  then have "length (keys a) = length (keys b)"
    using assms(1,2) by (metis distinct_card obj_wf_def)
  then show ?thesis using assms(3,4) by (simp add: keep_same_def sameShallowRecord_def list_all_iff has_own_def)
qed

section \<open>The field normalisers are idempotent\<close>

lemma normalizeTaskStatus_valid: "normalizeTaskStatus v \<in> JStr ` set TASK_STATUS_VALUES"
proof -
  have "m \<in> set TASK_STATUS_VALUES" if "map_of LEGACY_STATUS_MAP x = Some m" for x m
    using that by (auto simp: LEGACY_STATUS_MAP_def TASK_STATUS_VALUES_def split: if_splits)
  moreover have "''inbox'' \<in> set TASK_STATUS_VALUES" by code_simp
  ultimately show ?thesis by (auto simp: normalizeTaskStatus_def Let_def split: js.split option.split)
qed

lemma normalizeTaskStatus_fixed: "s \<in> set TASK_STATUS_VALUES \<Longrightarrow> normalizeTaskStatus (JStr s) = JStr s"
  by (simp add: normalizeTaskStatus_def)

lemma normalizeTaskStatus_idem: "normalizeTaskStatus (normalizeTaskStatus v) = normalizeTaskStatus v"
  using normalizeTaskStatus_valid [of v] by (auto simp: normalizeTaskStatus_fixed)

lemma normalizeCancellation_idem:
  "normalizeCancellationTimestamp h (normalizeCancellationTimestamp h v) = normalizeCancellationTimestamp h v"
  by (auto simp: normalizeCancellationTimestamp_def split: js.splits option.splits if_splits prod.splits)

lemma round_of_int [simp]: "round_half_up (of_int n) = n"
  unfolding round_half_up_def by linarith

lemma normalizeTimeSpent_idem: "normalizeTimeSpentMinutes (normalizeTimeSpentMinutes v) = normalizeTimeSpentMinutes v"
  by (auto simp: normalizeTimeSpentMinutes_def Let_def TIME_SPENT_MAX_MINUTES_def min_def split: js.split)

lemma normalizeRepeat_idem: "normalizeRepeatReminderMinutes (normalizeRepeatReminderMinutes v) = normalizeRepeatReminderMinutes v"
  by (auto simp: normalizeRepeatReminderMinutes_def split: js.split)

lemma normalizeOffset_idem: "normalizeRelativeStartOffset (normalizeRelativeStartOffset v) = normalizeRelativeStartOffset v"
  by (auto simp: normalizeRelativeStartOffset_def split: js.splits if_splits)

lemma load_rev_idem: "load_rev (load_rev v) = load_rev v"
  by (auto simp: load_rev_def split: js.splits)

lemma non_blank_idem: "non_blank_or_undef (non_blank_or_undef v) = non_blank_or_undef v"
  by (auto simp: non_blank_or_undef_def split: js.splits)

section \<open>Loading a task\<close>

definition load_candidate :: "host \<Rightarrow> entity \<Rightarrow> string \<Rightarrow> entity" where
  "load_candidate h task nowIso =
     (let lifecycleNormalized = normalizeTaskLifecycleFields h (load_next h task nowIso)
      in (if truthy (get lifecycleNormalized ''isFocusedToday'') \<and> isFutureStart h lifecycleNormalized nowIso
                   then puts lifecycleNormalized [(''isFocusedToday'', JBool False), (''focusOrder'', JUndef)]
                   else lifecycleNormalized))"

lemma normalizeTaskForLoad_candidate: "normalizeTaskForLoad h t n = keep_same t (load_candidate h t n)"
  by (simp add: normalizeTaskForLoad_def load_candidate_def Let_def)

lemma load_next_wf: "obj_wf t \<Longrightarrow> obj_wf (load_next h t n)"
  by (simp add: load_next_def obj_wf_puts obj_wf_del)

lemma get_lifecycle:
  assumes "obj_wf t"
  shows "get (normalizeTaskLifecycleFields h (load_next h t n)) k = get (puts (load_next h t n) (lifecycle_fields h (load_next h t n))) k"
    and "has_own (normalizeTaskLifecycleFields h (load_next h t n)) k =
      has_own (puts (load_next h t n) (lifecycle_fields h (load_next h t n))) k"
    and "obj_wf (normalizeTaskLifecycleFields h (load_next h t n))"
  using load_next_wf [OF assms, of h n]
  by (simp_all add: normalizeTaskLifecycleFields_def keep_same_get keep_same_own keep_same_wf obj_wf_puts)

lemma load_candidate_wf: "obj_wf t \<Longrightarrow> obj_wf (load_candidate h t n)"
  unfolding load_candidate_def Let_def by (simp add: get_lifecycle load_next_wf obj_wf_put)

lemma get_load_next:
  "get (load_next h t n) k =
     (case map_of (load_fields h t n) k of Some x \<Rightarrow> x | None \<Rightarrow> if k = ''revBy'' then JUndef else get t k)"
proof -
  have d: "distinct (map fst (load_fields h t n))"
    by (simp add: load_fields_def Let_def entry_if_def)
  moreover have "\<exists>x. map_of (load_fields h t n) ''rev'' = Some x"
    by (simp add: load_fields_def Let_def)
  ultimately show ?thesis by (auto simp: load_next_def get_puts map_of_rev_same split: option.split)
qed


lemma get_candidate_plain:
  assumes "obj_wf t" "k \<notin> {''cancelledAt'', ''completedAt'', ''isFocusedToday'', ''focusOrder''}"
  shows "get (load_candidate h t n) k =
     (case map_of (load_fields h t n) k of Some x \<Rightarrow> x | None \<Rightarrow> if k = ''revBy'' then JUndef else get t k)"
proof -
  have "get (puts (load_next h t n) (lifecycle_fields h (load_next h t n))) k = get (load_next h t n) k"
    using assms(2) by (simp add: lifecycle_fields_def Let_def)
  moreover have "get (load_candidate h t n) k = get (normalizeTaskLifecycleFields h (load_next h t n)) k"
    using assms(2) by (simp add: load_candidate_def Let_def)
  ultimately show ?thesis by (simp only: get_lifecycle [OF assms(1)] get_load_next)
qed

lemma candidate_fields:
  assumes "obj_wf t"
  shows "get (load_candidate h t n) ''createdAt'' = JStr (load_created h t n)"
    and "get (load_candidate h t n) ''updatedAt'' = JStr (load_updated h t n)"
    and "get (load_candidate h t n) ''status'' = normalizeTaskStatus (get t ''status'')"
    and "get (load_candidate h t n) ''projectId'' = non_blank_or_undef (get t ''projectId'')"
    and "get (load_candidate h t n) ''areaId'' =
      (if non_blank_or_undef (get t ''projectId'') \<noteq> JUndef then JUndef else non_blank_or_undef (get t ''areaId''))"
    and "get (load_candidate h t n) ''order'' = load_order t"
    and "get (load_candidate h t n) ''orderNum'' = load_order t"
    and "get (load_candidate h t n) ''recurrence'' = normalizeRecurrenceForLoad h (get t ''recurrence'')"
    and "get (load_candidate h t n) ''repeatReminderMinutes'' = normalizeRepeatReminderMinutes (get t ''repeatReminderMinutes'')"
    and "get (load_candidate h t n) ''timeSpentMinutes'' = normalizeTimeSpentMinutes (get t ''timeSpentMinutes'')"
    and "get (load_candidate h t n) ''relativeStartOffset'' =
      (if truthy (get t ''dueDate'') then normalizeRelativeStartOffset (get t ''relativeStartOffset'') else JUndef)"
    and "get (load_candidate h t n) ''rev'' = load_rev (get t ''rev'')"
    and "get (load_candidate h t n) ''revBy'' = (if load_revBy (get t ''revBy'') \<noteq> [] then JStr (load_revBy (get t ''revBy'')) else JUndef)"
    and "get (load_candidate h t n) ''textDirection'' = get t ''textDirection''"
    and "get (load_candidate h t n) ''pushCount'' =
      (if finite_num (get t ''pushCount'') \<or> truthy (get t ''purgedAt'') then get t ''pushCount'' else JNum 0)"
    and "get (load_candidate h t n) ''purgedAt'' = get t ''purgedAt''"
    and "get (load_candidate h t n) ''dueDate'' = get t ''dueDate''"
    and "get (load_candidate h t n) ''startTime'' = get t ''startTime''"
  by (simp_all add: get_candidate_plain [OF assms] load_fields_def Let_def entry_if_def)


definition focus_fires :: "host \<Rightarrow> entity \<Rightarrow> string \<Rightarrow> bool" where
  "focus_fires h t n \<longleftrightarrow> \<not> isTaskFinished (normalizeTaskStatus (get t ''status''))
     \<and> truthy (get t ''isFocusedToday'') \<and> isFutureStart h t n"

lemma next_fields:
  "get (load_next h t n) ''status'' = normalizeTaskStatus (get t ''status'')"
  "get (load_next h t n) ''isFocusedToday'' = get t ''isFocusedToday''"
  "get (load_next h t n) ''focusOrder'' = get t ''focusOrder''"
  "get (load_next h t n) ''cancelledAt'' = get t ''cancelledAt''"
  "get (load_next h t n) ''completedAt'' = get t ''completedAt''"
  "get (load_next h t n) ''createdAt'' = JStr (load_created h t n)"
  "get (load_next h t n) ''updatedAt'' = JStr (load_updated h t n)"
  "get (load_next h t n) ''startTime'' = get t ''startTime''"
  by (simp_all add: get_load_next load_fields_def Let_def entry_if_def)

lemma candidate_fires:
  assumes "obj_wf t"
  shows "load_candidate h t n =
     (if focus_fires h t n
      then puts (normalizeTaskLifecycleFields h (load_next h t n)) [(''isFocusedToday'', JBool False), (''focusOrder'', JUndef)]
      else normalizeTaskLifecycleFields h (load_next h t n))"
proof -
  let ?l = "normalizeTaskLifecycleFields h (load_next h t n)"
  have "get ?l ''isFocusedToday'' =
      (if isTaskFinished (normalizeTaskStatus (get t ''status'')) then JBool False else get t ''isFocusedToday'')"
    "get ?l ''startTime'' = get t ''startTime''"
    by (simp_all add: get_lifecycle [OF assms] lifecycle_fields_def Let_def next_fields)
  then show ?thesis by (simp add: load_candidate_def Let_def focus_fires_def isFutureStart_def)
qed

lemma candidate_lifecycle:
  assumes "obj_wf t"
  shows "get (load_candidate h t n) ''cancelledAt'' =
     (if normalizeTaskStatus (get t ''status'') = JStr ''archived''
      then normalizeCancellationTimestamp h (get t ''cancelledAt'') else JUndef)"
  and "get (load_candidate h t n) ''completedAt'' =
     (if truthy (get (load_candidate h t n) ''cancelledAt'') then JUndef
      else if isTaskFinished (normalizeTaskStatus (get t ''status''))
      then or_else (or_else (get t ''completedAt'') (JStr (load_updated h t n))) (JStr (load_created h t n)) else JUndef)"
  and "get (load_candidate h t n) ''isFocusedToday'' =
     (if isTaskFinished (normalizeTaskStatus (get t ''status'')) \<or> focus_fires h t n then JBool False
      else get t ''isFocusedToday'')"
  and "get (load_candidate h t n) ''focusOrder'' =
     (if isTaskFinished (normalizeTaskStatus (get t ''status'')) \<or> focus_fires h t n then JUndef else get t ''focusOrder'')"
  by (simp_all add: candidate_fires [OF assms] get_lifecycle [OF assms] lifecycle_fields_def Let_def next_fields)

lemma candidate_own:
  assumes "obj_wf t"
  shows "has_own (load_candidate h t n) k \<longleftrightarrow>
     k \<in> fst ` set (load_fields h t n) \<or> k \<in> {''cancelledAt'', ''completedAt''}
     \<or> (isTaskFinished (normalizeTaskStatus (get t ''status'')) \<or> focus_fires h t n) \<and> k \<in> {''isFocusedToday'', ''focusOrder''}
     \<or> has_own t k \<and> k \<noteq> ''rev'' \<and> k \<noteq> ''revBy''"
proof -
  have n: "has_own (load_next h t n) k \<longleftrightarrow> k \<in> fst ` set (load_fields h t n) \<or> has_own t k \<and> k \<noteq> ''rev'' \<and> k \<noteq> ''revBy''"
    by (auto simp: load_next_def has_own_puts)
  have l: "fst ` set (lifecycle_fields h (load_next h t n)) =
      {''cancelledAt'', ''completedAt''} \<union> (if isTaskFinished (normalizeTaskStatus (get t ''status'')) then {''isFocusedToday'', ''focusOrder''} else {})"
    by (cases "isTaskFinished (normalizeTaskStatus (get t ''status''))")
       (simp_all only: lifecycle_fields_def Let_def next_fields if_True if_False set_append list.set image_Un image_insert
          image_empty fst_conv insert_is_Un [symmetric] Un_empty_right Un_insert_left Un_empty_left)
  show ?thesis
    unfolding candidate_fires [OF assms]
    by (cases "focus_fires h t n"; cases "isTaskFinished (normalizeTaskStatus (get t ''status''))")
       (simp_all only: if_True if_False has_own_puts get_lifecycle [OF assms] l n, auto)
qed


lemma get_normalizeTaskForLoad:
  assumes "obj_wf t"
  shows "get (normalizeTaskForLoad h t n) k = get (load_candidate h t n) k"
    and "has_own (normalizeTaskForLoad h t n) k = has_own (load_candidate h t n) k"
    and "obj_wf (normalizeTaskForLoad h t n)"
  using assms load_candidate_wf [OF assms, of h n]
  by (simp_all add: normalizeTaskForLoad_candidate keep_same_get keep_same_own keep_same_wf)

lemma load_created_fixed: "get u ''createdAt'' = JStr (load_created h t n) \<Longrightarrow> load_created h u n = load_created h t n"
  by (auto simp: load_created_def split: js.split)

lemma load_updated_fixed:
  assumes "get u ''createdAt'' = JStr (load_created h t n)" "get u ''updatedAt'' = JStr (load_updated h t n)"
  shows "load_updated h u n = load_updated h t n"
  using assms(2) unfolding load_updated_def [of h u] load_created_fixed [OF assms(1)]
  by (auto simp: load_updated_def Let_def split: option.split js.split)

lemma fst_entry_if: "fst ` set (entry_if b k v) = (if b then {k} else {})"
  by (simp add: entry_if_def)

definition LOAD_KEYS :: "string set" where
  "LOAD_KEYS = {''createdAt'', ''updatedAt'', ''status'', ''projectId'', ''areaId'', ''order'', ''orderNum'', ''recurrence'',
      ''repeatReminderMinutes'', ''timeSpentMinutes'', ''relativeStartOffset'', ''rev''}"

definition only_if :: "bool \<Rightarrow> 'a set \<Rightarrow> 'a set" where
  "only_if b A = (if b then A else {})"

lemma only_if_simps [simp]: "only_if True A = A" "only_if False A = {}"
  by (simp_all add: only_if_def)

lemma only_if_subset: "only_if b A \<subseteq> A"
  by (simp add: only_if_def)

lemma load_fields_names:
  "fst ` set (load_fields h t n) = LOAD_KEYS
     \<union> only_if (load_revBy (get t ''revBy'') \<noteq> []) {''revBy''}
     \<union> only_if (get t ''textDirection'' \<in> {JStr ''auto'', JStr ''ltr'', JStr ''rtl''}) {''textDirection''}
     \<union> only_if (\<not> finite_num (get t ''pushCount'') \<and> \<not> truthy (get t ''purgedAt'')) {''pushCount''}"
  by (simp only: load_fields_def LOAD_KEYS_def Let_def only_if_def fst_entry_if set_append list.set image_Un image_insert image_empty
      fst_conv Un_insert_left Un_empty_left Un_assoc)

lemma load_fields_names_subset:
  "fst ` set (load_fields h t n) \<subseteq> LOAD_KEYS \<union> {''revBy''} \<union> {''textDirection''} \<union> {''pushCount''}"
  unfolding load_fields_names by (intro Un_mono subset_refl only_if_subset)

lemma names_cover:
  "N \<subseteq> L \<union> {a} \<union> {b} \<union> {c} \<Longrightarrow> k \<in> N \<or> k = a \<or> k \<in> {d, e, f, g} \<Longrightarrow> k \<in> L \<or> k \<in> {a, b, c, d, e, f, g}"
  by blast

lemma names_agree:
  assumes "r \<in> L" "rb \<noteq> pc" "Nu = L \<union> A \<union> B \<union> {}" "Nt = L \<union> A \<union> B \<union> only_if p {pc}"
  shows "k \<in> Nu \<Longrightarrow> k \<in> Nt" "k = r \<Longrightarrow> k \<in> Nu" "k = rb \<Longrightarrow> k \<in> Nt \<Longrightarrow> k \<in> Nu"
  using assms by (auto simp: only_if_def split: if_splits)

lemma get_candidate_other:
  assumes "obj_wf t" "k \<notin> fst ` set (load_fields h t n)" "k \<noteq> ''revBy''"
    "k \<notin> {''cancelledAt'', ''completedAt'', ''isFocusedToday'', ''focusOrder''}"
  shows "get (load_candidate h t n) k = get t k"
  using assms by (simp add: get_candidate_plain map_of_eq_None_iff [THEN iffD2])

lemma focus_fires_settled: "obj_wf t \<Longrightarrow> \<not> focus_fires h (normalizeTaskForLoad h t n) n"
  by (auto simp: focus_fires_def get_normalizeTaskForLoad candidate_lifecycle candidate_fields normalizeTaskStatus_idem
      isFutureStart_def split: if_splits)


lemma settled_value:
  fixes h :: host and t :: entity and n :: string
  assumes "obj_wf t" "normalizeRecurrenceForLoad h (normalizeRecurrenceForLoad h (get t ''recurrence''))
    = normalizeRecurrenceForLoad h (get t ''recurrence'')"
  shows "get (load_candidate h (normalizeTaskForLoad h t n) n) k = get (normalizeTaskForLoad h t n) k"
proof -
  let ?u = "normalizeTaskForLoad h t n"
  note wf = get_normalizeTaskForLoad(3) [OF assms(1), of h n]
  note gu = get_normalizeTaskForLoad(1) [OF assms(1), of h n]
  note cu = candidate_fields [OF wf, of h n] and lu = candidate_lifecycle [OF wf, of h n]
  note ct = candidate_fields [OF assms(1), of h n] and lt = candidate_lifecycle [OF assms(1), of h n]
  have created: "load_created h ?u n = load_created h t n" by (rule load_created_fixed) (simp add: gu ct)
  have updated: "load_updated h ?u n = load_updated h t n" by (rule load_updated_fixed) (simp_all add: gu ct)
  have order: "load_order ?u = load_order t" by (auto simp: load_order_def gu ct)
  have status: "normalizeTaskStatus (get ?u ''status'') = normalizeTaskStatus (get t ''status'')"
    by (simp add: gu ct normalizeTaskStatus_idem)
  have revBy: "load_revBy (get ?u ''revBy'') = load_revBy (get t ''revBy'')"
    by (auto simp: gu ct load_revBy_def split: js.splits)
  have project: "non_blank_or_undef (get ?u ''projectId'') = get ?u ''projectId''"
    by (simp add: gu ct non_blank_idem)
  note calm = focus_fires_settled [OF assms(1), of h n]
  have life: "get (load_candidate h ?u n) ''cancelledAt'' = get ?u ''cancelledAt''"
    "get (load_candidate h ?u n) ''completedAt'' = get ?u ''completedAt''"
    "get (load_candidate h ?u n) ''isFocusedToday'' = get ?u ''isFocusedToday''"
    "get (load_candidate h ?u n) ''focusOrder'' = get ?u ''focusOrder''"
  proof -
    show c: "get (load_candidate h ?u n) ''cancelledAt'' = get ?u ''cancelledAt''"
      by (simp only: lu(1) status) (simp add: gu lt normalizeCancellation_idem)
    show "get (load_candidate h ?u n) ''completedAt'' = get ?u ''completedAt''"
      by (simp only: lu(2) c status created updated) (simp add: gu lt(2) or_else_def)
    show "get (load_candidate h ?u n) ''isFocusedToday'' = get ?u ''isFocusedToday''"
      by (simp only: lu(3) status calm) (simp add: gu lt(3))
    show "get (load_candidate h ?u n) ''focusOrder'' = get ?u ''focusOrder''"
      by (simp only: lu(4) status calm) (simp add: gu lt(4))
  qed
  show ?thesis
  proof (cases "k \<in> fst ` set (load_fields h ?u n) \<or> k = ''revBy''
      \<or> k \<in> {''cancelledAt'', ''completedAt'', ''isFocusedToday'', ''focusOrder''}")
    case False
    then show ?thesis unfolding de_Morgan_disj by (elim conjE) (rule get_candidate_other [OF wf])
  next
    case True
    have plain: "get (load_candidate h ?u n) ''createdAt'' = get ?u ''createdAt''"
      "get (load_candidate h ?u n) ''updatedAt'' = get ?u ''updatedAt''"
      "get (load_candidate h ?u n) ''status'' = get ?u ''status''"
      "get (load_candidate h ?u n) ''projectId'' = get ?u ''projectId''"
      "get (load_candidate h ?u n) ''areaId'' = get ?u ''areaId''"
      "get (load_candidate h ?u n) ''order'' = get ?u ''order''"
      "get (load_candidate h ?u n) ''orderNum'' = get ?u ''orderNum''"
      "get (load_candidate h ?u n) ''recurrence'' = get ?u ''recurrence''"
      "get (load_candidate h ?u n) ''repeatReminderMinutes'' = get ?u ''repeatReminderMinutes''"
      "get (load_candidate h ?u n) ''timeSpentMinutes'' = get ?u ''timeSpentMinutes''"
      "get (load_candidate h ?u n) ''relativeStartOffset'' = get ?u ''relativeStartOffset''"
      "get (load_candidate h ?u n) ''rev'' = get ?u ''rev''"
      "get (load_candidate h ?u n) ''revBy'' = get ?u ''revBy''"
      "get (load_candidate h ?u n) ''textDirection'' = get ?u ''textDirection''"
      "get (load_candidate h ?u n) ''pushCount'' = get ?u ''pushCount''"
      subgoal by (simp only: cu created) (simp only: gu ct)
      subgoal by (simp only: cu updated) (simp only: gu ct)
      subgoal by (simp only: cu status) (simp only: gu ct)
      subgoal by (simp only: cu project)
      subgoal by (simp only: cu project) (simp add: gu ct non_blank_idem)
      subgoal by (simp only: cu order) (simp only: gu ct)
      subgoal by (simp only: cu order) (simp only: gu ct)
      subgoal by (simp only: cu) (simp only: gu ct assms(2))
      subgoal by (simp only: cu) (simp only: gu ct normalizeRepeat_idem)
      subgoal by (simp only: cu) (simp only: gu ct normalizeTimeSpent_idem)
      subgoal by (simp only: cu) (simp add: gu ct normalizeOffset_idem)
      subgoal by (simp only: cu) (simp only: gu ct load_rev_idem)
      subgoal by (simp only: cu revBy) (simp only: gu ct)
      subgoal by (simp only: cu)
      subgoal by (simp only: cu) (simp add: gu ct)
      done
    have "k \<in> LOAD_KEYS \<or> k \<in> {''revBy'', ''textDirection'', ''pushCount'', ''cancelledAt'', ''completedAt'', ''isFocusedToday'', ''focusOrder''}"
      by (rule names_cover [OF load_fields_names_subset True])
    then show ?thesis using plain life unfolding LOAD_KEYS_def by (elim disjE insertE emptyE) (simp_all only:)
  qed
qed

lemma settled_own:
  assumes "obj_wf t"
  shows "has_own (load_candidate h (normalizeTaskForLoad h t n) n) k = has_own (normalizeTaskForLoad h t n) k"
proof -
  let ?u = "normalizeTaskForLoad h t n"
  note wf = get_normalizeTaskForLoad(3) [OF assms(1), of h n]
  note gu = get_normalizeTaskForLoad(1) [OF assms(1), of h n]
  note ct = candidate_fields [OF assms(1), of h n]
  have revBy: "load_revBy (get ?u ''revBy'') = load_revBy (get t ''revBy'')"
    by (auto simp: gu ct load_revBy_def split: js.splits)
  have calm: "(\<not> finite_num (get ?u ''pushCount'') \<and> \<not> truthy (get ?u ''purgedAt'')) = False"
    by (simp add: gu ct)
  have direction: "get ?u ''textDirection'' = get t ''textDirection''" by (simp only: gu ct)
  have key: "''rev'' \<in> LOAD_KEYS" "''revBy'' \<noteq> ''pushCount''" by (simp_all add: LOAD_KEYS_def)
  have names: "k \<in> fst ` set (load_fields h ?u n) \<Longrightarrow> k \<in> fst ` set (load_fields h t n)"
    "k = ''rev'' \<Longrightarrow> k \<in> fst ` set (load_fields h ?u n)"
    "k = ''revBy'' \<Longrightarrow> k \<in> fst ` set (load_fields h t n) \<Longrightarrow> k \<in> fst ` set (load_fields h ?u n)"
    using names_agree [OF key load_fields_names [of h ?u n, unfolded revBy calm direction only_if_simps] load_fields_names [of h t n], of k]
    by blast+
  have status: "normalizeTaskStatus (get ?u ''status'') = normalizeTaskStatus (get t ''status'')"
    by (simp add: gu ct normalizeTaskStatus_idem)
  have other: "k = ''revBy'' \<Longrightarrow> k \<notin> {''cancelledAt'', ''completedAt''} \<and> k \<notin> {''isFocusedToday'', ''focusOrder''}"
    by simp
  note own = candidate_own [OF wf, of h n k, unfolded status] get_normalizeTaskForLoad(2) [OF assms, of h n k]
    candidate_own [OF assms, of h n k]
  define Nu Nt X Y F G Q where "Nu = (k \<in> fst ` set (load_fields h ?u n))" and "Nt = (k \<in> fst ` set (load_fields h t n))"
    and "X = (k \<in> {''cancelledAt'', ''completedAt''})" and "Y = (k \<in> {''isFocusedToday'', ''focusOrder''})"
    and "F = isTaskFinished (normalizeTaskStatus (get t ''status''))" and "G = focus_fires h t n"
    and "Q = has_own t k"
  show ?thesis
    using names other focus_fires_settled [OF assms, of h n] own
    unfolding Nu_def [symmetric] Nt_def [symmetric] X_def [symmetric] Y_def [symmetric] F_def [symmetric]
      G_def [symmetric] Q_def [symmetric] by satx
qed


text \<open>
  Loading is a fixed point: loading a loaded task again at the same time returns it
  unchanged (the same keys with the same values in the same order), provided its recurrence is
  already in normal form. A task that kept changing under its own normaliser would be rewritten
  on every sync cycle.
\<close>

theorem normalizeTaskForLoad_fixed:
  assumes "obj_wf t" "normalizeRecurrenceForLoad h (normalizeRecurrenceForLoad h (get t ''recurrence''))
    = normalizeRecurrenceForLoad h (get t ''recurrence'')"
  shows "normalizeTaskForLoad h (normalizeTaskForLoad h t nowIso) nowIso = normalizeTaskForLoad h t nowIso"
proof -
  note wf = get_normalizeTaskForLoad(3) [OF assms(1), of h nowIso]
  show ?thesis
    unfolding normalizeTaskForLoad_candidate [of h "normalizeTaskForLoad h t nowIso"]
    by (rule keep_same_fixed [OF wf load_candidate_wf [OF wf] settled_own [OF assms(1)] settled_value [OF assms]])
qed

lemma load_order_time:
  assumes "date_parse h n \<noteq> None"
  shows "\<exists>c u. date_parse h (load_created h t n) = Some c \<and> date_parse h (load_updated h t n) = Some u \<and> c \<le> u"
proof -
  have "date_parse h (load_created h t n) \<noteq> None" using assms by (simp add: load_created_def split: js.split)
  then show ?thesis by (auto simp: load_updated_def Let_def split: option.split)
qed

text \<open>
  C23. What every loaded task satisfies, whatever the stored object held: a known status, a
  creation time and an update time that parse and are in order, a valid revision, no area
  beside a project, no completion or cancellation time unless the task is finished and never
  both, and no focus on a finished task.
\<close>

theorem loaded_task_invariant:
  assumes "obj_wf t" "date_parse h nowIso \<noteq> None"
  shows "let u = normalizeTaskForLoad h t nowIso in
      get u ''status'' \<in> JStr ` set TASK_STATUS_VALUES
    \<and> (\<exists>c d. parse_js h (get u ''createdAt'') = Some c \<and> parse_js h (get u ''updatedAt'') = Some d \<and> c \<le> d)
    \<and> isValidRevision (get u ''rev'')
    \<and> \<not> (truthy (get u ''projectId'') \<and> truthy (get u ''areaId''))
    \<and> \<not> (truthy (get u ''completedAt'') \<and> truthy (get u ''cancelledAt''))
    \<and> (if isTaskFinished (get u ''status'') then get u ''isFocusedToday'' = JBool False
       else get u ''completedAt'' = JUndef \<and> get u ''cancelledAt'' = JUndef)"
proof -
  have "\<not> (truthy (get (normalizeTaskForLoad h t nowIso) ''projectId'') \<and> truthy (get (normalizeTaskForLoad h t nowIso) ''areaId''))"
    by (auto simp: get_normalizeTaskForLoad [OF assms(1)] candidate_fields [OF assms(1)])
  then show ?thesis
    using load_order_time [OF assms(2), of t] normalizeTaskStatus_valid [of "get t ''status''"]
    by (auto simp: Let_def get_normalizeTaskForLoad [OF assms(1)] candidate_fields [OF assms(1)]
        candidate_lifecycle [OF assms(1)] load_rev_def isTaskFinished_def split: js.split)
qed

definition stored_task :: entity where
  "stored_task = JObj [(''id'', JStr ''t1''), (''title'', JStr ''Buy milk''), (''status'', JStr '' Done''), (''isFocusedToday'', JBool True),
     (''projectId'', JStr ''p1''), (''areaId'', JStr ''a1'')]"

lemma stored_task_wf: "obj_wf stored_task" "get stored_task ''recurrence'' = JUndef"
  by (simp_all add: stored_task_def obj_wf_def keys_def)

theorem normalizeTaskForLoad_fixed_witness:
  "obj_wf stored_task \<and> normalizeTaskForLoad host0 (normalizeTaskForLoad host0 stored_task ''2024-01-01T00:00:00.000Z'') ''2024-01-01T00:00:00.000Z''
     = normalizeTaskForLoad host0 stored_task ''2024-01-01T00:00:00.000Z''"
proof -
  have "normalizeRecurrenceForLoad host0 (normalizeRecurrenceForLoad host0 (get stored_task ''recurrence''))
      = normalizeRecurrenceForLoad host0 (get stored_task ''recurrence'')"
    by (simp only: stored_task_wf(2)) (simp add: normalizeRecurrenceForLoad_def)
  from normalizeTaskForLoad_fixed [OF stored_task_wf(1) this] stored_task_wf(1) show ?thesis by blast
qed

theorem loaded_task_invariant_witness:
  "get (normalizeTaskForLoad host0 stored_task ''2024-01-01T00:00:00.000Z'') ''status'' \<in> JStr ` set TASK_STATUS_VALUES
   \<and> date_parse host0 ''2024-01-01T00:00:00.000Z'' \<noteq> None"
proof -
  have "date_parse host0 ''2024-01-01T00:00:00.000Z'' \<noteq> None" by code_simp
  with loaded_task_invariant [OF stored_task_wf(1) this, unfolded Let_def, THEN conjunct1] show ?thesis by blast
qed

end
