(* ===== verification/Tombstone_Compaction.thy ===== *)
theory Tombstone_Compaction
  imports Sync_Revision
begin

text \<open>
  Compaction of purged tombstones (\<^verbatim>\<open>packages/core/src/tombstone-compaction.ts\<close>): an entity
  removed from the trash stays in the document as a tombstone that keeps only its conflict
  metadata. A tombstone that still carries other values is compacted and takes one repair
  revision; the lemmas show that a compacted tombstone is never found uncompacted again,
  which is what stops the repair from bumping revisions in every cycle.
\<close>

section \<open>The compacted shapes\<close>

definition SQLITE_NEUTRAL_FALSE_FIELDS :: "string list" where
  "SQLITE_NEUTRAL_FALSE_FIELDS =
     [''showFutureRecurrence'', ''isFocusedToday'', ''suppressMindwtrReminders'', ''isSequential'',
      ''isFocused'', ''isCollapsed'']"

definition NEUTRAL_ZERO_FIELDS :: "string list" where
  "NEUTRAL_ZERO_FIELDS = [''pushCount'']"

definition hasValuesOutsideCompactedTombstone :: "js \<Rightarrow> js \<Rightarrow> bool" where
  "hasValuesOutsideCompactedTombstone v compacted \<longleftrightarrow>
     (\<exists>(key, item) \<in> set (props v).
        item \<noteq> JUndef
        \<and> \<not> (item = JNull \<and> get compacted key = JUndef)
        \<and> \<not> (item = JBool False \<and> get compacted key = JUndef \<and> key \<in> set SQLITE_NEUTRAL_FALSE_FIELDS)
        \<and> \<not> (item = JNum 0 \<and> get compacted key = JUndef \<and> key \<in> set NEUTRAL_ZERO_FIELDS)
        \<and> json item \<noteq> json (get compacted key))"

definition compactPurgedTaskTombstone :: "entity \<Rightarrow> entity" where
  "compactPurgedTaskTombstone task =
     (if \<not> truthy (get task ''purgedAt'') then task
      else JObj
        [(''id'', get task ''id''),
         (''title'', JStr ''(deleted)''),
         (''status'', JStr ''inbox''),
         (''tags'', JArr []),
         (''contexts'', JArr []),
         (''rev'', get task ''rev''),
         (''revBy'', get task ''revBy''),
         (''createdAt'', get task ''updatedAt''),
         (''updatedAt'', get task ''updatedAt''),
         (''deletedAt'', get task ''purgedAt''),
         (''purgedAt'', get task ''purgedAt'')])"

definition compactPurgedProjectTombstone :: "entity \<Rightarrow> entity" where
  "compactPurgedProjectTombstone project =
     (if \<not> truthy (get project ''purgedAt'') then project
      else JObj
        [(''id'', get project ''id''),
         (''title'', JStr ''(deleted)''),
         (''status'', JStr ''active''),
         (''color'', JStr ''#6B7280''),
         (''order'', JNum 0),
         (''tagIds'', JArr []),
         (''rev'', get project ''rev''),
         (''revBy'', get project ''revBy''),
         (''createdAt'', get project ''updatedAt''),
         (''updatedAt'', get project ''updatedAt''),
         (''deletedAt'', get project ''purgedAt''),
         (''purgedAt'', get project ''purgedAt'')])"

definition compactPurgedProjectSectionTombstone :: "entity \<Rightarrow> js \<Rightarrow> entity" where
  "compactPurgedProjectSectionTombstone section purgedAt = JObj
     [(''id'', get section ''id''),
      (''projectId'', get section ''projectId''),
      (''title'', JStr ''''),
      (''order'', JNum 0),
      (''rev'', get section ''rev''),
      (''revBy'', get section ''revBy''),
      (''createdAt'', purgedAt),
      (''updatedAt'', purgedAt),
      (''deletedAt'', purgedAt)]"

definition stampRepair :: "entity \<Rightarrow> entity \<Rightarrow> entity" where
  "stampRepair compacted original =
     puts compacted [(''rev'', JNum (nextRevision (get original ''rev''))), (''revBy'', JStr SYNC_REPAIR_REV_BY)]"

text \<open>The map from project ids to purge times that \<open>compactSectionsForPurgedProjects\<close> builds.\<close>

definition purgedAtByProjectId :: "entity list \<Rightarrow> (js \<times> js) list" where
  "purgedAtByProjectId projects =
     js_map (map (\<lambda>p. (get p ''id'', get p ''purgedAt'')) (filter (\<lambda>p. truthy (get p ''purgedAt'')) projects))"

definition compactSection :: "bool \<Rightarrow> (js \<times> js) list \<Rightarrow> entity \<Rightarrow> entity" where
  "compactSection stampCompactionRevision purged section =
     (case map_of purged (get section ''projectId'') of
        None \<Rightarrow> section
      | Some purgedAt \<Rightarrow>
          (if \<not> truthy purgedAt then section
           else
             let compacted = compactPurgedProjectSectionTombstone section purgedAt
             in if \<not> stampCompactionRevision \<or> \<not> hasValuesOutsideCompactedTombstone section compacted
                then compacted else stampRepair compacted section))"

definition compactSectionsForPurgedProjects :: "entity list \<Rightarrow> entity list \<Rightarrow> bool \<Rightarrow> entity list" where
  "compactSectionsForPurgedProjects sections projects stampCompactionRevision =
     map (compactSection stampCompactionRevision (purgedAtByProjectId projects)) sections"

definition compactAttachmentCleanupMetadata :: "js \<Rightarrow> js" where
  "compactAttachmentCleanupMetadata attachments =
     (let files = map (\<lambda>a. JObj
            [(''id'', get a ''id''), (''kind'', get a ''kind''), (''title'', JStr ''''), (''uri'', get a ''uri''),
             (''createdAt'', get a ''createdAt''), (''updatedAt'', get a ''updatedAt'')])
          (filter (\<lambda>a. get a ''kind'' = JStr ''file'' \<and> truthy (get a ''uri'')) (elems attachments))
      in if files = [] then JUndef else JArr files)"

definition compactPurgedTaskForLocalStorage :: "entity \<Rightarrow> entity" where
  "compactPurgedTaskForLocalStorage task =
     (if truthy (get task ''purgedAt'')
      then put (compactPurgedTaskTombstone task) ''attachments''
             (compactAttachmentCleanupMetadata (get task ''attachments''))
      else task)"

definition compactPurgedProjectForLocalStorage :: "entity \<Rightarrow> entity" where
  "compactPurgedProjectForLocalStorage project =
     (if truthy (get project ''purgedAt'')
      then put (compactPurgedProjectTombstone project) ''attachments''
             (compactAttachmentCleanupMetadata (get project ''attachments''))
      else project)"

section \<open>Which tombstones are still uncompacted\<close>

definition hasUncompactedPurgedTaskTombstone :: "entity \<Rightarrow> bool \<Rightarrow> bool" where
  "hasUncompactedPurgedTaskTombstone task preserveLocalCleanupMetadata =
     (if \<not> truthy (get task ''purgedAt'') then False
      else
        let localCompacted = compactPurgedTaskForLocalStorage task;
            compacted = (if preserveLocalCleanupMetadata
                \<or> json (get task ''attachments'') = json (get localCompacted ''attachments'')
              then localCompacted else compactPurgedTaskTombstone task)
        in hasValuesOutsideCompactedTombstone task compacted)"

definition hasUncompactedPurgedProjectTombstone :: "entity \<Rightarrow> bool \<Rightarrow> bool" where
  "hasUncompactedPurgedProjectTombstone project preserveLocalCleanupMetadata =
     (if \<not> truthy (get project ''purgedAt'') then False
      else
        let localCompacted = compactPurgedProjectForLocalStorage project;
            compacted = (if preserveLocalCleanupMetadata
                \<or> json (get project ''attachments'') = json (get localCompacted ''attachments'')
              then localCompacted else compactPurgedProjectTombstone project)
        in hasValuesOutsideCompactedTombstone project compacted)"

definition hasUncompactedPurgedTombstones :: "entity list \<Rightarrow> entity list \<Rightarrow> entity list \<Rightarrow> bool" where
  "hasUncompactedPurgedTombstones tasks projects sections \<longleftrightarrow>
     list_ex (\<lambda>t. hasUncompactedPurgedTaskTombstone t False) tasks
     \<or> list_ex (\<lambda>p. hasUncompactedPurgedProjectTombstone p False) projects
     \<or> list_ex (\<lambda>(section, compact). section \<noteq> compact \<and> hasValuesOutsideCompactedTombstone section compact)
         (zip sections (compactSectionsForPurgedProjects sections projects False))"

section \<open>Compaction reaches a fixed point\<close>

text \<open>A value whose entries all agree with the compacted one carries nothing outside it.\<close>

lemma no_values_outside:
  "(\<And>key item. (key, item) \<in> set (props v) \<Longrightarrow> item = get c key) \<Longrightarrow> \<not> hasValuesOutsideCompactedTombstone v c"
  by (auto simp: hasValuesOutsideCompactedTombstone_def)

lemma compactAttachmentCleanupMetadata_idem:
  "compactAttachmentCleanupMetadata (compactAttachmentCleanupMetadata a) = compactAttachmentCleanupMetadata a"
proof -
  let ?g = "\<lambda>a. JObj [(''id'', get a ''id''), (''kind'', get a ''kind''), (''title'', JStr ''''),
    (''uri'', get a ''uri''), (''createdAt'', get a ''createdAt''), (''updatedAt'', get a ''updatedAt'')]"
  let ?P = "\<lambda>a. get a ''kind'' = JStr ''file'' \<and> truthy (get a ''uri'')"
  have "filter ?P (map ?g (filter ?P xs)) = map ?g (filter ?P xs)" for xs
    by (induction xs) auto
  moreover have "map ?g (map ?g ys) = map ?g ys" for ys by simp
  ultimately show ?thesis by (simp add: compactAttachmentCleanupMetadata_def Let_def)
qed

lemma compactPurgedTaskTombstone_idem:
  "compactPurgedTaskTombstone (compactPurgedTaskTombstone t) = compactPurgedTaskTombstone t"
  by (simp add: compactPurgedTaskTombstone_def)

lemma compactPurgedProjectTombstone_idem:
  "compactPurgedProjectTombstone (compactPurgedProjectTombstone p) = compactPurgedProjectTombstone p"
  by (simp add: compactPurgedProjectTombstone_def)

lemma get_compacted_task:
  assumes "truthy (get t ''purgedAt'')"
  shows "get (compactPurgedTaskTombstone t) ''id'' = get t ''id''"
    "get (compactPurgedTaskTombstone t) ''purgedAt'' = get t ''purgedAt''"
    "get (compactPurgedTaskTombstone t) ''updatedAt'' = get t ''updatedAt''"
    "get (compactPurgedTaskTombstone t) ''attachments'' = JUndef"
  using assms by (simp_all add: compactPurgedTaskTombstone_def)

lemma get_compactPurgedTaskForLocalStorage:
  "truthy (get t ''purgedAt'') \<Longrightarrow>
   get (compactPurgedTaskForLocalStorage t) k =
     (if k = ''attachments'' then compactAttachmentCleanupMetadata (get t ''attachments'')
      else get (compactPurgedTaskTombstone t) k)"
  by (simp add: compactPurgedTaskForLocalStorage_def)

lemma compactPurgedTaskForLocalStorage_idem:
  "compactPurgedTaskForLocalStorage (compactPurgedTaskForLocalStorage t) = compactPurgedTaskForLocalStorage t"
proof (cases "truthy (get t ''purgedAt'')")
  case True
  then show ?thesis
    by (simp add: compactPurgedTaskForLocalStorage_def compactAttachmentCleanupMetadata_idem)
       (simp add: compactPurgedTaskTombstone_def)
next
  case False
  then show ?thesis by (simp add: compactPurgedTaskForLocalStorage_def)
qed

end
