(* ===== verification/Sync_Normalization.thy ===== *)
theory Sync_Normalization
  imports Task_Status Tombstone_Compaction Sync_Signatures
begin

text \<open>
  The normalisers at the head of a merge (\<^verbatim>\<open>packages/core/src/sync-normalization.ts\<close>, lines 22 to
  350, with the name normalisers of \<^verbatim>\<open>people.ts\<close>): every synced entity is brought into one
  canonical shape before the two sides are compared.
\<close>

section \<open>Fields\<close>

definition normalizeAppData :: "js \<Rightarrow> AppData" where
  "normalizeAppData v =
     \<lparr>tasks = elems (get v ''tasks''), projects = elems (get v ''projects''), sections = elems (get v ''sections''),
      areas = elems (get v ''areas''), people = elems (get v ''people''),
      settings = coalesce (get v ''settings'') (JObj [])\<rparr>"

definition isNonEmptyString :: "js \<Rightarrow> bool" where
  "isNonEmptyString v = (case v of JStr s \<Rightarrow> non_blank s | _ \<Rightarrow> False)"

definition isObjectRecord :: "js \<Rightarrow> bool" where
  "isObjectRecord v = is_obj v"

definition isValidTimestamp :: "host \<Rightarrow> js \<Rightarrow> bool" where
  "isValidTimestamp h v \<longleftrightarrow> parse_js h v \<noteq> None"

definition normalizeOptionalString :: "js \<Rightarrow> js" where
  "normalizeOptionalString v = (case v of JStr s \<Rightarrow> if non_blank s then v else JUndef | _ \<Rightarrow> JUndef)"

definition normalizeStringArray :: "js \<Rightarrow> js" where
  "normalizeStringArray v = JArr (filter is_str (elems v))"

definition normalizeSyncedBoolean :: "js \<Rightarrow> bool" where
  "normalizeSyncedBoolean v \<longleftrightarrow> v = JBool True \<or> v = JNum 1"

definition PROJECT_STATUSES :: "string list" where
  "PROJECT_STATUSES = [''active'', ''someday'', ''waiting'', ''archived'']"

definition normalizeProjectStatusForMerge :: "js \<Rightarrow> js" where
  "normalizeProjectStatusForMerge v =
     (case v of
        JStr s \<Rightarrow> if s \<in> set PROJECT_STATUSES then v
                  else if trim_str (lower s) \<in> set PROJECT_STATUSES then JStr (trim_str (lower s)) else JStr ''active''
      | _ \<Rightarrow> JStr ''active'')"

text \<open>\<open>value.trim().replace(/\s+/g, ' ')\<close>\<close>

fun collapse_ws :: "string \<Rightarrow> string" where
  "collapse_ws [] = []"
| "collapse_ws (c # cs) =
     (if js_ws c then (case collapse_ws cs of d # ds \<Rightarrow> if d = CHR '' '' then d # ds else CHR '' '' # d # ds | [] \<Rightarrow> '' '')
      else c # collapse_ws cs)"

definition normalizePersonName :: "js \<Rightarrow> js" where
  "normalizePersonName v = (case v of JStr s \<Rightarrow> JStr (collapse_ws (trim_str s)) | _ \<Rightarrow> JStr '''')"

text \<open>\<open>normalizeOptionalString\<close> of \<^verbatim>\<open>people.ts\<close> trims, unlike the one above.\<close>

definition normalizePersonNote :: "js \<Rightarrow> js" where
  "normalizePersonNote v = (case v of JStr s \<Rightarrow> if trim_str s \<noteq> [] then JStr (trim_str s) else JUndef | _ \<Rightarrow> JUndef)"

definition normalizePersonReferenceLink :: "js \<Rightarrow> js" where
  "normalizePersonReferenceLink v =
     (case normalizePersonNote v of JStr s \<Rightarrow> if nul \<in> set s then JUndef else JStr s | _ \<Rightarrow> JUndef)"

section \<open>Attachments and revisions\<close>

definition normalizeAttachmentForSyncMerge :: "host \<Rightarrow> js \<Rightarrow> js" where
  "normalizeAttachmentForSyncMerge h attachment =
     (if get attachment ''kind'' \<noteq> JStr ''file'' then attachment
      else keep_same attachment (puts attachment
        [(''uri'', coalesce (sanitizeAttachmentUriForSyncMerge h (get attachment ''uri'')) (JStr '''')),
         (''cloudKey'', sanitizeAttachmentCloudKeyForSyncMerge h (get attachment ''cloudKey'')),
         (''fileHash'', sanitizeAttachmentFileHashForSyncMerge (get attachment ''fileHash''))]))"

definition normalizeAttachmentsForSyncMerge :: "host \<Rightarrow> js \<Rightarrow> js" where
  "normalizeAttachmentsForSyncMerge h v =
     (case v of JArr xs \<Rightarrow> JArr (map (normalizeAttachmentForSyncMerge h) xs) | _ \<Rightarrow> v)"

definition hasNormalizedRevisionMetadata :: "entity \<Rightarrow> bool" where
  "hasNormalizedRevisionMetadata item \<longleftrightarrow>
     (if isValidRevision (get item ''rev'')
      then the_num (get item ''rev'') \<le> MAX_SYNC_REVISION \<and> has_own item ''rev''
      else \<not> has_own item ''rev'')
     \<and> (case get item ''revBy'' of
          JStr s \<Rightarrow> trim_str s = s \<and> s \<noteq> [] | _ \<Rightarrow> \<not> has_own item ''revBy'')"

definition normalizeRevisionMetadata :: "entity \<Rightarrow> entity" where
  "normalizeRevisionMetadata item =
     (if hasNormalizedRevisionMetadata item then item
      else
        let withRev = (if isValidRevision (get item ''rev'')
              then put item ''rev'' (JNum (normalizeRevision (get item ''rev''))) else del item ''rev'')
        in (case get item ''revBy'' of
              JStr s \<Rightarrow> if trim_str s \<noteq> [] then put withRev ''revBy'' (JStr (trim_str s)) else del withRev ''revBy''
            | _ \<Rightarrow> del withRev ''revBy''))"

section \<open>Entities\<close>

definition normalizeSectionForSyncMerge :: "entity \<Rightarrow> entity" where
  "normalizeSectionForSyncMerge section =
     (if get section ''deletedAtBeforeProjectArchive'' = JNull
      then put section ''deletedAtBeforeProjectArchive'' JUndef else section)"

text \<open>The exhaustive literal every live task is rebuilt as.\<close>

definition task_literal :: "host \<Rightarrow> entity \<Rightarrow> entity" where
  "task_literal h t =
     (let flag = (\<lambda>k. JBool (normalizeSyncedBoolean (get t k))); same = (\<lambda>k. (k, get t k))
      in JObj (
       [same ''id'', same ''title'', same ''status'', same ''priority'', same ''energyLevel'', same ''assignedTo'',
        same ''taskMode'', same ''startTime'', same ''relativeStartOffset'', same ''dueDate'', same ''recurrence'',
        same ''pushCount'',
        (''tags'', normalizeStringArray (get t ''tags'')),
        (''contexts'', normalizeStringArray (get t ''contexts'')),
        same ''checklist'', same ''description'', same ''textDirection'',
        (''attachments'', normalizeAttachmentsForSyncMerge h (get t ''attachments'')),
        same ''location'', same ''projectId'',
        (''sectionId'', normalizeOptionalString (get t ''sectionId''))]
       @ entry_if (has_own t ''viewSectionIds'') ''viewSectionIds'' (get t ''viewSectionIds'') @
       [same ''areaId'',
        (''isFocusedToday'', flag ''isFocusedToday''),
        same ''timeEstimate'', same ''timeSpentMinutes'',
        (''showFutureRecurrence'',
           if \<not> nullish (get t ''recurrence'') \<and> normalizeSyncedBoolean (get t ''showFutureRecurrence'') then JBool True else JUndef),
        (''suppressMindwtrReminders'', flag ''suppressMindwtrReminders''),
        same ''repeatReminderMinutes'', same ''reviewAt'', same ''completedAt'', same ''cancelledAt'',
        same ''statusBeforeProjectArchive'',
        (''completedAtBeforeProjectArchive'', coalesce (get t ''completedAtBeforeProjectArchive'') JUndef),
        (''isFocusedTodayBeforeProjectArchive'', coalesce (get t ''isFocusedTodayBeforeProjectArchive'') JUndef),
        same ''projectArchivedAt'', same ''rev'']
       @ entry_if (get t ''revBy'' \<noteq> JUndef) ''revBy'' (get t ''revBy'') @
       [same ''createdAt'', same ''updatedAt'', same ''deletedAt'', same ''purgedAt'', same ''order'', same ''orderNum'',
        same ''boardOrder'', same ''focusOrder'']))"

definition normalizePurgedTask :: "entity \<Rightarrow> bool \<Rightarrow> entity" where
  "normalizePurgedTask task preserveLocalCleanupMetadata =
     (let compacted = (if preserveLocalCleanupMetadata then compactPurgedTaskForLocalStorage task
                       else compactPurgedTaskTombstone task)
      in if hasUncompactedPurgedTaskTombstone task preserveLocalCleanupMetadata then stampRepair compacted task else compacted)"

definition normalizeTaskForSyncMerge :: "host \<Rightarrow> entity \<Rightarrow> string \<Rightarrow> bool \<Rightarrow> entity" where
  "normalizeTaskForSyncMerge h task nowIso preserveLocalCleanupMetadata =
     (if truthy (get task ''purgedAt'') then normalizePurgedTask task preserveLocalCleanupMetadata
      else keep_same task (task_literal h (normalizeTaskForLoad h task nowIso)))"

definition normalizePurgedProject :: "entity \<Rightarrow> bool \<Rightarrow> entity" where
  "normalizePurgedProject project preserveLocalCleanupMetadata =
     (let compacted = (if preserveLocalCleanupMetadata then compactPurgedProjectForLocalStorage project
                       else compactPurgedProjectTombstone project)
      in if hasUncompactedPurgedProjectTombstone project preserveLocalCleanupMetadata then stampRepair compacted project
         else compacted)"

definition normalizeProjectForSyncMerge :: "host \<Rightarrow> entity \<Rightarrow> bool \<Rightarrow> entity" where
  "normalizeProjectForSyncMerge h project preserveLocalCleanupMetadata =
     (if truthy (get project ''purgedAt'') then normalizePurgedProject project preserveLocalCleanupMetadata
      else
        let opt = (\<lambda>k. (k, normalizeOptionalString (get project k)))
        in keep_same project (puts project
          [(''status'', normalizeProjectStatusForMerge (get project ''status'')),
           (''color'', coalesce (normalizeOptionalString (get project ''color'')) (JStr ''#6B7280'')),
           (''tagIds'', normalizeStringArray (get project ''tagIds'')),
           (''isSequential'', JBool (normalizeSyncedBoolean (get project ''isSequential''))),
           (''sequentialScope'', normalizeProjectSequentialScope (get project ''sequentialScope'')),
           (''taskSortBy'', normalizeProjectTaskSortBy (get project ''taskSortBy'')),
           (''isFocused'', JBool (normalizeSyncedBoolean (get project ''isFocused''))),
           (''attachments'', normalizeAttachmentsForSyncMerge h (get project ''attachments'')),
           opt ''dueDate'', opt ''startDate'', opt ''reviewAt'', opt ''cancelledAt'', opt ''areaId'', opt ''areaTitle'']))"

definition normalized_createdAt :: "entity \<Rightarrow> string \<Rightarrow> js" where
  "normalized_createdAt e nowIso =
     coalesce (coalesce (normalizeOptionalString (get e ''createdAt'')) (normalizeOptionalString (get e ''updatedAt''))) (JStr nowIso)"

definition normalized_updatedAt :: "entity \<Rightarrow> string \<Rightarrow> js" where
  "normalized_updatedAt e nowIso =
     coalesce (coalesce (normalizeOptionalString (get e ''updatedAt'')) (normalizeOptionalString (get e ''createdAt''))) (JStr nowIso)"

definition normalizeAreaForSyncMerge :: "entity \<Rightarrow> string \<Rightarrow> entity" where
  "normalizeAreaForSyncMerge area nowIso =
     keep_same area (puts area
       [(''color'', normalizeOptionalString (get area ''color'')),
        (''icon'', normalizeOptionalString (get area ''icon'')),
        (''order'', if finite_num (get area ''order'') then get area ''order'' else JUndef),
        (''createdAt'', normalized_createdAt area nowIso),
        (''updatedAt'', normalized_updatedAt area nowIso)])"

definition normalizePersonForSyncMerge :: "entity \<Rightarrow> string \<Rightarrow> entity" where
  "normalizePersonForSyncMerge person nowIso =
     keep_same person (puts person
       [(''name'', normalizePersonName (get person ''name'')),
        (''note'', normalizePersonNote (get person ''note'')),
        (''referenceLink'', normalizePersonReferenceLink (get person ''referenceLink'')),
        (''createdAt'', normalized_createdAt person nowIso),
        (''updatedAt'', normalized_updatedAt person nowIso)])"

end
