(* ===== verification/Purged_Normalization.thy ===== *)
theory Purged_Normalization
  imports Sync_Normalization
begin

text \<open>
  A purged tombstone is compacted and re-stamped once: normalising it again neither changes it nor
  raises its revision, for tasks and for projects, and with or without the device-local cleanup metadata.
\<close>

section \<open>Compaction converges\<close>

lemma props_get: "obj_wf v \<Longrightarrow> (k, x) \<in> set (props v) \<Longrightarrow> get v k = x"
  by (auto simp: obj_wf_def keys_def get_def dest: map_of_is_SomeI)

lemma compactMetadata_undef [simp]: "compactAttachmentCleanupMetadata JUndef = JUndef"
  by (simp add: compactAttachmentCleanupMetadata_def)

text \<open>
  What a compaction has to obey so that compacting and stamping once is enough. The task and the
  project compaction are its two instances.
\<close>

definition purged :: "entity \<Rightarrow> bool" where
  "purged e \<longleftrightarrow> truthy (get e ''purgedAt'')"

definition settled_by :: "(entity \<Rightarrow> entity) \<Rightarrow> entity \<Rightarrow> bool" where
  "settled_by shrink e \<longleftrightarrow> purged e \<and> obj_wf e \<and> shrink e = e \<and> get e ''attachments'' = JUndef"

locale compaction =
  fixes shrink :: "entity \<Rightarrow> entity" and shrink_local :: "entity \<Rightarrow> entity" and uncompacted :: "entity \<Rightarrow> bool \<Rightarrow> bool"
  assumes shrink_local: "purged e \<Longrightarrow>
      shrink_local e = put (shrink e) ''attachments'' (compactAttachmentCleanupMetadata (get e ''attachments''))"
    and uncompacted: "purged e \<Longrightarrow> uncompacted e p = hasValuesOutsideCompactedTombstone e
      (if p \<or> json (get e ''attachments'') = json (get (shrink_local e) ''attachments'') then shrink_local e else shrink e)"
    and shrink_wf: "purged e \<Longrightarrow> obj_wf (shrink e)"
    and shrink_purged: "purged e \<Longrightarrow> purged (shrink e)"
    and shrink_no_attachments: "purged e \<Longrightarrow> get (shrink e) ''attachments'' = JUndef"
    and shrink_owns: "purged e \<Longrightarrow> has_own (shrink e) ''rev'' \<and> has_own (shrink e) ''revBy''"
    and shrink_idem: "purged e \<Longrightarrow> shrink (shrink e) = shrink e"
    and shrink_stamped: "purged e \<Longrightarrow>
      shrink (puts (shrink e) [(''rev'', r), (''revBy'', b)]) = puts (shrink e) [(''rev'', r), (''revBy'', b)]"
    and shrink_attachments: "purged e \<Longrightarrow> shrink (put e ''attachments'' x) = shrink e"
begin

lemma settled_compact: "purged e \<Longrightarrow> settled_by shrink (shrink e)"
  by (simp add: settled_by_def shrink_purged shrink_wf shrink_idem shrink_no_attachments)

lemma settled_stamped: "purged e \<Longrightarrow> settled_by shrink (puts (shrink e) [(''rev'', r), (''revBy'', b)])"
  using shrink_stamped [of e r b] shrink_purged [of e]
  by (simp add: settled_by_def purged_def shrink_no_attachments obj_wf_put shrink_wf)

lemma settled_plain: "settled_by shrink e \<Longrightarrow> \<not> uncompacted e False"
  by (auto simp: settled_by_def uncompacted shrink_local props_get intro!: no_values_outside)

lemma settled_local:
  assumes "settled_by shrink e" "compactAttachmentCleanupMetadata m = m"
  shows "shrink_local (put e ''attachments'' m) = put e ''attachments'' m" "\<not> uncompacted (put e ''attachments'' m) True"
proof -
  have e: "purged e" "purged (put e ''attachments'' m)" "obj_wf (put e ''attachments'' m)" "shrink (put e ''attachments'' m) = e"
    using assms(1) by (auto simp: settled_by_def purged_def obj_wf_put shrink_attachments)
  then show l: "shrink_local (put e ''attachments'' m) = put e ''attachments'' m"
    using assms(2) by (simp add: shrink_local)
  show "\<not> uncompacted (put e ''attachments'' m) True"
    using e(3) by (auto simp: uncompacted [OF e(2)] l dest: props_get intro!: no_values_outside)
qed

lemma stamp_local:
  "purged e \<Longrightarrow> stampRepair (put (shrink e) ''attachments'' m) e =
     put (puts (shrink e) [(''rev'', JNum (nextRevision (get e ''rev''))), (''revBy'', JStr SYNC_REPAIR_REV_BY)]) ''attachments'' m"
  using shrink_owns [of e] by (simp add: stampRepair_def put_commute)

end

text \<open>The normaliser over a compaction, and its fixed point.\<close>

locale compaction_repair = compaction +
  fixes nrm :: "entity \<Rightarrow> bool \<Rightarrow> entity"
  assumes nrm: "nrm e p =
      (let c = (if p then shrink_local e else shrink e) in if uncompacted e p then stampRepair c e else c)"
begin

lemma normalized_fixed:
  assumes "purged e"
  shows "purged (nrm e p)" "\<not> uncompacted (nrm e p) p" "nrm (nrm e p) p = nrm e p"
proof -
  let ?s = "puts (shrink e) [(''rev'', JNum (nextRevision (get e ''rev''))), (''revBy'', JStr SYNC_REPAIR_REV_BY)]"
  let ?m = "compactAttachmentCleanupMetadata (get e ''attachments'')"
  obtain b where b: "settled_by shrink b" "nrm e p = (if p then put b ''attachments'' ?m else b)"
  proof (cases "uncompacted e p")
    case True
    then have "nrm e p = (if p then put ?s ''attachments'' ?m else ?s)"
      using stamp_local [OF assms(1)] by (simp add: nrm shrink_local [OF assms(1)] stampRepair_def)
    with settled_stamped [OF assms(1)] that show ?thesis by blast
  next
    case False
    then have "nrm e p = (if p then put (shrink e) ''attachments'' ?m else shrink e)"
      by (simp add: nrm shrink_local [OF assms(1)])
    with settled_compact [OF assms(1)] that show ?thesis by blast
  qed
  then show "purged (nrm e p)" by (auto simp: settled_by_def purged_def)
  have m: "compactAttachmentCleanupMetadata ?m = ?m" by (rule compactAttachmentCleanupMetadata_idem)
  show un: "\<not> uncompacted (nrm e p) p"
    using settled_plain [OF b(1)] settled_local(2) [OF b(1) m] unfolding b(2) by (cases p) simp_all
  show "nrm (nrm e p) p = nrm e p"
    using un settled_local(1) [OF b(1) m] b(1) unfolding nrm [of "nrm e p"] Let_def unfolding b(2) by (cases p) (simp_all add: settled_by_def)
qed

end

text \<open>The tombstone of a task under a given revision, and of a project.\<close>

definition task_tomb :: "entity \<Rightarrow> js \<Rightarrow> js \<Rightarrow> entity" where
  "task_tomb t r b = compactPurgedTaskTombstone (puts t [(''rev'', r), (''revBy'', b)])"

definition project_tomb :: "entity \<Rightarrow> js \<Rightarrow> js \<Rightarrow> entity" where
  "project_tomb t r b = compactPurgedProjectTombstone (puts t [(''rev'', r), (''revBy'', b)])"

lemma tomb_compact:
  assumes "truthy (get t ''purgedAt'')"
  shows "compactPurgedTaskTombstone t = task_tomb t (get t ''rev'') (get t ''revBy'')"
    "compactPurgedProjectTombstone t = project_tomb t (get t ''rev'') (get t ''revBy'')"
  using assms by (simp_all add: task_tomb_def project_tomb_def compactPurgedTaskTombstone_def compactPurgedProjectTombstone_def)

lemma tomb_explicit:
  assumes "truthy (get t ''purgedAt'')"
  shows "task_tomb t r b = JObj [(''id'', get t ''id''), (''title'', JStr ''(deleted)''), (''status'', JStr ''inbox''),
      (''tags'', JArr []), (''contexts'', JArr []), (''rev'', r), (''revBy'', b), (''createdAt'', get t ''updatedAt''),
      (''updatedAt'', get t ''updatedAt''), (''deletedAt'', get t ''purgedAt''), (''purgedAt'', get t ''purgedAt'')]"
    "project_tomb t r b = JObj [(''id'', get t ''id''), (''title'', JStr ''(deleted)''), (''status'', JStr ''active''),
      (''color'', JStr ''#6B7280''), (''order'', JNum 0), (''tagIds'', JArr []), (''rev'', r), (''revBy'', b),
      (''createdAt'', get t ''updatedAt''), (''updatedAt'', get t ''updatedAt''), (''deletedAt'', get t ''purgedAt''),
      (''purgedAt'', get t ''purgedAt'')]"
  using assms by (simp_all add: task_tomb_def project_tomb_def compactPurgedTaskTombstone_def compactPurgedProjectTombstone_def)

lemma tomb_facts:
  assumes "truthy (get t ''purgedAt'')"
  shows "obj_wf (task_tomb t r b)" "obj_wf (project_tomb t r b)"
    "get (task_tomb t r b) ''purgedAt'' = get t ''purgedAt''" "get (project_tomb t r b) ''purgedAt'' = get t ''purgedAt''"
    "get (task_tomb t r b) ''attachments'' = JUndef" "get (project_tomb t r b) ''attachments'' = JUndef"
    "compactPurgedTaskTombstone (task_tomb t r b) = task_tomb t r b"
    "compactPurgedProjectTombstone (project_tomb t r b) = project_tomb t r b"
  using assms
  by (simp_all add: tomb_explicit obj_wf_def keys_def compactPurgedTaskTombstone_def compactPurgedProjectTombstone_def)

lemma tomb_stamped:
  assumes "truthy (get t ''purgedAt'')"
  shows "puts (task_tomb t r b) [(''rev'', r2), (''revBy'', b2)] = task_tomb t r2 b2"
    "puts (project_tomb t r b) [(''rev'', r2), (''revBy'', b2)] = project_tomb t r2 b2"
  using assms by (simp_all add: tomb_explicit put_def)

lemma tomb_owns:
  assumes "truthy (get t ''purgedAt'')"
  shows "has_own (task_tomb t r b) ''rev'' \<and> has_own (task_tomb t r b) ''revBy''"
    "has_own (project_tomb t r b) ''rev'' \<and> has_own (project_tomb t r b) ''revBy''"
  using assms by (simp_all add: tomb_explicit has_own_def keys_def)

lemma tomb_attachments:
  assumes "truthy (get t ''purgedAt'')"
  shows "compactPurgedTaskTombstone (put t ''attachments'' x) = compactPurgedTaskTombstone t"
    "compactPurgedProjectTombstone (put t ''attachments'' x) = compactPurgedProjectTombstone t"
  using assms by (simp_all add: compactPurgedTaskTombstone_def compactPurgedProjectTombstone_def)

lemma task_laws:
  assumes "purged e"
  shows "compactPurgedTaskForLocalStorage e = put (compactPurgedTaskTombstone e) ''attachments''
      (compactAttachmentCleanupMetadata (get e ''attachments''))"
    and "hasUncompactedPurgedTaskTombstone e p = hasValuesOutsideCompactedTombstone e
      (if p \<or> json (get e ''attachments'') = json (get (compactPurgedTaskForLocalStorage e) ''attachments'')
       then compactPurgedTaskForLocalStorage e else compactPurgedTaskTombstone e)"
    and "obj_wf (compactPurgedTaskTombstone e)" and "purged (compactPurgedTaskTombstone e)"
    and "get (compactPurgedTaskTombstone e) ''attachments'' = JUndef"
    and "has_own (compactPurgedTaskTombstone e) ''rev'' \<and> has_own (compactPurgedTaskTombstone e) ''revBy''"
    and "compactPurgedTaskTombstone (compactPurgedTaskTombstone e) = compactPurgedTaskTombstone e"
    and "compactPurgedTaskTombstone (puts (compactPurgedTaskTombstone e) [(''rev'', r), (''revBy'', b)]) =
      puts (compactPurgedTaskTombstone e) [(''rev'', r), (''revBy'', b)]"
    and "compactPurgedTaskTombstone (put e ''attachments'' x) = compactPurgedTaskTombstone e"
proof -
  have t: "truthy (get e ''purgedAt'')" using assms by (simp add: purged_def)
  note c = tomb_compact [OF t]
  show "obj_wf (compactPurgedTaskTombstone e)" "purged (compactPurgedTaskTombstone e)"
    "get (compactPurgedTaskTombstone e) ''attachments'' = JUndef"
    "has_own (compactPurgedTaskTombstone e) ''rev'' \<and> has_own (compactPurgedTaskTombstone e) ''revBy''"
    "compactPurgedTaskTombstone (compactPurgedTaskTombstone e) = compactPurgedTaskTombstone e"
    "compactPurgedTaskTombstone (puts (compactPurgedTaskTombstone e) [(''rev'', r), (''revBy'', b)]) =
      puts (compactPurgedTaskTombstone e) [(''rev'', r), (''revBy'', b)]"
    "compactPurgedTaskTombstone (put e ''attachments'' x) = compactPurgedTaskTombstone e"
    unfolding c purged_def tomb_stamped [OF t] using t tomb_facts [OF t] tomb_owns [OF t] tomb_attachments [OF t] c by simp_all
qed (use assms in \<open>simp_all add: purged_def compactPurgedTaskForLocalStorage_def hasUncompactedPurgedTaskTombstone_def\<close>)

lemma project_laws:
  assumes "purged e"
  shows "compactPurgedProjectForLocalStorage e = put (compactPurgedProjectTombstone e) ''attachments''
      (compactAttachmentCleanupMetadata (get e ''attachments''))"
    and "hasUncompactedPurgedProjectTombstone e p = hasValuesOutsideCompactedTombstone e
      (if p \<or> json (get e ''attachments'') = json (get (compactPurgedProjectForLocalStorage e) ''attachments'')
       then compactPurgedProjectForLocalStorage e else compactPurgedProjectTombstone e)"
    and "obj_wf (compactPurgedProjectTombstone e)" and "purged (compactPurgedProjectTombstone e)"
    and "get (compactPurgedProjectTombstone e) ''attachments'' = JUndef"
    and "has_own (compactPurgedProjectTombstone e) ''rev'' \<and> has_own (compactPurgedProjectTombstone e) ''revBy''"
    and "compactPurgedProjectTombstone (compactPurgedProjectTombstone e) = compactPurgedProjectTombstone e"
    and "compactPurgedProjectTombstone (puts (compactPurgedProjectTombstone e) [(''rev'', r), (''revBy'', b)]) =
      puts (compactPurgedProjectTombstone e) [(''rev'', r), (''revBy'', b)]"
    and "compactPurgedProjectTombstone (put e ''attachments'' x) = compactPurgedProjectTombstone e"
proof -
  have t: "truthy (get e ''purgedAt'')" using assms by (simp add: purged_def)
  note c = tomb_compact [OF t]
  show "obj_wf (compactPurgedProjectTombstone e)" "purged (compactPurgedProjectTombstone e)"
    "get (compactPurgedProjectTombstone e) ''attachments'' = JUndef"
    "has_own (compactPurgedProjectTombstone e) ''rev'' \<and> has_own (compactPurgedProjectTombstone e) ''revBy''"
    "compactPurgedProjectTombstone (compactPurgedProjectTombstone e) = compactPurgedProjectTombstone e"
    "compactPurgedProjectTombstone (puts (compactPurgedProjectTombstone e) [(''rev'', r), (''revBy'', b)]) =
      puts (compactPurgedProjectTombstone e) [(''rev'', r), (''revBy'', b)]"
    "compactPurgedProjectTombstone (put e ''attachments'' x) = compactPurgedProjectTombstone e"
    unfolding c purged_def tomb_stamped [OF t] using t tomb_facts [OF t] tomb_owns [OF t] tomb_attachments [OF t] c by simp_all
qed (use assms in \<open>simp_all add: purged_def compactPurgedProjectForLocalStorage_def hasUncompactedPurgedProjectTombstone_def\<close>)

interpretation task_compaction: compaction_repair compactPurgedTaskTombstone compactPurgedTaskForLocalStorage
    hasUncompactedPurgedTaskTombstone normalizePurgedTask
  by (unfold_locales; (rule task_laws | simp only: normalizePurgedTask_def))

interpretation project_compaction: compaction_repair compactPurgedProjectTombstone compactPurgedProjectForLocalStorage
    hasUncompactedPurgedProjectTombstone normalizePurgedProject
  by (unfold_locales; (rule project_laws | simp only: normalizePurgedProject_def))

text \<open>
  C22. Normalising a purged task or project once is enough: the result carries nothing outside its
  compact tombstone, stays purged, and a second pass, at any later clock, returns the very same
  record, so a tombstone cannot raise its own revision sync after sync. This holds with the
  device-local cleanup metadata kept (p) and without it.
\<close>

theorem purged_tombstone_normalizes_once:
  assumes "truthy (get e ''purgedAt'')"
  shows "(let t = normalizeTaskForSyncMerge h e now p in
      truthy (get t ''purgedAt'') \<and> \<not> hasUncompactedPurgedTaskTombstone t p \<and> normalizeTaskForSyncMerge h t later p = t)
    \<and> (let q = normalizeProjectForSyncMerge h e p in
      truthy (get q ''purgedAt'') \<and> \<not> hasUncompactedPurgedProjectTombstone q p \<and> normalizeProjectForSyncMerge h q p = q)"
proof -
  have e: "purged e" using assms by (simp add: purged_def)
  note t = task_compaction.normalized_fixed [OF e, of p] and q = project_compaction.normalized_fixed [OF e, of p]
  show ?thesis
    using assms t q by (simp add: normalizeTaskForSyncMerge_def normalizeProjectForSyncMerge_def purged_def)
qed

definition leftover_tombstone :: entity where
  "leftover_tombstone = JObj [(''id'', JStr ''t''), (''title'', JStr ''secret''), (''purgedAt'', JStr ''p''), (''rev'', JNum 3)]"

theorem purged_tombstone_normalizes_once_witness:
  "truthy (get leftover_tombstone ''purgedAt'')
   \<and> hasUncompactedPurgedTaskTombstone leftover_tombstone True
   \<and> \<not> hasUncompactedPurgedTaskTombstone (normalizeTaskForSyncMerge host0 leftover_tombstone ''n'' True) True
   \<and> get (normalizeTaskForSyncMerge host0 leftover_tombstone ''n'' True) ''rev'' = JNum 4"
proof -
  have "truthy (get leftover_tombstone ''purgedAt'')" by (simp add: leftover_tombstone_def)
  moreover have "hasUncompactedPurgedTaskTombstone leftover_tombstone True
      \<and> get (normalizeTaskForSyncMerge host0 leftover_tombstone ''n'' True) ''rev'' = JNum 4"
    by code_simp
  ultimately show ?thesis
    using purged_tombstone_normalizes_once [of leftover_tombstone host0 "''n''" True "''n''"] by (auto simp: Let_def)
qed

lemma normalizeRevisionMetadata_normal: "hasNormalizedRevisionMetadata (normalizeRevisionMetadata e)"
proof -
  have valid: "isValidRevision (JNum (normalizeRevision v)) \<and> normalizeRevision v \<le> MAX_SYNC_REVISION" for v
    using coerce_range [of v] by (simp add: normalizeRevision_def)
  show ?thesis
  proof (cases "hasNormalizedRevisionMetadata e")
    case False
    then show ?thesis
      using valid [of "get e ''rev''"]
      by (cases "isValidRevision (get e ''rev'')"; cases "get e ''revBy''")
        (auto simp: normalizeRevisionMetadata_def Let_def hasNormalizedRevisionMetadata_def [of "put _ _ _"]
          hasNormalizedRevisionMetadata_def [of "del _ _"])
  qed (simp add: normalizeRevisionMetadata_def)
qed

lemma normal_metadata:
  assumes "hasNormalizedRevisionMetadata n"
  shows "get n ''rev'' = JUndef \<or> (\<exists>r. get n ''rev'' = JNum r \<and> rat_is_int r \<and> 0 \<le> r \<and> r \<le> MAX_SYNC_REVISION)"
    "get n ''revBy'' = JUndef \<or> (\<exists>s. get n ''revBy'' = JStr s \<and> s \<noteq> [] \<and> trim_str s = s)"
proof -
  show "get n ''rev'' = JUndef \<or> (\<exists>r. get n ''rev'' = JNum r \<and> rat_is_int r \<and> 0 \<le> r \<and> r \<le> MAX_SYNC_REVISION)"
    using assms get_not_own [of n "''rev''"] by (cases "get n ''rev''") (auto simp: hasNormalizedRevisionMetadata_def split: if_splits)
  show "get n ''revBy'' = JUndef \<or> (\<exists>s. get n ''revBy'' = JStr s \<and> s \<noteq> [] \<and> trim_str s = s)"
    using assms get_not_own [of n "''revBy''"] by (cases "get n ''revBy''") (auto simp: hasNormalizedRevisionMetadata_def)
qed

text \<open>
  Revision metadata is canonical after one pass and stable under a second: the revision is
  absent or a non-negative integer up to the cap, the writer absent or a trimmed non-empty name.
\<close>

theorem revision_metadata_normal_form:
  "let n = normalizeRevisionMetadata e in
     hasNormalizedRevisionMetadata n \<and> normalizeRevisionMetadata n = n
     \<and> (get n ''rev'' = JUndef \<or> (\<exists>r. get n ''rev'' = JNum r \<and> rat_is_int r \<and> 0 \<le> r \<and> r \<le> MAX_SYNC_REVISION))
     \<and> (get n ''revBy'' = JUndef \<or> (\<exists>s. get n ''revBy'' = JStr s \<and> s \<noteq> [] \<and> trim_str s = s))"
proof -
  define n where "n = normalizeRevisionMetadata e"
  have norm_n: "hasNormalizedRevisionMetadata n"
    unfolding n_def by (rule normalizeRevisionMetadata_normal)
  then have "normalizeRevisionMetadata n = n" by (simp add: normalizeRevisionMetadata_def)
  with norm_n normal_metadata [OF norm_n] show ?thesis by (simp flip: n_def)
qed

end
