(* ===== verification/Container_Rules.thy ===== *)
theory Container_Rules
  imports App_Data Task_Status
begin

text \<open>
  Where a task lives (\<^verbatim>\<open>packages/core/src/task-container-rules.ts\<close>): a task is in a project,
  perhaps in a section of that project, or directly in an area. A move is refused with a message,
  the \<open>Inl\<close> of the result, or yields a patch. Also the archive exception of
  \<^verbatim>\<open>store-helpers.ts\<close> that repair and validation share.
\<close>

section \<open>Containers\<close>

definition live_with_id :: "js \<Rightarrow> entity list \<Rightarrow> bool" where
  "live_with_id i es \<longleftrightarrow> (\<exists>e\<in>set es. get e ''id'' = i \<and> \<not> deleted e)"

definition normalizeOptionalContainerId :: "js \<Rightarrow> js" where
  "normalizeOptionalContainerId v = (case v of JStr s \<Rightarrow> if non_blank s then JStr (trim_str s) else JUndef | _ \<Rightarrow> JUndef)"

definition validateExistingTaskProjectId :: "js \<Rightarrow> entity list \<Rightarrow> string + js" where
  "validateExistingTaskProjectId v allProjects =
     (let projectId = normalizeOptionalContainerId v
      in if projectId = JUndef then Inr JUndef
         else if live_with_id projectId allProjects then Inr projectId
         else Inl ''Project not found'')"

definition validateExistingTaskAreaId :: "js \<Rightarrow> entity list \<Rightarrow> string + js" where
  "validateExistingTaskAreaId v allAreas =
     (let areaId = normalizeOptionalContainerId v
      in if areaId = JUndef then Inr JUndef
         else if live_with_id areaId allAreas then Inr areaId
         else Inl ''Area not found'')"

record TaskContainerAssignment =
  in_project :: js
  in_section :: js
  in_area :: js

definition resolveTaskContainerHierarchy :: "TaskContainerAssignment \<Rightarrow> js \<Rightarrow> TaskContainerAssignment" where
  "resolveTaskContainerHierarchy a sectionProjectId =
     (let next = (if truthy (in_section a)
                  then if \<not> truthy sectionProjectId then a\<lparr>in_section := JUndef\<rparr>
                       else if \<not> truthy (in_project a) then a\<lparr>in_project := sectionProjectId, in_area := JUndef\<rparr>
                       else if sectionProjectId \<noteq> in_project a then a\<lparr>in_section := JUndef\<rparr>
                       else a
                  else a)
      in if truthy (in_area next) \<and> truthy (in_project next) then next\<lparr>in_area := JUndef\<rparr> else next)"

definition resolveTaskContainerAssignment ::
    "TaskContainerAssignment \<Rightarrow> entity list \<Rightarrow> entity list \<Rightarrow> entity list \<Rightarrow> string + TaskContainerAssignment" where
  "resolveTaskContainerAssignment a allProjects allSections allAreas =
     (case validateExistingTaskProjectId (in_project a) allProjects of
        Inl error \<Rightarrow> Inl error
      | Inr projectId \<Rightarrow>
          let sectionId = normalizeOptionalContainerId (in_section a) in
          if truthy sectionId then
            (case find (\<lambda>s. get s ''id'' = sectionId \<and> \<not> deleted s) allSections of
               None \<Rightarrow> Inl ''Section not found''
             | Some section \<Rightarrow>
                 if \<not> live_with_id (get section ''projectId'') allProjects then Inl ''Section not found''
                 else if truthy projectId \<and> get section ''projectId'' \<noteq> projectId then Inl ''Section does not belong to project''
                 else Inr (resolveTaskContainerHierarchy
                   \<lparr>in_project = projectId, in_section = sectionId, in_area = normalizeOptionalContainerId (in_area a)\<rparr>
                   (get section ''projectId'')))
          else if truthy projectId then
            Inr (resolveTaskContainerHierarchy
              \<lparr>in_project = projectId, in_section = JUndef, in_area = normalizeOptionalContainerId (in_area a)\<rparr> JUndef)
          else
            (case validateExistingTaskAreaId (in_area a) allAreas of
               Inl error \<Rightarrow> Inl error
             | Inr areaId \<Rightarrow> Inr (resolveTaskContainerHierarchy
                 \<lparr>in_project = JUndef, in_section = JUndef, in_area = areaId\<rparr> JUndef)))"

section \<open>Moves\<close>

text \<open>The store hands out the next order number of a project; the reserver is a parameter.\<close>

definition reserveTaskContainerProjectOrder :: "entity \<Rightarrow> js \<Rightarrow> (js \<Rightarrow> js) \<Rightarrow> js" where
  "reserveTaskContainerProjectOrder task updates projectOrderReserver =
     (if \<not> has_own updates ''projectId'' then updates
      else if has_own updates ''order'' \<or> has_own updates ''orderNum'' then updates
      else
        let nextProjectId = normalizeOptionalContainerId (get updates ''projectId'') in
        if \<not> truthy nextProjectId \<or> coalesce (get task ''projectId'') JUndef = nextProjectId then updates
        else
          let nextOrder = projectOrderReserver nextProjectId in
          if nextOrder = JUndef then updates
          else puts updates [(''order'', nextOrder), (''orderNum'', nextOrder)])"

definition container_request :: "entity \<Rightarrow> js \<Rightarrow> TaskContainerAssignment" where
  "container_request task updates =
     (let hasProjectUpdate = has_own updates ''projectId'';
          nextProjectId = (if hasProjectUpdate then normalizeOptionalContainerId (get updates ''projectId'') else get task ''projectId'');
          projectChanged = (coalesce (get task ''projectId'') JUndef \<noteq> coalesce nextProjectId JUndef)
      in \<lparr>in_project = nextProjectId,
          in_section = (if has_own updates ''sectionId'' then get updates ''sectionId''
                        else if hasProjectUpdate \<and> projectChanged then JUndef else get task ''sectionId''),
          in_area = (if has_own updates ''areaId'' then get updates ''areaId''
                     else if hasProjectUpdate \<and> projectChanged \<and> truthy nextProjectId then JUndef else get task ''areaId'')\<rparr>)"

definition container_patch :: "TaskContainerAssignment \<Rightarrow> js" where
  "container_patch a = JObj [(''projectId'', in_project a), (''sectionId'', in_section a), (''areaId'', in_area a)]"

definition buildTaskContainerMovePatch ::
    "entity \<Rightarrow> js \<Rightarrow> entity list \<Rightarrow> entity list \<Rightarrow> entity list \<Rightarrow> bool \<Rightarrow> (js \<Rightarrow> js) option \<Rightarrow> string + js" where
  "buildTaskContainerMovePatch task updates allProjects allSections allAreas reserveProjectOrder projectOrderReserver =
     (case resolveTaskContainerAssignment (container_request task updates) allProjects allSections allAreas of
        Inl error \<Rightarrow> Inl error
      | Inr resolved \<Rightarrow>
          let patch = container_patch resolved;
              resolvedProjectChanged = (coalesce (get task ''projectId'') JUndef \<noteq> coalesce (in_project resolved) JUndef)
          in if resolvedProjectChanged \<and> \<not> truthy (in_project resolved)
             then Inr (puts patch [(''order'', JUndef), (''orderNum'', JUndef), (''sectionId'', JUndef)])
             else (case projectOrderReserver of
                 Some reserver \<Rightarrow>
                   if resolvedProjectChanged \<and> reserveProjectOrder \<and> \<not> has_own updates ''order'' \<and> \<not> has_own updates ''orderNum''
                   then Inr (reserveTaskContainerProjectOrder task patch reserver) else Inr patch
               | None \<Rightarrow> Inr patch))"

definition isTaskSectionProjectArchiveReference :: "entity \<Rightarrow> entity option \<Rightarrow> entity option \<Rightarrow> bool" where
  "isTaskSectionProjectArchiveReference task section project =
     (case (section, project) of
        (Some s, Some p) \<Rightarrow>
          \<not> truthy (get p ''deletedAt'') \<and> \<not> truthy (get p ''purgedAt'') \<and> get p ''status'' = JStr ''archived''
          \<and> truthy (get s ''projectArchivedAt'') \<and> get s ''deletedAt'' = get s ''projectArchivedAt''
          \<and> get task ''projectId'' = get p ''id'' \<and> get s ''projectId'' = get p ''id''
          \<and> (isTaskFinished (get task ''status'') \<or> get task ''status'' = JStr ''reference'')
      | _ \<Rightarrow> False)"

section \<open>A coherent placement\<close>

text \<open>The contract of a placement: a section lies in the chosen project, an area excludes a project.\<close>

definition coherent_placement ::
    "TaskContainerAssignment \<Rightarrow> entity list \<Rightarrow> entity list \<Rightarrow> entity list \<Rightarrow> bool" where
  "coherent_placement a allProjects allSections allAreas \<longleftrightarrow>
     (in_project a = JUndef \<or> live_with_id (in_project a) allProjects)
     \<and> (in_section a = JUndef
        \<or> (\<exists>s\<in>set allSections. get s ''id'' = in_section a \<and> \<not> deleted s \<and> get s ''projectId'' = in_project a)
          \<and> in_project a \<noteq> JUndef)
     \<and> (in_area a = JUndef \<or> in_project a = JUndef \<and> in_section a = JUndef \<and> live_with_id (in_area a) allAreas)"

definition trimmed_ids :: "entity list \<Rightarrow> bool" where
  "trimmed_ids es \<longleftrightarrow> (\<forall>e\<in>set es. \<exists>s. get e ''id'' = JStr s \<and> s \<noteq> [] \<and> trim_str s = s)"

lemma container_id_cases [case_names none some]:
  obtains "normalizeOptionalContainerId v = JUndef"
    | s where "normalizeOptionalContainerId v = JStr s" "s \<noteq> []" "trim_str s = s" "non_blank s"
proof (cases v)
  case (JStr s)
  with that(1) that(2) [of "trim_str s"] show ?thesis
    by (cases "non_blank s") (auto simp: normalizeOptionalContainerId_def non_blank_def)
qed (use that(1) in \<open>simp_all add: normalizeOptionalContainerId_def\<close>)

lemma container_id_truthy: "truthy (normalizeOptionalContainerId v) \<longleftrightarrow> normalizeOptionalContainerId v \<noteq> JUndef"
  by (cases v rule: container_id_cases) simp_all

lemma container_id_idem: "normalizeOptionalContainerId (normalizeOptionalContainerId v) = normalizeOptionalContainerId v"
  by (cases v rule: container_id_cases) (simp_all add: normalizeOptionalContainerId_def [of "JStr _"]
      normalizeOptionalContainerId_def [of JUndef])

lemma trimmed_id: "trimmed_ids es \<Longrightarrow> live_with_id i es \<Longrightarrow> normalizeOptionalContainerId i = i \<and> truthy i \<and> i \<noteq> JUndef"
  by (auto simp: trimmed_ids_def live_with_id_def normalizeOptionalContainerId_def non_blank_def)

lemma find_SomeD: "find P xs = Some x \<Longrightarrow> x \<in> set xs \<and> P x"
  by (auto simp: find_Some_iff)

lemma validate_project:
  "validateExistingTaskProjectId v ps = Inr p \<longleftrightarrow>
     p = normalizeOptionalContainerId v \<and> (p = JUndef \<or> live_with_id p ps)"
  by (auto simp: validateExistingTaskProjectId_def Let_def)

lemma validate_area:
  "validateExistingTaskAreaId v as = Inr a \<longleftrightarrow> a = normalizeOptionalContainerId v \<and> (a = JUndef \<or> live_with_id a as)"
  by (auto simp: validateExistingTaskAreaId_def Let_def)

text \<open>Every outcome of a resolution, by the guard that decides it.\<close>

lemma resolve_cases:
  assumes "trimmed_ids ps"
  obtains (no_project) "resolveTaskContainerAssignment a ps ss as = Inl ''Project not found''"
      "normalizeOptionalContainerId (in_project a) \<noteq> JUndef" "\<not> live_with_id (normalizeOptionalContainerId (in_project a)) ps"
    | (other) e where "resolveTaskContainerAssignment a ps ss as = Inl e"
      "e = ''Section not found'' \<or> e = ''Section does not belong to project'' \<or> e = ''Area not found''"
    | (placed) s where "resolveTaskContainerAssignment a ps ss as =
        Inr \<lparr>in_project = get s ''projectId'', in_section = normalizeOptionalContainerId (in_section a), in_area = JUndef\<rparr>"
      "find (\<lambda>s. get s ''id'' = normalizeOptionalContainerId (in_section a) \<and> \<not> deleted s) ss = Some s"
      "live_with_id (get s ''projectId'') ps" "normalizeOptionalContainerId (in_section a) \<noteq> JUndef"
    | (project_only) "resolveTaskContainerAssignment a ps ss as =
        Inr \<lparr>in_project = normalizeOptionalContainerId (in_project a), in_section = JUndef, in_area = JUndef\<rparr>"
      "live_with_id (normalizeOptionalContainerId (in_project a)) ps"
    | (area_only) "resolveTaskContainerAssignment a ps ss as =
        Inr \<lparr>in_project = JUndef, in_section = JUndef, in_area = normalizeOptionalContainerId (in_area a)\<rparr>"
      "normalizeOptionalContainerId (in_area a) = JUndef \<or> live_with_id (normalizeOptionalContainerId (in_area a)) as"
proof -
  let ?p = "normalizeOptionalContainerId (in_project a)" and ?s = "normalizeOptionalContainerId (in_section a)"
    and ?a = "normalizeOptionalContainerId (in_area a)"
  show ?thesis
  proof (cases "?p = JUndef \<or> live_with_id ?p ps")
    case False
    then show ?thesis
      by (intro no_project) (simp_all add: resolveTaskContainerAssignment_def validateExistingTaskProjectId_def Let_def)
  next
    case True
    then have p: "validateExistingTaskProjectId (in_project a) ps = Inr ?p" by (simp add: validate_project)
    note defs = resolveTaskContainerAssignment_def p resolveTaskContainerHierarchy_def Let_def
    show ?thesis
    proof (cases "?s = JUndef")
      case no_section: True
      show ?thesis
      proof (cases "?p = JUndef")
        case False
        with True no_section show ?thesis
          by (intro project_only) (simp_all add: defs container_id_truthy)
      next
        case no_p: True
        show ?thesis
        proof (cases "validateExistingTaskAreaId (in_area a) as")
          case (Inl e)
          then have "e = ''Area not found''" by (auto simp: validateExistingTaskAreaId_def Let_def split: if_splits)
          with Inl no_section no_p show ?thesis by (intro other [of e]) (simp_all add: defs)
        next
          case (Inr b)
          then have "b = ?a" "?a = JUndef \<or> live_with_id ?a as" by (auto simp: validate_area)
          with Inr no_section no_p show ?thesis by (intro area_only) (simp_all add: defs)
        qed
      qed
    next
      case False
      then have t: "truthy ?s" by (simp add: container_id_truthy)
      show ?thesis
      proof (cases "find (\<lambda>s. get s ''id'' = ?s \<and> \<not> deleted s) ss")
        case None
        with t show ?thesis by (intro other [of "''Section not found''"]) (simp_all add: defs)
      next
        case (Some s)
        show ?thesis
        proof (cases "live_with_id (get s ''projectId'') ps \<and> (?p = JUndef \<or> get s ''projectId'' = ?p)")
          case True
          with Some t False trimmed_id [OF assms] show ?thesis
            by (intro placed [of s]) (auto simp: defs container_id_truthy)
        next
          case F: False
          with Some t show ?thesis
            by (intro other [of "if live_with_id (get s ''projectId'') ps then ''Section does not belong to project'' else ''Section not found''"])
              (auto simp: defs container_id_truthy)
        qed
      qed
    qed
  qed
qed

lemma resolved_coherent:
  assumes "trimmed_ids allProjects"
    and "resolveTaskContainerAssignment a allProjects allSections allAreas = Inr r"
  shows "coherent_placement r allProjects allSections allAreas
    \<and> resolveTaskContainerAssignment r allProjects allSections allAreas = Inr r"
  using assms(1)
proof (cases rule: resolve_cases [of allProjects a allSections allAreas])
  case (placed s)
  with assms have r: "r = \<lparr>in_project = get s ''projectId'', in_section = normalizeOptionalContainerId (in_section a), in_area = JUndef\<rparr>"
    by simp
  note t = trimmed_id [OF assms(1) placed(3)]
  have "coherent_placement r allProjects allSections allAreas"
    using t placed(3) find_SomeD [OF placed(2)] by (auto simp: r coherent_placement_def)
  moreover have "validateExistingTaskProjectId (get s ''projectId'') allProjects = Inr (get s ''projectId'')"
    using t placed by (simp add: validate_project)
  ultimately show ?thesis
    using placed t by (simp add: r resolveTaskContainerAssignment_def container_id_idem container_id_truthy
        resolveTaskContainerHierarchy_def Let_def normalizeOptionalContainerId_def [of JUndef])
next
  case project_only
  note t = trimmed_id [OF assms(1) project_only(2)]
  with project_only assms show ?thesis
    by (auto simp: coherent_placement_def resolveTaskContainerAssignment_def validate_project container_id_idem
        validateExistingTaskProjectId_def resolveTaskContainerHierarchy_def Let_def normalizeOptionalContainerId_def [of JUndef])
next
  case area_only
  with assms show ?thesis
    by (auto simp: coherent_placement_def resolveTaskContainerAssignment_def validateExistingTaskProjectId_def
        validateExistingTaskAreaId_def container_id_idem resolveTaskContainerHierarchy_def Let_def
        normalizeOptionalContainerId_def [of JUndef])
qed (use assms in simp_all)

lemma trimmed_live:
  assumes "trimmed_ids es" "x \<in> set es" "get x ''id'' = i"
  shows "normalizeOptionalContainerId i = i" "truthy i" "i \<noteq> JUndef"
  using assms by (auto simp: trimmed_ids_def normalizeOptionalContainerId_def non_blank_def)

lemma find_unique_id:
  assumes "distinct (ids es)" "x \<in> set es" "\<not> deleted x"
  shows "find (\<lambda>s. get s ''id'' = get x ''id'' \<and> \<not> deleted s) es = Some x"
proof -
  from assms obtain y where y: "find (\<lambda>s. get s ''id'' = get x ''id'' \<and> \<not> deleted s) es = Some y"
    by (cases "find (\<lambda>s. get s ''id'' = get x ''id'' \<and> \<not> deleted s) es") (auto simp: find_None_iff)
  with find_SomeD [OF y] assms(1,2) show ?thesis by (auto simp: ids_def distinct_map inj_on_def)
qed

text \<open>
  The placements the rules accept as they stand are exactly the coherent ones: no coherent
  placement is refused or altered, and nothing else passes unaltered.
\<close>

theorem accepted_iff_coherent:
  assumes "trimmed_ids allProjects" "trimmed_ids allSections" "trimmed_ids allAreas" "distinct (ids allSections)"
  shows "resolveTaskContainerAssignment a allProjects allSections allAreas = Inr a
    \<longleftrightarrow> coherent_placement a allProjects allSections allAreas"
proof
  assume c: "coherent_placement a allProjects allSections allAreas"
  have p: "normalizeOptionalContainerId (in_project a) = in_project a" "in_project a = JUndef \<or> truthy (in_project a)"
    using c trimmed_id [OF assms(1)] by (auto simp: coherent_placement_def normalizeOptionalContainerId_def [of JUndef])
  have ar: "normalizeOptionalContainerId (in_area a) = in_area a"
    using c trimmed_id [OF assms(3)] by (auto simp: coherent_placement_def normalizeOptionalContainerId_def [of JUndef])
  have v: "validateExistingTaskProjectId (in_project a) allProjects = Inr (in_project a)"
    using c p by (simp add: validate_project coherent_placement_def)
  note defs = resolveTaskContainerAssignment_def v resolveTaskContainerHierarchy_def Let_def
  show "resolveTaskContainerAssignment a allProjects allSections allAreas = Inr a"
  proof (cases "in_section a = JUndef")
    case True
    have "validateExistingTaskAreaId (in_area a) allAreas = Inr (in_area a)"
      if "in_project a = JUndef" using c ar that by (auto simp: validate_area coherent_placement_def)
    with True c p ar show ?thesis
      by (cases "in_project a = JUndef") (auto simp: defs coherent_placement_def normalizeOptionalContainerId_def [of JUndef]
          validateExistingTaskProjectId_def [of JUndef])
  next
    case False
    with c obtain s where s: "s \<in> set allSections" "get s ''id'' = in_section a" "\<not> deleted s"
        "get s ''projectId'' = in_project a" "in_project a \<noteq> JUndef" "in_area a = JUndef" "live_with_id (in_project a) allProjects"
      by (auto simp: coherent_placement_def)
    note t = trimmed_live [OF assms(2) s(1,2)]
    have "find (\<lambda>s. get s ''id'' = in_section a \<and> \<not> deleted s) allSections = Some s"
      using find_unique_id [OF assms(4) s(1,3)] s(2) by simp
    with s t p show ?thesis by (auto simp: defs normalizeOptionalContainerId_def [of JUndef])
  qed
next
  assume "resolveTaskContainerAssignment a allProjects allSections allAreas = Inr a"
  with resolved_coherent [OF assms(1)] show "coherent_placement a allProjects allSections allAreas" by blast
qed

lemma patch_get:
  "get (container_patch r) ''projectId'' = in_project r" "get (container_patch r) ''sectionId'' = in_section r"
  "get (container_patch r) ''areaId'' = in_area r"
  by (simp_all add: container_patch_def)

lemma reserve_keeps:
  "k \<notin> {''order'', ''orderNum''} \<Longrightarrow> get (reserveTaskContainerProjectOrder task patch f) k = get patch k"
  by (auto simp: reserveTaskContainerProjectOrder_def Let_def)

text \<open>
  C27. Where a move puts a task is coherent, whatever was asked: the project is a live one, the
  section is live and lies in that very project, and the task is directly in an area only when it
  is in no project, and then the area is live. A task that leaves its project loses its order
  in it. A refused move has one of four messages.
\<close>

theorem move_patch_is_coherent:
  assumes "trimmed_ids allProjects"
  shows "case buildTaskContainerMovePatch task updates allProjects allSections allAreas reserve reserver of
      Inl error \<Rightarrow> error \<in> {''Project not found'', ''Section not found'', ''Section does not belong to project'', ''Area not found''}
    | Inr patch \<Rightarrow>
        coherent_placement \<lparr>in_project = get patch ''projectId'', in_section = get patch ''sectionId'', in_area = get patch ''areaId''\<rparr>
          allProjects allSections allAreas
        \<and> (truthy (get task ''projectId'') \<and> get patch ''projectId'' = JUndef \<longrightarrow>
             get patch ''order'' = JUndef \<and> get patch ''orderNum'' = JUndef)"
proof (cases "resolveTaskContainerAssignment (container_request task updates) allProjects allSections allAreas")
  case (Inl e)
  have "e \<in> {''Project not found'', ''Section not found'', ''Section does not belong to project'', ''Area not found''}"
    by (rule resolve_cases [OF assms, of "container_request task updates" allSections allAreas]) (auto simp: Inl)
  with Inl show ?thesis by (simp only: buildTaskContainerMovePatch_def sum.case)
next
  case (Inr r)
  have c: "coherent_placement r allProjects allSections allAreas" using resolved_coherent [OF assms Inr] ..
  then have sec: "in_section r = JUndef" if "\<not> truthy (in_project r)"
    using that trimmed_id [OF assms] by (auto simp: coherent_placement_def)
  have same: "coherent_placement \<lparr>in_project = in_project r, in_section = in_section r, in_area = in_area r\<rparr>
      allProjects allSections allAreas"
    using c by (simp add: coherent_placement_def)
  have order: "get (container_patch r) ''order'' = JUndef" "get (container_patch r) ''orderNum'' = JUndef"
    by (simp_all add: container_patch_def)
  have project: "in_project r = JUndef \<or> truthy (in_project r)"
    using c trimmed_id [OF assms] by (auto simp: coherent_placement_def)
  let ?changed = "coalesce (get task ''projectId'') JUndef \<noteq> coalesce (in_project r) JUndef"
  note defs = buildTaskContainerMovePatch_def Inr sum.case Let_def
  show ?thesis
  proof (cases "?changed \<and> \<not> truthy (in_project r)")
    case True
    with sec same show ?thesis unfolding defs by (simp add: patch_get)
  next
    case False
    then have stays: "\<not> (truthy (get task ''projectId'') \<and> in_project r = JUndef)"
      by (auto simp: coalesce_def nullish_def split: if_splits)
    have "\<exists>patch. buildTaskContainerMovePatch task updates allProjects allSections allAreas reserve reserver = Inr patch
        \<and> get patch ''projectId'' = in_project r \<and> get patch ''sectionId'' = in_section r \<and> get patch ''areaId'' = in_area r"
      unfolding defs if_not_P [OF False] by (cases reserver) (simp_all add: patch_get reserve_keeps)
    then obtain patch where patch: "buildTaskContainerMovePatch task updates allProjects allSections allAreas reserve reserver = Inr patch"
        "get patch ''projectId'' = in_project r" "get patch ''sectionId'' = in_section r" "get patch ''areaId'' = in_area r" by blast
    from same stays show ?thesis by (auto simp: patch)
  qed
qed

definition example_projects :: "entity list" where
  "example_projects = [JObj [(''id'', JStr ''p'')]]"

definition example_sections :: "entity list" where
  "example_sections = [JObj [(''id'', JStr ''s''), (''projectId'', JStr ''p'')]]"

lemma example_ids: "trimmed_ids example_projects" "trimmed_ids example_sections" "trimmed_ids []" "distinct (ids example_sections)"
proof -
  have "trim_str ''p'' = ''p'' \<and> trim_str ''s'' = ''s''" by code_simp
  then show "trimmed_ids example_projects" "trimmed_ids example_sections" "trimmed_ids []" "distinct (ids example_sections)"
    by (simp_all add: trimmed_ids_def example_projects_def example_sections_def)
qed

theorem move_patch_is_coherent_witness:
  "\<exists>patch. trimmed_ids example_projects
     \<and> buildTaskContainerMovePatch (JObj [(''areaId'', JStr ''a'')]) (JObj [(''sectionId'', JStr '' s '')])
         example_projects example_sections [] True None = Inr patch
     \<and> get patch ''projectId'' = JStr ''p''
     \<and> coherent_placement \<lparr>in_project = get patch ''projectId'', in_section = get patch ''sectionId'', in_area = get patch ''areaId''\<rparr>
          example_projects example_sections []"
proof -
  let ?m = "buildTaskContainerMovePatch (JObj [(''areaId'', JStr ''a'')]) (JObj [(''sectionId'', JStr '' s '')])
         example_projects example_sections [] True None"
  let ?patch = "JObj [(''projectId'', JStr ''p''), (''sectionId'', JStr ''s''), (''areaId'', JUndef)]"
  have m: "?m = Inr ?patch" by code_simp
  have p: "get ?patch ''projectId'' = JStr ''p''" by simp
  show ?thesis
    using move_patch_is_coherent [OF example_ids(1), where task = "JObj [(''areaId'', JStr ''a'')]"
        and updates = "JObj [(''sectionId'', JStr '' s '')]" and allSections = example_sections and allAreas = "[]"
        and reserve = True and reserver = None] m p example_ids(1)
    unfolding m by (intro exI [of _ ?patch]) (simp only: sum.case)
qed

theorem accepted_iff_coherent_witness:
  "\<not> coherent_placement \<lparr>in_project = JStr ''p'', in_section = JStr ''s'', in_area = JStr ''a''\<rparr> example_projects example_sections []
   \<and> coherent_placement \<lparr>in_project = JStr ''p'', in_section = JStr ''s'', in_area = JUndef\<rparr> example_projects example_sections []"
proof -
  have "resolveTaskContainerAssignment \<lparr>in_project = JStr ''p'', in_section = JStr ''s'', in_area = JStr ''a''\<rparr> example_projects example_sections []
      \<noteq> Inr \<lparr>in_project = JStr ''p'', in_section = JStr ''s'', in_area = JStr ''a''\<rparr>
    \<and> resolveTaskContainerAssignment \<lparr>in_project = JStr ''p'', in_section = JStr ''s'', in_area = JUndef\<rparr> example_projects example_sections []
      = Inr \<lparr>in_project = JStr ''p'', in_section = JStr ''s'', in_area = JUndef\<rparr>"
    by code_simp
  then show ?thesis using accepted_iff_coherent [OF example_ids] by blast
qed

end
