(* ===== verification/Area_Utils.thy ===== *)
theory Area_Utils
  imports App_Data Sync_Revision
begin

text \<open>
  Areas (\<^verbatim>\<open>packages/core/src/area-utils.ts\<close>): the default area of a new task and the removal of live
  areas that share a name. The \<open>Map\<close>s of the code are association lists.
\<close>

section \<open>Default area\<close>

definition normalizeAreaNameKey :: "js \<Rightarrow> string" where
  "normalizeAreaNameKey v = (case v of JStr s \<Rightarrow> lower (trim_str s) | _ \<Rightarrow> [])"

definition getDefaultTaskAreaMode :: "js \<Rightarrow> js" where
  "getDefaultTaskAreaMode s =
     (let mode = get (get s ''gtd'') ''defaultAreaMode''
      in if mode \<in> {JStr ''none'', JStr ''fixed'', JStr ''active''} then mode
         else if truthy (get (get s ''gtd'') ''defaultAreaId'') then JStr ''fixed'' else JStr ''none'')"

definition resolveDefaultNewTaskAreaId :: "js \<Rightarrow> entity list \<Rightarrow> js" where
  "resolveDefaultNewTaskAreaId s allAreas =
     (if getDefaultTaskAreaMode s \<noteq> JStr ''fixed'' then JUndef
      else case get (get s ''gtd'') ''defaultAreaId'' of
             JStr configuredAreaId \<Rightarrow>
               let areaId = trim_str configuredAreaId
               in if areaId = [] then JUndef
                  else if \<exists>area\<in>set allAreas. get area ''id'' = JStr areaId \<and> \<not> deleted area then JStr areaId else JUndef
           | _ \<Rightarrow> JUndef)"

section \<open>Deduplication\<close>

definition compareAreaDedupeWinner :: "host \<Rightarrow> entity \<Rightarrow> entity \<Rightarrow> int" where
  "compareAreaDedupeWinner h left right =
     (let createdAtCompare = locale_compare h (the_str (get left ''createdAt'')) (the_str (get right ''createdAt''))
      in if createdAtCompare \<noteq> 0 then createdAtCompare
         else locale_compare h (the_str (get left ''id'')) (the_str (get right ''id'')))"

text \<open>A live area with a name takes part; its key is the normalised name.\<close>

definition dedupe_key :: "entity \<Rightarrow> string option" where
  "dedupe_key area =
     (if deleted area \<or> normalizeAreaNameKey (get area ''name'') = [] then None
      else Some (normalizeAreaNameKey (get area ''name'')))"

definition choose_area :: "host \<Rightarrow> (string \<times> entity) list \<Rightarrow> entity \<Rightarrow> (string \<times> entity) list" where
  "choose_area h areaByName area =
     (case dedupe_key area of
        None \<Rightarrow> areaByName
      | Some nameKey \<Rightarrow>
          (case map_of areaByName nameKey of
             None \<Rightarrow> AList.update nameKey area areaByName
           | Some existing \<Rightarrow> if compareAreaDedupeWinner h area existing < 0 then AList.update nameKey area areaByName
                              else areaByName))"

definition area_by_name :: "host \<Rightarrow> entity list \<Rightarrow> (string \<times> entity) list" where
  "area_by_name h allAreas = foldl (choose_area h) [] allAreas"

definition retire_area :: "entity \<Rightarrow> string \<Rightarrow> string option \<Rightarrow> entity" where
  "retire_area area nowIso revBy =
     puts area ([(''deletedAt'', JStr nowIso), (''updatedAt'', JStr nowIso), (''rev'', JNum (nextRevision (get area ''rev'')))]
       @ (case revBy of Some d \<Rightarrow> if d \<noteq> [] then [(''revBy'', JStr d)] else [] | None \<Rightarrow> []))"

definition loses_to :: "(string \<times> entity) list \<Rightarrow> entity \<Rightarrow> entity option" where
  "loses_to areaByName area =
     (case dedupe_key area of
        None \<Rightarrow> None
      | Some nameKey \<Rightarrow>
          (case map_of areaByName nameKey of
             None \<Rightarrow> None
           | Some canonicalArea \<Rightarrow> if get canonicalArea ''id'' = get area ''id'' then None else Some canonicalArea))"

record AreaDedupe =
  kept_areas :: "entity list"
  area_remap :: "(js \<times> js) list"
  areas_changed :: bool

definition dedupe_step :: "(string \<times> entity) list \<Rightarrow> string \<Rightarrow> string option \<Rightarrow> AreaDedupe \<Rightarrow> entity \<Rightarrow> AreaDedupe" where
  "dedupe_step areaByName nowIso revBy acc area =
     (case loses_to areaByName area of
        None \<Rightarrow> acc\<lparr>kept_areas := kept_areas acc @ [area]\<rparr>
      | Some canonicalArea \<Rightarrow>
          \<lparr>kept_areas = kept_areas acc @ [retire_area area nowIso revBy],
           area_remap = AList.update (get area ''id'') (get canonicalArea ''id'') (area_remap acc),
           areas_changed = True\<rparr>)"

definition dedupeLiveAreasByName :: "host \<Rightarrow> entity list \<Rightarrow> string \<Rightarrow> string option \<Rightarrow> AreaDedupe" where
  "dedupeLiveAreasByName h allAreas nowIso revBy =
     foldl (dedupe_step (area_by_name h allAreas) nowIso revBy)
       \<lparr>kept_areas = [], area_remap = [], areas_changed = False\<rparr> allAreas"

section \<open>What deduplication leaves\<close>

text \<open>The table of canonical areas: every key of a live area, and an area of that key from the list.\<close>

lemma area_table:
  "(\<forall>a\<in>set xs. \<forall>k. dedupe_key a = Some k \<longrightarrow> map_of (area_by_name h xs) k \<noteq> None)
   \<and> (\<forall>k a. map_of (area_by_name h xs) k = Some a \<longrightarrow> a \<in> set xs \<and> dedupe_key a = Some k)"
proof (induction xs rule: rev_induct)
  case (snoc x xs)
  have step: "area_by_name h (xs @ [x]) = choose_area h (area_by_name h xs) x" by (simp add: area_by_name_def)
  show ?case
  proof (cases "dedupe_key x")
    case None
    with snoc show ?thesis unfolding step choose_area_def by auto
  next
    case (Some k)
    have "map_of (choose_area h (area_by_name h xs) x) =
        (case map_of (area_by_name h xs) k of
           None \<Rightarrow> (map_of (area_by_name h xs))(k \<mapsto> x)
         | Some e \<Rightarrow> if compareAreaDedupeWinner h x e < 0 then (map_of (area_by_name h xs))(k \<mapsto> x) else map_of (area_by_name h xs))"
      by (simp add: choose_area_def Some update_conv' split: option.split)
    with snoc Some show ?thesis
      unfolding step by (auto split: option.splits if_splits)
  qed
qed (simp add: area_by_name_def)

lemma dedupe_fold:
  "foldl (dedupe_step m n b) acc xs =
     \<lparr>kept_areas = kept_areas acc @ map (\<lambda>a. if loses_to m a = None then a else retire_area a n b) xs,
      area_remap = foldl (\<lambda>r a. case loses_to m a of None \<Rightarrow> r | Some c \<Rightarrow> AList.update (get a ''id'') (get c ''id'') r) (area_remap acc) xs,
      areas_changed = (areas_changed acc \<or> (\<exists>a\<in>set xs. loses_to m a \<noteq> None))\<rparr>"
  by (induction xs arbitrary: acc) (auto simp: dedupe_step_def split: option.split)

lemma kept_areas_eq:
  "kept_areas (dedupeLiveAreasByName h xs n b) =
     map (\<lambda>a. if loses_to (area_by_name h xs) a = None then a else retire_area a n b) xs"
  by (simp add: dedupeLiveAreasByName_def dedupe_fold)

lemma changed_eq:
  "areas_changed (dedupeLiveAreasByName h xs n b) \<longleftrightarrow> (\<exists>a\<in>set xs. loses_to (area_by_name h xs) a \<noteq> None)"
  by (simp add: dedupeLiveAreasByName_def dedupe_fold)

lemma remap_in:
  "map_of (foldl (\<lambda>r a. case f a of None \<Rightarrow> r | Some c \<Rightarrow> AList.update (i a) (j c) r) r0 xs) k = Some v \<Longrightarrow>
     map_of r0 k = Some v \<or> (\<exists>a\<in>set xs. \<exists>c. f a = Some c \<and> i a = k \<and> j c = v)"
  by (induction xs arbitrary: r0) (fastforce simp: update_conv' split: option.splits if_splits)+

lemma retired: "n \<noteq> [] \<Longrightarrow> deleted (retire_area a n b) \<and> get (retire_area a n b) ''id'' = get a ''id''"
  by (auto simp: retire_area_def deleted_def split: option.split)

lemma retired_no_key: "n \<noteq> [] \<Longrightarrow> dedupe_key (retire_area a n b) = None"
  using retired [of n a b] by (simp add: dedupe_key_def)

lemma loses_to_key: "loses_to m a = Some c \<Longrightarrow> \<exists>k. dedupe_key a = Some k \<and> map_of m k = Some c \<and> get c ''id'' \<noteq> get a ''id''"
  by (auto simp: loses_to_def split: option.splits if_splits)

lemma kept_key:
  assumes "n \<noteq> []" "x \<in> set (kept_areas (dedupeLiveAreasByName h xs n b))" "dedupe_key x = Some k"
  obtains c where "x \<in> set xs" "map_of (area_by_name h xs) k = Some c" "get c ''id'' = get x ''id''"
proof -
  from assms obtain a where a: "a \<in> set xs" "x = (if loses_to (area_by_name h xs) a = None then a else retire_area a n b)"
    by (auto simp: kept_areas_eq)
  with assms(1,3) have "loses_to (area_by_name h xs) a = None" "x = a"
    by (auto simp: retired_no_key split: if_splits)
  moreover have "map_of (area_by_name h xs) k \<noteq> None" using a(1) \<open>x = a\<close> assms(3) area_table [of xs h] by simp
  then obtain c where "map_of (area_by_name h xs) k = Some c" by blast
  ultimately show ?thesis using that [of c] a assms(3) by (auto simp: loses_to_def split: if_splits)
qed

lemma canonical_kept:
  assumes "map_of (area_by_name h xs) k = Some c"
  shows "c \<in> set (kept_areas (dedupeLiveAreasByName h xs n b)) \<and> dedupe_key c = Some k"
  using area_table [of xs h] assms by (force simp: kept_areas_eq loses_to_def)

text \<open>
  After deduplication no two different live areas share a name: live areas with the same key
  have the same id. Nothing is lost: the areas keep their number, order and ids; every name that was live is
  still the name of a live area; and every entry of the remap sends the id of an input area to
  the id of an area that is live in the result.
\<close>

theorem dedupe_live_names_unique:
  assumes "nowIso \<noteq> []"
  shows "let r = dedupeLiveAreasByName h xs nowIso revBy in
    (\<forall>x\<in>set (kept_areas r). \<forall>y\<in>set (kept_areas r).
       dedupe_key x \<noteq> None \<and> dedupe_key x = dedupe_key y \<longrightarrow> get x ''id'' = get y ''id'')
    \<and> ids (kept_areas r) = ids xs
    \<and> (\<forall>a\<in>set xs. dedupe_key a \<noteq> None \<longrightarrow> (\<exists>c\<in>set (kept_areas r). dedupe_key c = dedupe_key a))
    \<and> (\<forall>i j. map_of (area_remap r) i = Some j \<longrightarrow>
         i \<in> set (ids xs) \<and> (\<exists>c\<in>set (kept_areas r). get c ''id'' = j \<and> \<not> deleted c))"
  (is "let r = ?r in _")
proof -
  have "get x ''id'' = get y ''id''"
    if "x \<in> set (kept_areas ?r)" "y \<in> set (kept_areas ?r)" "dedupe_key x = Some k" "dedupe_key y = Some k" for x y k
    using kept_key [OF assms that(1,3)] kept_key [OF assms that(2,4)] by (metis option.inject)
  then have unique: "\<forall>x\<in>set (kept_areas ?r). \<forall>y\<in>set (kept_areas ?r).
       dedupe_key x \<noteq> None \<and> dedupe_key x = dedupe_key y \<longrightarrow> get x ''id'' = get y ''id''" by force
  have ids: "ids (kept_areas ?r) = ids xs"
    using retired [OF assms] by (simp add: kept_areas_eq ids_def)
  have names: "\<forall>a\<in>set xs. dedupe_key a \<noteq> None \<longrightarrow> (\<exists>c\<in>set (kept_areas ?r). dedupe_key c = dedupe_key a)"
    using area_table [of xs h] canonical_kept [of h xs] by fastforce
  have remap: "i \<in> set (ids xs) \<and> (\<exists>c\<in>set (kept_areas ?r). get c ''id'' = j \<and> \<not> deleted c)"
    if "map_of (area_remap ?r) i = Some j" for i j
  proof -
    from that obtain a c where a: "a \<in> set xs" "loses_to (area_by_name h xs) a = Some c" "get a ''id'' = i" "get c ''id'' = j"
      using remap_in [where f = "loses_to (area_by_name h xs)" and i = "\<lambda>a. get a ''id''" and j = "\<lambda>a. get a ''id''"
          and ?r0.0 = "[]" and xs = xs]
      by (fastforce simp: dedupeLiveAreasByName_def dedupe_fold)
    with loses_to_key obtain k where "map_of (area_by_name h xs) k = Some c" by blast
    from canonical_kept [OF this, of nowIso revBy] have "c \<in> set (kept_areas ?r)" "\<not> deleted c"
      by (auto simp: dedupe_key_def split: if_splits)
    with a show ?thesis by (auto simp: set_ids)
  qed
  from unique ids names remap show ?thesis unfolding Let_def by blast
qed

text \<open>
  Deduplication is idempotent: a second run over its result, at any clock, reports no change
  and returns the same areas, so it does not bump revisions sync after sync.
\<close>

theorem dedupe_areas_idem:
  assumes "nowIso \<noteq> []"
  shows "let r = dedupeLiveAreasByName h xs nowIso revBy in
    \<not> areas_changed (dedupeLiveAreasByName h (kept_areas r) later revBy2)
    \<and> kept_areas (dedupeLiveAreasByName h (kept_areas r) later revBy2) = kept_areas r"
proof -
  define ys where "ys = kept_areas (dedupeLiveAreasByName h xs nowIso revBy)"
  have same: "get x ''id'' = get y ''id''" if "x \<in> set ys" "y \<in> set ys" "dedupe_key x = Some k" "dedupe_key y = Some k" for x y k
    using kept_key [OF assms that(1) [unfolded ys_def] that(3)] kept_key [OF assms that(2) [unfolded ys_def] that(4)]
    by (metis option.inject)
  have none: "loses_to (area_by_name h ys) a = None" if "a \<in> set ys" for a
  proof (cases "loses_to (area_by_name h ys) a")
    case (Some c)
    then obtain k where k: "dedupe_key a = Some k" "map_of (area_by_name h ys) k = Some c" "get c ''id'' \<noteq> get a ''id''"
      using loses_to_key by blast
    with area_table [of ys h] same [of c a k] that show ?thesis by auto
  qed simp
  then have "kept_areas (dedupeLiveAreasByName h ys later revBy2) = ys"
    by (simp add: kept_areas_eq map_idI)
  moreover have "\<not> areas_changed (dedupeLiveAreasByName h ys later revBy2)" using none by (simp add: changed_eq)
  ultimately show ?thesis by (simp add: ys_def [symmetric])
qed

definition two_homes :: "entity list" where
  "two_homes = [JObj [(''id'', JStr ''b''), (''name'', JStr '' Home''), (''createdAt'', JStr ''2''), (''rev'', JNum 1)],
    JObj [(''id'', JStr ''a''), (''name'', JStr ''home''), (''createdAt'', JStr ''1'')]]"

theorem dedupe_live_names_unique_witness:
  "(''n'' :: string) \<noteq> [] \<and> map_of (area_remap (dedupeLiveAreasByName host0 two_homes ''n'' None)) (JStr ''b'') = Some (JStr ''a'')
   \<and> (\<exists>c\<in>set (kept_areas (dedupeLiveAreasByName host0 two_homes ''n'' None)). get c ''id'' = JStr ''a'' \<and> \<not> deleted c)"
proof -
  have "map_of (area_remap (dedupeLiveAreasByName host0 two_homes ''n'' None)) (JStr ''b'') = Some (JStr ''a'')" by code_simp
  then show ?thesis
    using dedupe_live_names_unique [of "''n''" host0 two_homes None] unfolding Let_def by blast
qed

theorem dedupe_areas_idem_witness:
  "areas_changed (dedupeLiveAreasByName host0 two_homes ''n'' None)
   \<and> \<not> areas_changed (dedupeLiveAreasByName host0 (kept_areas (dedupeLiveAreasByName host0 two_homes ''n'' None)) ''m'' None)"
proof -
  have "areas_changed (dedupeLiveAreasByName host0 two_homes ''n'' None)" by code_simp
  then show ?thesis using dedupe_areas_idem [of "''n''" host0 two_homes None] by (simp add: Let_def)
qed

end
