(* ===== verification/Sync_Repair.thy ===== *)
theory Sync_Repair
  imports Sync_Merge Purged_Normalization Container_Rules Area_Utils
begin

text \<open>
  Repair of references after a merge (\<^verbatim>\<open>packages/core/src/sync-normalization.ts\<close>, lines 351 to
  560): duplicate areas are folded together, projects, sections and tasks lose references to
  containers that are gone, and every repaired entity is stamped by \<open>sync-repair\<close>.
\<close>

section \<open>Stamps and lookup tables\<close>

definition withRepairRevision :: "entity \<Rightarrow> entity" where
  "withRepairRevision item =
     puts item
       [(''rev'', JNum (if get item ''revBy'' = JStr SYNC_REPAIR_REV_BY then normalizeRevision (get item ''rev'')
                       else nextRevision (get item ''rev''))),
        (''revBy'', JStr SYNC_REPAIR_REV_BY)]"

definition ids_where :: "(entity \<Rightarrow> bool) \<Rightarrow> entity list \<Rightarrow> js list" where
  "ids_where P es = ids (filter P es)"

definition by_id_where :: "(entity \<Rightarrow> bool) \<Rightarrow> entity list \<Rightarrow> js \<Rightarrow> entity option" where
  "by_id_where P es = map_of (id_map (filter P es))"

definition remapped :: "(js \<times> js) list \<Rightarrow> js \<Rightarrow> js" where
  "remapped areaIdRemap i = (if truthy i then (case map_of areaIdRemap i of Some j \<Rightarrow> coalesce j i | None \<Rightarrow> i) else i)"

section \<open>Projects and sections\<close>

definition repair_project :: "(js \<times> js) list \<Rightarrow> entity list \<Rightarrow> string \<Rightarrow> entity \<Rightarrow> entity" where
  "repair_project areaIdRemap allAreas nowIso project =
     (let areaId = remapped areaIdRemap (normalizeOptionalString (get project ''areaId''))
      in if \<not> truthy areaId then
           (if areaId = get project ''areaId'' \<and> get project ''areaTitle'' = normalizeOptionalString (get project ''areaTitle'')
            then project
            else puts project [(''areaId'', areaId), (''areaTitle'', normalizeOptionalString (get project ''areaTitle''))])
         else
           (case by_id_where (\<lambda>a. \<not> deleted a) allAreas areaId of
              Some liveArea \<Rightarrow>
                let areaTitle = normalizeOptionalString (get liveArea ''name'')
                in if areaId = get project ''areaId'' \<and> get project ''areaTitle'' = areaTitle then project
                   else puts (withRepairRevision project)
                     [(''areaId'', areaId), (''areaTitle'', areaTitle), (''updatedAt'', JStr nowIso)]
            | None \<Rightarrow> puts (withRepairRevision project)
                [(''areaId'', JUndef), (''areaTitle'', JUndef), (''updatedAt'', JStr nowIso)]))"

definition project_archived :: "entity \<Rightarrow> bool" where
  "project_archived p \<longleftrightarrow> \<not> deleted p \<and> get p ''status'' = JStr ''archived''"

definition repair_section :: "entity list \<Rightarrow> string \<Rightarrow> entity \<Rightarrow> entity" where
  "repair_section repairedProjects nowIso section =
     (let projectId = get section ''projectId''
      in if projectId \<in> set (ids_where (\<lambda>p. \<not> deleted p) repairedProjects)
            \<or> projectId \<notin> set (ids_where deleted repairedProjects) then section
         else if deleted section then
           (case by_id_where purged repairedProjects projectId of
              Some purgedProject \<Rightarrow> coalesce (hd (compactSectionsForPurgedProjects [section] [purgedProject] True)) section
            | None \<Rightarrow> section)
         else puts (withRepairRevision section) [(''deletedAt'', JStr nowIso), (''updatedAt'', JStr nowIso)])"

section \<open>Tasks\<close>

definition section_project :: "entity list \<Rightarrow> entity list \<Rightarrow> entity \<Rightarrow> js \<Rightarrow> js \<Rightarrow> js" where
  "section_project repairedProjects repairedSections task nextProjectId nextSectionId =
     (let liveSection = (if truthy nextSectionId
            then by_id_where (\<lambda>s. \<not> deleted s \<and> get s ''projectId'' \<in> set (ids_where (\<lambda>p. \<not> deleted p) repairedProjects))
              repairedSections nextSectionId
            else None);
          archivedSection = (if liveSection = None \<and> truthy nextSectionId
            then by_id_where (\<lambda>s. deleted s \<and> get s ''projectId'' \<in> set (ids_where project_archived repairedProjects))
              repairedSections nextSectionId
            else None);
          archivedProject = (if truthy nextProjectId then by_id_where project_archived repairedProjects nextProjectId else None)
      in coalesce (case liveSection of Some s \<Rightarrow> get s ''projectId'' | None \<Rightarrow> JUndef)
           (case archivedSection of
              Some s \<Rightarrow> if isTaskSectionProjectArchiveReference task archivedSection archivedProject
                        then get s ''projectId'' else JUndef
            | None \<Rightarrow> JUndef))"

text \<open>The references a task keeps before its section is looked at, and whether one was dropped or remapped.\<close>

definition kept_references ::
    "(js \<times> js) list \<Rightarrow> entity list \<Rightarrow> entity list \<Rightarrow> entity \<Rightarrow> TaskContainerAssignment \<times> bool" where
  "kept_references areaIdRemap allAreas repairedProjects task =
     (let originalProjectId = normalizeOptionalString (get task ''projectId'');
          originalSectionId = normalizeOptionalString (get task ''sectionId'');
          originalAreaId = normalizeOptionalString (get task ''areaId'');
          areaId = remapped areaIdRemap originalAreaId;
          projectDeleted = (truthy originalProjectId \<and> originalProjectId \<in> set (ids_where deleted repairedProjects));
          projectGone = (truthy originalProjectId \<and> originalProjectId \<notin> set (ids_where (\<lambda>p. \<not> deleted p) repairedProjects));
          areaGone = (truthy areaId \<and> (areaId \<in> set (ids_where deleted allAreas)
                        \<or> areaId \<notin> set (ids_where (\<lambda>a. \<not> deleted a) allAreas)))
      in (\<lparr>in_project = (if projectDeleted \<or> projectGone then JUndef else originalProjectId),
           in_section = (if projectDeleted then JUndef else originalSectionId),
           in_area = (if areaGone then JUndef else areaId)\<rparr>,
          areaId \<noteq> originalAreaId \<or> projectDeleted \<or> projectGone \<or> areaGone))"

definition repaired_container ::
    "(js \<times> js) list \<Rightarrow> entity list \<Rightarrow> entity list \<Rightarrow> entity list \<Rightarrow> entity \<Rightarrow> TaskContainerAssignment" where
  "repaired_container areaIdRemap allAreas repairedProjects repairedSections task =
     (let kept = fst (kept_references areaIdRemap allAreas repairedProjects task)
      in resolveTaskContainerHierarchy kept
           (section_project repairedProjects repairedSections task (in_project kept) (in_section kept)))"

definition repair_task ::
    "(js \<times> js) list \<Rightarrow> entity list \<Rightarrow> entity list \<Rightarrow> entity list \<Rightarrow> string \<Rightarrow> entity \<Rightarrow> entity" where
  "repair_task areaIdRemap allAreas repairedProjects repairedSections nowIso task =
     (let (kept, changed) = kept_references areaIdRemap allAreas repairedProjects task;
          resolvedContainer = repaired_container areaIdRemap allAreas repairedProjects repairedSections task
      in if \<not> changed \<and> resolvedContainer = kept then task
         else puts (withRepairRevision task)
           ([(''projectId'', in_project resolvedContainer), (''sectionId'', in_section resolvedContainer),
             (''areaId'', in_area resolvedContainer)]
            @ (if truthy (normalizeOptionalString (get task ''projectId'')) \<and> \<not> truthy (in_project resolvedContainer)
               then [(''order'', JUndef), (''orderNum'', JUndef)] else [])
            @ [(''updatedAt'', JStr nowIso)]))"

section \<open>Settings and the whole document\<close>

text \<open>A spread of an absent object is the empty object.\<close>

definition spread :: "js \<Rightarrow> js" where
  "spread v = JObj (props v)"

definition repair_settings :: "(js \<times> js) list \<Rightarrow> string \<Rightarrow> js \<Rightarrow> js" where
  "repair_settings areaIdRemap nowIso s =
     (let configuredDefaultAreaId = get (get s ''gtd'') ''defaultAreaId'';
          remappedDefaultAreaId = (if is_str configuredDefaultAreaId
            then (case map_of areaIdRemap configuredDefaultAreaId of Some j \<Rightarrow> j | None \<Rightarrow> JUndef) else JUndef)
      in if truthy remappedDefaultAreaId \<and> remappedDefaultAreaId \<noteq> configuredDefaultAreaId
         then puts (spread s)
           [(''gtd'', put (spread (get s ''gtd'')) ''defaultAreaId'' remappedDefaultAreaId),
            (''syncPreferencesUpdatedAt'', put (spread (get s ''syncPreferencesUpdatedAt'')) ''gtd'' (JStr nowIso))]
         else s)"

definition repairMergedSyncReferences :: "host \<Rightarrow> AppData \<Rightarrow> string \<Rightarrow> AppData" where
  "repairMergedSyncReferences h d nowIso =
     (let deduped = dedupeLiveAreasByName h (areas d) nowIso (Some SYNC_REPAIR_REV_BY);
          repairedProjects = map (repair_project (area_remap deduped) (kept_areas deduped) nowIso) (projects d);
          repairedSections = map (repair_section repairedProjects nowIso) (sections d)
      in d\<lparr>areas := kept_areas deduped,
           tasks := map (repair_task (area_remap deduped) (kept_areas deduped) repairedProjects repairedSections nowIso) (tasks d),
           projects := repairedProjects,
           sections := repairedSections,
           settings := repair_settings (area_remap deduped) nowIso (settings d)\<rparr>)"

end
