(* ===== verification/Sync_Validation.thy ===== *)
theory Sync_Validation
  imports Sync_Repair
begin

text \<open>
  Validation of a document before it is written (\<^verbatim>\<open>packages/core/src/sync-normalization.ts\<close>,
  lines 562 to 871). A validator returns the list of error messages, empty when the document is accepted.
  An \<open>AppData\<close> holds lists, so the array checks of \<open>validateMergedSyncData\<close> cannot fail here; the
  check of a raw payload keeps them.
\<close>

section \<open>Messages\<close>

definition err :: "bool \<Rightarrow> string \<Rightarrow> string list" where
  "err bad message = (if bad then [message] else [])"

definition item_at :: "string \<Rightarrow> nat \<Rightarrow> string" where
  "item_at label index = label @ ''['' @ num_str (of_nat index) @ '']''"

definition for_each :: "(nat \<Rightarrow> js \<Rightarrow> string list) \<Rightarrow> js list \<Rightarrow> string list" where
  "for_each f xs = concat (map (\<lambda>(i, x). f i x) (List.enumerate 0 xs))"

section \<open>Shapes\<close>

definition validateRevisionFields :: "entity \<Rightarrow> string \<Rightarrow> nat \<Rightarrow> string list" where
  "validateRevisionFields item label index =
     err (get item ''rev'' \<noteq> JUndef \<and> \<not> isValidRevision (get item ''rev''))
       (item_at label index @ ''.rev must be a non-negative integer when present'')
   @ err (get item ''revBy'' \<noteq> JUndef \<and> \<not> isNonEmptyString (get item ''revBy''))
       (item_at label index @ ''.revBy must be a non-empty string when present'')"

text \<open>\<open>updatedMs < createdMs\<close>, when both are timestamps.\<close>

definition updated_before_created :: "host \<Rightarrow> entity \<Rightarrow> bool" where
  "updated_before_created h item \<longleftrightarrow>
     (case (parse_js h (get item ''createdAt''), parse_js h (get item ''updatedAt'')) of
        (Some createdMs, Some updatedMs) \<Rightarrow> updatedMs < createdMs | _ \<Rightarrow> False)"

definition validate_entity :: "host \<Rightarrow> string \<Rightarrow> nat \<Rightarrow> js \<Rightarrow> string list" where
  "validate_entity h label index item =
     (let label_at = item_at label index; createdAt = get item ''createdAt''; updatedAt = get item ''updatedAt'' in
      if \<not> isObjectRecord item then [label_at @ '' must be an object'']
      else
        err (\<not> isNonEmptyString (get item ''id'')) (label_at @ ''.id must be a non-empty string'')
      @ (if createdAt \<noteq> JUndef \<and> \<not> isNonEmptyString createdAt
         then [label_at @ ''.createdAt must be a non-empty string when present'']
         else err (isNonEmptyString createdAt \<and> \<not> isValidTimestamp h createdAt)
                (label_at @ ''.createdAt must be a valid ISO timestamp when present''))
      @ (if \<not> isNonEmptyString updatedAt then [label_at @ ''.updatedAt must be a non-empty string'']
         else err (\<not> isValidTimestamp h updatedAt) (label_at @ ''.updatedAt must be a valid ISO timestamp''))
      @ err (updated_before_created h item) (label_at @ ''.updatedAt must be greater than or equal to createdAt'')
      @ validateRevisionFields item label index)"

definition validateEntityShape :: "host \<Rightarrow> js list \<Rightarrow> string \<Rightarrow> string list" where
  "validateEntityShape h items label = for_each (validate_entity h label) items"

text \<open>Areas and people: both also need a name and a creation time.\<close>

definition validate_named :: "host \<Rightarrow> string \<Rightarrow> nat \<Rightarrow> js \<Rightarrow> string list" where
  "validate_named h label index item =
     (let label_at = item_at label index; createdAt = get item ''createdAt''; updatedAt = get item ''updatedAt'' in
      if \<not> isObjectRecord item then [label_at @ '' must be an object'']
      else
        err (\<not> isNonEmptyString (get item ''id'')) (label_at @ ''.id must be a non-empty string'')
      @ err (\<not> isNonEmptyString (get item ''name'')) (label_at @ ''.name must be a non-empty string'')
      @ (if \<not> isNonEmptyString createdAt then [label_at @ ''.createdAt must be a non-empty string'']
         else err (\<not> isValidTimestamp h createdAt) (label_at @ ''.createdAt must be a valid ISO timestamp''))
      @ (if \<not> isNonEmptyString updatedAt then [label_at @ ''.updatedAt must be a non-empty string'']
         else err (\<not> isValidTimestamp h updatedAt) (label_at @ ''.updatedAt must be a valid ISO timestamp''))
      @ err (updated_before_created h item) (label_at @ ''.updatedAt must be greater than or equal to createdAt'')
      @ validateRevisionFields item label index)"

section \<open>References\<close>

definition has_id_string :: "js \<Rightarrow> bool" where
  "has_id_string e \<longleftrightarrow> isObjectRecord e \<and> isNonEmptyString (get e ''id'')"

definition gone :: "js \<Rightarrow> bool" where
  "gone e \<longleftrightarrow> isNonEmptyString (get e ''deletedAt'')"

definition string_ids :: "(js \<Rightarrow> bool) \<Rightarrow> js list \<Rightarrow> js list" where
  "string_ids P es = map (\<lambda>e. JStr (js_string (get e ''id''))) (filter P es)"

definition by_string_id :: "(js \<Rightarrow> bool) \<Rightarrow> js list \<Rightarrow> js \<Rightarrow> js option" where
  "by_string_id P es = map_of (js_map (map (\<lambda>e. (JStr (js_string (get e ''id'')), e)) (filter P es)))"

definition validate_project_reference :: "AppData \<Rightarrow> nat \<Rightarrow> js \<Rightarrow> string list" where
  "validate_project_reference d index project =
     (let areaId = get project ''areaId'';
          allAreaIds = set (string_ids has_id_string (areas d));
          liveAreaIds = set (string_ids (\<lambda>a. has_id_string a \<and> \<not> gone a) (areas d))
      in if \<not> isObjectRecord project then []
         else if isNonEmptyString areaId \<and> areaId \<notin> allAreaIds
         then [item_at ''projects'' index @ ''.areaId must reference an existing area'']
         else if gone project then []
         else err (isNonEmptyString areaId \<and> areaId \<notin> liveAreaIds)
                (item_at ''projects'' index @ ''.areaId must not reference a deleted area''))"

definition validate_section_reference :: "AppData \<Rightarrow> nat \<Rightarrow> js \<Rightarrow> string list" where
  "validate_section_reference d index section =
     (let projectId = get section ''projectId'';
          allProjectIds = set (string_ids has_id_string (projects d));
          deletedProjectIds = set (string_ids (\<lambda>p. isObjectRecord p \<and> gone p) (projects d))
      in if \<not> isObjectRecord section then []
         else if isNonEmptyString projectId \<and> projectId \<notin> allProjectIds
         then [item_at ''sections'' index @ ''.projectId must reference an existing project'']
         else if gone section then []
         else err (JStr (js_string projectId) \<in> deletedProjectIds)
                (item_at ''sections'' index @ ''.projectId must not reference a deleted project''))"

text \<open>The section of a task that is not itself deleted.\<close>

definition validate_task_section :: "AppData \<Rightarrow> nat \<Rightarrow> js \<Rightarrow> string list" where
  "validate_task_section d index task =
     (let sectionId = get task ''sectionId''; projectId = get task ''projectId'';
          deletedSectionIds = set (string_ids (\<lambda>s. isObjectRecord s \<and> gone s) (sections d))
      in if \<not> isNonEmptyString sectionId then []
         else if sectionId \<in> deletedSectionIds then
           (let section = by_string_id (\<lambda>s. isObjectRecord s \<and> gone s) (sections d) sectionId;
                project = (if isNonEmptyString projectId
                  then by_string_id (\<lambda>p. has_id_string p \<and> \<not> gone p \<and> get p ''status'' = JStr ''archived'') (projects d) projectId
                  else None)
            in err (\<not> (section \<noteq> None \<and> isTaskSectionProjectArchiveReference task section project))
                 (item_at ''tasks'' index @ ''.sectionId must not reference a deleted section''))
         else
           (case by_string_id (\<lambda>s. isObjectRecord s \<and> \<not> gone s) (sections d) sectionId of
              None \<Rightarrow> []
            | Some section \<Rightarrow>
                if \<not> isNonEmptyString projectId
                then [item_at ''tasks'' index @ ''.projectId is required when sectionId is present'']
                else err (JStr (js_string (get section ''projectId'')) \<noteq> projectId)
                       (item_at ''tasks'' index @ ''.sectionId must belong to the same projectId'')))"

definition validate_task_reference :: "AppData \<Rightarrow> nat \<Rightarrow> js \<Rightarrow> string list" where
  "validate_task_reference d index task =
     (let projectId = get task ''projectId''; areaId = get task ''areaId''; sectionId = get task ''sectionId'';
          taskProjectExists = (\<not> isNonEmptyString projectId \<or> projectId \<in> set (string_ids has_id_string (projects d)));
          taskAreaExists = (\<not> isNonEmptyString areaId \<or> areaId \<in> set (string_ids has_id_string (areas d)));
          missing = err (isNonEmptyString projectId \<and> \<not> taskProjectExists)
                      (item_at ''tasks'' index @ ''.projectId must reference an existing project'')
                  @ err (isNonEmptyString areaId \<and> \<not> taskAreaExists)
                      (item_at ''tasks'' index @ ''.areaId must reference an existing area'')
      in if \<not> isObjectRecord task then []
         else if isNonEmptyString sectionId \<and> sectionId \<notin> set (string_ids has_id_string (sections d))
         then missing @ [item_at ''tasks'' index @ ''.sectionId must reference an existing section'']
         else if gone task then missing
         else missing
           @ err (isNonEmptyString projectId \<and> taskProjectExists
                \<and> projectId \<notin> set (string_ids (\<lambda>p. has_id_string p \<and> \<not> gone p) (projects d)))
               (item_at ''tasks'' index @ ''.projectId must not reference a deleted project'')
           @ err (isNonEmptyString areaId \<and> taskAreaExists
                \<and> areaId \<notin> set (string_ids (\<lambda>a. has_id_string a \<and> \<not> gone a) (areas d)))
               (item_at ''tasks'' index @ ''.areaId must not reference a deleted area'')
           @ validate_task_section d index task)"

section \<open>The two validators\<close>

definition validateMergedSyncData :: "host \<Rightarrow> AppData \<Rightarrow> string list" where
  "validateMergedSyncData h d =
     err (\<not> isObjectRecord (settings d)) ''settings must be an object''
   @ validateEntityShape h (tasks d) ''tasks''
   @ validateEntityShape h (projects d) ''projects''
   @ validateEntityShape h (sections d) ''sections''
   @ for_each (validate_named h ''areas'') (areas d)
   @ for_each (validate_named h ''people'') (people d)
   @ for_each (validate_project_reference d) (projects d)
   @ for_each (validate_section_reference d) (sections d)
   @ for_each (validate_task_reference d) (tasks d)"

definition SURFACES :: "string list" where
  "SURFACES = [''tasks'', ''projects'', ''sections'', ''areas'', ''people'']"

definition validate_surface :: "string \<Rightarrow> js \<Rightarrow> string \<Rightarrow> string list" where
  "validate_surface source payload surface =
     (case get payload surface of
        JUndef \<Rightarrow> []
      | JArr entities \<Rightarrow> for_each (\<lambda>index entity.
          let here = source @ '' payload field '' @ [CHR 0x22] @ item_at surface index in
          if \<not> isObjectRecord entity then [here @ [CHR 0x22] @ '' must be an object'']
          else err (\<not> isNonEmptyString (get entity ''id'')) (here @ ''.id'' @ [CHR 0x22] @ '' must be a non-empty string'')) entities
      | _ \<Rightarrow> [source @ '' payload field '' @ [CHR 0x22] @ surface @ [CHR 0x22] @ '' must be an array when present''])"

definition validateSyncPayloadShape :: "js \<Rightarrow> string \<Rightarrow> string list" where
  "validateSyncPayloadShape payload source =
     (if \<not> isObjectRecord payload then [source @ '' payload must be an object'']
      else concat (map (validate_surface source payload) SURFACES)
        @ err (get payload ''settings'' \<noteq> JUndef \<and> \<not> isObjectRecord (get payload ''settings''))
            (source @ '' payload field '' @ [CHR 0x22] @ ''settings'' @ [CHR 0x22] @ '' must be an object when present''))"

end
