(* ===== verification/Sync_Convergence.thy ===== *)
theory Sync_Convergence
  imports Sync_Merge
begin

text \<open>
  Replicas that merge the same two documents end with the same entities. The merge is shown to
  be a join of two keyed lists (\<open>keyed_join\<close>) under a per-entity join; the laws a per-entity
  both has to obey are the locale \<open>entity_join\<close>, and the code's conflict resolution is an
  instance of it: which side calls itself local does not matter.
\<close>

section \<open>Signatures are defined and the tie-break is symmetric\<close>

definition has_id :: "entity \<Rightarrow> bool" where
  "has_id e \<longleftrightarrow> is_obj e \<and> is_str (get e ''id'') \<and> non_blank (the_str (get e ''id''))"

lemma comparable_defined:
  assumes "has_id e" shows "toComparableValue inc e \<noteq> JUndef"
proof -
  from assms obtain kvs s where e: "e = JObj kvs" and s: "map_of kvs ''id'' = Some (JStr s)" "trim_str s \<noteq> []"
    by (cases e) (auto simp: has_id_def get_def non_blank_def not_is_str_cases split: option.splits)
  let ?es = "map (\<lambda>kv. (fst kv, toComparableValue inc (snd kv))) (filter (comparable_key inc (get (JObj kvs) ''kind'')) kvs)"
  from s have "(''id'', JStr s) \<in> set (filter (comparable_key inc (get (JObj kvs) ''kind'')) kvs)"
    by (auto dest: map_of_SomeD simp: comparable_key_def SIGNATURE_OPAQUE_KEYS_def CONTENT_DIFF_IGNORED_KEYS_def)
  then have "(''id'', JStr (trim_str s)) \<in> set ?es" using s(2) by force
  then have "filter (\<lambda>kv. \<not> nullish (snd kv)) (sort_key fst ?es) \<noteq> []"
    by (auto simp: filter_empty_conv simp del: set_map intro!: bexI [of _ "(''id'', JStr (trim_str s))"])
  then show ?thesis by (simp add: e Let_def)
qed

lemma signature_defined: "has_id e \<Longrightarrow> \<exists>s. computeSignature inc e = Some s"
  using comparable_defined [of e inc] by (auto simp: computeSignature_def not_None_eq [symmetric])

definition flip :: "side \<Rightarrow> side" where
  "flip w = (case w of LocalSide \<Rightarrow> IncomingSide | IncomingSide \<Rightarrow> LocalSide)"

lemma flip_simps [simp]: "flip LocalSide = IncomingSide" "flip IncomingSide = LocalSide"
  by (simp_all add: flip_def)

lemma flip_if [simp]: "flip (if b then x else y) = (if b then flip x else flip y)"
  by simp

lemma item_of_flip [simp]: "item_of (flip w) i l = item_of w l i"
  by (cases w) (simp_all add: item_of_def)

definition same_full_signature :: "js \<Rightarrow> js \<Rightarrow> bool" where
  "same_full_signature l i \<longleftrightarrow> toDeterministicSignature l = toDeterministicSignature i"

lemma sig_gt_flip: "a \<noteq> b \<Longrightarrow> sig_gt (Some b) (Some a) \<longleftrightarrow> \<not> sig_gt (Some a) (Some b)"
  by auto

lemma chooseDeterministicWinner_flip:
  assumes "has_id l" "has_id i" "\<not> same_full_signature l i"
  shows "chooseDeterministicWinner i l = flip (chooseDeterministicWinner l i)"
proof -
  obtain a b where ab: "toComparableSignature l = Some a" "toComparableSignature i = Some b"
    using signature_defined assms by (metis toComparableSignature_def)
  obtain c d where cd: "toDeterministicSignature l = Some c" "toDeterministicSignature i = Some d"
    using signature_defined assms by (metis toDeterministicSignature_def)
  from assms(3) cd have "c \<noteq> d" by (auto simp: same_full_signature_def)
  with ab cd show ?thesis by (auto simp: chooseDeterministicWinner_def)
qed

section \<open>The winner does not depend on which side is local\<close>

lemma getMergeTimestampComparison_flip: "getMergeTimestampComparison b a = - getMergeTimestampComparison a b"
  by (simp add: getMergeTimestampComparison_def Let_def)

lemma comparableUpdatedTimeDiff_flip: "comparableUpdatedTimeDiff h m i l = - comparableUpdatedTimeDiff h m l i"
  by (simp add: comparableUpdatedTimeDiff_def getMergeTimestampComparison_flip [of _ "updated_time h m l"])

lemma hasRevision_flip: "hasRevision i l = hasRevision l i"
  by (auto simp: hasRevision_def)

lemma operationDiff_flip: "operationDiff h m i l = - operationDiff h m l i"
  by (simp add: operationDiff_def)

lemma laterSide_flip: "d \<noteq> 0 \<Longrightarrow> laterSide (- d) = flip (laterSide d)"
  by (simp add: laterSide_def)

lemma resolveDeleteVsLiveWinner_flip:
  assumes "deleted l \<noteq> deleted i"
  shows "resolveDeleteVsLiveWinner h m i l = flip (resolveDeleteVsLiveWinner h m l i)"
proof -
  have r: "restoreWinner h m i l = map_option flip (restoreWinner h m l i)"
    using assms by (auto simp: restoreWinner_def Let_def isBackupRestoreLiveCandidate_def)
  have p: "preferLiveCandidate i l = flip (preferLiveCandidate l i)"
    "preferDeletedCandidate i l = flip (preferDeletedCandidate l i)"
    using assms by (auto simp: preferLiveCandidate_def preferDeletedCandidate_def)
  show ?thesis
    by (auto simp: resolveDeleteVsLiveWinner_def r p operationDiff_flip [of h m i l] hasRevision_flip [of i l]
        Let_def abs_if split: option.split)
qed

lemma resolveRevisionWinner_flip:
  assumes "has_id l" "has_id i" "\<not> same_full_signature l i"
  shows "resolveRevisionWinner h m i l = flip (resolveRevisionWinner h m l i)"
  using chooseDeterministicWinner_flip [OF assms]
  by (auto simp: resolveRevisionWinner_def Let_def comparableUpdatedTimeDiff_flip [of h m i l] laterSide_flip)

lemma resolveLegacyWinner_flip:
  assumes "has_id l" "has_id i" "\<not> same_full_signature l i"
  shows "resolveLegacyWinner h m i l = flip (resolveLegacyWinner h m l i)"
  using chooseDeterministicWinner_flip [OF assms]
  by (auto simp: resolveLegacyWinner_def Let_def comparableUpdatedTimeDiff_flip [of h m i l] laterSide_flip abs_minus_commute)

theorem resolveWinner_flip:
  assumes "has_id l" "has_id i"
  shows "resolveWinner h m i l = flip (resolveWinner h m l i) \<or> same_full_signature l i"
  using resolveDeleteVsLiveWinner_flip [of l i h m] resolveRevisionWinner_flip [OF assms, of h m]
    resolveLegacyWinner_flip [OF assms, of h m] hasRevision_flip [of l i]
  by (auto simp: resolveWinner_def)


section \<open>The merge as a keyed join\<close>

fun join_opt :: "(entity \<Rightarrow> entity) \<Rightarrow> (entity \<Rightarrow> entity \<Rightarrow> entity) \<Rightarrow> entity option \<Rightarrow> entity option \<Rightarrow> entity option" where
  "join_opt one both (Some l) (Some i) = Some (both l i)"
| "join_opt one both (Some l) None = Some (one l)"
| "join_opt one both None (Some i) = Some (one i)"
| "join_opt one both None None = None"

definition keyed_join ::
  "(entity \<Rightarrow> entity) \<Rightarrow> (entity \<Rightarrow> entity \<Rightarrow> entity) \<Rightarrow> entity list \<Rightarrow> entity list \<Rightarrow> entity list" where
  "keyed_join one both A B =
     map (\<lambda>key. the (join_opt one both (map_of (id_map A) key) (map_of (id_map B) key))) (all_ids A B)"

lemma id_map_SomeD:
  assumes "map_of (id_map es) key = Some e" shows "e \<in> set es" "get e ''id'' = key"
  using map_of_js_map_SomeD [OF assms [unfolded id_map_def]] by auto

lemma id_map_None: "map_of (id_map es) key = None \<longleftrightarrow> key \<notin> set (ids es)"
  by (auto simp: id_map_def map_of_js_map_None set_ids image_image)

lemma id_map_cases:
  obtains (absent) "map_of (id_map es) key = None" "key \<notin> set (ids es)"
  | (present) e where "map_of (id_map es) key = Some e" "e \<in> set es" "get e ''id'' = key" "key \<in> set (ids es)"
  by (cases "map_of (id_map es) key") (auto simp: id_map_None set_ids dest: id_map_SomeD)

lemma set_all_ids: "set (all_ids A B) = set (ids A) \<union> set (ids B)"
  by (auto simp: all_ids_def id_map_def set_ids image_image)

lemma distinct_all_ids [simp]: "distinct (all_ids A B)"
  by (simp add: all_ids_def)

lemma id_map_distinct: "distinct (ids es) \<Longrightarrow> id_map es = map (\<lambda>e. (get e ''id'', e)) es"
  by (simp add: id_map_def js_map_distinct ids_def comp_def)

lemma map_of_id_map_distinct:
  "distinct (ids es) \<Longrightarrow> e \<in> set es \<Longrightarrow> map_of (id_map es) (get e ''id'') = Some e"
  by (auto simp: id_map_distinct ids_def comp_def intro!: map_of_is_SomeI)

locale keyed_merge =
  fixes ok :: "entity \<Rightarrow> bool"
    and one :: "entity \<Rightarrow> entity"
    and both :: "entity \<Rightarrow> entity \<Rightarrow> entity"
  assumes one_id: "get (one e) ''id'' = get e ''id''"
    and both_id: "get l ''id'' = get i ''id'' \<Longrightarrow> get (both l i) ''id'' = get l ''id''"
    and one_ok: "ok e \<Longrightarrow> ok (one e)"
    and both_ok: "ok l \<Longrightarrow> ok i \<Longrightarrow> ok (both l i)"
begin

lemma join_opt_key:
  assumes "key \<in> set (all_ids A B)"
  obtains e where "join_opt one both (map_of (id_map A) key) (map_of (id_map B) key) = Some e" "get e ''id'' = key"
  using assms
  by (cases rule: id_map_cases [of A key]; cases rule: id_map_cases [of B key])
     (auto simp: set_all_ids one_id both_id)

lemma keyed_join_ids: "ids (keyed_join one both A B) = all_ids A B"
proof -
  have "get (the (join_opt one both (map_of (id_map A) key) (map_of (id_map B) key))) ''id'' = key"
    if "key \<in> set (all_ids A B)" for key
    using join_opt_key [OF that] by (metis option.sel)
  then show ?thesis by (simp add: keyed_join_def ids_def comp_def map_idI)
qed

lemma keyed_join_distinct: "distinct (ids (keyed_join one both A B))"
  by (simp add: keyed_join_ids)

lemma keyed_join_lookup:
  "map_of (id_map (keyed_join one both A B)) key = join_opt one both (map_of (id_map A) key) (map_of (id_map B) key)"
proof (cases "key \<in> set (all_ids A B)")
  case False
  then have "map_of (id_map A) key = None" "map_of (id_map B) key = None"
    "map_of (id_map (keyed_join one both A B)) key = None"
    by (simp_all add: id_map_None set_all_ids keyed_join_ids)
  then show ?thesis by simp
next
  case True
  then obtain e where e: "join_opt one both (map_of (id_map A) key) (map_of (id_map B) key) = Some e" "get e ''id'' = key"
    by (rule join_opt_key)
  then have "e \<in> set (keyed_join one both A B)"
    using True by (force simp: keyed_join_def)
  from map_of_id_map_distinct [OF keyed_join_distinct this] e show ?thesis by simp
qed

lemma keyed_join_ok:
  assumes "\<forall>e\<in>set A \<union> set B. ok e" shows "\<forall>e\<in>set (keyed_join one both A B). ok e"
proof -
  have "ok (the (join_opt one both (map_of (id_map A) key) (map_of (id_map B) key)))"
    if "key \<in> set (all_ids A B)" for key
    using that assms
    by (cases rule: id_map_cases [of A key]; cases rule: id_map_cases [of B key])
       (auto simp: set_all_ids one_ok both_ok)
  then show ?thesis by (simp add: keyed_join_def)
qed

end

text \<open>When a view of the winner does not depend on which side is local, the two replicas agree on it.\<close>

locale entity_join = keyed_merge +
  fixes view :: "entity \<Rightarrow> 'v"
  assumes both_commute: "ok l \<Longrightarrow> ok i \<Longrightarrow> view (both i l) = view (both l i)"
begin

lemma keyed_join_converges:
  assumes "\<forall>e\<in>set A \<union> set B. ok e"
  shows "map_option view (map_of (id_map (keyed_join one both A B)) key) =
         map_option view (map_of (id_map (keyed_join one both B A)) key)"
  using assms unfolding keyed_join_lookup
  by (cases rule: id_map_cases [of A key]; cases rule: id_map_cases [of B key]) (auto simp: both_commute)

end

section \<open>The code's resolution of one entity\<close>

definition merged_one :: "host \<Rightarrow> entity \<Rightarrow> entity" where
  "merged_one h e = fst (normalizeTimestamps h None e)"

definition merged_both :: "host \<Rightarrow> int \<Rightarrow> merge_conflict option \<Rightarrow> entity \<Rightarrow> entity \<Rightarrow> entity" where
  "merged_both h maxT mc localItem incomingItem =
     (let l = fst (normalizeTimestamps h (Some incomingItem) localItem);
          i = fst (normalizeTimestamps h (Some localItem) incomingItem);
          w = resolveWinner h maxT l i
      in fst (normalizeTimestamps h None (case mc of None \<Rightarrow> item_of w l i | Some f \<Rightarrow> f l i w)))"

lemma fst_merge_pair: "fst (merge_pair h maxT mc nrm key l i st) = merged_both h maxT mc l i"
  by (simp add: merge_pair_def merged_both_def Let_def)

lemma fst_merge_single: "fst (merge_single h w e st) = merged_one h e"
  by (simp add: merge_single_def merged_one_def Let_def)

lemma fst_merge_step:
  assumes "key \<in> set (all_ids A B)"
  shows "fst (merge_step h maxT mc nrm (id_map A) (id_map B) acc key) = fst acc @
    [the (join_opt (merged_one h) (merged_both h maxT mc) (map_of (id_map A) key) (map_of (id_map B) key))]"
  using assms
  by (cases rule: id_map_cases [of A key]; cases rule: id_map_cases [of B key])
     (auto simp: merge_step_def Let_def fst_merge_pair fst_merge_single set_all_ids)

lemma fst_merge_fold:
  assumes "set ks \<subseteq> set (all_ids A B)"
  shows "fst (foldl (merge_step h maxT mc nrm (id_map A) (id_map B)) acc ks) = fst acc @
    map (\<lambda>key. the (join_opt (merged_one h) (merged_both h maxT mc) (map_of (id_map A) key) (map_of (id_map B) key))) ks"
  using assms by (induction ks arbitrary: acc) (auto simp: fst_merge_step)

text \<open>The loop refines the keyed join.\<close>

lemma mergeEntitiesWithStats_refines:
  "fst (mergeEntitiesWithStats h A B mc nrm nowIso) =
     keyed_join (merged_one h) (merged_both h (maxAllowedMergeTime h nowIso) mc) A B"
  by (simp add: mergeEntitiesWithStats_def Let_def fst_merge_fold keyed_join_def)

text \<open>Timestamps: one normalisation is enough, whatever the counterpart.\<close>

lemma normalizeTimestamps_stable:
  "normalizeTimestamps h c' (fst (normalizeTimestamps h c e)) = (fst (normalizeTimestamps h c e), False)"
  by (auto simp: normalizeTimestamps_def recoverCreatedAtFromCounterpart_def coalesce_def
      split: option.splits if_splits)

lemma get_normalizeTimestamps: "k \<noteq> ''createdAt'' \<Longrightarrow> get (fst (normalizeTimestamps h c e)) k = get e k"
  by (auto simp: normalizeTimestamps_def split: option.splits)

lemma is_obj_normalizeTimestamps: "is_obj e \<Longrightarrow> is_obj (fst (normalizeTimestamps h c e))"
  by (auto simp: normalizeTimestamps_def split: option.splits)

lemma has_id_normalizeTimestamps: "has_id e \<Longrightarrow> has_id (fst (normalizeTimestamps h c e))"
  by (auto simp: has_id_def get_normalizeTimestamps is_obj_normalizeTimestamps)

lemma merged_both_plain:
  "merged_both h maxT None l i =
     (let l' = fst (normalizeTimestamps h (Some i) l); i' = fst (normalizeTimestamps h (Some l) i)
      in item_of (resolveWinner h maxT l' i') l' i')"
  by (auto simp: merged_both_def Let_def item_of_def normalizeTimestamps_stable split: side.split)

lemma merged_both_plain_commute:
  assumes "has_id l" "has_id i"
  shows "toDeterministicSignature (merged_both h maxT None i l) = toDeterministicSignature (merged_both h maxT None l i)"
proof -
  let ?l = "fst (normalizeTimestamps h (Some i) l)" and ?i = "fst (normalizeTimestamps h (Some l) i)"
  have ok: "has_id ?l" "has_id ?i" using assms by (simp_all add: has_id_normalizeTimestamps)
  from resolveWinner_flip [OF ok, of h maxT] show ?thesis
    by (cases "resolveWinner h maxT ?l ?i"; cases "resolveWinner h maxT ?i ?l")
       (auto simp: merged_both_plain Let_def item_of_def same_full_signature_def)
qed

interpretation plain_merge: entity_join has_id "merged_one h" "merged_both h maxT None" toDeterministicSignature
  for h maxT
proof
  show "get (merged_both h maxT None l i) ''id'' = get l ''id''" if "get l ''id'' = get i ''id''" for l i
    using that by (auto simp: merged_both_plain Let_def item_of_def get_normalizeTimestamps split: side.split)
  show "has_id (merged_both h maxT None l i)" if "has_id l" "has_id i" for l i
    using that by (auto simp: merged_both_plain Let_def item_of_def has_id_normalizeTimestamps split: side.split)
qed (simp_all add: merged_one_def get_normalizeTimestamps has_id_normalizeTimestamps merged_both_plain_commute)


text \<open>Two replicas that edited the same task, used by the witnesses below.\<close>

definition task_at :: "string \<Rightarrow> rat \<Rightarrow> string \<Rightarrow> entity" where
  "task_at title r stamp =
     JObj [(''id'', JStr ''t1''), (''title'', JStr title), (''rev'', JNum r), (''createdAt'', JStr ''2024-01-01T00:00:00.000Z''),
           (''updatedAt'', JStr stamp)]"

definition tomb_at :: "rat \<Rightarrow> string \<Rightarrow> entity" where
  "tomb_at r stamp = put (task_at ''Buy milk'' r stamp) ''deletedAt'' (JStr stamp)"

lemma example_times:
  "map (date_parse host0) [''2024-01-01T00:00:00.000Z'', ''2024-02-01T00:00:00.000Z'', ''2024-03-01T00:00:00.000Z'',
     ''2024-03-01T00:00:20.000Z'', ''2024-03-01T00:01:00.000Z'', ''2024-04-01T00:00:00.000Z''] =
   map Some [1704067200000, 1706745600000, 1709251200000, 1709251220000, 1709251260000, 1711929600000] \<and> non_blank ''t1''"
  by code_simp

lemmas example_facts = example_times [simplified] task_at_def tomb_at_def

lemma has_id_examples: "has_id (task_at title r stamp)" "has_id (tomb_at r stamp)"
  by (simp_all add: has_id_def example_facts)


text \<open>
  Nothing is lost and nothing is made up: the merged list has every id of either side, each
  exactly once.
\<close>

theorem merge_ids:
  "distinct (ids (fst (mergeEntitiesWithStats h A B None nrm nowIso)))
   \<and> set (ids (fst (mergeEntitiesWithStats h A B None nrm nowIso))) = set (ids A) \<union> set (ids B)"
  by (simp add: mergeEntitiesWithStats_refines plain_merge.keyed_join_ids set_all_ids)

end
