(* ===== verification/Repair_Validation.thy ===== *)
theory Repair_Validation
  imports Sync_Validation Sync_Convergence
begin

text \<open>
  Repair against validation: what \<open>repairMergedSyncReferences\<close> leaves behind is what
  \<open>validateMergedSyncData\<close> accepts. The two functions look entities up in their own tables,
  so the first section shows that the tables agree on documents with proper ids.
\<close>

section \<open>The lookup tables agree\<close>

text \<open>Collections a reference can be resolved in: distinct non-empty ids, deletion marks that are
  non-empty strings when they are set.\<close>

definition sound_marks :: "entity \<Rightarrow> bool" where
  "sound_marks e \<longleftrightarrow> has_id_string e \<and> (deleted e \<longleftrightarrow> gone e) \<and> (purged e \<longleftrightarrow> isNonEmptyString (get e ''purgedAt''))"

definition referable :: "entity list \<Rightarrow> bool" where
  "referable es \<longleftrightarrow> distinct (ids es) \<and> (\<forall>e\<in>set es. sound_marks e)"

lemma isNonEmptyString_iff: "isNonEmptyString v \<longleftrightarrow> (\<exists>s. v = JStr s \<and> non_blank s)"
  by (auto simp: isNonEmptyString_def split: js.split)

lemma normalizeOptionalString_iff:
  "normalizeOptionalString v = (if isNonEmptyString v then v else JUndef)"
  by (auto simp: isNonEmptyString_def normalizeOptionalString_def split: js.split)

lemma nonEmpty_truthy: "isNonEmptyString v \<Longrightarrow> truthy v \<and> v \<noteq> JUndef"
  by (auto simp: isNonEmptyString_iff non_blank_def)

lemma has_id_key: "has_id_string e \<Longrightarrow> JStr (js_string (get e ''id'')) = get e ''id''"
  by (auto simp: has_id_string_def isNonEmptyString_iff)

lemma string_ids_eq:
  assumes "referable es" "\<And>e. e \<in> set es \<Longrightarrow> P e = Q e"
  shows "string_ids P es = ids_where Q es" "by_string_id P es = by_id_where Q es"
proof -
  have f: "filter P es = filter Q es" using assms(2) by (rule filter_cong [OF refl])
  have "map (\<lambda>e. JStr (js_string (get e ''id''))) (filter Q es) = map (\<lambda>e. get e ''id'') (filter Q es)"
    "map (\<lambda>e. (JStr (js_string (get e ''id'')), e)) (filter Q es) = map (\<lambda>e. (get e ''id'', e)) (filter Q es)"
    using assms(1) by (auto simp: referable_def sound_marks_def has_id_key)
  then show "string_ids P es = ids_where Q es" "by_string_id P es = by_id_where Q es"
    by (simp_all only: string_ids_def by_string_id_def ids_where_def by_id_where_def f ids_def id_map_def)
qed

lemma tables:
  assumes "referable es"
  shows "string_ids has_id_string es = ids es"
    "string_ids (\<lambda>e. has_id_string e \<and> \<not> gone e) es = ids_where (\<lambda>e. \<not> deleted e) es"
    "string_ids (\<lambda>e. isObjectRecord e \<and> gone e) es = ids_where deleted es"
    "by_string_id (\<lambda>e. isObjectRecord e \<and> gone e) es = by_id_where deleted es"
    "by_string_id (\<lambda>e. isObjectRecord e \<and> \<not> gone e) es = by_id_where (\<lambda>e. \<not> deleted e) es"
    "by_string_id (\<lambda>p. has_id_string p \<and> \<not> gone p \<and> get p ''status'' = JStr ''archived'') es = by_id_where project_archived es"
proof -
  have marks: "has_id_string e \<and> isObjectRecord e \<and> (deleted e \<longleftrightarrow> gone e)" if "e \<in> set es" for e
    using assms that by (auto simp: referable_def sound_marks_def has_id_string_def)
  show "string_ids has_id_string es = ids es"
    using string_ids_eq(1) [OF assms, of has_id_string "\<lambda>_. True"] marks by (simp add: ids_where_def)
  show "string_ids (\<lambda>e. has_id_string e \<and> \<not> gone e) es = ids_where (\<lambda>e. \<not> deleted e) es"
    "string_ids (\<lambda>e. isObjectRecord e \<and> gone e) es = ids_where deleted es"
    "by_string_id (\<lambda>e. isObjectRecord e \<and> gone e) es = by_id_where deleted es"
    "by_string_id (\<lambda>e. isObjectRecord e \<and> \<not> gone e) es = by_id_where (\<lambda>e. \<not> deleted e) es"
    "by_string_id (\<lambda>p. has_id_string p \<and> \<not> gone p \<and> get p ''status'' = JStr ''archived'') es = by_id_where project_archived es"
    using marks by (auto intro!: string_ids_eq [OF assms] simp: project_archived_def)
qed

lemma in_ids_where: "i \<in> set (ids_where P es) \<longleftrightarrow> (\<exists>e\<in>set es. P e \<and> get e ''id'' = i)"
  by (auto simp: ids_where_def set_ids)

lemma by_id_where_iff:
  assumes "distinct (ids es)"
  shows "by_id_where P es i = Some e \<longleftrightarrow> e \<in> set es \<and> P e \<and> get e ''id'' = i"
proof -
  have "distinct (ids (filter P es))" using assms by (auto simp: ids_def distinct_map inj_on_def)
  then show ?thesis
    using id_map_SomeD [of "filter P es" i e] map_of_id_map_distinct [of "filter P es" e] by (auto simp: by_id_where_def)
qed

lemma by_id_where_None: "by_id_where P es i = None \<longleftrightarrow> i \<notin> set (ids_where P es)"
  by (simp add: by_id_where_def ids_where_def id_map_None)

lemma same_id: "distinct (ids es) \<Longrightarrow> x \<in> set es \<Longrightarrow> y \<in> set es \<Longrightarrow> get x ''id'' = get y ''id'' \<Longrightarrow> x = y"
  by (auto simp: ids_def distinct_map inj_on_def)

lemma for_each_Nil: "for_each f xs = [] \<longleftrightarrow> (\<forall>i<length xs. f i (xs ! i) = [])"
proof -
  have "for_each f xs = [] \<longleftrightarrow> (\<forall>p\<in>set (List.enumerate 0 xs). f (fst p) (snd p) = [])"
    by (auto simp: for_each_def split: prod.splits)
  also have "\<dots> \<longleftrightarrow> (\<forall>i<length xs. f i (xs ! i) = [])"
    by (auto simp: in_set_enumerate_eq Ball_def)
  finally show ?thesis .
qed

lemma for_each_NilI: "(\<And>i x. x \<in> set xs \<Longrightarrow> f i x = []) \<Longrightarrow> for_each f xs = []"
  by (simp add: for_each_Nil)

lemma err_Nil [simp]: "err b m = [] \<longleftrightarrow> \<not> b"
  by (simp add: err_def)

section \<open>Repair keeps the collections in shape\<close>

lemma sound_marks_puts:
  assumes "sound_marks e" "\<forall>k\<in>{''id'', ''deletedAt'', ''purgedAt''}. get e' k = get e k" "is_obj e'"
  shows "sound_marks e'"
  using assms by (auto simp: sound_marks_def has_id_string_def gone_def deleted_def purged_def isObjectRecord_def)

lemma withRepair_get: "k \<notin> {''rev'', ''revBy''} \<Longrightarrow> get (withRepairRevision e) k = get e k" "is_obj (withRepairRevision e)"
  by (simp_all add: withRepairRevision_def)

lemma sound_obj: "sound_marks e \<Longrightarrow> is_obj e"
  by (simp add: sound_marks_def has_id_string_def isObjectRecord_def)

lemma kept_areas_referable:
  assumes "referable xs" "non_blank nowIso"
  shows "referable (kept_areas (dedupeLiveAreasByName h xs nowIso b))"
proof -
  have n: "nowIso \<noteq> []" using assms(2) by (auto simp: non_blank_def)
  have "ids (kept_areas (dedupeLiveAreasByName h xs nowIso b)) = ids xs"
    using retired [OF n] by (simp add: kept_areas_eq ids_def)
  moreover have "sound_marks (retire_area a nowIso b)" if "a \<in> set xs" for a
    using assms that by (auto simp: referable_def sound_marks_def has_id_string_def gone_def deleted_def purged_def
        retire_area_def isObjectRecord_def isNonEmptyString_def non_blank_def split: option.split)
  ultimately show ?thesis using assms(1) by (auto simp: referable_def kept_areas_eq)
qed

lemma repair_project_keeps:
  assumes "is_obj p"
  shows "is_obj (repair_project m as n p) \<and>
    (\<forall>k. k \<notin> {''areaId'', ''areaTitle'', ''updatedAt'', ''rev'', ''revBy''} \<longrightarrow> get (repair_project m as n p) k = get p k)"
  using assms by (auto simp: repair_project_def Let_def withRepairRevision_def split: option.split)

lemma repaired_projects_referable:
  assumes "referable ps"
  shows "referable (map (repair_project m as n) ps) \<and> ids (map (repair_project m as n) ps) = ids ps"
proof -
  have "sound_marks (repair_project m as n p) \<and> get (repair_project m as n p) ''id'' = get p ''id''" if "p \<in> set ps" for p
    using assms that repair_project_keeps [of p m as n] sound_marks_puts [of p "repair_project m as n p"]
    by (simp add: referable_def sound_obj)
  then have "\<forall>p\<in>set ps. sound_marks (repair_project m as n p)" "ids (map (repair_project m as n) ps) = ids ps"
    by (auto simp: ids_def)
  with assms show ?thesis by (auto simp: referable_def)
qed

lemma compacted_section:
  assumes "sound_marks s" "isNonEmptyString (get q ''purgedAt'')" "get q ''id'' = get s ''projectId''"
  defines "c \<equiv> coalesce (hd (compactSectionsForPurgedProjects [s] [q] True)) s"
  shows "sound_marks c \<and> get c ''id'' = get s ''id'' \<and> get c ''projectId'' = get s ''projectId'' \<and> deleted c"
proof -
  let ?t = "compactPurgedProjectSectionTombstone s (get q ''purgedAt'')"
  have t: "truthy (get q ''purgedAt'')" using nonEmpty_truthy [OF assms(2)] ..
  then have "hd (compactSectionsForPurgedProjects [s] [q] True) = (if hasValuesOutsideCompactedTombstone s ?t then stampRepair ?t s else ?t)"
    using assms(3) by (simp add: compactSectionsForPurgedProjects_def purgedAtByProjectId_def js_map_def compactSection_def Let_def)
  moreover have "coalesce x s = x" if "is_obj x" for x using that by (cases x) (simp_all add: coalesce_def nullish_def)
  moreover have "is_obj ?t" by (simp add: compactPurgedProjectSectionTombstone_def)
  ultimately have eq: "c = (if hasValuesOutsideCompactedTombstone s ?t then stampRepair ?t s else ?t)" and "is_obj ?t"
    by (simp_all add: c_def stampRepair_def)
  then have c: "get c k = get ?t k \<and> is_obj c" if "k \<notin> {''rev'', ''revBy''}" for k
    using that by (simp add: eq stampRepair_def)
  have k: "get ?t ''id'' = get s ''id''" "get ?t ''projectId'' = get s ''projectId''" "get ?t ''deletedAt'' = get q ''purgedAt''"
      "get ?t ''purgedAt'' = JUndef"
    by (simp_all add: compactPurgedProjectSectionTombstone_def)
  have "get c ''id'' = get s ''id''" "get c ''projectId'' = get s ''projectId''" "get c ''deletedAt'' = get q ''purgedAt''"
      "get c ''purgedAt'' = JUndef" "is_obj c"
    using c [of "''id''"] c [of "''projectId''"] c [of "''deletedAt''"] c [of "''purgedAt''"] k by simp_all
  with assms(1,2) t show ?thesis
    by (simp add: sound_marks_def has_id_string_def gone_def deleted_def purged_def isObjectRecord_def isNonEmptyString_def)
qed

text \<open>A project that is not live leaves each of its sections deleted and in place.\<close>

lemma repair_section_shape:
  assumes "sound_marks s" "referable ps" "non_blank n"
  shows "sound_marks (repair_section ps n s) \<and> get (repair_section ps n s) ''id'' = get s ''id''
    \<and> get (repair_section ps n s) ''projectId'' = get s ''projectId''
    \<and> (get s ''projectId'' \<in> set (ids_where deleted ps) \<longrightarrow> deleted (repair_section ps n s))"
proof -
  let ?i = "get s ''projectId''"
  have live_not: "\<not> (?i \<in> set (ids_where (\<lambda>p. \<not> deleted p) ps) \<and> ?i \<in> set (ids_where deleted ps))"
    using assms(2) by (auto simp: in_ids_where referable_def) (metis same_id)
  show ?thesis
  proof (cases "?i \<in> set (ids_where deleted ps)")
    case False
    then have "repair_section ps n s = s" by (simp add: repair_section_def)
    with False assms(1) show ?thesis by simp
  next
    case True
    show ?thesis
    proof (cases "deleted s")
      case False
      then have "repair_section ps n s = puts (withRepairRevision s) [(''deletedAt'', JStr n), (''updatedAt'', JStr n)]"
        using True live_not by (simp add: repair_section_def)
      moreover have "n \<noteq> []" using assms(3) by (auto simp: non_blank_def)
      ultimately show ?thesis using assms
        by (simp add: sound_marks_def has_id_string_def gone_def deleted_def purged_def isObjectRecord_def withRepairRevision_def
            isNonEmptyString_def)
    next
      case del: True
      show ?thesis
      proof (cases "by_id_where purged ps ?i")
        case None
        then have "repair_section ps n s = s" using True live_not del by (simp add: repair_section_def)
        with del assms(1) show ?thesis by simp
      next
        case (Some q)
        then have q: "q \<in> set ps" "purged q" "get q ''id'' = ?i" using assms(2) by (auto simp: referable_def by_id_where_iff)
        have "repair_section ps n s = coalesce (hd (compactSectionsForPurgedProjects [s] [q] True)) s"
          using True live_not del Some by (simp add: repair_section_def)
        moreover have "isNonEmptyString (get q ''purgedAt'')" using q assms(2) by (auto simp: referable_def sound_marks_def)
        ultimately show ?thesis using compacted_section [OF assms(1) _ q(3)] by simp
      qed
    qed
  qed
qed

lemma repaired_sections_referable:
  assumes "referable ss" "referable ps" "non_blank n"
  shows "referable (map (repair_section ps n) ss)" "ids (map (repair_section ps n) ss) = ids ss"
proof -
  show "ids (map (repair_section ps n) ss) = ids ss"
    using assms repair_section_shape [of _ ps n] by (auto simp: ids_def referable_def)
  then show "referable (map (repair_section ps n) ss)"
    using assms repair_section_shape [of _ ps n] by (auto simp: referable_def)
qed

section \<open>Projects\<close>

lemma repaired_project_area:
  assumes "distinct (ids as)"
  shows "isNonEmptyString (get (repair_project m as n p) ''areaId'') \<longrightarrow>
    get (repair_project m as n p) ''areaId'' \<in> set (ids_where (\<lambda>a. \<not> deleted a) as)"
proof -
  let ?a = "remapped m (normalizeOptionalString (get p ''areaId''))"
  have blank: "\<not> isNonEmptyString v" if "\<not> truthy v" for v using that nonEmpty_truthy by blast
  show ?thesis
  proof (cases "truthy ?a")
    case False
    with blank show ?thesis by (auto simp: repair_project_def Let_def)
  next
    case True
    show ?thesis
    proof (cases "by_id_where (\<lambda>a. \<not> deleted a) as ?a")
      case None
      with True show ?thesis by (simp add: repair_project_def isNonEmptyString_def)
    next
      case (Some a)
      then have "?a \<in> set (ids_where (\<lambda>a. \<not> deleted a) as)" by (metis by_id_where_None option.distinct(1))
      with True Some show ?thesis by (auto simp: repair_project_def Let_def)
    qed
  qed
qed

section \<open>Tasks\<close>

definition container_ok :: "entity list \<Rightarrow> entity list \<Rightarrow> entity list \<Rightarrow> entity \<Rightarrow> TaskContainerAssignment \<Rightarrow> bool" where
  "container_ok ps as ss task c \<longleftrightarrow>
     (in_project c = JUndef \<or> in_project c \<in> set (ids_where (\<lambda>p. \<not> deleted p) ps))
     \<and> (truthy (in_area c) \<longrightarrow> in_area c \<in> set (ids_where (\<lambda>a. \<not> deleted a) as))
     \<and> (in_section c = JUndef
        \<or> isNonEmptyString (in_section c) \<and> in_project c \<noteq> JUndef
          \<and> (\<exists>s\<in>set ss. get s ''id'' = in_section c \<and> get s ''projectId'' = in_project c
              \<and> (\<not> deleted s \<or> get task ''projectId'' = in_project c
                  \<and> isTaskSectionProjectArchiveReference task (Some s) (by_id_where project_archived ps (in_project c)))))"

lemma live_id: "referable es \<Longrightarrow> i \<in> set (ids_where P es) \<Longrightarrow> isNonEmptyString i \<and> truthy i \<and> i \<noteq> JUndef"
  using nonEmpty_truthy by (auto simp: in_ids_where referable_def sound_marks_def has_id_string_def)

lemma kept_references_ok:
  fixes m :: "(js \<times> js) list" and t :: entity
  assumes "referable as" "referable ps"
  defines "k \<equiv> fst (kept_references m as ps t)"
  shows "in_project k = JUndef \<or> in_project k = get t ''projectId'' \<and> in_project k \<in> set (ids_where (\<lambda>p. \<not> deleted p) ps)"
    and "\<not> truthy (in_area k) \<or> in_area k \<in> set (ids_where (\<lambda>a. \<not> deleted a) as)"
    and "in_section k = JUndef \<or> isNonEmptyString (in_section k)"
  by (auto simp: k_def kept_references_def Let_def normalizeOptionalString_iff dest: nonEmpty_truthy)

lemma section_project_cases:
  assumes "referable ps" "referable ss" "truthy (section_project ps ss t p s)"
  shows "\<exists>x\<in>set ss. get x ''id'' = s \<and> section_project ps ss t p s = get x ''projectId'' \<and> truthy s
    \<and> get x ''projectId'' \<in> set (ids_where (\<lambda>p. \<not> deleted p) ps)
    \<and> (\<not> deleted x \<or> truthy p \<and> isTaskSectionProjectArchiveReference t (Some x) (by_id_where project_archived ps p))"
proof -
  let ?live = "by_id_where (\<lambda>s. \<not> deleted s \<and> get s ''projectId'' \<in> set (ids_where (\<lambda>p. \<not> deleted p) ps)) ss s"
  let ?arch = "by_id_where (\<lambda>s. deleted s \<and> get s ''projectId'' \<in> set (ids_where project_archived ps)) ss s"
  have d: "distinct (ids ss)" using assms(2) by (simp add: referable_def)
  have s: "truthy s" using assms(3) by (rule contrapos_pp) (simp add: section_project_def Let_def coalesce_def nullish_def)
  show ?thesis
  proof (cases ?live)
    case (Some x)
    then have x: "x \<in> set ss" "\<not> deleted x" "get x ''id'' = s" "get x ''projectId'' \<in> set (ids_where (\<lambda>p. \<not> deleted p) ps)"
      by (simp_all add: by_id_where_iff [OF d])
    have "coalesce (get x ''projectId'') y = get x ''projectId''" for y
      using live_id [OF assms(1) x(4)] by (auto simp: coalesce_def nullish_def)
    with x s Some show ?thesis by (auto simp: section_project_def Let_def)
  next
    case None
    with assms(3) s obtain x where x: "?arch = Some x"
        "isTaskSectionProjectArchiveReference t (Some x) (if truthy p then by_id_where project_archived ps p else None)"
        "section_project ps ss t p s = get x ''projectId''"
      by (cases ?arch) (auto simp: section_project_def Let_def coalesce_def nullish_def split: if_splits)
    then have p: "truthy p" by (auto simp: isTaskSectionProjectArchiveReference_def split: if_splits)
    from x(1) have "x \<in> set ss" "deleted x" "get x ''id'' = s" "get x ''projectId'' \<in> set (ids_where project_archived ps)"
      by (simp_all add: by_id_where_iff [OF d])
    moreover from this(4) have "get x ''projectId'' \<in> set (ids_where (\<lambda>p. \<not> deleted p) ps)"
      by (auto simp: in_ids_where project_archived_def)
    ultimately show ?thesis using x p s by auto
  qed
qed

lemma hierarchy_cases:
  assumes "resolveTaskContainerHierarchy a q = c"
  shows "(truthy (in_section c) \<longrightarrow> in_section c = in_section a \<and> truthy q \<and> in_project c = q
           \<and> (\<not> truthy (in_project a) \<or> in_project a = q))
    \<and> (\<not> truthy (in_section c) \<longrightarrow> in_project c = in_project a \<and> in_section c \<in> {in_section a, JUndef})
    \<and> (truthy (in_area c) \<longrightarrow> in_area c = in_area a \<and> \<not> truthy (in_project c))
    \<and> in_area c \<in> {in_area a, JUndef}"
  using assms by (auto simp: resolveTaskContainerHierarchy_def Let_def split: if_splits)

lemma repaired_container_ok:
  fixes m :: "(js \<times> js) list" and t :: entity
  assumes "referable as" "referable ps" "referable ss"
  defines "c \<equiv> repaired_container m as ps ss t"
  shows "container_ok ps as ss t c"
proof -
  define k where "k = fst (kept_references m as ps t)"
  define q where "q = section_project ps ss t (in_project k) (in_section k)"
  note kept = kept_references_ok [OF assms(1,2), of m t, folded k_def]
  have c: "resolveTaskContainerHierarchy k q = c" by (simp add: c_def repaired_container_def k_def q_def Let_def)
  note h = hierarchy_cases [OF c]
  have project_section: "(in_project c = JUndef \<or> in_project c \<in> set (ids_where (\<lambda>p. \<not> deleted p) ps))
     \<and> (in_section c = JUndef \<or> isNonEmptyString (in_section c) \<and> in_project c \<noteq> JUndef
          \<and> (\<exists>s\<in>set ss. get s ''id'' = in_section c \<and> get s ''projectId'' = in_project c
              \<and> (\<not> deleted s \<or> get t ''projectId'' = in_project c
                  \<and> isTaskSectionProjectArchiveReference t (Some s) (by_id_where project_archived ps (in_project c)))))"
  proof (cases "truthy (in_section c)")
    case False
    with h kept(3) have "in_section c = JUndef" using nonEmpty_truthy by auto
    with False h kept(1) show ?thesis by auto
  next
    case True
    with h have s: "in_section c = in_section k" "truthy q" "in_project c = q" "\<not> truthy (in_project k) \<or> in_project k = q" by auto
    from section_project_cases [OF assms(2,3) s(2) [unfolded q_def]] obtain x where x: "x \<in> set ss" "get x ''id'' = in_section k"
        "q = get x ''projectId''" "q \<in> set (ids_where (\<lambda>p. \<not> deleted p) ps)"
        "\<not> deleted x \<or> truthy (in_project k) \<and> isTaskSectionProjectArchiveReference t (Some x) (by_id_where project_archived ps (in_project k))"
      by (auto simp: q_def)
    have "isNonEmptyString (in_section c)" using True s(1) kept(3) by auto
    moreover have "in_project c \<noteq> JUndef" using s(2,3) by auto
    moreover have "get t ''projectId'' = q" if "truthy (in_project k)" using that kept(1) s(4) by auto
    ultimately show ?thesis using x s by auto
  qed
  moreover have "truthy (in_area c) \<longrightarrow> in_area c \<in> set (ids_where (\<lambda>a. \<not> deleted a) as)"
    using h kept(2) by auto
  ultimately show ?thesis unfolding container_ok_def by blast
qed

text \<open>The repaired task carries the repaired container, up to blank values that count as absent.\<close>

lemma repaired_task_fields:
  fixes m :: "(js \<times> js) list" and t :: entity and n :: string
  assumes "referable as" "referable ps" "referable ss"
  defines "c \<equiv> repaired_container m as ps ss t" and "t' \<equiv> repair_task m as ps ss n t"
  shows "get t' ''projectId'' = in_project c \<or> in_project c = JUndef \<and> \<not> isNonEmptyString (get t' ''projectId'')"
    and "get t' ''sectionId'' = in_section c \<or> in_section c = JUndef \<and> \<not> isNonEmptyString (get t' ''sectionId'')"
    and "isNonEmptyString (get t' ''areaId'') \<longrightarrow> get t' ''areaId'' = in_area c"
    and "get t' ''status'' = get t ''status''"
proof -
  let ?kc = "kept_references m as ps t"
  have "t' = t \<and> c = fst ?kc \<and> \<not> snd ?kc \<or> (get t' ''projectId'' = in_project c \<and> get t' ''sectionId'' = in_section c
      \<and> get t' ''areaId'' = in_area c \<and> get t' ''status'' = get t ''status'')"
    by (auto simp: t'_def c_def repair_task_def Let_def withRepair_get split: prod.splits)
  then consider (same) "t' = t" "c = fst ?kc" "\<not> snd ?kc"
    | (moved) "get t' ''projectId'' = in_project c" "get t' ''sectionId'' = in_section c" "get t' ''areaId'' = in_area c"
        "get t' ''status'' = get t ''status''" by blast
  then show "get t' ''projectId'' = in_project c \<or> in_project c = JUndef \<and> \<not> isNonEmptyString (get t' ''projectId'')"
    "get t' ''sectionId'' = in_section c \<or> in_section c = JUndef \<and> \<not> isNonEmptyString (get t' ''sectionId'')"
    "isNonEmptyString (get t' ''areaId'') \<longrightarrow> get t' ''areaId'' = in_area c"
    "get t' ''status'' = get t ''status''"
    by (cases; auto simp: kept_references_def Let_def normalizeOptionalString_iff split: if_splits)+
qed

lemma archive_reference_cong:
  "get t ''projectId'' = get u ''projectId'' \<Longrightarrow> get t ''status'' = get u ''status'' \<Longrightarrow>
     isTaskSectionProjectArchiveReference t s p = isTaskSectionProjectArchiveReference u s p"
  by (simp add: isTaskSectionProjectArchiveReference_def split: option.split)

lemma task_reference_valid:
  assumes ref: "referable (areas d)" "referable (projects d)" "referable (sections d)"
    and c: "container_ok (projects d) (areas d) (sections d) t c"
    and f: "get u ''projectId'' = in_project c \<or> in_project c = JUndef \<and> \<not> isNonEmptyString (get u ''projectId'')"
      "get u ''sectionId'' = in_section c \<or> in_section c = JUndef \<and> \<not> isNonEmptyString (get u ''sectionId'')"
      "isNonEmptyString (get u ''areaId'') \<longrightarrow> get u ''areaId'' = in_area c" "get u ''status'' = get t ''status''"
  shows "validate_task_reference d i u = []"
proof -
  have sub: "set (ids_where P es) \<subseteq> set (ids es)" for P es by (auto simp: ids_where_def set_ids)
  have project: "isNonEmptyString (get u ''projectId'') \<longrightarrow> get u ''projectId'' \<in> set (ids_where (\<lambda>p. \<not> deleted p) (projects d))"
    using c f(1) by (auto simp: container_ok_def isNonEmptyString_def)
  have area: "isNonEmptyString (get u ''areaId'') \<longrightarrow> get u ''areaId'' \<in> set (ids_where (\<lambda>a. \<not> deleted a) (areas d))"
    using c f(3) nonEmpty_truthy by (auto simp: container_ok_def)
  have section_ok: "get u ''sectionId'' \<in> set (ids (sections d)) \<and> validate_task_section d i u = []"
    if s: "isNonEmptyString (get u ''sectionId'')"
  proof -
    from s f(2) have sec: "get u ''sectionId'' = in_section c" "in_section c \<noteq> JUndef" by (auto simp: isNonEmptyString_def)
    with c obtain x where x: "x \<in> set (sections d)" "get x ''id'' = in_section c" "get x ''projectId'' = in_project c" "in_project c \<noteq> JUndef"
        "\<not> deleted x \<or> get t ''projectId'' = in_project c
           \<and> isTaskSectionProjectArchiveReference t (Some x) (by_id_where project_archived (projects d) (in_project c))"
      unfolding container_ok_def by blast
    have p: "get u ''projectId'' = in_project c" using f(1) x(4) by blast
    have live: "in_project c \<in> set (ids_where (\<lambda>p. \<not> deleted p) (projects d))" using c x(4) by (auto simp: container_ok_def)
    then have ne: "isNonEmptyString (in_project c)" using live_id [OF ref(2)] by blast
    have d: "distinct (ids (sections d))" using ref(3) by (simp add: referable_def)
    have known: "in_section c \<in> set (ids (sections d))" using x(1,2) by (metis image_eqI set_ids)
    note look = by_id_where_iff [OF d, THEN iffD2]
    show ?thesis
    proof (cases "deleted x")
      case True
      with x p f(4) have "isTaskSectionProjectArchiveReference u (Some x) (by_id_where project_archived (projects d) (in_project c))"
        using archive_reference_cong [of t u] by auto
      moreover have "by_id_where deleted (sections d) (in_section c) = Some x" using x True by (intro look) simp
      moreover have "in_section c \<in> set (ids_where deleted (sections d))" using x True by (auto simp: in_ids_where)
      ultimately show ?thesis using s sec p ne known
        by (simp add: validate_task_section_def tables [OF ref(3)] tables [OF ref(2)])
    next
      case False
      have "in_section c \<notin> set (ids_where deleted (sections d))"
        using x(2) False same_id [OF d _ x(1)] by (force simp: in_ids_where)
      moreover have "by_id_where (\<lambda>s. \<not> deleted s) (sections d) (in_section c) = Some x" using x False by (intro look) simp
      moreover have "JStr (js_string (in_project c)) = in_project c" using ne by (auto simp: isNonEmptyString_iff)
      ultimately show ?thesis using s sec p ne known x(3)
        by (simp add: validate_task_section_def tables [OF ref(3)] tables [OF ref(2)])
    qed
  qed
  have none: "validate_task_section d i u = []" if "\<not> isNonEmptyString (get u ''sectionId'')"
    using that by (simp add: validate_task_section_def)
  show ?thesis
    using project area section_ok none sub
    by (auto simp: validate_task_reference_def Let_def tables [OF ref(1)] tables [OF ref(2)] tables [OF ref(3)])
qed

section \<open>Repair and validation\<close>

text \<open>What repair establishes: the collections stay in shape, every task sits in a proper
  container, and no live section names a deleted project.\<close>

definition references_ok :: "AppData \<Rightarrow> bool" where
  "references_ok r \<longleftrightarrow>
     referable (areas r) \<and> referable (projects r) \<and> referable (sections r)
     \<and> (\<forall>p\<in>set (projects r). isNonEmptyString (get p ''areaId'') \<longrightarrow>
          get p ''areaId'' \<in> set (ids_where (\<lambda>a. \<not> deleted a) (areas r)))
     \<and> (\<forall>s\<in>set (sections r). get s ''projectId'' \<in> set (ids_where deleted (projects r)) \<longrightarrow> deleted s)
     \<and> (\<forall>u\<in>set (tasks r). \<exists>t c. container_ok (projects r) (areas r) (sections r) t c
          \<and> (get u ''projectId'' = in_project c \<or> in_project c = JUndef \<and> \<not> isNonEmptyString (get u ''projectId''))
          \<and> (get u ''sectionId'' = in_section c \<or> in_section c = JUndef \<and> \<not> isNonEmptyString (get u ''sectionId''))
          \<and> (isNonEmptyString (get u ''areaId'') \<longrightarrow> get u ''areaId'' = in_area c) \<and> get u ''status'' = get t ''status'')"

lemma repair_references:
  assumes "referable (areas d)" "referable (projects d)" "referable (sections d)" "non_blank nowIso"
  shows "references_ok (repairMergedSyncReferences h d nowIso)"
    and "ids (projects (repairMergedSyncReferences h d nowIso)) = ids (projects d)"
    and "map (\<lambda>s. get s ''projectId'') (sections (repairMergedSyncReferences h d nowIso)) = map (\<lambda>s. get s ''projectId'') (sections d)"
proof -
  let ?r = "repairMergedSyncReferences h d nowIso"
  let ?dd = "dedupeLiveAreasByName h (areas d) nowIso (Some SYNC_REPAIR_REV_BY)"
  let ?as = "kept_areas ?dd" and ?ps = "map (repair_project (area_remap ?dd) (kept_areas ?dd) nowIso) (projects d)"
  let ?ss = "map (repair_section ?ps nowIso) (sections d)"
  have r: "areas ?r = ?as" "projects ?r = ?ps" "sections ?r = ?ss"
      "tasks ?r = map (repair_task (area_remap ?dd) ?as ?ps ?ss nowIso) (tasks d)"
    by (simp_all add: repairMergedSyncReferences_def Let_def)
  have as: "referable ?as" by (rule kept_areas_referable [OF assms(1,4)])
  have ps: "referable ?ps" "ids ?ps = ids (projects d)" using repaired_projects_referable [OF assms(2)] by blast+
  note ss = repaired_sections_referable [OF assms(3) ps(1) assms(4)]
  have d: "distinct (ids ?as)" using as by (simp add: referable_def)
  have shape: "get (repair_section ?ps nowIso s) ''projectId'' = get s ''projectId''
      \<and> (get s ''projectId'' \<in> set (ids_where deleted ?ps) \<longrightarrow> deleted (repair_section ?ps nowIso s))"
    if "s \<in> set (sections d)" for s
    using repair_section_shape [OF _ ps(1) assms(4), of s] that assms(3) unfolding referable_def by blast
  have task: "container_ok ?ps ?as ?ss t (repaired_container (area_remap ?dd) ?as ?ps ?ss t)" for t
    by (rule repaired_container_ok [OF as ps(1) ss(1)])
  show "references_ok ?r"
    unfolding references_ok_def r
  proof (intro conjI as ps(1) ss(1) ballI)
    fix p assume "p \<in> set ?ps"
    then obtain p0 where "p = repair_project (area_remap ?dd) ?as nowIso p0" by auto
    with repaired_project_area [OF d, of "area_remap ?dd" nowIso p0]
    show "isNonEmptyString (get p ''areaId'') \<longrightarrow> get p ''areaId'' \<in> set (ids_where (\<lambda>a. \<not> deleted a) ?as)" by simp
  next
    fix s assume "s \<in> set ?ss"
    then obtain s0 where s0: "s0 \<in> set (sections d)" "s = repair_section ?ps nowIso s0" by (auto simp only: set_map)
    from shape [OF s0(1)] show "get s ''projectId'' \<in> set (ids_where deleted ?ps) \<longrightarrow> deleted s" unfolding s0(2) by metis
  next
    fix u assume "u \<in> set (map (repair_task (area_remap ?dd) ?as ?ps ?ss nowIso) (tasks d))"
    then obtain t where u: "u = repair_task (area_remap ?dd) ?as ?ps ?ss nowIso t" by auto
    show "\<exists>t c. container_ok ?ps ?as ?ss t c
          \<and> (get u ''projectId'' = in_project c \<or> in_project c = JUndef \<and> \<not> isNonEmptyString (get u ''projectId''))
          \<and> (get u ''sectionId'' = in_section c \<or> in_section c = JUndef \<and> \<not> isNonEmptyString (get u ''sectionId''))
          \<and> (isNonEmptyString (get u ''areaId'') \<longrightarrow> get u ''areaId'' = in_area c) \<and> get u ''status'' = get t ''status''"
      using task [of t] repaired_task_fields [OF as ps(1) ss(1), where m = "area_remap ?dd" and t = t and n = nowIso]
      unfolding u by blast
  qed
  show "ids (projects ?r) = ids (projects d)" unfolding r by (rule ps(2))
  show "map (\<lambda>s. get s ''projectId'') (sections ?r) = map (\<lambda>s. get s ''projectId'') (sections d)"
    unfolding r map_map comp_def using shape by (intro map_cong refl) blast
qed

lemma references_ok_valid:
  assumes "references_ok r"
  shows "for_each (validate_project_reference r) (projects r) = []"
    and "for_each (validate_task_reference r) (tasks r) = []"
    and "\<forall>s\<in>set (sections r). get s ''projectId'' \<in> set (ids (projects r)) \<Longrightarrow>
      for_each (validate_section_reference r) (sections r) = []"
proof -
  have ref: "referable (areas r)" "referable (projects r)" "referable (sections r)"
    using assms unfolding references_ok_def by blast+
  have sub: "set (ids_where P es) \<subseteq> set (ids es)" for P es by (auto simp: ids_where_def set_ids)
  show "for_each (validate_project_reference r) (projects r) = []"
  proof (rule for_each_NilI)
    fix i p assume "p \<in> set (projects r)"
    with assms have "isNonEmptyString (get p ''areaId'') \<longrightarrow> get p ''areaId'' \<in> set (ids_where (\<lambda>a. \<not> deleted a) (areas r))"
      unfolding references_ok_def by blast
    with sub show "validate_project_reference r i p = []"
      by (auto simp: validate_project_reference_def Let_def tables [OF ref(1)])
  qed
  show "for_each (validate_task_reference r) (tasks r) = []"
  proof (rule for_each_NilI)
    fix i u assume "u \<in> set (tasks r)"
    with assms task_reference_valid [OF ref] show "validate_task_reference r i u = []"
      unfolding references_ok_def by blast
  qed
  show "for_each (validate_section_reference r) (sections r) = []"
    if known: "\<forall>s\<in>set (sections r). get s ''projectId'' \<in> set (ids (projects r))"
  proof (rule for_each_NilI)
    fix i s assume s: "s \<in> set (sections r)"
    have "get s ''projectId'' \<in> set (ids (projects r))" using known s by blast
    moreover from this have "JStr (js_string (get s ''projectId'')) = get s ''projectId''"
      using ref(2) by (auto simp: set_ids referable_def sound_marks_def has_id_key)
    moreover have "get s ''projectId'' \<in> set (ids_where deleted (projects r)) \<longrightarrow> gone s"
      using assms s unfolding references_ok_def referable_def sound_marks_def by blast
    ultimately show "validate_section_reference r i s = []"
      by (auto simp: validate_section_reference_def Let_def tables [OF ref(2)])
  qed
qed


definition broken_document :: AppData where
  "broken_document = \<lparr>tasks = [JObj [(''id'', JStr ''t''), (''projectId'', JStr ''gone''), (''sectionId'', JStr ''s'')]],
     projects = [JObj [(''id'', JStr ''p''), (''areaId'', JStr ''x'')]],
     sections = [JObj [(''id'', JStr ''s''), (''projectId'', JStr ''p'')]], areas = [], people = [], settings = JObj []\<rparr>"


section \<open>What an accepted document satisfies\<close>

lemma for_each_NilD: "for_each f xs = [] \<Longrightarrow> x \<in> set xs \<Longrightarrow> \<exists>i. f i x = []"
  by (auto simp: for_each_Nil in_set_conv_nth)

definition sound_entity :: "host \<Rightarrow> js \<Rightarrow> bool" where
  "sound_entity h e \<longleftrightarrow>
     isObjectRecord e \<and> isNonEmptyString (get e ''id'') \<and> isValidTimestamp h (get e ''updatedAt'') \<and> \<not> updated_before_created h e
     \<and> (get e ''rev'' = JUndef \<or> isValidRevision (get e ''rev'')) \<and> (get e ''revBy'' = JUndef \<or> isNonEmptyString (get e ''revBy''))"

lemma validated_entity: "validate_entity h l i e = [] \<Longrightarrow> sound_entity h e"
  by (auto simp: validate_entity_def sound_entity_def Let_def validateRevisionFields_def split: if_splits)

lemma validated_named: "validate_named h l i e = [] \<Longrightarrow> sound_entity h e \<and> isNonEmptyString (get e ''name'')"
  by (auto simp: validate_named_def sound_entity_def Let_def validateRevisionFields_def split: if_splits)

lemma in_string_ids:
  "x \<in> set (string_ids P es) \<longleftrightarrow> (\<exists>e\<in>set es. P e \<and> JStr (js_string (get e ''id'')) = x)"
  by (auto simp: string_ids_def)

lemma by_string_id_SomeD: "by_string_id P es x = Some e \<Longrightarrow> e \<in> set es \<and> P e \<and> JStr (js_string (get e ''id'')) = x"
  unfolding by_string_id_def by (drule map_of_js_map_SomeD) auto

text \<open>The container a live task is filed in, as validation guarantees it.\<close>

definition filed_in_section :: "AppData \<Rightarrow> entity \<Rightarrow> entity \<Rightarrow> bool" where
  "filed_in_section d t s \<longleftrightarrow> JStr (js_string (get s ''id'')) = get t ''sectionId''
     \<and> (\<not> gone s \<and> JStr (js_string (get s ''projectId'')) = get t ''projectId''
        \<or> gone s \<and> (\<exists>p\<in>set (projects d). isTaskSectionProjectArchiveReference t (Some s) (Some p)))"

lemma validated_task:
  assumes "validate_task_reference d i t = []" "isObjectRecord t"
  shows "(isNonEmptyString (get t ''projectId'') \<longrightarrow>
      (\<exists>p\<in>set (projects d). get p ''id'' = get t ''projectId'' \<and> (gone t \<or> \<not> gone p)))
    \<and> (isNonEmptyString (get t ''areaId'') \<longrightarrow> (\<exists>a\<in>set (areas d). get a ''id'' = get t ''areaId'' \<and> (gone t \<or> \<not> gone a)))
    \<and> (isNonEmptyString (get t ''sectionId'') \<and> \<not> gone t \<longrightarrow> (\<exists>s\<in>set (sections d). filed_in_section d t s))"
proof -
  have known: "x \<in> set (string_ids has_id_string es) \<Longrightarrow> \<exists>e\<in>set es. get e ''id'' = x"
    "x \<in> set (string_ids (\<lambda>e. has_id_string e \<and> \<not> gone e) es) \<Longrightarrow> \<exists>e\<in>set es. get e ''id'' = x \<and> \<not> gone e" for x es
    by (auto simp: in_string_ids has_id_key)
  have containers: "(isNonEmptyString (get t ''projectId'') \<longrightarrow> get t ''projectId'' \<in> set (string_ids has_id_string (projects d))
      \<and> (gone t \<or> get t ''projectId'' \<in> set (string_ids (\<lambda>e. has_id_string e \<and> \<not> gone e) (projects d))))
    \<and> (isNonEmptyString (get t ''areaId'') \<longrightarrow> get t ''areaId'' \<in> set (string_ids has_id_string (areas d))
      \<and> (gone t \<or> get t ''areaId'' \<in> set (string_ids (\<lambda>e. has_id_string e \<and> \<not> gone e) (areas d))))
    \<and> (isNonEmptyString (get t ''sectionId'') \<and> \<not> gone t \<longrightarrow>
         get t ''sectionId'' \<in> set (string_ids has_id_string (sections d)) \<and> validate_task_section d i t = [])"
    using assms by (auto simp: validate_task_reference_def Let_def split: if_splits)
  have "\<exists>s\<in>set (sections d). filed_in_section d t s"
    if s: "isNonEmptyString (get t ''sectionId'')" "\<not> gone t"
  proof (cases "get t ''sectionId'' \<in> set (string_ids (\<lambda>s. isObjectRecord s \<and> gone s) (sections d))")
    case True
    let ?p = "if isNonEmptyString (get t ''projectId'') then by_string_id
           (\<lambda>p. has_id_string p \<and> \<not> gone p \<and> get p ''status'' = JStr ''archived'') (projects d) (get t ''projectId'') else None"
    have "validate_task_section d i t = []" using containers s by blast
    with True s obtain x where x: "by_string_id (\<lambda>s. isObjectRecord s \<and> gone s) (sections d) (get t ''sectionId'') = Some x"
        "isTaskSectionProjectArchiveReference t (Some x) ?p"
      unfolding validate_task_section_def Let_def by auto
    then obtain q where q: "?p = Some q" by (cases ?p) (auto simp: isTaskSectionProjectArchiveReference_def)
    then have "q \<in> set (projects d)" by (auto dest: by_string_id_SomeD split: if_splits)
    with x(2) by_string_id_SomeD [OF x(1)] show ?thesis unfolding q by (auto simp: filed_in_section_def)
  next
    case False
    from containers s have "get t ''sectionId'' \<in> set (string_ids has_id_string (sections d))" by blast
    with False have "get t ''sectionId'' \<in> set (string_ids (\<lambda>s. isObjectRecord s \<and> \<not> gone s) (sections d))"
      by (auto simp: in_string_ids has_id_string_def)
    then have "by_string_id (\<lambda>s. isObjectRecord s \<and> \<not> gone s) (sections d) (get t ''sectionId'') \<noteq> None"
      unfolding by_string_id_def map_of_js_map_None in_string_ids by force
    then obtain x where x: "by_string_id (\<lambda>s. isObjectRecord s \<and> \<not> gone s) (sections d) (get t ''sectionId'') = Some x" by blast
    with containers s False have "JStr (js_string (get x ''projectId'')) = get t ''projectId''"
      by (auto simp: validate_task_section_def Let_def split: if_splits)
    with by_string_id_SomeD [OF x] show ?thesis by (auto simp: filed_in_section_def)
  qed
  with containers known show ?thesis by blast
qed


definition accepted_document :: AppData where
  "accepted_document = \<lparr>tasks = [JObj [(''id'', JStr ''t''), (''updatedAt'', JStr ''2024-03-01T00:00:00.000Z''), (''projectId'', JStr ''p'')]],
     projects = [JObj [(''id'', JStr ''p''), (''updatedAt'', JStr ''2024-03-01T00:00:00.000Z'')]],
     sections = [], areas = [], people = [], settings = JObj []\<rparr>"


text \<open>
  A payload read from storage or from the remote is accepted exactly when it is an object in which
  every collection present is an array of objects with a non-empty id and the settings, when present, are an
  object. Then its normal form holds only such entities.
\<close>

theorem payload_accepted_iff:
  "(validateSyncPayloadShape payload source = [] \<longleftrightarrow>
      isObjectRecord payload
      \<and> (\<forall>k\<in>set SURFACES. get payload k = JUndef \<or> (\<exists>es. get payload k = JArr es \<and> (\<forall>e\<in>set es. has_id_string e)))
      \<and> (get payload ''settings'' = JUndef \<or> isObjectRecord (get payload ''settings'')))
   \<and> (validateSyncPayloadShape payload source = [] \<longrightarrow>
      (let d = normalizeAppData payload in isObjectRecord (settings d)
        \<and> (\<forall>e\<in>set (tasks d) \<union> set (projects d) \<union> set (sections d) \<union> set (areas d) \<union> set (people d). has_id_string e)))"
proof -
  have surface: "validate_surface source payload k = [] \<longleftrightarrow>
      get payload k = JUndef \<or> (\<exists>es. get payload k = JArr es \<and> (\<forall>e\<in>set es. has_id_string e))" for k
    by (cases "get payload k")
      (auto simp: validate_surface_def for_each_Nil Let_def has_id_string_def all_set_conv_all_nth split: if_splits)
  have iff: "validateSyncPayloadShape payload source = [] \<longleftrightarrow>
      isObjectRecord payload
      \<and> (\<forall>k\<in>set SURFACES. get payload k = JUndef \<or> (\<exists>es. get payload k = JArr es \<and> (\<forall>e\<in>set es. has_id_string e)))
      \<and> (get payload ''settings'' = JUndef \<or> isObjectRecord (get payload ''settings''))"
    by (auto simp: validateSyncPayloadShape_def surface)
  have keyed: "\<forall>e\<in>set (elems (get payload k)). has_id_string e"
    if "validateSyncPayloadShape payload source = []" "k \<in> set SURFACES" for k
  proof -
    from that iff have "get payload k = JUndef \<or> (\<exists>es. get payload k = JArr es \<and> (\<forall>e\<in>set es. has_id_string e))" by blast
    then show ?thesis by auto
  qed
  have surfaces: "''tasks'' \<in> set SURFACES" "''projects'' \<in> set SURFACES" "''sections'' \<in> set SURFACES" "''areas'' \<in> set SURFACES"
      "''people'' \<in> set SURFACES"
    by (simp_all add: SURFACES_def)
  have st: "isObjectRecord (coalesce (get payload ''settings'') (JObj []))"
    if "validateSyncPayloadShape payload source = []"
    using that iff by (cases "get payload ''settings''") (auto simp: coalesce_def nullish_def isObjectRecord_def)
  have all: "\<forall>e\<in>set (tasks (normalizeAppData payload)) \<union> set (projects (normalizeAppData payload)) \<union> set (sections (normalizeAppData payload))
      \<union> set (areas (normalizeAppData payload)) \<union> set (people (normalizeAppData payload)). has_id_string e"
    if ok: "validateSyncPayloadShape payload source = []"
    unfolding normalizeAppData_def AppData.select_convs ball_Un
    using keyed [OF ok surfaces(1)] keyed [OF ok surfaces(2)] keyed [OF ok surfaces(3)] keyed [OF ok surfaces(4)] keyed [OF ok surfaces(5)]
    by (intro conjI)
  have eq: "settings (normalizeAppData payload) = coalesce (get payload ''settings'') (JObj [])"
    by (simp only: normalizeAppData_def AppData.select_convs)
  show ?thesis by (rule conjI [OF iff]) (simp only: Let_def eq st simp_thms cong: imp_cong, rule impI, rule all)
qed

theorem payload_accepted_iff_witness:
  "validateSyncPayloadShape (JObj [(''tasks'', JArr [JObj [(''id'', JStr ''t'')]])]) ''remote'' = []
   \<and> validateSyncPayloadShape (JObj [(''tasks'', JArr [JObj [(''id'', JStr '' '')]])]) ''remote'' \<noteq> []
   \<and> list_all has_id_string (tasks (normalizeAppData (JObj [(''tasks'', JArr [JObj [(''id'', JStr ''t'')]])])))"
proof -
  have ok: "validateSyncPayloadShape (JObj [(''tasks'', JArr [JObj [(''id'', JStr ''t'')]])]) ''remote'' = []"
    "validateSyncPayloadShape (JObj [(''tasks'', JArr [JObj [(''id'', JStr '' '')]])]) ''remote'' \<noteq> []" by code_simp+
  then show ?thesis
    using payload_accepted_iff [of "JObj [(''tasks'', JArr [JObj [(''id'', JStr ''t'')]])]" "''remote''"] unfolding Let_def list_all_iff by blast
qed

end
