(* ===== verification/Saved_Filters.thy ===== *)
theory Saved_Filters
  imports Sync_Normalization
begin

text \<open>
  Saved filters (the normalisers of \<^verbatim>\<open>packages/core/src/saved-filters.ts\<close>, with the token prefix
  of \<^verbatim>\<open>hierarchy-utils.ts\<close>): what a stored or received filter becomes before it is used or
  merged. \<open>Saved_Filter_Match\<close> matches tasks against them.
\<close>

section \<open>Values\<close>

definition TASK_STATUS_FILTER_VALUES :: "string list" where
  "TASK_STATUS_FILTER_VALUES = [''inbox'', ''next'', ''waiting'', ''someday'', ''reference'', ''done'', ''archived'']"

definition FILTER_PRIORITY_VALUES :: "string list" where
  "FILTER_PRIORITY_VALUES = [''none'', ''low'', ''medium'', ''high'', ''urgent'']"

definition TASK_ENERGY_VALUES :: "string list" where
  "TASK_ENERGY_VALUES = [''low'', ''medium'', ''high'']"

definition TIME_ESTIMATE_VALUES :: "string list" where
  "TIME_ESTIMATE_VALUES = [''5min'', ''10min'', ''15min'', ''30min'', ''1hr'', ''2hr'', ''3hr'', ''4hr'', ''4hr+'']"

definition MULTI_VALUE_FILTER_MATCH_MODE_VALUES :: "string list" where
  "MULTI_VALUE_FILTER_MATCH_MODE_VALUES = [''any'', ''all'']"

definition SAVED_FILTER_VIEW_VALUES :: "string list" where
  "SAVED_FILTER_VIEW_VALUES = [''focus'', ''next'', ''waiting'', ''someday'', ''contexts'', ''all'']"

definition FOCUS_GROUP_BY_VALUES :: "string list" where
  "FOCUS_GROUP_BY_VALUES = [''none'', ''context'', ''project'', ''area'', ''energy'', ''priority'', ''person'', ''tag'']"

definition SORT_FIELD_VALUES :: "string list" where
  "SORT_FIELD_VALUES = [''default'', ''due'', ''start'', ''review'', ''title'', ''created'', ''created-desc'', ''priority'',
     ''energy'', ''timeEstimate'', ''project'', ''updated'']"

definition DATE_PRESET_VALUES :: "string list" where
  "DATE_PRESET_VALUES = [''today'', ''this_week'', ''this_month'', ''overdue'', ''no_date'']"

section \<open>Arrays of tokens\<close>

definition normalizePrefixedToken :: "string \<Rightarrow> char \<Rightarrow> string" where
  "normalizePrefixedToken s prefix = (if starts_with s [prefix] then s else prefix # s)"

datatype token_form = Verbatim | Lowercase | Prefixed char

definition token_text :: "token_form \<Rightarrow> string \<Rightarrow> string" where
  "token_text form trimmed = (case form of Verbatim \<Rightarrow> trimmed | Lowercase \<Rightarrow> lower trimmed | Prefixed c \<Rightarrow> normalizePrefixedToken trimmed c)"

definition array_or_undef :: "string list \<Rightarrow> js" where
  "array_or_undef xs = (if xs \<noteq> [] then JArr (map JStr xs) else JUndef)"

text \<open>One turn of the loop; the \<open>seen\<close> set of the code holds the lower case of what was pushed.\<close>

definition push_token :: "token_form \<Rightarrow> string list \<Rightarrow> js \<Rightarrow> string list" where
  "push_token form acc item =
     (case item of
        JStr s \<Rightarrow> if trim_str s = [] then acc
          else let normalized = token_text form (trim_str s)
               in if lower normalized \<in> set (map lower acc) then acc else acc @ [normalized]
      | _ \<Rightarrow> acc)"

definition normalizeTokenArray :: "token_form \<Rightarrow> js \<Rightarrow> js" where
  "normalizeTokenArray form v = (case v of JArr items \<Rightarrow> array_or_undef (foldl (push_token form) [] items) | _ \<Rightarrow> JUndef)"

definition subtractTokens :: "js \<Rightarrow> js \<Rightarrow> js" where
  "subtractTokens tokens remove =
     (if tokens = JUndef then JUndef
      else if elems remove = [] then tokens
      else array_or_undef (filter (\<lambda>t. lower t \<notin> set (map (lower \<circ> the_str) (elems remove))) (map the_str (elems tokens))))"

definition push_enum :: "string list \<Rightarrow> string list \<Rightarrow> js \<Rightarrow> string list" where
  "push_enum allowed acc item =
     (case item of JStr s \<Rightarrow> if s \<notin> set allowed \<or> s \<in> set acc then acc else acc @ [s] | _ \<Rightarrow> acc)"

definition normalizeEnumArray :: "js \<Rightarrow> string list \<Rightarrow> js" where
  "normalizeEnumArray v allowed = (case v of JArr items \<Rightarrow> array_or_undef (foldl (push_enum allowed) [] items) | _ \<Rightarrow> JUndef)"

definition enum_or_undef :: "string list \<Rightarrow> js \<Rightarrow> js" where
  "enum_or_undef allowed v = (case v of JStr s \<Rightarrow> if s \<in> set allowed then v else JUndef | _ \<Rightarrow> JUndef)"

definition normalizeMultiValueFilterMatchMode :: "js \<Rightarrow> js" where
  "normalizeMultiValueFilterMatchMode = enum_or_undef MULTI_VALUE_FILTER_MATCH_MODE_VALUES"

definition trimmed_or_undef :: "js \<Rightarrow> js" where
  "trimmed_or_undef v = (case v of JStr s \<Rightarrow> if trim_str s \<noteq> [] then JStr (trim_str s) else JUndef | _ \<Rightarrow> JUndef)"

section \<open>Criteria\<close>

definition normalizeDateRange :: "js \<Rightarrow> js" where
  "normalizeDateRange v =
     (if \<not> is_obj v then JUndef
      else if enum_or_undef DATE_PRESET_VALUES (get v ''preset'') \<noteq> JUndef then JObj [(''preset'', get v ''preset'')]
      else let from_day = trimmed_or_undef (get v ''from''); to_day = trimmed_or_undef (get v ''to'')
           in if truthy from_day \<or> truthy to_day then JObj [(''from'', from_day), (''to'', to_day)] else JUndef)"

definition whole_minutes :: "js \<Rightarrow> js" where
  "whole_minutes v = (case v of JNum q \<Rightarrow> JNum (of_int (max 0 \<lfloor>q\<rfloor>)) | _ \<Rightarrow> JUndef)"

definition normalizeEstimateRange :: "js \<Rightarrow> js" where
  "normalizeEstimateRange v =
     (if \<not> is_obj v then JUndef
      else let low = whole_minutes (get v ''min''); high = whole_minutes (get v ''max'')
           in if low \<noteq> JUndef \<or> high \<noteq> JUndef then JObj [(''min'', low), (''max'', high)] else JUndef)"

definition bool_or_undef :: "js \<Rightarrow> js" where
  "bool_or_undef v = (case v of JBool _ \<Rightarrow> v | _ \<Rightarrow> JUndef)"

text \<open>The properties that are set, in the order of the assignments.\<close>

definition present :: "(string \<times> js) list \<Rightarrow> js" where
  "present kvs = JObj (filter (\<lambda>kv. snd kv \<noteq> JUndef) kvs)"

definition criteria_fields :: "js \<Rightarrow> (string \<times> js) list" where
  "criteria_fields v =
     (let with_contexts = normalizeTokenArray (Prefixed (CHR ''@'')) (get v ''contexts'');
          with_tags = normalizeTokenArray (Prefixed (CHR ''#'')) (get v ''tags'')
      in [(''contexts'', with_contexts),
          (''contextMatchMode'', if with_contexts \<noteq> JUndef then normalizeMultiValueFilterMatchMode (get v ''contextMatchMode'') else JUndef),
          (''excludedContexts'', subtractTokens (normalizeTokenArray (Prefixed (CHR ''@'')) (get v ''excludedContexts'')) with_contexts),
          (''areas'', normalizeTokenArray Verbatim (get v ''areas'')),
          (''projects'', normalizeTokenArray Verbatim (get v ''projects'')),
          (''tags'', with_tags),
          (''tagMatchMode'', if with_tags \<noteq> JUndef then normalizeMultiValueFilterMatchMode (get v ''tagMatchMode'') else JUndef),
          (''excludedTags'', subtractTokens (normalizeTokenArray (Prefixed (CHR ''#'')) (get v ''excludedTags'')) with_tags),
          (''energy'', normalizeEnumArray (get v ''energy'') TASK_ENERGY_VALUES),
          (''priority'', normalizeEnumArray (get v ''priority'') FILTER_PRIORITY_VALUES),
          (''statuses'', normalizeEnumArray (get v ''statuses'') TASK_STATUS_FILTER_VALUES),
          (''assignedTo'', normalizeTokenArray Verbatim (get v ''assignedTo'')),
          (''locations'', normalizeTokenArray Verbatim (get v ''locations'')),
          (''timeEstimates'', normalizeEnumArray (get v ''timeEstimates'') TIME_ESTIMATE_VALUES),
          (''dueDateRange'', normalizeDateRange (get v ''dueDateRange'')),
          (''startDateRange'', normalizeDateRange (get v ''startDateRange'')),
          (''timeEstimateRange'', normalizeEstimateRange (get v ''timeEstimateRange'')),
          (''hasDescription'', bool_or_undef (get v ''hasDescription'')),
          (''isStarred'', bool_or_undef (get v ''isStarred''))])"

definition normalizeFilterCriteria :: "js \<Rightarrow> js" where
  "normalizeFilterCriteria v = (if is_obj v then present (criteria_fields v) else JObj [])"

section \<open>Filters\<close>

definition blank_or_other :: "js \<Rightarrow> bool" where
  "blank_or_other v = (case v of JStr s \<Rightarrow> trim_str s = [] | _ \<Rightarrow> True)"

definition filter_fields :: "host \<Rightarrow> js \<Rightarrow> (string \<times> js) list" where
  "filter_fields h v =
     (let createdAt = (if blank_or_other (get v ''createdAt'') then JStr (iso_string (date_now h)) else get v ''createdAt'')
      in [(''id'', JStr (trim_str (the_str (get v ''id'')))), (''name'', JStr (trim_str (the_str (get v ''name'')))),
          (''icon'', trimmed_or_undef (get v ''icon'')),
          (''view'', coalesce (enum_or_undef SAVED_FILTER_VIEW_VALUES (get v ''view'')) (JStr ''focus'')),
          (''criteria'', normalizeFilterCriteria (get v ''criteria'')),
          (''sortBy'', enum_or_undef SORT_FIELD_VALUES (get v ''sortBy'')),
          (''sortOrder'', enum_or_undef [''asc'', ''desc''] (get v ''sortOrder'')),
          (''groupBy'', enum_or_undef FOCUS_GROUP_BY_VALUES (get v ''groupBy'')),
          (''createdAt'', createdAt),
          (''updatedAt'', if blank_or_other (get v ''updatedAt'') then createdAt else get v ''updatedAt''),
          (''deletedAt'', trimmed_or_undef (get v ''deletedAt''))])"

definition normalizeSavedFilter :: "host \<Rightarrow> js \<Rightarrow> js option" where
  "normalizeSavedFilter h v =
     (if \<not> is_obj v then None
      else if blank_or_other (get v ''id'') then None
      else if blank_or_other (get v ''name'') then None
      else Some (present (filter_fields h v)))"

text \<open>\<open>Array.prototype.sort\<close> is given this comparator; it is total whenever \<open>localeCompare\<close> is.\<close>

definition compare_filters :: "host \<Rightarrow> js \<Rightarrow> js \<Rightarrow> int" where
  "compare_filters h a b =
     (case (date_parse h (the_str (get a ''createdAt'')), date_parse h (the_str (get b ''createdAt''))) of
        (Some x, Some y) \<Rightarrow> if x - y \<noteq> 0 then x - y else locale_compare h (the_str (get a ''name'')) (the_str (get b ''name''))
      | _ \<Rightarrow> locale_compare h (the_str (get a ''name'')) (the_str (get b ''name'')))"

definition filters_by_id :: "host \<Rightarrow> js list \<Rightarrow> (js \<times> js) list" where
  "filters_by_id h items = js_map (map (\<lambda>f. (get f ''id'', f)) (List.map_filter (normalizeSavedFilter h) items))"

definition normalizeSavedFilters :: "host \<Rightarrow> js \<Rightarrow> js list" where
  "normalizeSavedFilters h v =
     (case v of JArr items \<Rightarrow> sort_by (compare_filters h) (map snd (filters_by_id h items)) | _ \<Rightarrow> [])"

definition markSavedFilterDeleted :: "host \<Rightarrow> js \<Rightarrow> js \<Rightarrow> string \<Rightarrow> js list" where
  "markSavedFilterDeleted h filters filterId deletedAt =
     map (\<lambda>f. if get f ''id'' = filterId then puts f [(''updatedAt'', JStr deletedAt), (''deletedAt'', JStr deletedAt)] else f)
       (normalizeSavedFilters h filters)"

section \<open>Normalising again changes nothing\<close>
lemma get_present: "distinct (map fst kvs) \<Longrightarrow> get (present kvs) k = (case map_of kvs k of Some x \<Rightarrow> x | None \<Rightarrow> JUndef)"
proof (induction kvs)
  case (Cons kv kvs)
  have "map_of (filter (\<lambda>kv. snd kv \<noteq> JUndef) kvs) (fst kv) = None"
    using Cons.prems by (auto simp: map_of_eq_None_iff)
  with Cons show ?case by (cases kv) (auto simp: present_def get_def)
qed (simp add: present_def)

text \<open>What the loops leave: tokens in their normal form, no two alike up to case.\<close>

definition settled_tokens :: "token_form \<Rightarrow> string list \<Rightarrow> bool" where
  "settled_tokens form xs \<longleftrightarrow> (\<forall>t\<in>set xs. trim_str t \<noteq> [] \<and> token_text form (trim_str t) = t) \<and> distinct (map lower xs)"

definition settled_array :: "token_form \<Rightarrow> js \<Rightarrow> bool" where
  "settled_array form v \<longleftrightarrow> v = JUndef \<or> (\<exists>xs. xs \<noteq> [] \<and> v = JArr (map JStr xs) \<and> settled_tokens form xs)"

definition settled_enum :: "string list \<Rightarrow> js \<Rightarrow> bool" where
  "settled_enum allowed v \<longleftrightarrow> v = JUndef \<or> (\<exists>xs. xs \<noteq> [] \<and> v = JArr (map JStr xs) \<and> set xs \<subseteq> set allowed \<and> distinct xs)"

lemma trim_str_Cons: "\<not> js_ws c \<Longrightarrow> trim_str (c # s) = c # rev (dropWhile js_ws (rev s))"
  by (simp add: trim_str_def dropWhile_append)

lemma trim_str_right: "rev (dropWhile js_ws (rev (trim_str s))) = trim_str s"
  by (simp add: trim_str_def)

lemma token_text_settled:
  assumes "form = Verbatim \<or> (\<exists>c. form = Prefixed c \<and> \<not> js_ws c)" "trim_str s \<noteq> []"
  shows "trim_str (token_text form (trim_str s)) \<noteq> []
    \<and> token_text form (trim_str (token_text form (trim_str s))) = token_text form (trim_str s)"
proof (cases form)
  case (Prefixed c)
  with assms(1) have c: "\<not> js_ws c" by auto
  show ?thesis
  proof (cases "starts_with (trim_str s) [c]")
    case True
    with assms(2) Prefixed show ?thesis by (simp add: token_text_def normalizePrefixedToken_def)
  next
    case False
    then show ?thesis
      using c Prefixed by (simp add: token_text_def normalizePrefixedToken_def trim_str_Cons trim_str_right starts_with_def)
  qed
qed (use assms in \<open>auto simp: token_text_def\<close>)

lemma push_token_settled:
  assumes "form = Verbatim \<or> (\<exists>c. form = Prefixed c \<and> \<not> js_ws c)" "settled_tokens form acc"
  shows "settled_tokens form (push_token form acc item)"
  using assms token_text_settled [OF assms(1)]
  by (cases item) (auto simp: push_token_def settled_tokens_def Let_def)

lemma normalizeTokenArray_settled:
  assumes "form = Verbatim \<or> (\<exists>c. form = Prefixed c \<and> \<not> js_ws c)"
  shows "settled_array form (normalizeTokenArray form v)"
proof -
  have "settled_tokens form (foldl (push_token form) acc items)" if "settled_tokens form acc" for acc items
    using that by (induction items arbitrary: acc) (auto simp: push_token_settled [OF assms])
  from this [of "[]"] show ?thesis
    by (cases v) (auto simp: normalizeTokenArray_def settled_array_def array_or_undef_def settled_tokens_def)
qed

lemma push_tokens_fixed:
  "settled_tokens form (acc @ xs) \<Longrightarrow> foldl (push_token form) acc (map JStr xs) = acc @ xs"
proof (induction xs arbitrary: acc)
  case (Cons x xs)
  then have "push_token form acc (JStr x) = acc @ [x]"
    by (auto simp: push_token_def settled_tokens_def Let_def)
  then show ?case using Cons.IH [of "acc @ [x]"] Cons.prems by simp
qed simp

lemma settled_array_fixed: "settled_array form v \<Longrightarrow> normalizeTokenArray form v = v"
  using push_tokens_fixed [of form "[]"] by (auto simp: settled_array_def normalizeTokenArray_def array_or_undef_def)

lemma settled_tokens_filter: "settled_tokens form xs \<Longrightarrow> settled_tokens form (filter P xs)"
  by (auto simp: settled_tokens_def distinct_map intro: inj_on_subset)

lemma subtractTokens_settled:
  assumes "settled_array form t" shows "settled_array form (subtractTokens t r)"
proof -
  have "settled_array form (array_or_undef xs)" if "settled_tokens form xs" for xs
    using that by (auto simp: settled_array_def array_or_undef_def)
  with assms show ?thesis
    by (auto simp: settled_array_def [of form t] subtractTokens_def comp_def settled_tokens_filter) (auto simp: settled_array_def)
qed

lemma subtractTokens_again:
  assumes "settled_array form t" shows "subtractTokens (subtractTokens t r) r = subtractTokens t r"
  using assms by (auto simp: settled_array_def subtractTokens_def array_or_undef_def comp_def filter_empty_conv)

lemma normalizeEnumArray_settled: "settled_enum allowed (normalizeEnumArray v allowed)"
proof -
  have "set (foldl (push_enum allowed) acc items) \<subseteq> set allowed \<and> distinct (foldl (push_enum allowed) acc items)"
    if "set acc \<subseteq> set allowed" "distinct acc" for acc items
    using that by (induction items arbitrary: acc) (auto simp: push_enum_def split: js.split)
  from this [of "[]"] show ?thesis
    by (cases v) (auto simp: normalizeEnumArray_def settled_enum_def array_or_undef_def)
qed

lemma settled_enum_fixed: assumes "settled_enum allowed v" shows "normalizeEnumArray v allowed = v"
proof -
  have "foldl (push_enum allowed) acc (map JStr xs) = acc @ xs" if "set xs \<subseteq> set allowed" "distinct (acc @ xs)" for acc xs
    using that by (induction xs arbitrary: acc) (auto simp: push_enum_def)
  from this [of _ "[]"] assms show ?thesis
    by (auto simp: settled_enum_def normalizeEnumArray_def array_or_undef_def)
qed

lemmas enum_array_again = settled_enum_fixed [OF normalizeEnumArray_settled]

lemma token_array_again:
  "normalizeTokenArray Verbatim (normalizeTokenArray Verbatim v) = normalizeTokenArray Verbatim v"
  "\<not> js_ws c \<Longrightarrow> normalizeTokenArray (Prefixed c) (normalizeTokenArray (Prefixed c) v) = normalizeTokenArray (Prefixed c) v"
  "\<not> js_ws c \<Longrightarrow> subtractTokens (normalizeTokenArray (Prefixed c) (subtractTokens (normalizeTokenArray (Prefixed c) v) r)) r
     = subtractTokens (normalizeTokenArray (Prefixed c) v) r"
  by (simp_all add: settled_array_fixed normalizeTokenArray_settled subtractTokens_settled subtractTokens_again
      [OF normalizeTokenArray_settled])

lemma scalar_again:
  "enum_or_undef allowed (enum_or_undef allowed v) = enum_or_undef allowed v"
  "bool_or_undef (bool_or_undef v) = bool_or_undef v" "trimmed_or_undef (trimmed_or_undef v) = trimmed_or_undef v"
  "whole_minutes (whole_minutes v) = whole_minutes v"
  by (cases v; simp add: enum_or_undef_def bool_or_undef_def trimmed_or_undef_def whole_minutes_def)+

lemma date_range_again: "normalizeDateRange (normalizeDateRange v) = normalizeDateRange v"
  by (auto simp: normalizeDateRange_def Let_def scalar_again) (simp_all add: enum_or_undef_def)

lemma estimate_range_again: "normalizeEstimateRange (normalizeEstimateRange v) = normalizeEstimateRange v"
  by (simp add: normalizeEstimateRange_def Let_def scalar_again)

lemma match_mode_again:
  "normalizeMultiValueFilterMatchMode (normalizeMultiValueFilterMatchMode v) = normalizeMultiValueFilterMatchMode v"
  by (simp add: normalizeMultiValueFilterMatchMode_def scalar_again)

lemma prefix_chars [simp]: "\<not> js_ws (CHR ''@'')" "\<not> js_ws (CHR ''#'')"
  by code_simp+

lemma criteria_again: "normalizeFilterCriteria (normalizeFilterCriteria v) = normalizeFilterCriteria v"
proof (cases "is_obj v")
  case True
  have d: "distinct (map fst (criteria_fields v))" by (simp add: criteria_fields_def Let_def)
  have "criteria_fields (present (criteria_fields v)) = criteria_fields v"
    unfolding criteria_fields_def [of "present (criteria_fields v)"] get_present [OF d]
    by (simp add: criteria_fields_def Let_def token_array_again enum_array_again scalar_again date_range_again
        estimate_range_again match_mode_again)
  with True show ?thesis by (simp add: normalizeFilterCriteria_def present_def)
next
  case False
  then show ?thesis by (simp add: normalizeFilterCriteria_def criteria_fields_def present_def Let_def
      normalizeTokenArray_def subtractTokens_def normalizeEnumArray_def enum_or_undef_def normalizeDateRange_def
      normalizeEstimateRange_def bool_or_undef_def)
qed

lemma iso_string_not_blank: "trim_str (iso_string t) \<noteq> []"
proof -
  have "trim_str s \<noteq> []" if "c \<in> set s" "\<not> js_ws c" for c s
  proof
    assume "trim_str s = []"
    then have all: "\<forall>x\<in>set (dropWhile js_ws s). js_ws x" by (simp add: trim_str_def dropWhile_eq_Nil_conv)
    have "dropWhile js_ws s \<noteq> []" using that by (auto simp: dropWhile_eq_Nil_conv)
    with all show False using hd_dropWhile [of js_ws s] hd_in_set [of "dropWhile js_ws s"] by blast
  qed
  moreover have "\<not> js_ws (CHR ''Z'')" by code_simp
  moreover have "CHR ''Z'' \<in> set (iso_string t)" by (cases "civil_of_day (t div 86400000)") (simp add: iso_string_def Let_def)
  ultimately show ?thesis by blast
qed

lemma saved_filter_again:
  assumes "normalizeSavedFilter h v = Some f" shows "normalizeSavedFilter h f = Some f"
proof -
  from assms have v: "is_obj v" "\<not> blank_or_other (get v ''id'')" "\<not> blank_or_other (get v ''name'')"
    and f: "f = present (filter_fields h v)"
    by (auto simp: normalizeSavedFilter_def split: if_splits)
  have d: "distinct (map fst (filter_fields h v))" by (simp add: filter_fields_def Let_def)
  have b: "\<not> blank_or_other (JStr (trim_str (the_str (get v ''id''))))" "\<not> blank_or_other (JStr (trim_str (the_str (get v ''name''))))"
    "\<not> blank_or_other (JStr (iso_string (date_now h)))"
    using v(2,3) iso_string_not_blank [of "date_now h"] by (auto simp: blank_or_other_def split: js.splits)
  have view: "coalesce (enum_or_undef SAVED_FILTER_VIEW_VALUES (coalesce (enum_or_undef SAVED_FILTER_VIEW_VALUES x) (JStr ''focus''))) (JStr ''focus'')
      = coalesce (enum_or_undef SAVED_FILTER_VIEW_VALUES x) (JStr ''focus'')" for x
    by (cases x) (auto simp: enum_or_undef_def SAVED_FILTER_VIEW_VALUES_def coalesce_def)
  have "filter_fields h (present (filter_fields h v)) = filter_fields h v"
    unfolding filter_fields_def [of h "present (filter_fields h v)"] get_present [OF d]
    by (simp add: filter_fields_def Let_def scalar_again criteria_again b view)
  moreover have "is_obj f" by (simp add: f present_def)
  moreover have "\<not> blank_or_other (get f ''id'')" "\<not> blank_or_other (get f ''name'')"
    unfolding f get_present [OF d] using b by (simp_all add: filter_fields_def Let_def)
  ultimately show ?thesis by (simp add: normalizeSavedFilter_def f)
qed

lemma insert_by_sorted:
  assumes "\<And>x y. 0 < cmp x y \<Longrightarrow> cmp y x \<le> 0" "successively (\<lambda>x y. cmp x y \<le> 0) ys"
  shows "successively (\<lambda>x y. cmp x y \<le> 0) (insert_by cmp x ys)"
  using assms(2)
proof (induction ys rule: induct_list012)
  case (3 y z zs)
  then show ?case using assms(1) [of x y] assms(1) [of x z] by (auto simp: not_le)
qed (use assms(1) in \<open>auto simp: not_le\<close>)

lemma sort_by_idem:
  assumes "\<And>x y. 0 < cmp x y \<Longrightarrow> cmp y x \<le> 0"
  shows "sort_by cmp (sort_by cmp xs) = sort_by cmp xs"
proof -
  have "successively (\<lambda>x y. cmp x y \<le> 0) (sort_by cmp xs)"
    by (induction xs) (simp_all add: insert_by_sorted [OF assms])
  moreover have "sort_by cmp ys = ys" if "successively (\<lambda>x y. cmp x y \<le> 0) ys" for ys
    using that by (induction ys rule: induct_list012) simp_all
  ultimately show ?thesis by blast
qed

lemma set_insert_by [simp]: "set (insert_by cmp x ys) = insert x (set ys)"
  by (induction ys) auto

lemma set_sort_by [simp]: "set (sort_by cmp xs) = set xs"
  by (induction xs) simp_all

lemma distinct_map_sort_by: "distinct (map f (sort_by cmp xs)) \<longleftrightarrow> distinct (map f xs)"
proof -
  have "distinct (map f (insert_by cmp x ys)) \<longleftrightarrow> distinct (map f (x # ys))" for x ys by (induction ys) auto
  then show ?thesis by (induction xs) auto
qed

lemma map_filter_fixed: "\<forall>x\<in>set xs. f x = Some x \<Longrightarrow> List.map_filter f xs = xs"
  by (induction xs) (auto simp: List.map_filter_simps)

lemma js_map_values: "\<forall>p\<in>set ps. fst p = k (snd p) \<Longrightarrow> \<forall>p\<in>set (js_map ps). fst p = k (snd p) \<and> p \<in> set ps"
  by (metis distinct_js_map map_of_js_map_SomeD map_of_is_SomeI prod.collapse)

lemma normalizeSavedFilters_settled:
  assumes "\<And>a b. 0 < locale_compare h a b \<Longrightarrow> locale_compare h b a \<le> 0"
  shows "distinct (ids (normalizeSavedFilters h v))
    \<and> normalizeSavedFilters h (JArr (normalizeSavedFilters h v)) = normalizeSavedFilters h v"
proof (cases v)
  case (JArr items)
  let ?n = "normalizeSavedFilters h v"
  let ?fs = "List.map_filter (normalizeSavedFilter h) items"
  have entries: "\<forall>p\<in>set (filters_by_id h items). fst p = get (snd p) ''id'' \<and> snd p \<in> set ?fs"
    using js_map_values [of "map (\<lambda>f. (get f ''id'', f)) ?fs" "\<lambda>f. get f ''id''"] by (fastforce simp: filters_by_id_def)
  have "distinct (map fst (filters_by_id h items))" by (simp add: filters_by_id_def)
  moreover have "map fst (filters_by_id h items) = ids (map snd (filters_by_id h items))"
    using entries by (simp add: ids_def)
  ultimately have d: "distinct (ids ?n)"
    by (simp add: normalizeSavedFilters_def JArr ids_def distinct_map_sort_by)
  have normal: "\<forall>f\<in>set ?n. normalizeSavedFilter h f = Some f"
    using entries by (auto simp: normalizeSavedFilters_def JArr List.map_filter_def saved_filter_again)
  have "map snd (filters_by_id h ?n) = ?n"
    using d by (simp add: filters_by_id_def map_filter_fixed [OF normal] js_map_distinct ids_def comp_def)
  moreover have "0 < compare_filters h x y \<Longrightarrow> compare_filters h y x \<le> 0" for x y
    using assms by (auto simp: compare_filters_def split: option.splits if_splits)
  ultimately show ?thesis using d by (simp add: normalizeSavedFilters_def JArr sort_by_idem)
qed (simp_all add: normalizeSavedFilters_def filters_by_id_def List.map_filter_def)

text \<open>
  Normalising saved filters settles them: the ids of the result are distinct and every filter in it is
  normal, so normalising the result again, at any clock, gives the same list in the same order. Stored
  filters do not change from sync to sync.
\<close>

theorem saved_filters_settle:
  assumes "\<And>a b. 0 < locale_compare h a b \<Longrightarrow> locale_compare h b a \<le> 0"
  shows "distinct (ids (normalizeSavedFilters h v))
    \<and> normalizeSavedFilters h (JArr (normalizeSavedFilters h v)) = normalizeSavedFilters h v"
  using assms by (rule normalizeSavedFilters_settled)

definition home_filter :: js where
  "home_filter = JObj [(''id'', JStr '' f ''), (''name'', JStr ''Home''), (''createdAt'', JStr ''2024-01-01T00:00:00.000Z'')]"

theorem saved_filters_settle_witness:
  "normalizeSavedFilters host0 (JArr (normalizeSavedFilters host0 (JArr [home_filter]))) = normalizeSavedFilters host0 (JArr [home_filter])
   \<and> normalizeSavedFilter host0 home_filter \<noteq> None"
proof -
  have "0 < locale_compare host0 a b \<Longrightarrow> locale_compare host0 b a \<le> 0" for a b
    by (auto simp: host0_def split: if_splits)
  from saved_filters_settle [of host0 "JArr [home_filter]", OF this]
  have "normalizeSavedFilters host0 (JArr (normalizeSavedFilters host0 (JArr [home_filter]))) = normalizeSavedFilters host0 (JArr [home_filter])"
    by blast
  moreover have "\<not> blank_or_other (JStr '' f '')" "\<not> blank_or_other (JStr ''Home'')" by code_simp+
  then have "normalizeSavedFilter host0 home_filter \<noteq> None" by (simp add: normalizeSavedFilter_def home_filter_def)
  ultimately show ?thesis by blast
qed

end
