(* ===== verification/Settings_Options.thy ===== *)
theory Settings_Options
  imports Sync_Repair
begin

text \<open>
  The closed value sets of the settings and the part of the GTD settings that travels
  (\<^verbatim>\<open>packages/core/src/settings-options.ts\<close>, with the constants of \<^verbatim>\<open>ai-config.ts\<close>, \<^verbatim>\<open>focus-utils.ts\<close>,
  \<^verbatim>\<open>external-calendar-colors.ts\<close> and the language table of \<^verbatim>\<open>i18n\<close>).
\<close>

section \<open>Value sets\<close>

definition SETTINGS_THEME_VALUES :: "string list" where
  "SETTINGS_THEME_VALUES = [''light'', ''dark'', ''system'', ''eink'', ''nord'', ''sepia'', ''material3-light'', ''material3-dark'',
     ''oled'', ''catppuccin-macchiato'', ''dracula'']"

definition SETTINGS_LANGUAGE_VALUES :: "string list" where
  "SETTINGS_LANGUAGE_VALUES = [''en'', ''vi'', ''zh'', ''zh-Hant'', ''es'', ''hi'', ''ar'', ''de'', ''ru'', ''ja'', ''fr'', ''pt'', ''pl'',
     ''cs'', ''ko'', ''it'', ''tr'', ''nl'', ''fa'', ''sv'', ''system'']"

definition SETTINGS_WEEK_START_VALUES :: "string list" where
  "SETTINGS_WEEK_START_VALUES = [''system'', ''monday'', ''saturday'', ''sunday'']"

definition SETTINGS_TIME_FORMAT_VALUES :: "string list" where
  "SETTINGS_TIME_FORMAT_VALUES = [''system'', ''12h'', ''24h'']"

definition SETTINGS_KEYBINDING_STYLE_VALUES :: "string list" where
  "SETTINGS_KEYBINDING_STYLE_VALUES = [''vim'', ''emacs'', ''standard'']"

definition SETTINGS_DENSITY_VALUES :: "string list" where
  "SETTINGS_DENSITY_VALUES = [''comfortable'', ''compact'', ''condensed'']"

definition SETTINGS_TEXT_SIZE_VALUES :: "string list" where
  "SETTINGS_TEXT_SIZE_VALUES = [''small'', ''default'', ''large'', ''extra-large'']"

definition SETTINGS_MOBILE_QUICK_ACCESS_VIEW_VALUES :: "string list" where
  "SETTINGS_MOBILE_QUICK_ACCESS_VIEW_VALUES = [''review'', ''projects'', ''calendar'', ''contexts'']"

definition SETTINGS_FOCUS_GROUP_BY_VALUES :: "string list" where
  "SETTINGS_FOCUS_GROUP_BY_VALUES = [''none'', ''context'', ''project'', ''area'', ''energy'', ''priority'', ''person'', ''tag'']"

definition SETTINGS_DEFAULT_PROJECT_FLOW_MODE_VALUES :: "string list" where
  "SETTINGS_DEFAULT_PROJECT_FLOW_MODE_VALUES = [''parallel'', ''sequential'']"

definition SETTINGS_DEFAULT_TASK_AREA_MODE_VALUES :: "string list" where
  "SETTINGS_DEFAULT_TASK_AREA_MODE_VALUES = [''none'', ''fixed'', ''active'']"

definition AI_PROVIDER_VALUES :: "string list" where
  "AI_PROVIDER_VALUES = [''gemini'', ''openai'', ''anthropic'']"

definition AI_REASONING_EFFORT_VALUES :: "string list" where
  "AI_REASONING_EFFORT_VALUES = [''minimal'', ''low'', ''medium'', ''high'']"

definition STT_PROVIDER_VALUES :: "string list" where
  "STT_PROVIDER_VALUES = [''openai'', ''gemini'', ''whisper'', ''parakeet'']"

definition STT_MODE_VALUES :: "string list" where
  "STT_MODE_VALUES = [''smart_parse'', ''transcribe_only'']"

definition STT_FIELD_STRATEGY_VALUES :: "string list" where
  "STT_FIELD_STRATEGY_VALUES = [''smart'', ''title_only'', ''description_only'']"

definition AI_REQUEST_TIMEOUT_OPTIONS :: "rat list" where
  "AI_REQUEST_TIMEOUT_OPTIONS = [30, 60, 120, 300]"

definition MIN_FOCUS_TASK_LIMIT :: int where
  "MIN_FOCUS_TASK_LIMIT = 1"

definition MAX_FOCUS_TASK_LIMIT :: int where
  "MAX_FOCUS_TASK_LIMIT = 10"

text \<open>Only called on finite numbers here; anything else falls back to the default of three.\<close>

definition normalizeFocusTaskLimit :: "js \<Rightarrow> js" where
  "normalizeFocusTaskLimit v =
     (case v of JNum q \<Rightarrow> JNum (of_int (min MAX_FOCUS_TASK_LIMIT (max MIN_FOCUS_TASK_LIMIT \<lfloor>q\<rfloor>))) | _ \<Rightarrow> JNum 3)"

definition EXTERNAL_CALENDAR_COLORS :: "string list" where
  "EXTERNAL_CALENDAR_COLORS = [''#2563EB'', ''#7C3AED'', ''#DB2777'', ''#EA580C'', ''#059669'', ''#0891B2'', ''#4F46E5'', ''#65A30D'']"

definition normalizeExternalCalendarColor :: "js \<Rightarrow> js" where
  "normalizeExternalCalendarColor v =
     (case v of JStr s \<Rightarrow> (let normalized = upper (trim_str s) in if normalized \<in> set EXTERNAL_CALENDAR_COLORS then JStr normalized else JUndef)
      | _ \<Rightarrow> JUndef)"

definition one_of :: "string list \<Rightarrow> js \<Rightarrow> bool" where
  "one_of allowed v = (case v of JStr s \<Rightarrow> s \<in> set allowed | _ \<Rightarrow> False)"

section \<open>What is synced of the GTD settings\<close>

definition SETTINGS_SYNC_GROUP_KEYS :: "string list" where
  "SETTINGS_SYNC_GROUP_KEYS = [''appearance'', ''language'', ''gtd'', ''externalCalendars'', ''ai'', ''savedFilters'']"

definition isSettingsSyncGroupEnabled :: "js \<Rightarrow> string \<Rightarrow> bool" where
  "isSettingsSyncGroupEnabled preferences grp = truthy (coalesce (get preferences grp) (JBool (grp = ''gtd'')))"

definition GTD_SYNCED_FIELD_KEYS :: "string list" where
  "GTD_SYNCED_FIELD_KEYS = [''timeEstimatePresets'', ''taskEditor'', ''autoArchiveDays'', ''defaultCaptureMethod'', ''defaultScheduleTime'',
     ''defaultAreaMode'', ''defaultAreaId'', ''focusTaskLimit'', ''focusGroupBy'', ''defaultProjectFlowMode'', ''naturalLanguageDates'',
     ''viewSections'', ''saveAudioAttachments'', ''weeklyReview'', ''dailyReview'', ''pomodoro'']"

definition GTD_SYNCED_INBOX_PROCESSING_FIELD_KEYS :: "string list" where
  "GTD_SYNCED_INBOX_PROCESSING_FIELD_KEYS = [''twoMinuteEnabled'', ''twoMinuteFirst'', ''projectFirst'', ''contextStepEnabled'',
     ''scheduleEnabled'', ''referenceEnabled'']"

definition GTD_SYNCED_APP_SETTINGS_FIELD_KEYS :: "string list" where
  "GTD_SYNCED_APP_SETTINGS_FIELD_KEYS = [''quickAddAutoClean'', ''markdownEditorAssist'']"

definition GTD_SYNCED_FEATURE_FIELD_KEYS :: "string list" where
  "GTD_SYNCED_FEATURE_FIELD_KEYS = [''priorities'', ''timeEstimates'', ''pomodoro'', ''timeline'']"

text \<open>The defined ones among the named properties of an object.\<close>

definition picked :: "js \<Rightarrow> string list \<Rightarrow> (string \<times> js) list" where
  "picked v ks = filter (\<lambda>kx. snd kx \<noteq> JUndef) (map (\<lambda>k. (k, get v k)) ks)"

definition entry_if_any :: "string \<Rightarrow> (string \<times> js) list \<Rightarrow> (string \<times> js) list" where
  "entry_if_any k kvs = (if kvs = [] then [] else [(k, JObj kvs)])"

definition getGtdSyncSnapshot :: "js \<Rightarrow> js" where
  "getGtdSyncSnapshot s =
     (let gtd = picked (get s ''gtd'') GTD_SYNCED_FIELD_KEYS
            @ entry_if_any ''inboxProcessing'' (picked (get (get s ''gtd'') ''inboxProcessing'') GTD_SYNCED_INBOX_PROCESSING_FIELD_KEYS)
      in JObj (entry_if_any ''gtd'' gtd @ picked s GTD_SYNCED_APP_SETTINGS_FIELD_KEYS
            @ entry_if_any ''features'' (picked (get s ''features'') GTD_SYNCED_FEATURE_FIELD_KEYS)))"

lemma get_picked: "distinct ks \<Longrightarrow> map_of (picked v ks) k = (if k \<in> set ks \<and> get v k \<noteq> JUndef then Some (get v k) else None)"
  by (induction ks) (auto simp: picked_def map_of_eq_None_iff)

lemma keys_picked: "map fst (picked v ks) = filter (\<lambda>k. get v k \<noteq> JUndef) ks"
  by (induction ks) (auto simp: picked_def)

end
