(* ===== verification/Merge_Settings.thy ===== *)
theory Merge_Settings
  imports Saved_Filters Settings_Options
begin

text \<open>
  The merge of the settings (\<^verbatim>\<open>packages/core/src/sync-merge-settings.ts\<close>): groups of settings with a
  timestamp and an opt-out each, merged field by field, then sanitised against the local values. The deep
  copies of the code are the identity on values; a spread of a value that is not an object is the
  empty object.
\<close>

section \<open>Times\<close>

definition parseSyncTimestamp :: "host \<Rightarrow> js \<Rightarrow> int option" where
  "parseSyncTimestamp h v = (if truthy v then date_parse h (js_string v) else None)"

definition isIncomingNewer :: "host \<Rightarrow> js \<Rightarrow> js \<Rightarrow> bool" where
  "isIncomingNewer h localAt incomingAt =
     (case parseSyncTimestamp h incomingAt of
        None \<Rightarrow> False
      | Some incomingTime \<Rightarrow> (case parseSyncTimestamp h localAt of None \<Rightarrow> True | Some localTime \<Rightarrow> localTime < incomingTime))"

section \<open>Saved filters\<close>

definition getSavedFilterOperationTime :: "host \<Rightarrow> js \<Rightarrow> int option" where
  "getSavedFilterOperationTime h f =
     (case (parseSyncTimestamp h (get f ''updatedAt''), parseSyncTimestamp h (get f ''deletedAt'')) of
        (updatedAt, None) \<Rightarrow> updatedAt
      | (None, Some deletedAt) \<Rightarrow> Some deletedAt
      | (Some updatedAt, Some deletedAt) \<Rightarrow> Some (max updatedAt deletedAt))"

definition chooseDeletedSavedFilter :: "js \<Rightarrow> js \<Rightarrow> side" where
  "chooseDeletedSavedFilter l i =
     (if deleted l \<and> \<not> deleted i then LocalSide
      else if deleted i \<and> \<not> deleted l then IncomingSide
      else chooseDeterministicWinner l i)"

definition chooseSavedFilter :: "host \<Rightarrow> js \<Rightarrow> js \<Rightarrow> bool \<Rightarrow> side" where
  "chooseSavedFilter h l i incomingWins =
     (if deleted l \<noteq> deleted i then
        (case (getSavedFilterOperationTime h l, getSavedFilterOperationTime h i) of
           (Some localTime, Some incomingTime) \<Rightarrow>
             (if \<bar>incomingTime - localTime\<bar> \<le> DELETE_VS_LIVE_AMBIGUOUS_WINDOW_MS then chooseDeletedSavedFilter l i
              else if 0 < incomingTime - localTime then IncomingSide else LocalSide)
         | _ \<Rightarrow> chooseDeletedSavedFilter l i)
      else
        (case (parseSyncTimestamp h (get l ''updatedAt''), parseSyncTimestamp h (get i ''updatedAt'')) of
           (None, Some _) \<Rightarrow> IncomingSide
         | (Some _, None) \<Rightarrow> LocalSide
         | (Some localAt, Some incomingAt) \<Rightarrow>
             (if localAt < incomingAt then IncomingSide else if incomingAt < localAt then LocalSide
              else chooseDeterministicWinner l i)
         | (None, None) \<Rightarrow> if incomingWins then IncomingSide else LocalSide))"

definition mergeSavedFiltersById :: "host \<Rightarrow> js \<Rightarrow> js \<Rightarrow> bool \<Rightarrow> js list" where
  "mergeSavedFiltersById h localValue incomingValue incomingWins =
     (let localFilters = normalizeSavedFilters h localValue;
          incomingFilters = normalizeSavedFilters h incomingValue;
          kept = map (\<lambda>l. case map_of (id_map incomingFilters) (get l ''id'') of
                            Some i \<Rightarrow> item_of (chooseSavedFilter h l i incomingWins) l i
                          | None \<Rightarrow> l) localFilters;
          added = filter (\<lambda>i. get i ''id'' \<notin> set (ids localFilters)) incomingFilters
      in normalizeSavedFilters h (JArr (kept @ added)))"

section \<open>AI settings\<close>

definition sanitizeSpeechForSync :: "js \<Rightarrow> js \<Rightarrow> js" where
  "sanitizeSpeechForSync speech localSpeech =
     (let keep = truthy (get localSpeech ''offlineModelPath'') \<and> get speech ''provider'' = get localSpeech ''provider''
            \<and> get speech ''model'' = get localSpeech ''model''
      in put (spread speech) ''offlineModelPath'' (if keep then get localSpeech ''offlineModelPath'' else JUndef))"

definition sanitizeAiForSync :: "js \<Rightarrow> js \<Rightarrow> js" where
  "sanitizeAiForSync ai localAi =
     (if \<not> truthy ai then ai
      else let sanitized = put (spread ai) ''apiKey'' JUndef
           in if truthy (get sanitized ''speechToText'')
              then put sanitized ''speechToText'' (sanitizeSpeechForSync (get sanitized ''speechToText'') (get localAi ''speechToText''))
              else sanitized)"

text \<open>A field that is set but not acceptable takes the local value.\<close>

definition fix_field :: "js \<Rightarrow> string \<Rightarrow> (js \<Rightarrow> bool) \<Rightarrow> js \<Rightarrow> js" where
  "fix_field fallback k acceptable next =
     (if get next k \<noteq> JUndef \<and> \<not> acceptable (get next k) then put next k (get fallback k) else next)"

definition is_bool :: "js \<Rightarrow> bool" where
  "is_bool v = (case v of JBool _ \<Rightarrow> True | _ \<Rightarrow> False)"

definition non_negative :: "js \<Rightarrow> bool" where
  "non_negative v = (case v of JNum q \<Rightarrow> 0 \<le> q | _ \<Rightarrow> False)"

definition supported_timeout :: "js \<Rightarrow> bool" where
  "supported_timeout v = (case v of JNum q \<Rightarrow> q \<in> set AI_REQUEST_TIMEOUT_OPTIONS | _ \<Rightarrow> False)"

definition fix_timeout :: "js \<Rightarrow> js \<Rightarrow> js" where
  "fix_timeout fallback next =
     (let given = get next ''requestTimeoutSeconds''; alternative = get fallback ''requestTimeoutSeconds''
      in if given = JUndef then (if supported_timeout alternative then put next ''requestTimeoutSeconds'' alternative else next)
         else if supported_timeout given then next
         else if supported_timeout alternative then put next ''requestTimeoutSeconds'' alternative
         else del next ''requestTimeoutSeconds'')"

definition fix_speech :: "js \<Rightarrow> js \<Rightarrow> js" where
  "fix_speech speechFallback speech =
     fix_field speechFallback ''fieldStrategy'' (one_of STT_FIELD_STRATEGY_VALUES)
       (fix_field speechFallback ''mode'' (one_of STT_MODE_VALUES)
         (fix_field speechFallback ''language'' isNonEmptyString
           (fix_field speechFallback ''model'' isNonEmptyString
             (fix_field speechFallback ''provider'' (one_of STT_PROVIDER_VALUES)
               (fix_field speechFallback ''enabled'' is_bool speech)))))"

definition or_undef :: "js \<Rightarrow> js" where
  "or_undef v = (if truthy v then v else JUndef)"

definition sanitizeAiSettings :: "js \<Rightarrow> js \<Rightarrow> js" where
  "sanitizeAiSettings v fallback =
     (if \<not> isObjectRecord v then (if truthy fallback then sanitizeAiForSync fallback fallback else JUndef)
      else
        let next = fix_timeout fallback
              (fix_field fallback ''copilotModel'' isNonEmptyString
                (fix_field fallback ''thinkingBudget'' non_negative
                  (fix_field fallback ''reasoningEffort'' (one_of AI_REASONING_EFFORT_VALUES)
                    (fix_field fallback ''openAIExtraBodyParams'' isObjectRecord
                      (fix_field fallback ''model'' isNonEmptyString
                        (fix_field fallback ''baseUrl'' isNonEmptyString
                          (fix_field fallback ''provider'' (one_of AI_PROVIDER_VALUES)
                            (fix_field fallback ''enabled'' is_bool v))))))));
            speech = get next ''speechToText'';
            fixed = (if speech \<noteq> JUndef \<and> \<not> isObjectRecord speech then put next ''speechToText'' (or_undef (get fallback ''speechToText''))
                     else if truthy speech then put next ''speechToText'' (fix_speech (get fallback ''speechToText'') speech)
                     else next)
        in sanitizeAiForSync fixed fallback)"
section \<open>Sanitising the other groups\<close>

definition some_or_fallback :: "(string \<times> js) list \<Rightarrow> js \<Rightarrow> js" where
  "some_or_fallback kvs fallback = (if kvs \<noteq> [] then JObj kvs else or_undef fallback)"

definition sanitizeSyncPreferences :: "js \<Rightarrow> js \<Rightarrow> js" where
  "sanitizeSyncPreferences v fallback =
     (if \<not> isObjectRecord v then or_undef fallback
      else some_or_fallback (filter (\<lambda>kx. is_bool (snd kx)) (picked v SETTINGS_SYNC_GROUP_KEYS)) fallback)"

definition SETTINGS_SYNC_UPDATED_AT_KEYS :: "string list" where
  "SETTINGS_SYNC_UPDATED_AT_KEYS = ''preferences'' # SETTINGS_SYNC_GROUP_KEYS"

definition sanitizeSyncPreferencesUpdatedAt :: "host \<Rightarrow> js \<Rightarrow> js \<Rightarrow> js" where
  "sanitizeSyncPreferencesUpdatedAt h v fallback =
     (if \<not> isObjectRecord v then or_undef fallback
      else some_or_fallback (filter (\<lambda>kx. isValidTimestamp h (snd kx)) (picked v SETTINGS_SYNC_UPDATED_AT_KEYS)) fallback)"

definition isValidCalendar :: "js \<Rightarrow> bool" where
  "isValidCalendar item \<longleftrightarrow> isObjectRecord item \<and> isNonEmptyString (get item ''id'') \<and> isNonEmptyString (get item ''name'')
     \<and> isNonEmptyString (get item ''url'') \<and> is_bool (get item ''enabled'')"

definition isLocalCalendarSource :: "js \<Rightarrow> bool" where
  "isLocalCalendarSource item =
     (let url = lower (trim_str (the_str (get item ''url''))) in starts_with url ''file://'' \<or> starts_with url ''content://'')"

definition sanitizeCalendar :: "js \<Rightarrow> js" where
  "sanitizeCalendar item =
     (let color = normalizeExternalCalendarColor (get item ''color'')
      in JObj ([(''id'', JStr (trim_str (the_str (get item ''id'')))), (''name'', JStr (trim_str (the_str (get item ''name'')))),
          (''url'', JStr (trim_str (the_str (get item ''url'')))), (''enabled'', get item ''enabled'')]
        @ (if truthy color then [(''color'', color)] else [])))"

text \<open>Calendars of this device survive under an id that no received calendar has.\<close>

definition keep_local_calendar :: "(js \<times> js) list \<Rightarrow> js \<Rightarrow> (js \<times> js) list" where
  "keep_local_calendar deduped item =
     (if \<not> isValidCalendar item \<or> \<not> isLocalCalendarSource item then deduped
      else let localSource = sanitizeCalendar item
           in if map_of deduped (get localSource ''id'') = None then deduped @ [(get localSource ''id'', localSource)] else deduped)"

definition sanitizeExternalCalendars :: "js \<Rightarrow> js \<Rightarrow> js" where
  "sanitizeExternalCalendars v fallback =
     (case v of
        JArr items \<Rightarrow>
          (let next = map sanitizeCalendar (filter (\<lambda>c. isValidCalendar c \<and> \<not> isLocalCalendarSource c) items);
               deduped = foldl keep_local_calendar (js_map (map (\<lambda>c. (get c ''id'', c)) next)) (elems fallback)
           in if items \<noteq> [] \<and> deduped = [] \<and> truthy fallback then fallback else JArr (map snd deduped))
      | _ \<Rightarrow> or_undef fallback)"

definition fix_bool_key :: "js \<Rightarrow> js \<Rightarrow> string \<Rightarrow> js" where
  "fix_bool_key fallback next k =
     (if \<not> has_own next k \<or> is_bool (get next k) then next
      else if is_bool (get fallback k) then put next k (get fallback k) else del next k)"

definition sanitizeBooleanRecord :: "js \<Rightarrow> js \<Rightarrow> string list \<Rightarrow> js" where
  "sanitizeBooleanRecord v fallback booleanKeys =
     (if v = JUndef then JUndef
      else if \<not> isObjectRecord v then (if isObjectRecord fallback then fallback else JUndef)
      else foldl (fix_bool_key (if isObjectRecord fallback then fallback else JObj [])) v booleanKeys)"

section \<open>Sanitising the appearance\<close>

definition overlay :: "js \<Rightarrow> js \<Rightarrow> js" where
  "overlay base over = puts (spread base) (props over)"

definition fix_appearance :: "js \<Rightarrow> string \<Rightarrow> (js \<Rightarrow> bool) \<Rightarrow> bool \<Rightarrow> js \<times> bool \<Rightarrow> js \<times> bool" where
  "fix_appearance localAppearance k acceptable dropUndefined state =
     (let (appearance, sanitized) = state
      in if get appearance k \<noteq> JUndef \<and> \<not> acceptable (get appearance k)
         then let next = put (overlay (or_else localAppearance (JObj [])) appearance) k (get localAppearance k)
              in (if dropUndefined \<and> get next k = JUndef then del next k else next, True)
         else state)"

definition sanitize_appearance :: "js \<Rightarrow> js \<Rightarrow> js" where
  "sanitize_appearance next localSettings =
     (let appearance = get next ''appearance''; localAppearance = get localSettings ''appearance''
      in if appearance \<noteq> JUndef \<and> \<not> isObjectRecord appearance then put next ''appearance'' (or_undef localAppearance)
         else if \<not> truthy appearance then next
         else
           let (fixed, sanitized) =
                 fix_appearance localAppearance ''mobileQuickAccessView'' (one_of SETTINGS_MOBILE_QUICK_ACCESS_VIEW_VALUES) True
                   (fix_appearance localAppearance ''showFutureStarts'' is_bool True
                     (fix_appearance localAppearance ''textSize'' (one_of SETTINGS_TEXT_SIZE_VALUES) False
                       (fix_appearance localAppearance ''density'' (one_of SETTINGS_DENSITY_VALUES) False (appearance, False))))
           in put next ''appearance''
                (if sanitized \<and> list_all (\<lambda>kx. snd kx = JUndef) (props fixed) \<and> keys (or_else localAppearance (JObj [])) = []
                 then JUndef else fixed))"

section \<open>Sanitising the GTD settings\<close>

definition restoreGtdField :: "js \<Rightarrow> string \<Rightarrow> js \<Rightarrow> js" where
  "restoreGtdField localGtd k gtd = (if get localGtd k = JUndef then del gtd k else put gtd k (get localGtd k))"

definition fix_gtd :: "js \<Rightarrow> string \<Rightarrow> (js \<Rightarrow> bool) \<Rightarrow> js \<Rightarrow> js" where
  "fix_gtd localGtd k acceptable gtd =
     (if get gtd k \<noteq> JUndef \<and> \<not> acceptable (get gtd k) then restoreGtdField localGtd k gtd else gtd)"

definition fix_presets :: "js \<Rightarrow> js \<Rightarrow> js" where
  "fix_presets localGtd gtd =
     (case get gtd ''timeEstimatePresets'' of
        JUndef \<Rightarrow> gtd
      | JArr rawPresets \<Rightarrow>
          (let stringPresets = filter (\<lambda>v. is_str v \<and> the_str v \<noteq> []) rawPresets
           in if stringPresets = [] \<and> rawPresets \<noteq> [] then restoreGtdField localGtd ''timeEstimatePresets'' gtd
              else put gtd ''timeEstimatePresets'' (JArr stringPresets))
      | _ \<Rightarrow> restoreGtdField localGtd ''timeEstimatePresets'' gtd)"

definition fix_record :: "js \<Rightarrow> string \<Rightarrow> string list \<Rightarrow> (js \<Rightarrow> js) \<Rightarrow> js \<Rightarrow> js" where
  "fix_record localGtd k booleanKeys finish gtd =
     (if get gtd k = JUndef then gtd
      else let sanitized = sanitizeBooleanRecord (get gtd k) (get localGtd k) booleanKeys
           in if truthy sanitized then put gtd k (finish sanitized) else restoreGtdField localGtd k gtd)"

definition fix_inbox_mode :: "js \<Rightarrow> js \<Rightarrow> js" where
  "fix_inbox_mode localGtd inbox =
     (let mode = get inbox ''defaultMode''; fallbackMode = get (get localGtd ''inboxProcessing'') ''defaultMode''
      in if mode \<noteq> JUndef \<and> \<not> one_of [''guided'', ''quick''] mode
         then (if truthy fallbackMode then put inbox ''defaultMode'' fallbackMode else del inbox ''defaultMode'')
         else inbox)"

definition fix_duration :: "js \<Rightarrow> js \<Rightarrow> string \<Rightarrow> js" where
  "fix_duration fallbackDurations durations k =
     (case get durations k of
        JNum q \<Rightarrow> put durations k (JNum (of_int (max 1 (min 180 (round_half_up q)))))
      | _ \<Rightarrow> if get fallbackDurations k \<noteq> JUndef then put durations k (get fallbackDurations k) else del durations k)"

definition fix_durations :: "js \<Rightarrow> js \<Rightarrow> js" where
  "fix_durations localGtd pomodoro =
     (let rawDurations = get pomodoro ''customDurations'';
          fallbackDurations = get (get localGtd ''pomodoro'') ''customDurations''
      in if rawDurations = JUndef then pomodoro
         else if \<not> isObjectRecord rawDurations
         then (if truthy fallbackDurations then put pomodoro ''customDurations'' fallbackDurations else del pomodoro ''customDurations'')
         else put pomodoro ''customDurations'' (foldl (fix_duration fallbackDurations) rawDurations [''focusMinutes'', ''breakMinutes'']))"

definition fix_focus_limit :: "js \<Rightarrow> js \<Rightarrow> js" where
  "fix_focus_limit localGtd gtd =
     (case get gtd ''focusTaskLimit'' of
        JUndef \<Rightarrow> gtd
      | JNum q \<Rightarrow> if q < of_int MIN_FOCUS_TASK_LIMIT \<or> of_int MAX_FOCUS_TASK_LIMIT < q then restoreGtdField localGtd ''focusTaskLimit'' gtd
                  else put gtd ''focusTaskLimit'' (normalizeFocusTaskLimit (JNum q))
      | _ \<Rightarrow> restoreGtdField localGtd ''focusTaskLimit'' gtd)"

definition drop_unless :: "string \<Rightarrow> (js \<Rightarrow> bool) \<Rightarrow> js \<Rightarrow> js" where
  "drop_unless k acceptable v = (if has_own v k \<and> \<not> acceptable (get v k) then del v k else v)"

definition is_number :: "js \<Rightarrow> bool" where
  "is_number v = (case v of JNum _ \<Rightarrow> True | JNaN \<Rightarrow> True | JInf _ \<Rightarrow> True | _ \<Rightarrow> False)"

text \<open>A structural guard only: keys and field ids an older client does not know pass through.\<close>

definition fix_task_editor :: "js \<Rightarrow> js \<Rightarrow> js" where
  "fix_task_editor localGtd gtd =
     (let rawTaskEditor = get gtd ''taskEditor''
      in if rawTaskEditor = JUndef then gtd
         else if \<not> isObjectRecord rawTaskEditor then restoreGtdField localGtd ''taskEditor'' gtd
         else put gtd ''taskEditor''
           (drop_unless ''defaultsVersion'' is_number (drop_unless ''presentation'' is_str
             (drop_unless ''sectionOpen'' isObjectRecord (drop_unless ''sections'' isObjectRecord
               (drop_unless ''hidden'' is_arr (drop_unless ''order'' is_arr rawTaskEditor)))))))"

definition null_or_text :: "js \<Rightarrow> bool" where
  "null_or_text v \<longleftrightarrow> v = JNull \<or> isNonEmptyString v"

definition sanitized_gtd_scalars :: "js \<Rightarrow> js \<Rightarrow> js" where
  "sanitized_gtd_scalars localGtd gtd =
     fix_gtd localGtd ''naturalLanguageDates'' is_bool
       (fix_gtd localGtd ''saveAudioAttachments'' is_bool
         (fix_gtd localGtd ''defaultCaptureMethod'' (one_of [''text'', ''audio''])
           (fix_gtd localGtd ''autoArchiveDays'' non_negative (fix_presets localGtd gtd))))"

definition sanitized_gtd_records :: "js \<Rightarrow> js \<Rightarrow> js" where
  "sanitized_gtd_records localGtd gtd =
     fix_record localGtd ''pomodoro'' [''linkTask'', ''autoStartBreaks'', ''autoStartFocus'', ''completionAlert''] (fix_durations localGtd)
       (fix_record localGtd ''dailyReview'' [''includeFocusStep''] id
         (fix_record localGtd ''weeklyReview'' [''includeContextStep''] id
           (fix_record localGtd ''inboxProcessing'' GTD_SYNCED_INBOX_PROCESSING_FIELD_KEYS (fix_inbox_mode localGtd) gtd)))"

definition sanitized_gtd_modes :: "js \<Rightarrow> js \<Rightarrow> js" where
  "sanitized_gtd_modes localGtd gtd =
     fix_gtd localGtd ''defaultProjectFlowMode'' (one_of SETTINGS_DEFAULT_PROJECT_FLOW_MODE_VALUES)
       (fix_task_editor localGtd
         (fix_gtd localGtd ''defaultAreaId'' null_or_text
           (fix_gtd localGtd ''defaultAreaMode'' (one_of SETTINGS_DEFAULT_TASK_AREA_MODE_VALUES)
             (fix_gtd localGtd ''focusGroupBy'' (one_of SETTINGS_FOCUS_GROUP_BY_VALUES) (fix_focus_limit localGtd gtd)))))"

definition sanitize_gtd :: "js \<Rightarrow> js \<Rightarrow> js" where
  "sanitize_gtd next localSettings =
     (let gtd = get next ''gtd''; localGtd = get localSettings ''gtd''
      in if gtd \<noteq> JUndef \<and> \<not> isObjectRecord gtd then put next ''gtd'' (or_undef localGtd)
         else if \<not> truthy gtd then next
         else put next ''gtd'' (sanitized_gtd_modes localGtd (sanitized_gtd_records localGtd (sanitized_gtd_scalars localGtd gtd))))"

section \<open>Sanitising the merged settings\<close>

definition fix_flag :: "js \<Rightarrow> js \<Rightarrow> string \<Rightarrow> js" where
  "fix_flag fallback next k =
     (if get next k = JUndef \<or> is_bool (get next k) then next
      else if is_bool (get fallback k) then put next k (get fallback k) else del next k)"

definition sanitize_features :: "js \<Rightarrow> js \<Rightarrow> js" where
  "sanitize_features next localSettings =
     (let features = get next ''features''; localFeatures = get localSettings ''features''
      in if features \<noteq> JUndef \<and> \<not> isObjectRecord features then put next ''features'' (or_undef localFeatures)
         else if \<not> truthy features then next
         else put next ''features'' (foldl (fix_flag localFeatures) features GTD_SYNCED_FEATURE_FIELD_KEYS))"

definition sanitize_scalars :: "js \<Rightarrow> js \<Rightarrow> js" where
  "sanitize_scalars next localSettings =
     fix_field localSettings ''dateFormat'' is_str
       (fix_field localSettings ''keybindingStyle'' (one_of SETTINGS_KEYBINDING_STYLE_VALUES)
         (fix_field localSettings ''timeFormat'' (one_of SETTINGS_TIME_FORMAT_VALUES)
           (fix_field localSettings ''weekStart'' (one_of SETTINGS_WEEK_START_VALUES)
             (fix_field localSettings ''language'' (one_of SETTINGS_LANGUAGE_VALUES)
               (fix_field localSettings ''theme'' (one_of SETTINGS_THEME_VALUES) next)))))"

definition sanitize_groups :: "host \<Rightarrow> js \<Rightarrow> js \<Rightarrow> js" where
  "sanitize_groups h next localSettings =
     (let grouped = puts next
        [(''syncPreferences'', sanitizeSyncPreferences (get next ''syncPreferences'') (get localSettings ''syncPreferences'')),
         (''syncPreferencesUpdatedAt'', sanitizeSyncPreferencesUpdatedAt h (get next ''syncPreferencesUpdatedAt'')
            (get localSettings ''syncPreferencesUpdatedAt'')),
         (''externalCalendars'', sanitizeExternalCalendars (get next ''externalCalendars'') (get localSettings ''externalCalendars'')),
         (''ai'', sanitizeAiSettings (get next ''ai'') (get localSettings ''ai''))]
      in if get next ''savedFilters'' \<noteq> JUndef
         then put grouped ''savedFilters'' (JArr (normalizeSavedFilters h (get next ''savedFilters''))) else grouped)"

definition sanitizeMergedSettingsForSync :: "host \<Rightarrow> js \<Rightarrow> js \<Rightarrow> js" where
  "sanitizeMergedSettingsForSync h merged localSettings =
     (let shown = sanitize_appearance (sanitize_scalars merged localSettings) localSettings;
          planned = sanitize_gtd shown localSettings;
          flagged = foldl (fix_flag localSettings) planned GTD_SYNCED_APP_SETTINGS_FIELD_KEYS
      in sanitize_groups h (sanitize_features flagged localSettings) localSettings)"

section \<open>Merging groups\<close>

definition isSameValue :: "js \<Rightarrow> js \<Rightarrow> bool" where
  "isSameValue l i \<longleftrightarrow> l = i \<or> json l = json i"

definition chooseGroupFieldValue :: "js \<Rightarrow> js \<Rightarrow> bool \<Rightarrow> js" where
  "chooseGroupFieldValue l i incomingWins =
     (if i = JUndef then l else if l = JUndef then i else if isSameValue l i then l else if incomingWins then i else l)"

definition mergeRecordFields :: "js \<Rightarrow> js \<Rightarrow> bool \<Rightarrow> js" where
  "mergeRecordFields l i incomingWins =
     JObj (map (\<lambda>k. (k, chooseGroupFieldValue (get l k) (get i k) incomingWins)) (uniq (keys l @ keys i)))"

definition put_or_del :: "string \<Rightarrow> js \<Rightarrow> js \<Rightarrow> js" where
  "put_or_del k v target = (if keys v = [] then del target k else put target k v)"

definition mergeGtdSyncGroupValue :: "js \<Rightarrow> js \<Rightarrow> bool \<Rightarrow> js" where
  "mergeGtdSyncGroupValue l i incomingWins =
     (let mergedGtd = put_or_del ''inboxProcessing''
            (mergeRecordFields (get (get l ''gtd'') ''inboxProcessing'') (get (get i ''gtd'') ''inboxProcessing'') incomingWins)
            (mergeRecordFields (get l ''gtd'') (get i ''gtd'') incomingWins);
          mergedFeatures = mergeRecordFields (get l ''features'') (get i ''features'') incomingWins
      in JObj ([(''quickAddAutoClean'', chooseGroupFieldValue (get l ''quickAddAutoClean'') (get i ''quickAddAutoClean'') incomingWins),
          (''markdownEditorAssist'', chooseGroupFieldValue (get l ''markdownEditorAssist'') (get i ''markdownEditorAssist'') incomingWins)]
        @ (if keys mergedGtd \<noteq> [] then [(''gtd'', mergedGtd)] else [])
        @ (if keys mergedFeatures \<noteq> [] then [(''features'', mergedFeatures)] else [])))"

definition mergeAppearanceGroupValue :: "js \<Rightarrow> js \<Rightarrow> bool \<Rightarrow> js" where
  "mergeAppearanceGroupValue l i incomingWins =
     (let mergedAppearance = mergeRecordFields (get l ''appearance'') (get i ''appearance'') incomingWins
      in put (mergeRecordFields l i incomingWins) ''appearance'' (if keys mergedAppearance \<noteq> [] then mergedAppearance else JUndef))"

definition named_fields :: "js \<Rightarrow> string list \<Rightarrow> js" where
  "named_fields s ks = JObj (map (\<lambda>k. (k, get s k)) ks)"

text \<open>Which side a group follows, and the values it is merged from.\<close>

definition localOptedOut :: "js \<Rightarrow> string \<Rightarrow> bool" where
  "localOptedOut localSettings key \<longleftrightarrow> get (get localSettings ''syncPreferences'') key = JBool False"

definition incomingWins :: "host \<Rightarrow> js \<Rightarrow> js \<Rightarrow> string \<Rightarrow> bool" where
  "incomingWins h localSettings incomingSettings key \<longleftrightarrow>
     \<not> localOptedOut localSettings key
     \<and> isIncomingNewer h (get (get localSettings ''syncPreferencesUpdatedAt'') key) (get (get incomingSettings ''syncPreferencesUpdatedAt'') key)"

definition winnerAt :: "host \<Rightarrow> js \<Rightarrow> js \<Rightarrow> string \<Rightarrow> js" where
  "winnerAt h localSettings incomingSettings key =
     get (get (if incomingWins h localSettings incomingSettings key then incomingSettings else localSettings) ''syncPreferencesUpdatedAt'') key"

definition mergeGroup :: "host \<Rightarrow> js \<Rightarrow> js \<Rightarrow> string \<Rightarrow> js \<Rightarrow> js \<Rightarrow> (js \<Rightarrow> js \<Rightarrow> bool \<Rightarrow> js) \<Rightarrow> js" where
  "mergeGroup h localSettings incomingSettings key localValue incomingValue mergeValues =
     mergeValues localValue (if localOptedOut localSettings key then localValue else incomingValue)
       (incomingWins h localSettings incomingSettings key)"

definition apply_fields :: "string list \<Rightarrow> js \<Rightarrow> js \<Rightarrow> js" where
  "apply_fields ks v target =
     foldl (\<lambda>t k. if get v k = JUndef then del t k else put t k (get v k)) target ks"

definition apply_gtd :: "js \<Rightarrow> js \<Rightarrow> js" where
  "apply_gtd v merged =
     (let nextGtd = apply_fields GTD_SYNCED_FIELD_KEYS (get v ''gtd'') (spread (get merged ''gtd''));
          inbox = (if isObjectRecord (get nextGtd ''inboxProcessing'') then get nextGtd ''inboxProcessing'' else JObj []);
          nextInbox = apply_fields GTD_SYNCED_INBOX_PROCESSING_FIELD_KEYS (get (get v ''gtd'') ''inboxProcessing'') inbox;
          fullGtd = put_or_del ''inboxProcessing'' nextInbox nextGtd;
          withGtd = (if keys fullGtd = [] then (if truthy (get merged ''gtd'') then del merged ''gtd'' else merged)
                     else put merged ''gtd'' fullGtd);
          withFlags = apply_fields GTD_SYNCED_APP_SETTINGS_FIELD_KEYS v withGtd;
          nextFeatures = apply_fields GTD_SYNCED_FEATURE_FIELD_KEYS (get v ''features'')
            (if isObjectRecord (get withFlags ''features'') then get withFlags ''features'' else JObj [])
      in if keys nextFeatures \<noteq> [] then put withFlags ''features'' nextFeatures
         else if truthy (get withFlags ''features'') then del withFlags ''features'' else withFlags)"

definition incoming_or_local :: "js \<Rightarrow> js \<Rightarrow> bool \<Rightarrow> js" where
  "incoming_or_local l i wins = (if wins then i else l)"

definition APPEARANCE_KEYS :: "string list" where
  "APPEARANCE_KEYS = [''theme'', ''appearance'', ''keybindingStyle'']"

definition LANGUAGE_KEYS :: "string list" where
  "LANGUAGE_KEYS = [''language'', ''weekStart'', ''dateFormat'', ''timeFormat'']"

definition merged_stamps :: "host \<Rightarrow> js \<Rightarrow> js \<Rightarrow> (string \<times> js) list" where
  "merged_stamps h localSettings incomingSettings =
     (let localAt = get (get localSettings ''syncPreferencesUpdatedAt'') ''preferences'';
          incomingAt = get (get incomingSettings ''syncPreferencesUpdatedAt'') ''preferences''
      in filter (\<lambda>kx. truthy (snd kx))
           ((''preferences'', if isIncomingNewer h localAt incomingAt then incomingAt else localAt)
            # map (\<lambda>k. (k, winnerAt h localSettings incomingSettings k))
                [''appearance'', ''language'', ''gtd'', ''externalCalendars'', ''savedFilters'', ''ai'']))"

definition merged_groups :: "host \<Rightarrow> js \<Rightarrow> js \<Rightarrow> js \<Rightarrow> js" where
  "merged_groups h localSettings incomingSettings merged =
     (let group_of = mergeGroup h localSettings incomingSettings;
          appearance = group_of ''appearance'' (named_fields localSettings APPEARANCE_KEYS) (named_fields incomingSettings APPEARANCE_KEYS)
            mergeAppearanceGroupValue;
          language = group_of ''language'' (named_fields localSettings LANGUAGE_KEYS) (named_fields incomingSettings LANGUAGE_KEYS)
            mergeRecordFields;
          gtd = group_of ''gtd'' (getGtdSyncSnapshot localSettings) (getGtdSyncSnapshot incomingSettings) mergeGtdSyncGroupValue;
          calendars = group_of ''externalCalendars'' (get localSettings ''externalCalendars'') (get incomingSettings ''externalCalendars'')
            incoming_or_local;
          filters = group_of ''savedFilters'' (get localSettings ''savedFilters'') (get incomingSettings ''savedFilters'')
            (\<lambda>l i wins. JArr (mergeSavedFiltersById h l i wins));
          ai = group_of ''ai'' (get localSettings ''ai'') (get incomingSettings ''ai'') chooseGroupFieldValue;
          shown = puts merged (map (\<lambda>k. (k, get appearance k)) APPEARANCE_KEYS @ map (\<lambda>k. (k, get language k)) LANGUAGE_KEYS)
      in puts (apply_gtd gtd shown)
           [(''externalCalendars'', calendars), (''savedFilters'', JArr (normalizeSavedFilters h filters)),
            (''ai'', sanitizeAiForSync ai (get localSettings ''ai''))])"

definition mergeSettingsForSync :: "host \<Rightarrow> js \<Rightarrow> js \<Rightarrow> js" where
  "mergeSettingsForSync h localSettings incomingSettings =
     (let localAt = get (get localSettings ''syncPreferencesUpdatedAt'') ''preferences'';
          incomingAt = get (get incomingSettings ''syncPreferencesUpdatedAt'') ''preferences'';
          mergedPrefs = (if isIncomingNewer h localAt incomingAt then coalesce (get incomingSettings ''syncPreferences'') (JObj [])
                         else coalesce (get localSettings ''syncPreferences'') (JObj []));
          grouped = merged_groups h localSettings incomingSettings (put (spread localSettings) ''syncPreferences'' mergedPrefs);
          stamps = merged_stamps h localSettings incomingSettings
      in sanitizeMergedSettingsForSync h
           (put grouped ''syncPreferencesUpdatedAt'' (if stamps \<noteq> [] then JObj stamps else get grouped ''syncPreferencesUpdatedAt''))
           localSettings)"

section \<open>What the merge guarantees\<close>

lemma get_falsy: "\<not> truthy v \<Longrightarrow> get v k = JUndef"
  by (cases v) (auto simp: get_def)

lemma get_spread [simp]: "get (spread v) k = get v k"
  by (simp add: spread_def get_def)

lemma sanitizeAiForSync_secrets:
  "get (sanitizeAiForSync ai localAi) ''apiKey'' = JUndef"
  "get (get (sanitizeAiForSync ai localAi) ''speechToText'') ''offlineModelPath'' \<in> {JUndef, get (get localAi ''speechToText'') ''offlineModelPath''}"
  by (auto simp: sanitizeAiForSync_def sanitizeSpeechForSync_def Let_def get_falsy)

lemma sanitizeAiSettings_secrets:
  "get (sanitizeAiSettings v fallback) ''apiKey'' = JUndef"
  "get (get (sanitizeAiSettings v fallback) ''speechToText'') ''offlineModelPath'' \<in> {JUndef, get (get fallback ''speechToText'') ''offlineModelPath''}"
proof -
  obtain x where "sanitizeAiSettings v fallback = sanitizeAiForSync x fallback \<or> sanitizeAiSettings v fallback = JUndef"
    unfolding sanitizeAiSettings_def Let_def by metis
  then show "get (sanitizeAiSettings v fallback) ''apiKey'' = JUndef"
    "get (get (sanitizeAiSettings v fallback) ''speechToText'') ''offlineModelPath'' \<in> {JUndef, get (get fallback ''speechToText'') ''offlineModelPath''}"
    using sanitizeAiForSync_secrets [of x fallback] by (auto simp: get_falsy)
qed

lemma get_sanitized_groups:
  "get (sanitizeMergedSettingsForSync h merged l) ''ai'' = sanitizeAiSettings (get (sanitize_features (foldl (fix_flag l)
     (sanitize_gtd (sanitize_appearance (sanitize_scalars merged l) l) l) GTD_SYNCED_APP_SETTINGS_FIELD_KEYS) l) ''ai'') (get l ''ai'')"
  by (simp add: sanitizeMergedSettingsForSync_def sanitize_groups_def Let_def get_puts)

text \<open>
  Secrets and device paths do not come in through sync: whatever the two sides hold, the merged AI settings have
  no API key, and the path of an offline speech model is absent or this device's own.
\<close>

theorem merged_settings_hold_no_secrets:
  "get (get (mergeSettingsForSync h l i) ''ai'') ''apiKey'' = JUndef
   \<and> get (get (get (mergeSettingsForSync h l i) ''ai'') ''speechToText'') ''offlineModelPath''
       \<in> {JUndef, get (get (get l ''ai'') ''speechToText'') ''offlineModelPath''}"
  unfolding mergeSettingsForSync_def Let_def get_sanitized_groups
  using sanitizeAiSettings_secrets by blast

text \<open>The scalar settings: the group they follow and what they may hold.\<close>

definition scalar_settings :: "(string \<times> string \<times> (js \<Rightarrow> bool)) list" where
  "scalar_settings =
     [(''appearance'', ''theme'', one_of SETTINGS_THEME_VALUES), (''appearance'', ''keybindingStyle'', one_of SETTINGS_KEYBINDING_STYLE_VALUES),
      (''language'', ''language'', one_of SETTINGS_LANGUAGE_VALUES), (''language'', ''weekStart'', one_of SETTINGS_WEEK_START_VALUES),
      (''language'', ''timeFormat'', one_of SETTINGS_TIME_FORMAT_VALUES), (''language'', ''dateFormat'', is_str)]"

definition chosen_value :: "host \<Rightarrow> js \<Rightarrow> js \<Rightarrow> string \<Rightarrow> string \<Rightarrow> js" where
  "chosen_value h l i grp k =
     chooseGroupFieldValue (get l k) (if localOptedOut l grp then get l k else get i k) (incomingWins h l i grp)"

definition scalar_keys :: "string list" where
  "scalar_keys = [''theme'', ''keybindingStyle'', ''language'', ''weekStart'', ''timeFormat'', ''dateFormat'']"

lemma scalar_keys_plain: "k \<in> set scalar_keys \<Longrightarrow> k \<notin> set [''appearance'', ''gtd'', ''features'', ''quickAddAutoClean'', ''markdownEditorAssist'',
    ''syncPreferences'', ''syncPreferencesUpdatedAt'', ''externalCalendars'', ''ai'', ''savedFilters'']"
  by (auto simp: scalar_keys_def)

lemma get_later_sanitizers:
  assumes "k \<in> set scalar_keys"
  shows "get (sanitizeMergedSettingsForSync h m l) k = get (sanitize_scalars m l) k"
proof -
  note k = scalar_keys_plain [OF assms, simplified]
  have "get (sanitize_appearance s l) k = get s k" "get (sanitize_gtd s l) k = get s k" "get (sanitize_features s l) k = get s k"
    "get (sanitize_groups h s l) k = get s k" for s
    using k by (auto simp: sanitize_appearance_def sanitize_gtd_def sanitize_features_def sanitize_groups_def Let_def get_puts
        split: prod.split)
  moreover have "get (foldl (fix_flag l) s GTD_SYNCED_APP_SETTINGS_FIELD_KEYS) k = get s k" for s
    using k by (simp add: GTD_SYNCED_APP_SETTINGS_FIELD_KEYS_def fix_flag_def)
  ultimately show ?thesis by (simp add: sanitizeMergedSettingsForSync_def Let_def)
qed

lemma get_fix_other: "k' \<noteq> k \<Longrightarrow> get (fix_field fb k ok v) k' = get v k'"
  by (simp add: fix_field_def)

lemma get_fix_same: "get (fix_field fb k ok v) k = (if get v k \<noteq> JUndef \<and> \<not> ok (get v k) then get fb k else get v k)"
  by (simp add: fix_field_def)

lemma get_sanitize_scalars:
  assumes "(grp, k, ok) \<in> set scalar_settings"
  shows "get (sanitize_scalars m l) k = (if get m k \<noteq> JUndef \<and> \<not> ok (get m k) then get l k else get m k)"
proof -
  have "\<forall>(grp, k, ok)\<in>set scalar_settings.
      get (sanitize_scalars m l) k = (if get m k \<noteq> JUndef \<and> \<not> ok (get m k) then get l k else get m k)"
    by (simp add: scalar_settings_def sanitize_scalars_def get_fix_other get_fix_same)
  from bspec [OF this assms] show ?thesis by simp
qed

lemma get_apply_fields: "get (apply_fields ks v t) k = (if k \<in> set ks then get v k else get t k)"
  by (induction ks arbitrary: t) (auto simp: apply_fields_def)

lemma get_apply_gtd:
  assumes "k \<in> set scalar_keys" shows "get (apply_gtd v m) k = get m k"
  using scalar_keys_plain [OF assms, simplified]
  by (simp add: apply_gtd_def Let_def get_apply_fields GTD_SYNCED_APP_SETTINGS_FIELD_KEYS_def)

lemma get_JObj_map: "get (JObj (map (\<lambda>k. (k, f k)) ks)) k = (if k \<in> set ks then f k else JUndef)"
  by (induction ks) (auto simp: get_def)

lemma get_mergeRecordFields: "get (mergeRecordFields l i w) k = chooseGroupFieldValue (get l k) (get i k) w"
  by (simp add: mergeRecordFields_def get_JObj_map chooseGroupFieldValue_def)
    (metis get_not_own has_own_def)

lemma get_merged_groups:
  assumes "(grp, k, ok) \<in> set scalar_settings"
  shows "get (merged_groups h l i m) k = chosen_value h l i grp k"
proof -
  have k: "k \<in> set scalar_keys" using assms by (auto simp: scalar_settings_def scalar_keys_def)
  have n: "get (named_fields s ks) k' = (if k' \<in> set ks then get s k' else JUndef)" for s ks k'
    by (simp add: named_fields_def get_JObj_map)
  have plain: "get (merged_groups h l i m) k = get (puts m
      (map (\<lambda>k. (k, get (mergeGroup h l i ''appearance'' (named_fields l APPEARANCE_KEYS) (named_fields i APPEARANCE_KEYS) mergeAppearanceGroupValue) k)) APPEARANCE_KEYS
       @ map (\<lambda>k. (k, get (mergeGroup h l i ''language'' (named_fields l LANGUAGE_KEYS) (named_fields i LANGUAGE_KEYS) mergeRecordFields) k)) LANGUAGE_KEYS)) k"
    using scalar_keys_plain [OF k] by (simp add: merged_groups_def Let_def get_puts get_apply_gtd [OF k])
  have "\<forall>(grp, k, ok)\<in>set scalar_settings. get (puts m
      (map (\<lambda>k. (k, get (mergeGroup h l i ''appearance'' (named_fields l APPEARANCE_KEYS) (named_fields i APPEARANCE_KEYS) mergeAppearanceGroupValue) k)) APPEARANCE_KEYS
       @ map (\<lambda>k. (k, get (mergeGroup h l i ''language'' (named_fields l LANGUAGE_KEYS) (named_fields i LANGUAGE_KEYS) mergeRecordFields) k)) LANGUAGE_KEYS)) k
      = chosen_value h l i grp k"
    by (simp add: scalar_settings_def APPEARANCE_KEYS_def LANGUAGE_KEYS_def get_puts mergeGroup_def mergeAppearanceGroupValue_def
        Let_def get_mergeRecordFields n chosen_value_def)
  from bspec [OF this assms] show ?thesis unfolding plain by simp
qed

text \<open>
  C29. How a setting with a closed set of values is merged: it takes the value its group chooses between the two
  sides, when that is one of the values this client knows, and keeps the local value otherwise. So a group the
  user has opted out of keeps the local setting, a setting only one side has is not lost, and nothing a
  newer or broken client wrote gets in.
\<close>

theorem scalar_setting_choice:
  assumes "(grp, k, ok) \<in> set scalar_settings"
  shows "get (mergeSettingsForSync h l i) k =
      (let v = chosen_value h l i grp k in if v \<noteq> JUndef \<and> \<not> ok v then get l k else v)
    \<and> (localOptedOut l grp \<longrightarrow> get (mergeSettingsForSync h l i) k = get l k)
    \<and> (get l k = JUndef \<and> \<not> localOptedOut l grp \<and> ok (get i k) \<longrightarrow> get (mergeSettingsForSync h l i) k = get i k)"
proof -
  have k: "k \<in> set scalar_keys" using assms by (auto simp: scalar_settings_def scalar_keys_def)
  have main: "get (mergeSettingsForSync h l i) k =
      (let v = chosen_value h l i grp k in if v \<noteq> JUndef \<and> \<not> ok v then get l k else v)"
    using scalar_keys_plain [OF k]
    by (simp add: mergeSettingsForSync_def Let_def get_later_sanitizers [OF k] get_sanitize_scalars [OF assms]
        get_merged_groups [OF assms])
  then show ?thesis by (auto simp: Let_def chosen_value_def chooseGroupFieldValue_def)
qed

theorem scalar_setting_choice_witness:
  "get (mergeSettingsForSync host0 (JObj [(''theme'', JStr ''dark'')]) (JObj [(''theme'', JStr ''neon'')])) ''theme'' = JStr ''dark''"
proof -
  have "(''appearance'', ''theme'', one_of SETTINGS_THEME_VALUES) \<in> set scalar_settings" by (simp add: scalar_settings_def)
  from scalar_setting_choice [OF this, of host0 "JObj [(''theme'', JStr ''dark'')]" "JObj [(''theme'', JStr ''neon'')]"]
  show ?thesis
    by (auto simp: Let_def chosen_value_def chooseGroupFieldValue_def incomingWins_def isIncomingNewer_def parseSyncTimestamp_def get_falsy)
qed

end
