(* ===== verification/Merge_App_Data.thy ===== *)
theory Merge_App_Data
  imports Repair_Validation Merge_Settings
begin

text \<open>
  The merge of two documents (\<^verbatim>\<open>packages/core/src/sync.ts\<close>, lines 277 to 352 and 844 to 1195):
  both sides are normalised, every collection is merged entity by entity, attachments are merged
  inside their task or project, the settings by group (\<^verbatim>\<open>Merge_Settings\<close>), and the references
  of the result are repaired.
\<close>

section \<open>Recurrence series and cancellation\<close>

definition getRecurrenceSeriesShape :: "host \<Rightarrow> js \<Rightarrow> string option option" where
  "getRecurrenceSeriesShape h v =
     (let normalized = normalizeRecurrenceForLoad h v
      in if \<not> truthy normalized then None
         else
           let rrule = get normalized ''rrule'';
               interval = (if truthy rrule then get (parseRRuleString h (the_str rrule)) ''interval'' else JUndef)
           in Some (json (put (del (del normalized ''seriesId'') ''rrule'') ''interval'' interval)))"

definition rev_or_0 :: "entity \<Rightarrow> js" where
  "rev_or_0 e = coalesce (get e ''rev'') (JNum 0)"

definition js_max :: "js \<Rightarrow> js \<Rightarrow> js" where
  "js_max a b = (case (a, b) of (JNum x, JNum y) \<Rightarrow> JNum (max x y) | _ \<Rightarrow> JNaN)"

definition js_succ :: "js \<Rightarrow> js" where
  "js_succ v = (case v of JNum x \<Rightarrow> JNum (x + 1) | _ \<Rightarrow> JNaN)"

text \<open>Only the immediately following revision proves an edit of the known series.\<close>

definition series_edit_unproven :: "host \<Rightarrow> entity \<Rightarrow> entity \<Rightarrow> bool \<Rightarrow> entity \<Rightarrow> bool" where
  "series_edit_unproven h localTask incomingTask localIdentified winner =
     (let identifiedTask = (if localIdentified then localTask else incomingTask);
          legacyTask = (if localIdentified then incomingTask else localTask)
      in rev_or_0 legacyTask \<noteq> js_succ (rev_or_0 identifiedTask)
         \<or> truthy (get (normalizeRecurrenceForLoad h (get winner ''recurrence'')) ''seriesId''))"

definition repairTaskRecurrenceSeriesIdentity :: "host \<Rightarrow> entity \<Rightarrow> entity \<Rightarrow> entity \<Rightarrow> entity" where
  "repairTaskRecurrenceSeriesIdentity h localTask incomingTask winner =
     (let localRecurrence = normalizeRecurrenceForLoad h (get localTask ''recurrence'');
          incomingRecurrence = normalizeRecurrenceForLoad h (get incomingTask ''recurrence'');
          localSeriesId = get localRecurrence ''seriesId'';
          incomingSeriesId = get incomingRecurrence ''seriesId'';
          seriesId = coalesce localSeriesId incomingSeriesId;
          winnerRecurrence = normalizeRecurrenceForLoad h (get winner ''recurrence'')
      in if truthy localSeriesId = truthy incomingSeriesId then winner
         else if getRecurrenceSeriesShape h localRecurrence \<noteq> getRecurrenceSeriesShape h incomingRecurrence
                 \<and> series_edit_unproven h localTask incomingTask (truthy localSeriesId) winner then winner
         else if \<not> truthy seriesId \<or> \<not> truthy winnerRecurrence then winner
         else puts winner
           [(''recurrence'', normalizeRecurrenceForLoad h (put winnerRecurrence ''seriesId'' seriesId)),
            (''rev'', JNum (nextRevision (js_max (rev_or_0 localTask) (rev_or_0 incomingTask)))),
            (''revBy'', JStr SYNC_REPAIR_REV_BY)])"

definition hasSamePersistedOperationIdentity :: "entity \<Rightarrow> entity \<Rightarrow> bool" where
  "hasSamePersistedOperationIdentity left right \<longleftrightarrow>
     rev_or_0 left = rev_or_0 right
     \<and> coalesce (get left ''revBy'') (JStr '''') = coalesce (get right ''revBy'') (JStr '''')
     \<and> get left ''updatedAt'' = get right ''updatedAt''"

text \<open>The cancellation time to keep, when exactly one side of the same archiving write still has it.\<close>

definition stripped_cancellation :: "entity \<Rightarrow> entity \<Rightarrow> js option" where
  "stripped_cancellation localItem incomingItem =
     (let l = get localItem ''cancelledAt''; i = get incomingItem ''cancelledAt''; cancelledAt = or_else l i
      in if get localItem ''status'' \<noteq> JStr ''archived'' \<or> get incomingItem ''status'' \<noteq> JStr ''archived''
            \<or> \<not> hasSamePersistedOperationIdentity localItem incomingItem then None
         else if \<not> truthy cancelledAt \<or> truthy l \<and> truthy i then None
         else Some cancelledAt)"

definition preserveTaskCancellationFromStrippedPeer :: "entity \<Rightarrow> entity \<Rightarrow> entity \<Rightarrow> entity" where
  "preserveTaskCancellationFromStrippedPeer localTask incomingTask winner =
     (case stripped_cancellation localTask incomingTask of
        None \<Rightarrow> winner
      | Some cancelledAt \<Rightarrow>
          if get winner ''cancelledAt'' = cancelledAt \<and> get winner ''completedAt'' = JUndef then winner
          else puts winner [(''cancelledAt'', cancelledAt), (''completedAt'', JUndef)])"

definition preserveProjectCancellationFromStrippedPeer :: "entity \<Rightarrow> entity \<Rightarrow> entity \<Rightarrow> entity" where
  "preserveProjectCancellationFromStrippedPeer localProject incomingProject winner =
     (case stripped_cancellation localProject incomingProject of
        None \<Rightarrow> winner
      | Some cancelledAt \<Rightarrow>
          if get winner ''cancelledAt'' = cancelledAt then winner else put winner ''cancelledAt'' cancelledAt)"

section \<open>Attachments\<close>

definition normalizeMissingFileStatus :: "js \<Rightarrow> js \<Rightarrow> js" where
  "normalizeMissingFileStatus status deletedAt =
     (if truthy deletedAt then status
      else if status = JStr ''uploading'' \<or> status = JStr ''downloading'' then status
      else JStr ''missing'')"

definition hasAvailableUri :: "host \<Rightarrow> js \<Rightarrow> bool" where
  "hasAvailableUri h attachment \<longleftrightarrow>
     get attachment ''kind'' = JStr ''file'' \<and> get attachment ''localStatus'' \<noteq> JStr ''missing''
     \<and> truthy (sanitizeMergedAttachmentUri h (get attachment ''uri''))"

text \<open>An absent attachment is \<open>JUndef\<close>: every field of it reads as \<open>undefined\<close>.\<close>

definition resolveCloudKey :: "bool \<Rightarrow> js \<Rightarrow> js \<Rightarrow> js \<Rightarrow> js" where
  "resolveCloudKey preferIncomingAttachmentCloudKeys mergedAttachment localAttachment incomingAttachment =
     (if truthy (get mergedAttachment ''deletedAt'') then get mergedAttachment ''cloudKey''
      else if preferIncomingAttachmentCloudKeys \<and> truthy incomingAttachment \<and> \<not> truthy (get incomingAttachment ''deletedAt'')
      then get incomingAttachment ''cloudKey''
      else or_else (or_else (get mergedAttachment ''cloudKey'') (get localAttachment ''cloudKey''))
             (get incomingAttachment ''cloudKey''))"

definition content_rev :: "js \<Rightarrow> js" where
  "content_rev attachment = coalesce (get attachment ''contentRev'') (JNum 0)"

definition js_gt :: "js \<Rightarrow> js \<Rightarrow> bool" where
  "js_gt a b = (case (a, b) of (JNum x, JNum y) \<Rightarrow> y < x | _ \<Rightarrow> False)"

definition hash_key :: "js \<Rightarrow> js" where
  "hash_key v = (case v of JStr s \<Rightarrow> JStr (lower (trim_str s)) | _ \<Rightarrow> JUndef)"

text \<open>Which copy the content is taken from; \<open>winner\<close> is the side that won the attachment.\<close>

definition content_source :: "js \<Rightarrow> js \<Rightarrow> side \<Rightarrow> side" where
  "content_source localAttachment incomingAttachment winner =
     (if content_rev localAttachment = content_rev incomingAttachment then winner
      else if js_gt (content_rev localAttachment) (content_rev incomingAttachment) then LocalSide else IncomingSide)"

definition resolveContentIdentity :: "js \<Rightarrow> js \<Rightarrow> side \<Rightarrow> (string \<times> js) list" where
  "resolveContentIdentity localAttachment incomingAttachment winner =
     (let w = item_of winner localAttachment incomingAttachment in
      if truthy (get w ''deletedAt'') then
        [(''fileHash'', get w ''fileHash''), (''contentRev'', get w ''contentRev''), (''contentMtimeMs'', get w ''contentMtimeMs''),
         (''contentSize'', get w ''contentSize''), (''pendingContentUpload'', JUndef)]
      else
        let source = content_source localAttachment incomingAttachment winner;
            contentSource = item_of source localAttachment incomingAttachment;
            contentRev = get contentSource ''contentRev'';
            localPending = (get localAttachment ''pendingContentUpload'' = JBool True);
            localPendingCandidateWon = (localPending \<and> source = LocalSide);
            fileHash = (if localPendingCandidateWon then get localAttachment ''fileHash''
                        else or_else (or_else (get contentSource ''fileHash'') (get localAttachment ''fileHash''))
                               (get incomingAttachment ''fileHash''));
            localKey = hash_key (get localAttachment ''fileHash'');
            resolvedKey = hash_key fileHash;
            localIdentitySurvived = (coalesce contentRev (JNum 0) = content_rev localAttachment
              \<and> (truthy localKey \<and> resolvedKey = localKey
                 \<or> localPendingCandidateWon \<and> \<not> truthy localKey \<and> \<not> truthy resolvedKey));
            statSource = (if localIdentitySurvived then localAttachment else contentSource)
        in [(''fileHash'', fileHash), (''contentRev'', contentRev),
            (''contentMtimeMs'', get statSource ''contentMtimeMs''), (''contentSize'', get statSource ''contentSize''),
            (''pendingContentUpload'', if localPending \<and> localIdentitySurvived then JBool True else JUndef)])"

text \<open>The URI and local status of a file present on both sides.\<close>

definition merged_uri_status :: "host \<Rightarrow> js \<Rightarrow> js \<Rightarrow> js \<Rightarrow> js \<times> js" where
  "merged_uri_status h localAttachment incomingAttachment winner =
     (let winnerUri = sanitizeMergedAttachmentUri h (get winner ''uri'');
          localUri = sanitizeMergedAttachmentUri h (get localAttachment ''uri'');
          incomingUri = sanitizeMergedAttachmentUri h (get incomingAttachment ''uri'');
          available = (\<lambda>a uri. (or_else uri (get a ''uri''), or_else (get a ''localStatus'') (JStr ''available'')));
          (uri, localStatus) =
            (if hasAvailableUri h winner then available winner winnerUri
             else if hasAvailableUri h localAttachment then available localAttachment localUri
             else if hasAvailableUri h incomingAttachment then available incomingAttachment incomingUri
             else (or_else (or_else (or_else winnerUri localUri) incomingUri) (JStr ''''),
                   normalizeMissingFileStatus (get winner ''localStatus'') (get winner ''deletedAt'')))
      in (uri, if nullish localStatus \<and> truthy (sanitizeMergedAttachmentUri h uri) then JStr ''available'' else localStatus))"

definition merge_attachment_pair :: "host \<Rightarrow> bool \<Rightarrow> merge_conflict" where
  "merge_attachment_pair h prefer localAttachment incomingAttachment side =
     (let winner = item_of side localAttachment incomingAttachment in
      if get winner ''kind'' \<noteq> JStr ''file'' \<or> get localAttachment ''kind'' \<noteq> JStr ''file''
         \<or> get incomingAttachment ''kind'' \<noteq> JStr ''file'' then winner
      else
        let (uri, localStatus) = merged_uri_status h localAttachment incomingAttachment winner
        in puts winner ([(''cloudKey'', resolveCloudKey prefer winner localAttachment incomingAttachment)]
             @ resolveContentIdentity localAttachment incomingAttachment side
             @ [(''uri'', uri), (''localStatus'', localStatus)]))"

definition file_or_undef :: "js option \<Rightarrow> js" where
  "file_or_undef a = (case a of Some x \<Rightarrow> if get x ''kind'' = JStr ''file'' then x else JUndef | None \<Rightarrow> JUndef)"

definition finish_attachment :: "host \<Rightarrow> bool \<Rightarrow> js list \<Rightarrow> js list \<Rightarrow> js \<Rightarrow> js" where
  "finish_attachment h prefer localList incomingList attachment =
     (if get attachment ''kind'' \<noteq> JStr ''file'' then attachment
      else
        let localFile = file_or_undef (map_of (id_map localList) (get attachment ''id''));
            incomingFile = file_or_undef (map_of (id_map incomingList) (get attachment ''id''));
            safeUri = sanitizeMergedAttachmentUri h (get attachment ''uri'');
            uriAvailable = (truthy safeUri \<and> hasAvailableUri h attachment);
            deletedAt = get attachment ''deletedAt'';
            fileHash = get attachment ''fileHash'';
            localStatus = get attachment ''localStatus''
        in puts attachment
             [(''uri'', coalesce safeUri (JStr '''')),
              (''cloudKey'', resolveCloudKey prefer attachment localFile incomingFile),
              (''fileHash'',
                 if truthy deletedAt \<or> get attachment ''pendingContentUpload'' = JBool True then fileHash
                 else or_else (or_else fileHash (get localFile ''fileHash'')) (get incomingFile ''fileHash'')),
              (''localStatus'',
                 if truthy deletedAt then localStatus
                 else if uriAvailable then coalesce localStatus (JStr ''available'')
                 else normalizeMissingFileStatus localStatus deletedAt)])"

definition mergeAttachments :: "host \<Rightarrow> bool \<Rightarrow> string \<Rightarrow> js \<Rightarrow> js \<Rightarrow> js" where
  "mergeAttachments h prefer nowIso localAttachments incomingAttachments =
     (let hadExplicitAttachments = (localAttachments \<noteq> JUndef \<or> incomingAttachments \<noteq> JUndef);
          localList = elems localAttachments;
          incomingList = elems incomingAttachments;
          merged = fst (mergeEntitiesWithStats h localList incomingList (Some (merge_attachment_pair h prefer)) None (JStr nowIso));
          normalized = map (finish_attachment h prefer localList incomingList) merged
      in if localList = [] \<and> incomingList = [] then (if hadExplicitAttachments then JArr [] else JUndef)
         else if normalized \<noteq> [] then JArr normalized
         else if hadExplicitAttachments then JArr [] else JUndef)"

section \<open>Tasks and projects\<close>

definition merged_attachments :: "host \<Rightarrow> bool \<Rightarrow> string \<Rightarrow> entity \<Rightarrow> entity \<Rightarrow> entity \<Rightarrow> js" where
  "merged_attachments h prefer nowIso localItem incomingItem winner =
     (if truthy (get winner ''purgedAt'') then compactAttachmentCleanupMetadata (get localItem ''attachments'')
      else
        let attachments = (\<lambda>e. if truthy (get e ''purgedAt'') then JUndef else get e ''attachments'')
        in mergeAttachments h prefer nowIso (attachments localItem) (attachments incomingItem))"

definition withMergedAttachments :: "entity \<Rightarrow> js \<Rightarrow> entity" where
  "withMergedAttachments winner attachments =
     (if get winner ''attachments'' = attachments then winner else put winner ''attachments'' attachments)"

definition other_side :: "side \<Rightarrow> side" where
  "other_side w = (case w of LocalSide \<Rightarrow> IncomingSide | IncomingSide \<Rightarrow> LocalSide)"

definition merge_task_pair :: "host \<Rightarrow> bool \<Rightarrow> string \<Rightarrow> merge_conflict" where
  "merge_task_pair h prefer nowIso localTask incomingTask side =
     (let winner = item_of side localTask incomingTask;
          otherTask = item_of (other_side side) localTask incomingTask;
          attachments = merged_attachments h prefer nowIso localTask incomingTask winner;
          winnerWithForwardCompatibleViewSections =
            (if has_own winner ''viewSectionIds'' then winner
             else if has_own otherTask ''viewSectionIds'' then put winner ''viewSectionIds'' (get otherTask ''viewSectionIds'')
             else winner)
      in repairTaskRecurrenceSeriesIdentity h localTask incomingTask
           (preserveTaskCancellationFromStrippedPeer localTask incomingTask
             (withMergedAttachments winnerWithForwardCompatibleViewSections attachments)))"

definition merge_project_pair :: "host \<Rightarrow> bool \<Rightarrow> string \<Rightarrow> merge_conflict" where
  "merge_project_pair h prefer nowIso localProject incomingProject side =
     (let winner = item_of side localProject incomingProject
      in preserveProjectCancellationFromStrippedPeer localProject incomingProject
           (withMergedAttachments winner (merged_attachments h prefer nowIso localProject incomingProject winner)))"

section \<open>Documents\<close>

record MergeAppDataOptions =
  nowIso_option :: js
  preferIncomingAttachmentCloudKeys :: bool

record MergeStats =
  task_stats :: EntityMergeStats
  project_stats :: EntityMergeStats
  section_stats :: EntityMergeStats
  area_stats :: EntityMergeStats
  people_stats :: EntityMergeStats
  tombstoneRepairs :: nat

record MergeResult =
  merged_data :: AppData
  merged_stats :: MergeStats
  clockSkewWarning :: "(int \<times> ClockSkewDirection) option"

definition merge_now :: "host \<Rightarrow> MergeAppDataOptions \<Rightarrow> string" where
  "merge_now h options =
     (case nowIso_option options of
        JStr s \<Rightarrow> if isValidTimestamp h (JStr s) then s else iso_string (date_now h)
      | _ \<Rightarrow> iso_string (date_now h))"

definition compacted_sections :: "AppData \<Rightarrow> entity list" where
  "compacted_sections d = compactSectionsForPurgedProjects (sections d) (projects d) True"

definition normalizeForMerge :: "host \<Rightarrow> string \<Rightarrow> bool \<Rightarrow> AppData \<Rightarrow> AppData" where
  "normalizeForMerge h nowIso preserve d =
     d\<lparr>tasks := map (\<lambda>t. normalizeRevisionMetadata (normalizeTaskForSyncMerge h t nowIso preserve)) (tasks d),
       projects := map (\<lambda>p. normalizeRevisionMetadata (normalizeProjectForSyncMerge h p preserve)) (projects d),
       sections := map (\<lambda>s. normalizeRevisionMetadata (normalizeSectionForSyncMerge s)) (compacted_sections d),
       areas := map (\<lambda>a. normalizeRevisionMetadata (normalizeAreaForSyncMerge a nowIso)) (areas d),
       people := map (\<lambda>p. normalizeRevisionMetadata (normalizePersonForSyncMerge p nowIso)) (people d)\<rparr>"

text \<open>The tombstones of a side whose revision the compaction raised.\<close>

definition count_repairs :: "host \<Rightarrow> string \<Rightarrow> bool \<Rightarrow> AppData \<Rightarrow> nat" where
  "count_repairs h nowIso preserve d =
     length (filter (\<lambda>(before, after). get after ''rev'' \<noteq> get before ''rev'') (zip (sections d) (compacted_sections d)))
   + length (filter (\<lambda>t. truthy (get t ''purgedAt'')
       \<and> get (normalizeTaskForSyncMerge h t nowIso preserve) ''rev'' \<noteq> get t ''rev'') (tasks d))
   + length (filter (\<lambda>p. truthy (get p ''purgedAt'')
       \<and> get (normalizeProjectForSyncMerge h p preserve) ''rev'' \<noteq> get p ''rev'') (projects d))"

definition mergeAppDataWithStats :: "host \<Rightarrow> AppData \<Rightarrow> AppData \<Rightarrow> MergeAppDataOptions \<Rightarrow> MergeResult" where
  "mergeAppDataWithStats h local incoming options =
     (let nowIso = merge_now h options;
          prefer = preferIncomingAttachmentCloudKeys options;
          localNormalized = normalizeForMerge h nowIso True local;
          incomingNormalized = normalizeForMerge h nowIso False incoming;
          tasksResult = mergeEntitiesWithStats h (tasks localNormalized) (tasks incomingNormalized)
            (Some (merge_task_pair h prefer nowIso)) (Some (normalizeTaskForContentComparison h)) (JStr nowIso);
          projectsResult = mergeEntitiesWithStats h (projects localNormalized) (projects incomingNormalized)
            (Some (merge_project_pair h prefer nowIso)) (Some (normalizeProjectForContentComparison h)) (JStr nowIso);
          sectionsResult = mergeEntitiesWithStats h (sections localNormalized) (sections incomingNormalized)
            None (Some normalizeSectionForContentComparison) (JStr nowIso);
          areasResult = mergeAreas h (areas localNormalized) (areas incomingNormalized) (JStr nowIso);
          peopleResult = mergeEntitiesWithStats h (people localNormalized) (people incomingNormalized)
            None (Some normalizePersonForContentComparison) (JStr nowIso);
          stats = \<lparr>task_stats = snd tasksResult, project_stats = snd projectsResult, section_stats = snd sectionsResult,
            area_stats = snd areasResult, people_stats = snd peopleResult,
            tombstoneRepairs = count_repairs h nowIso True local + count_repairs h nowIso False incoming\<rparr>;
          repaired = repairMergedSyncReferences h
            \<lparr>tasks = fst tasksResult, projects = fst projectsResult, sections = fst sectionsResult, areas = fst areasResult,
              people = fst peopleResult, settings = mergeSettingsForSync h (settings localNormalized) (settings incomingNormalized)\<rparr>
            nowIso;
          merged = repaired\<lparr>sections := compactSectionsForPurgedProjects (sections repaired) (projects repaired) False\<rparr>
      in \<lparr>merged_data = merged, merged_stats = stats,
          clockSkewWarning = getClockSkewWarning [task_stats stats, project_stats stats, section_stats stats, area_stats stats, people_stats stats]\<rparr>)"

definition mergeAppData :: "host \<Rightarrow> AppData \<Rightarrow> AppData \<Rightarrow> MergeAppDataOptions \<Rightarrow> AppData" where
  "mergeAppData h local incoming options =
     merged_data (mergeAppDataWithStats h local incoming options)"

section \<open>Cycle without an incoming document, history\<close>

definition local_only_stats :: "entity list \<Rightarrow> EntityMergeStats" where
  "local_only_stats items =
     (createEmptyEntityStats (length items) 0)
       \<lparr>mergedTotal := length items, localOnly := length items, resolvedUsingLocal := length items\<rparr>"

definition createLocalOnlyMergeStats :: "AppData \<Rightarrow> MergeStats" where
  "createLocalOnlyMergeStats d =
     \<lparr>task_stats = local_only_stats (tasks d), project_stats = local_only_stats (projects d),
      section_stats = local_only_stats (sections d), area_stats = local_only_stats (areas d),
      people_stats = local_only_stats (people d), tombstoneRepairs = 0\<rparr>"

definition appendSyncHistory :: "js \<Rightarrow> js \<Rightarrow> nat \<Rightarrow> js list" where
  "appendSyncHistory s entry limit =
     take (max 1 limit)
       (filter (\<lambda>item. truthy item \<and> is_str (get item ''at'')) (entry # elems (get s ''lastSyncHistory'')))"

end
