(* ===== verification/Merge_Document.thy ===== *)
theory Merge_Document
  imports Merge_App_Data
begin

text \<open>
  The merged document: its collections keep the contract the repair and the validation rest on,
  through normalisation, merge, repair and the final compaction.
\<close>

section \<open>The mergers keep ids and deletion marks\<close>

definition same_marks :: "entity \<Rightarrow> entity \<Rightarrow> bool" where
  "same_marks e e' \<longleftrightarrow> (is_obj e \<longrightarrow> is_obj e')
     \<and> get e' ''id'' = get e ''id'' \<and> get e' ''deletedAt'' = get e ''deletedAt'' \<and> get e' ''purgedAt'' = get e ''purgedAt''"

lemma same_marks_refl [simp]: "same_marks e e"
  by (simp add: same_marks_def)

lemma same_marks_trans: "same_marks e f \<Longrightarrow> same_marks f g \<Longrightarrow> same_marks e g"
  by (simp add: same_marks_def)

lemma same_marks_put: "k \<notin> {''id'', ''deletedAt'', ''purgedAt''} \<Longrightarrow> same_marks e (put e k v)"
  by (auto simp: same_marks_def)

lemma same_marks_puts: "\<forall>(k, v)\<in>set kvs. k \<notin> {''id'', ''deletedAt'', ''purgedAt''} \<Longrightarrow> same_marks e (puts e kvs)"
proof (induction kvs arbitrary: e)
  case (Cons p kvs)
  then have "same_marks (put e (fst p) (snd p)) (puts (put e (fst p) (snd p)) kvs)" "same_marks e (put e (fst p) (snd p))"
    by (auto simp: same_marks_put)
  then show ?case by (cases p) (auto intro: same_marks_trans)
qed simp

lemma same_marks_del: "k \<notin> {''id'', ''deletedAt'', ''purgedAt''} \<Longrightarrow> same_marks e (del e k)"
  by (auto simp: same_marks_def)

text \<open>A project or section that is purged is deleted too; the referable contract keeps both marks well formed.\<close>

definition well_marked :: "entity \<Rightarrow> bool" where
  "well_marked e \<longleftrightarrow> sound_marks e \<and> (purged e \<longrightarrow> deleted e)"

lemma same_marks_sound: "same_marks e e' \<Longrightarrow> sound_marks e \<Longrightarrow> sound_marks e'"
  by (simp add: same_marks_def sound_marks_def has_id_string_def isObjectRecord_def gone_def deleted_def purged_def)

lemma same_marks_marked: "same_marks e e' \<Longrightarrow> well_marked e \<Longrightarrow> well_marked e'"
  using same_marks_sound [of e e'] by (simp add: well_marked_def same_marks_def deleted_def purged_def)

lemma normalizeTimestamps_marks: "same_marks e (fst (normalizeTimestamps h c e))"
  by (simp add: same_marks_def get_normalizeTimestamps is_obj_normalizeTimestamps)

lemma withMergedAttachments_marks: "same_marks e (withMergedAttachments e a)"
  by (simp add: withMergedAttachments_def same_marks_put)

lemma preserveTask_marks: "same_marks e (preserveTaskCancellationFromStrippedPeer l i e)"
  by (simp add: preserveTaskCancellationFromStrippedPeer_def same_marks_def split: option.split)

lemma preserveProject_marks: "same_marks e (preserveProjectCancellationFromStrippedPeer l i e)"
  by (simp add: preserveProjectCancellationFromStrippedPeer_def same_marks_put split: option.split)

lemma repairSeries_marks: "same_marks e (repairTaskRecurrenceSeriesIdentity h l i e)"
  by (simp add: repairTaskRecurrenceSeriesIdentity_def same_marks_def Let_def)

lemma merge_task_pair_marks: "same_marks (item_of w l i) (merge_task_pair h pref n l i w)"
proof -
  let ?e = "item_of w l i" and ?o = "item_of (other_side w) l i"
  let ?v = "if has_own ?e ''viewSectionIds'' then ?e else if has_own ?o ''viewSectionIds''
      then put ?e ''viewSectionIds'' (get ?o ''viewSectionIds'') else ?e"
  have "same_marks ?e ?v" by (simp add: same_marks_put)
  then show ?thesis
    unfolding merge_task_pair_def Let_def
    by (rule same_marks_trans [OF same_marks_trans [OF same_marks_trans]])
      (rule withMergedAttachments_marks preserveTask_marks repairSeries_marks)+
qed

lemma merge_project_pair_marks: "same_marks (item_of w l i) (merge_project_pair h pref n l i w)"
  unfolding merge_project_pair_def Let_def
  by (rule same_marks_trans) (rule withMergedAttachments_marks preserveProject_marks)+

lemma merge_task_pair_id: "get (merge_task_pair h pref n l i w) ''id'' = get (item_of w l i) ''id''"
  using merge_task_pair_marks by (simp add: same_marks_def)

lemma merge_project_pair_id: "get (merge_project_pair h pref n l i w) ''id'' = get (item_of w l i) ''id''"
  using merge_project_pair_marks by (simp add: same_marks_def)

lemma merge_attachment_pair_id: "get (merge_attachment_pair h pref l i w) ''id'' = get (item_of w l i) ''id''"
  by (simp add: merge_attachment_pair_def Let_def resolveContentIdentity_def split: prod.split)

section \<open>The merges of the document are keyed merges\<close>

lemma merged_both_keeps:
  assumes "\<And>l i w. get (f l i w) ''id'' = get (item_of w l i) ''id''" "get l ''id'' = get i ''id''"
  shows "get (merged_both h m (Some f) l i) ''id'' = get l ''id''"
  using assms by (simp add: merged_both_def Let_def get_normalizeTimestamps item_of_def split: side.split)

lemma merged_both_marked:
  assumes "\<And>l i w. same_marks (item_of w l i) (f l i w)" "well_marked l" "well_marked i"
  shows "well_marked (merged_both h m (Some f) l i)"
proof -
  let ?l = "fst (normalizeTimestamps h (Some i) l)" and ?i = "fst (normalizeTimestamps h (Some l) i)"
  have "well_marked ?l" "well_marked ?i" using assms(2,3) normalizeTimestamps_marks same_marks_marked by blast+
  then have "well_marked (item_of w ?l ?i)" for w by (cases w) (simp_all add: item_of_def)
  then have "well_marked (f ?l ?i w)" for w using same_marks_marked [OF assms(1)] by blast
  then show ?thesis using same_marks_marked [OF normalizeTimestamps_marks] by (simp add: merged_both_def Let_def)
qed

lemma merged_one_keeps: "get (merged_one h e) ''id'' = get e ''id''" "well_marked e \<Longrightarrow> well_marked (merged_one h e)"
  using same_marks_marked [OF normalizeTimestamps_marks [of e h None]]
  by (simp_all add: merged_one_def get_normalizeTimestamps)

interpretation task_merge: keyed_merge well_marked "merged_one h" "merged_both h m (Some (merge_task_pair h pref n))"
  for h m pref n
  by (unfold_locales, rule merged_one_keeps, erule merged_both_keeps [OF merge_task_pair_id], erule merged_one_keeps,
      rule merged_both_marked [OF merge_task_pair_marks])

interpretation project_merge: keyed_merge well_marked "merged_one h" "merged_both h m (Some (merge_project_pair h pref n))"
  for h m pref n
  by (unfold_locales, rule merged_one_keeps, erule merged_both_keeps [OF merge_project_pair_id], erule merged_one_keeps,
      rule merged_both_marked [OF merge_project_pair_marks])

interpretation attachment_merge: keyed_merge "\<lambda>_. True" "merged_one h" "merged_both h m (Some (merge_attachment_pair h pref))"
  for h m pref
  by (unfold_locales, rule merged_one_keeps, erule merged_both_keeps [OF merge_attachment_pair_id], rule TrueI, rule TrueI)

interpretation marked_merge: keyed_merge well_marked "merged_one h" "merged_both h m None"
  for h m
proof
  show "get (merged_both h m None l i) ''id'' = get l ''id''" if "get l ''id'' = get i ''id''" for l i
    using that by (rule plain_merge.both_id)
  show "well_marked (merged_both h m None l i)" if "well_marked l" "well_marked i" for l i
  proof -
    have "well_marked (fst (normalizeTimestamps h (Some i) l))" "well_marked (fst (normalizeTimestamps h (Some l) i))"
      using that normalizeTimestamps_marks same_marks_marked by blast+
    then show ?thesis by (simp add: merged_both_plain Let_def item_of_def split: side.split)
  qed
qed (simp_all add: merged_one_keeps)

section \<open>The collections of the merged document\<close>

lemma marked_referable: "distinct (ids es) \<Longrightarrow> \<forall>e\<in>set es. well_marked e \<Longrightarrow> referable es"
  by (simp add: referable_def well_marked_def)

lemma normalizeRevisionMetadata_marks: "same_marks e (normalizeRevisionMetadata e)"
  by (auto simp: normalizeRevisionMetadata_def same_marks_def Let_def split: js.split)

lemma keep_same_marks: "same_marks e c \<Longrightarrow> same_marks e (keep_same e c)"
  by (simp add: keep_same_def)

lemma normalizeSection_marks: "same_marks e (normalizeSectionForSyncMerge e)"
  by (simp add: normalizeSectionForSyncMerge_def same_marks_put)

lemma normalizeArea_marks: "same_marks e (normalizeAreaForSyncMerge e n)"
  unfolding normalizeAreaForSyncMerge_def by (intro keep_same_marks same_marks_puts) simp

lemma normalizeProject_marked:
  assumes "well_marked p"
  shows "well_marked (normalizeProjectForSyncMerge h p preserve)"
proof (cases "truthy (get p ''purgedAt'')")
  case False
  have "same_marks p (normalizeProjectForSyncMerge h p preserve)"
    unfolding normalizeProjectForSyncMerge_def if_not_P [OF False] Let_def
    by (intro keep_same_marks same_marks_puts) simp
  with assms show ?thesis by (rule same_marks_marked [rotated])
next
  case True
  have "well_marked (project_tomb p (get p ''rev'') (get p ''revBy''))"
    using assms unfolding tomb_explicit(2) [OF True]
    by (simp add: well_marked_def sound_marks_def has_id_string_def isObjectRecord_def gone_def deleted_def purged_def)
  then show ?thesis
    by (simp add: normalizeProjectForSyncMerge_def True normalizePurgedProject_def Let_def compactPurgedProjectForLocalStorage_def
        tomb_compact(2) [OF True] stampRepair_def same_marks_marked [OF same_marks_put])
qed

lemma purge_times: "\<forall>p\<in>set ps. sound_marks p \<Longrightarrow> map_of (purgedAtByProjectId ps) i = Some v \<Longrightarrow> isNonEmptyString v
    \<and> (\<exists>p\<in>set ps. get p ''id'' = i \<and> purged p)"
  unfolding purgedAtByProjectId_def by (drule map_of_js_map_SomeD) (auto simp: sound_marks_def purged_def)

lemma compactSection_shape:
  assumes "\<forall>p\<in>set ps. sound_marks p" "sound_marks s"
  shows "(well_marked (compactSection b (purgedAtByProjectId ps) s) \<or> compactSection b (purgedAtByProjectId ps) s = s)
    \<and> get (compactSection b (purgedAtByProjectId ps) s) ''id'' = get s ''id''
    \<and> get (compactSection b (purgedAtByProjectId ps) s) ''projectId'' = get s ''projectId''"
proof (cases "map_of (purgedAtByProjectId ps) (get s ''projectId'')")
  case (Some v)
  let ?t = "compactPurgedProjectSectionTombstone s v"
  have v: "isNonEmptyString v" "truthy v" using purge_times [OF assms(1) Some] nonEmpty_truthy by blast+
  have t: "well_marked ?t" "get ?t ''id'' = get s ''id''" "get ?t ''projectId'' = get s ''projectId''"
    using assms(2) v
    by (simp_all add: well_marked_def sound_marks_def has_id_string_def isObjectRecord_def gone_def deleted_def purged_def
        compactPurgedProjectSectionTombstone_def) (simp_all add: isNonEmptyString_def)
  have "compactSection b (purgedAtByProjectId ps) s = ?t \<or> compactSection b (purgedAtByProjectId ps) s = stampRepair ?t s"
    using v by (simp add: compactSection_def Some Let_def)
  moreover have "well_marked (stampRepair ?t s)" "get (stampRepair ?t s) ''id'' = get s ''id''"
      "get (stampRepair ?t s) ''projectId'' = get s ''projectId''"
    using t by (simp_all add: stampRepair_def same_marks_marked [OF same_marks_put])
  ultimately show ?thesis using t by auto
qed (use assms(2) in \<open>simp add: compactSection_def\<close>)

lemma compactSection_keeps:
  assumes "\<forall>p\<in>set ps. sound_marks p" "sound_marks s"
  shows "sound_marks (compactSection b (purgedAtByProjectId ps) s)"
    "well_marked s \<Longrightarrow> well_marked (compactSection b (purgedAtByProjectId ps) s)"
  using compactSection_shape [OF assms, of b] assms(2) by (auto simp: well_marked_def)

lemma normalized_marked:
  assumes "\<forall>e\<in>set (projects d) \<union> set (sections d) \<union> set (areas d). well_marked e"
  shows "\<forall>e\<in>set (projects (normalizeForMerge h n preserve d)). well_marked e"
    and "\<forall>e\<in>set (sections (normalizeForMerge h n preserve d)). well_marked e"
    and "\<forall>e\<in>set (areas (normalizeForMerge h n preserve d)). well_marked e"
proof -
  have "\<forall>p\<in>set (projects d). sound_marks p" using assms by (auto simp: well_marked_def)
  then have "well_marked s" if "s \<in> set (compacted_sections d)" for s
    using that assms compactSection_keeps(2) by (auto simp: compacted_sections_def compactSectionsForPurgedProjects_def well_marked_def [of "_ :: js"])
  with assms show "\<forall>e\<in>set (projects (normalizeForMerge h n preserve d)). well_marked e"
    "\<forall>e\<in>set (sections (normalizeForMerge h n preserve d)). well_marked e"
    "\<forall>e\<in>set (areas (normalizeForMerge h n preserve d)). well_marked e"
    by (auto simp: normalizeForMerge_def normalizeProject_marked same_marks_marked [OF normalizeRevisionMetadata_marks]
        same_marks_marked [OF normalizeSection_marks] same_marks_marked [OF normalizeArea_marks])
qed

lemma assign_orders_marked:
  "\<forall>e\<in>set es. well_marked e \<Longrightarrow> (\<forall>e\<in>set (assign_orders q es). well_marked e) \<and> ids (assign_orders q es) = ids es"
  by (induction q es rule: assign_orders.induct) (auto simp: same_marks_marked [OF same_marks_put])

lemma mergeAreas_referable:
  assumes "\<forall>e\<in>set A \<union> set B. well_marked e"
  shows "referable (fst (mergeAreas h A B n))"
proof -
  let ?m = "fst (mergeEntitiesWithStats h A B None (Some normalizeAreaForContentComparison) n)"
  have "\<forall>e\<in>set ?m. well_marked e" "distinct (ids ?m)"
    unfolding mergeEntitiesWithStats_refines by (rule marked_merge.keyed_join_ok [OF assms], rule marked_merge.keyed_join_distinct)
  moreover have "fst (mergeAreas h A B n) = assign_orders (foldl (\<lambda>m area. max m (area_order area)) (- 1) ?m + 1) ?m"
    by (simp add: mergeAreas_def Let_def)
  ultimately show ?thesis using assign_orders_marked [of ?m] by (metis marked_referable)
qed

lemma merged_projects_marked:
  assumes "\<forall>e\<in>set A \<union> set B. well_marked e"
  shows "\<forall>e\<in>set (fst (mergeEntitiesWithStats h A B (Some (merge_project_pair h pref n)) nrm now)). well_marked e"
    "distinct (ids (fst (mergeEntitiesWithStats h A B (Some (merge_project_pair h pref n)) nrm now)))"
  unfolding mergeEntitiesWithStats_refines
  by (rule project_merge.keyed_join_ok [OF assms], rule project_merge.keyed_join_distinct)

lemma merged_sections_marked:
  assumes "\<forall>e\<in>set A \<union> set B. well_marked e"
  shows "\<forall>e\<in>set (fst (mergeEntitiesWithStats h A B None nrm now)). well_marked e"
    "distinct (ids (fst (mergeEntitiesWithStats h A B None nrm now)))"
  unfolding mergeEntitiesWithStats_refines
  by (rule marked_merge.keyed_join_ok [OF assms], rule marked_merge.keyed_join_distinct)

section \<open>The final compaction keeps the references\<close>

lemma compaction_keeps_references:
  assumes r: "references_ok r" and p: "\<forall>p\<in>set (projects r). purged p \<longrightarrow> deleted p"   shows "references_ok (r\<lparr>sections := compactSectionsForPurgedProjects (sections r) (projects r) False\<rparr>)"
proof -
  let ?f = "compactSection False (purgedAtByProjectId (projects r))"
  have ref: "referable (areas r)" "referable (projects r)" "referable (sections r)" using r unfolding references_ok_def by blast+
  have sm: "\<forall>p\<in>set (projects r). sound_marks p" using ref(2) by (simp add: referable_def)
  have s: "sound_marks x" if "x \<in> set (sections r)" for x using ref(3) that by (simp add: referable_def)
  note shape = compactSection_shape [OF sm s, where b = False] and sound = compactSection_keeps(1) [OF sm s, where b = False]
  have live: "?f x = x" if "get x ''projectId'' \<in> set (ids_where (\<lambda>p. \<not> deleted p) (projects r))" for x
  proof (cases "map_of (purgedAtByProjectId (projects r)) (get x ''projectId'')")
    case (Some v)
    from purge_times [OF sm Some] obtain q where q: "q \<in> set (projects r)" "get q ''id'' = get x ''projectId''" "purged q" by blast
    from that obtain q' where "q' \<in> set (projects r)" "\<not> deleted q'" "get q' ''id'' = get x ''projectId''" by (auto simp: in_ids_where)
    with q p ref(2) same_id [of "projects r" q q'] show ?thesis by (auto simp: referable_def)
  qed (simp add: compactSection_def)
  have "ids (map ?f (sections r)) = ids (sections r)" using shape by (simp add: ids_def)
  then have sec: "referable (map ?f (sections r))" using ref(3) sound by (auto simp: referable_def)
  have del: "deleted (?f x)" if "x \<in> set (sections r)" "get x ''projectId'' \<in> set (ids_where deleted (projects r))" for x
  proof -
    have "deleted x" using r that unfolding references_ok_def by blast
    moreover have "deleted (?f x)" if "map_of (purgedAtByProjectId (projects r)) (get x ''projectId'') = Some v" for v
      using purge_times [OF sm that] nonEmpty_truthy [of v]
      by (simp add: compactSection_def that Let_def deleted_def compactPurgedProjectSectionTombstone_def)
    ultimately show ?thesis
      by (cases "map_of (purgedAtByProjectId (projects r)) (get x ''projectId'')") (auto simp: compactSection_def)
  qed
  have container: "container_ok (projects r) (areas r) (map ?f (sections r)) t c"
    if c: "container_ok (projects r) (areas r) (sections r) t c" for t c
  proof (cases "in_section c = JUndef")
    case False
    with c obtain x where x: "x \<in> set (sections r)" "get x ''id'' = in_section c" "get x ''projectId'' = in_project c"
        "in_project c \<noteq> JUndef"
        "\<not> deleted x \<or> get t ''projectId'' = in_project c
           \<and> isTaskSectionProjectArchiveReference t (Some x) (by_id_where project_archived (projects r) (in_project c))"
      unfolding container_ok_def by blast
    have "get x ''projectId'' \<in> set (ids_where (\<lambda>p. \<not> deleted p) (projects r))"
      using c x(3,4) unfolding container_ok_def by auto
    from live [OF this] x(1) have "x \<in> set (map ?f (sections r))" by force
    with c x False show ?thesis unfolding container_ok_def by blast
  qed (use c in \<open>simp add: container_ok_def\<close>)
  let ?r = "r\<lparr>sections := compactSectionsForPurgedProjects (sections r) (projects r) False\<rparr>"
  have e: "areas ?r = areas r" "projects ?r = projects r" "tasks ?r = tasks r" "sections ?r = map ?f (sections r)"
    by (simp_all add: compactSectionsForPurgedProjects_def)
  show ?thesis
    unfolding references_ok_def e
  proof (intro conjI ref(1,2) sec)
    show "\<forall>q\<in>set (projects r). isNonEmptyString (get q ''areaId'') \<longrightarrow>
        get q ''areaId'' \<in> set (ids_where (\<lambda>a. \<not> deleted a) (areas r))"
      using r unfolding references_ok_def by blast
    show "\<forall>x\<in>set (map ?f (sections r)). get x ''projectId'' \<in> set (ids_where deleted (projects r)) \<longrightarrow> deleted x"
      using del shape by auto
    show "\<forall>u\<in>set (tasks r). \<exists>t c. container_ok (projects r) (areas r) (map ?f (sections r)) t c
          \<and> (get u ''projectId'' = in_project c \<or> in_project c = JUndef \<and> \<not> isNonEmptyString (get u ''projectId''))
          \<and> (get u ''sectionId'' = in_section c \<or> in_section c = JUndef \<and> \<not> isNonEmptyString (get u ''sectionId''))
          \<and> (isNonEmptyString (get u ''areaId'') \<longrightarrow> get u ''areaId'' = in_area c) \<and> get u ''status'' = get t ''status''"
      using r container unfolding references_ok_def by blast
  qed
qed

section \<open>The merged document\<close>

lemma merged_references:
  assumes clock: "non_blank (merge_now h options)"
    and local: "\<forall>e\<in>set (projects local) \<union> set (sections local) \<union> set (areas local). well_marked e"
    and incoming: "\<forall>e\<in>set (projects incoming) \<union> set (sections incoming) \<union> set (areas incoming). well_marked e"
  shows "references_ok (mergeAppData h local incoming options)"
proof -
  let ?n = "merge_now h options" and ?pref = "preferIncomingAttachmentCloudKeys options"
  let ?l = "normalizeForMerge h ?n True local" and ?i = "normalizeForMerge h ?n False incoming"
  note l = normalized_marked [OF local, of h ?n True] and i = normalized_marked [OF incoming, of h ?n False]
  define P where "P = fst (mergeEntitiesWithStats h (projects ?l) (projects ?i) (Some (merge_project_pair h ?pref ?n))
    (Some (normalizeProjectForContentComparison h)) (JStr ?n))"
  define S where "S = fst (mergeEntitiesWithStats h (sections ?l) (sections ?i) None (Some normalizeSectionForContentComparison) (JStr ?n))"
  define A where "A = fst (mergeAreas h (areas ?l) (areas ?i) (JStr ?n))"
  have P: "\<forall>e\<in>set P. well_marked e" "distinct (ids P)"
    unfolding P_def using l(1) i(1) by (intro merged_projects_marked ballI; blast)+
  have S: "\<forall>e\<in>set S. well_marked e" "distinct (ids S)"
    unfolding S_def using l(2) i(2) by (intro merged_sections_marked ballI; blast)+
  have A: "referable A" unfolding A_def using l(3) i(3) by (intro mergeAreas_referable) blast
  obtain T Q st where d: "mergeAppData h local incoming options =
      (let r = repairMergedSyncReferences h \<lparr>tasks = T, projects = P, sections = S, areas = A, people = Q, settings = st\<rparr> ?n
       in r\<lparr>sections := compactSectionsForPurgedProjects (sections r) (projects r) False\<rparr>)"
    by (simp add: mergeAppData_def mergeAppDataWithStats_def Let_def P_def S_def A_def)
  let ?d = "\<lparr>tasks = T, projects = P, sections = S, areas = A, people = Q, settings = st\<rparr>"
  let ?r = "repairMergedSyncReferences h ?d ?n"
  have ref: "references_ok ?r"
    by (rule repair_references(1)) (simp_all add: A marked_referable [OF P(2,1)] marked_referable [OF S(2,1)] clock)
  have "purged p \<longrightarrow> deleted p" if "p \<in> set (projects ?r)" for p
  proof -
    from that obtain q m as where q: "q \<in> set P" "p = repair_project m as ?n q"
      by (auto simp: repairMergedSyncReferences_def Let_def)
    with P(1) have "well_marked q" by blast
    with repair_project_keeps [of q m as ?n] have "same_marks q p"
      by (auto simp: q(2) same_marks_def well_marked_def sound_obj)
    with \<open>well_marked q\<close> same_marks_marked show ?thesis by (auto simp: well_marked_def)
  qed
  with compaction_keeps_references [OF ref] show ?thesis unfolding d Let_def by blast
qed

text \<open>
  C5. The merged document resolves its references, whatever the two sides contain, as long as their projects,
  sections and areas have ids and well-formed deletion marks: every project and task of the
  result passes the reference checks that are made before a write, after both sides were
  normalised, merged, repaired and compacted; and so does every section whose project is known.
\<close>

theorem merged_document_passes_reference_checks:
  assumes "non_blank (merge_now h options)"
    and "\<forall>e\<in>set (projects local) \<union> set (sections local) \<union> set (areas local). well_marked e"
    and "\<forall>e\<in>set (projects incoming) \<union> set (sections incoming) \<union> set (areas incoming). well_marked e"
  shows "let r = mergeAppData h local incoming options in
      for_each (validate_project_reference r) (projects r) = []
    \<and> for_each (validate_task_reference r) (tasks r) = []
    \<and> ((\<forall>s\<in>set (sections r). get s ''projectId'' \<in> set (ids (projects r))) \<longrightarrow>
         for_each (validate_section_reference r) (sections r) = [])"
  unfolding Let_def by (intro conjI impI references_ok_valid merged_references [OF assms])

definition offline_document :: AppData where
  "offline_document = \<lparr>tasks = [JObj [(''id'', JStr ''t''), (''projectId'', JStr ''p''), (''status'', JStr ''next'')]],
     projects = [JObj [(''id'', JStr ''p'')]], sections = [], areas = [], people = [], settings = JObj []\<rparr>"

definition cleaned_document :: AppData where
  "cleaned_document = \<lparr>tasks = [], projects = [JObj [(''id'', JStr ''p''), (''rev'', JNum 2), (''deletedAt'', JStr ''d'')]],
     sections = [], areas = [], people = [], settings = JObj []\<rparr>"

definition at_noon :: MergeAppDataOptions where
  "at_noon = \<lparr>nowIso_option = JStr ''2024-03-01T12:00:00.000Z'', preferIncomingAttachmentCloudKeys = False\<rparr>"

theorem merged_document_passes_reference_checks_witness:
  "for_each (validate_task_reference (mergeAppData host0 offline_document cleaned_document at_noon))
     (tasks (mergeAppData host0 offline_document cleaned_document at_noon)) = []"
proof -
  have "non_blank (merge_now host0 at_noon)"
    "\<forall>e\<in>set (projects offline_document) \<union> set (sections offline_document) \<union> set (areas offline_document). well_marked e"
    "\<forall>e\<in>set (projects cleaned_document) \<union> set (sections cleaned_document) \<union> set (areas cleaned_document). well_marked e"
    by code_simp+
  from merged_document_passes_reference_checks [OF this] show ?thesis unfolding Let_def by blast
qed

end
