(* ===== verification/Merge_Attachments.thy ===== *)
theory Merge_Attachments
  imports Merge_Document
begin

text \<open>
  Properties of the attachment merge: what leaves it is safe to open, and which side the content
  identity of a file comes from.
\<close>

section \<open>Safe URIs\<close>

lemma sanitized_uri: "sanitizeMergedAttachmentUri h v = JUndef \<or> (\<exists>u. sanitizeMergedAttachmentUri h v = JStr u \<and> u \<noteq> [] \<and> nul \<notin> set u
    \<and> \<not> containsAttachmentTraversalSegmentMerge h u)"
  using sanitize_with_result [of "containsAttachmentTraversalSegmentMerge h" v] sanitize_with_StrD [of "containsAttachmentTraversalSegmentMerge h" v]
  by (auto simp: sanitizeMergedAttachmentUri_def)

lemma merged_attachment_cases:
  assumes "a \<in> set (elems (mergeAttachments h pref n l i))"
  obtains m where "a = finish_attachment h pref (elems l) (elems i) m"
    "m \<in> set (keyed_join (merged_one h) (merged_both h (maxAllowedMergeTime h (JStr n)) (Some (merge_attachment_pair h pref))) (elems l) (elems i))"
  using assms by (auto simp: mergeAttachments_def Let_def mergeEntitiesWithStats_refines split: if_splits)

lemma finish_attachment_id: "get (finish_attachment h pref l i m) ''id'' = get m ''id''"
  by (simp add: finish_attachment_def Let_def)

lemma mergeAttachments_ids: "ids (elems (mergeAttachments h pref n l i)) = all_ids (elems l) (elems i)"
proof -
  let ?m = "keyed_join (merged_one h) (merged_both h (maxAllowedMergeTime h (JStr n)) (Some (merge_attachment_pair h pref))) (elems l) (elems i)"
  have "ids (map (finish_attachment h pref (elems l) (elems i)) ?m) = all_ids (elems l) (elems i)"
    using attachment_merge.keyed_join_ids [of h "maxAllowedMergeTime h (JStr n)" pref "elems l" "elems i"]
    by (simp add: ids_def comp_def finish_attachment_id)
  moreover have "all_ids [] [] = []" by (simp add: all_ids_def id_map_def uniq_def)
  ultimately show ?thesis
    by (auto simp: mergeAttachments_def Let_def mergeEntitiesWithStats_refines)
qed

text \<open>
  Attachments are merged one by one: the merged list has exactly the ids of both lists, each
  once, and every file in it either has an empty URI or one that is free of NUL and of parent
  segments, however the two sides spelled it.
\<close>

theorem merged_attachments_are_safe:
  "distinct (ids (elems (mergeAttachments h pref n l i)))
   \<and> set (ids (elems (mergeAttachments h pref n l i))) = set (ids (elems l)) \<union> set (ids (elems i))
   \<and> (\<forall>a\<in>set (elems (mergeAttachments h pref n l i)). get a ''kind'' = JStr ''file'' \<longrightarrow>
        (\<exists>u. get a ''uri'' = JStr u \<and> nul \<notin> set u \<and> (u = [] \<or> \<not> containsAttachmentTraversalSegmentMerge h u)))"
proof (intro conjI ballI impI)
  show "distinct (ids (elems (mergeAttachments h pref n l i)))"
    "set (ids (elems (mergeAttachments h pref n l i))) = set (ids (elems l)) \<union> set (ids (elems i))"
    by (simp_all add: mergeAttachments_ids set_all_ids)
next
  fix a assume a: "a \<in> set (elems (mergeAttachments h pref n l i))" "get a ''kind'' = JStr ''file''"
  from merged_attachment_cases [OF a(1)] obtain m where m: "a = finish_attachment h pref (elems l) (elems i) m" by metis
  with a(2) have "get m ''kind'' = JStr ''file''" by (auto simp: finish_attachment_def Let_def split: if_splits)
  then have "get a ''uri'' = coalesce (sanitizeMergedAttachmentUri h (get m ''uri'')) (JStr '''')"
    by (simp add: m finish_attachment_def Let_def)
  with sanitized_uri [of h "get m ''uri''"]
  show "\<exists>u. get a ''uri'' = JStr u \<and> nul \<notin> set u \<and> (u = [] \<or> \<not> containsAttachmentTraversalSegmentMerge h u)"
    by (auto simp: coalesce_def nullish_def)
qed

definition sneaky_file :: js where
  "sneaky_file = JObj [(''id'', JStr ''a''), (''kind'', JStr ''file''), (''uri'', JStr ''..'')]"

theorem merged_attachments_are_safe_witness:
  "\<exists>a. a \<in> set (elems (mergeAttachments host0 False ''n'' (JArr [sneaky_file]) JUndef)) \<and> get a ''kind'' = JStr ''file''
     \<and> (\<exists>u. get a ''uri'' = JStr u \<and> nul \<notin> set u)"
proof -
  have "elems (mergeAttachments host0 False ''n'' (JArr [sneaky_file]) JUndef) =
      [finish_attachment host0 False [sneaky_file] [] (merged_one host0 sneaky_file)]"
    by (simp add: mergeAttachments_def Let_def mergeEntitiesWithStats_refines keyed_join_def all_ids_def id_map_def js_map_def uniq_def)
  moreover have "get (finish_attachment host0 False [sneaky_file] [] (merged_one host0 sneaky_file)) ''kind'' = JStr ''file''"
    by (simp add: finish_attachment_def Let_def merged_one_def get_normalizeTimestamps) (simp add: sneaky_file_def)
  ultimately show ?thesis
    using merged_attachments_are_safe [of host0 False "''n''" "JArr [sneaky_file]" JUndef] by (metis list.set_intros(1))
qed

section \<open>Content identity\<close>

lemma content_identity_get:
  assumes "\<not> truthy (get (item_of w l i) ''deletedAt'')" "get l ''kind'' = JStr ''file''" "get i ''kind'' = JStr ''file''"
  shows "get (merge_attachment_pair h pref l i w) ''contentRev'' = get (item_of (content_source l i w) l i) ''contentRev''"
    and "get (merge_attachment_pair h pref l i w) ''fileHash'' =
      (if get l ''pendingContentUpload'' = JBool True \<and> content_source l i w = LocalSide then get l ''fileHash''
       else or_else (or_else (get (item_of (content_source l i w) l i) ''fileHash'') (get l ''fileHash'')) (get i ''fileHash''))"
    and "get (merge_attachment_pair h pref l i w) ''pendingContentUpload'' = JBool True \<longrightarrow>
      get l ''pendingContentUpload'' = JBool True \<and> content_rev (item_of (content_source l i w) l i) = content_rev l
      \<and> hash_key (get (merge_attachment_pair h pref l i w) ''fileHash'') = hash_key (get l ''fileHash'')"
proof -
  have kinds: "get (item_of w l i) ''kind'' = JStr ''file''" using assms(2,3) by (cases w) (simp_all add: item_of_def)
  note defs = merge_attachment_pair_def Let_def resolveContentIdentity_def
  show "get (merge_attachment_pair h pref l i w) ''contentRev'' = get (item_of (content_source l i w) l i) ''contentRev''"
    "get (merge_attachment_pair h pref l i w) ''fileHash'' =
      (if get l ''pendingContentUpload'' = JBool True \<and> content_source l i w = LocalSide then get l ''fileHash''
       else or_else (or_else (get (item_of (content_source l i w) l i) ''fileHash'') (get l ''fileHash'')) (get i ''fileHash''))"
    using assms kinds by (simp_all add: defs split: prod.split)
  have key: "\<not> truthy (hash_key v) \<longleftrightarrow> hash_key v = JUndef \<or> hash_key v = JStr []" for v
    by (cases v) (simp_all add: hash_key_def)
  show "get (merge_attachment_pair h pref l i w) ''pendingContentUpload'' = JBool True \<longrightarrow>
      get l ''pendingContentUpload'' = JBool True \<and> content_rev (item_of (content_source l i w) l i) = content_rev l
      \<and> hash_key (get (merge_attachment_pair h pref l i w) ''fileHash'') = hash_key (get l ''fileHash'')"
    using assms kinds by (auto simp: defs content_rev_def split: prod.split)
qed

text \<open>
  Content is decided by its own revision: of two live copies of a file the one with the higher
  content revision provides the bytes, whichever side won the task, the merged content revision is the
  higher of the two, its digest is that copy's (an unproven local replacement keeps even an absent
  digest), and the marker of a pending upload survives only from the local copy, and
  only with that copy's own content revision and digest.
\<close>

theorem content_follows_revision:
  assumes "\<not> truthy (get (item_of w l i) ''deletedAt'')" "get l ''kind'' = JStr ''file''" "get i ''kind'' = JStr ''file''"
    and "content_rev l = JNum a" "content_rev i = JNum b"
  shows "let m = merge_attachment_pair h pref l i w; source = item_of (content_source l i w) l i in
      content_rev m = JNum (max a b)
    \<and> (b < a \<longrightarrow> source = l) \<and> (a < b \<longrightarrow> source = i)
    \<and> (truthy (get source ''fileHash'') \<longrightarrow> get m ''fileHash'' = get source ''fileHash'')
    \<and> (get m ''pendingContentUpload'' = JBool True \<longrightarrow>
         get l ''pendingContentUpload'' = JBool True \<and> b \<le> a \<and> hash_key (get m ''fileHash'') = hash_key (get l ''fileHash''))"
proof -
  note c = content_identity_get [OF assms(1-3), of h pref]
  have source: "content_rev (item_of (content_source l i w) l i) = JNum (max a b)"
    "b < a \<longrightarrow> item_of (content_source l i w) l i = l" "a < b \<longrightarrow> item_of (content_source l i w) l i = i"
    using assms(4,5) by (cases w; auto simp: content_source_def js_gt_def item_of_def)+
  have rev: "content_rev (merge_attachment_pair h pref l i w) = JNum (max a b)"
    using source(1) by (simp add: content_rev_def c(1))
  have hash: "truthy (get (item_of (content_source l i w) l i) ''fileHash'') \<longrightarrow>
      get (merge_attachment_pair h pref l i w) ''fileHash'' = get (item_of (content_source l i w) l i) ''fileHash''"
    unfolding c(2) by (auto simp: or_else_def item_of_def)
  have pending: "get (merge_attachment_pair h pref l i w) ''pendingContentUpload'' = JBool True \<longrightarrow>
      get l ''pendingContentUpload'' = JBool True \<and> b \<le> a
      \<and> hash_key (get (merge_attachment_pair h pref l i w) ''fileHash'') = hash_key (get l ''fileHash'')"
    using c(3) source(1) assms(4) by auto
  from rev source(2,3) hash pending show ?thesis unfolding Let_def by blast
qed

definition file_at :: "rat \<Rightarrow> string \<Rightarrow> js" where
  "file_at r digest = JObj [(''id'', JStr ''a''), (''kind'', JStr ''file''), (''contentRev'', JNum r), (''fileHash'', JStr digest)]"

theorem content_follows_revision_witness:
  "get (merge_attachment_pair host0 False (file_at 1 ''old'') (file_at 2 ''new'') LocalSide) ''fileHash'' = JStr ''new''
   \<and> content_rev (merge_attachment_pair host0 False (file_at 1 ''old'') (file_at 2 ''new'') LocalSide) = JNum 2"
proof -
  have f: "\<not> truthy (get (item_of LocalSide (file_at 1 ''old'') (file_at 2 ''new'')) ''deletedAt'')"
    "get (file_at 1 ''old'') ''kind'' = JStr ''file''" "get (file_at 2 ''new'') ''kind'' = JStr ''file''"
    "content_rev (file_at 1 ''old'') = JNum 1" "content_rev (file_at 2 ''new'') = JNum 2"
    "get (file_at 2 ''new'') ''fileHash'' = JStr ''new''"
    by (simp_all add: file_at_def item_of_def content_rev_def coalesce_def nullish_def)
  from content_follows_revision [OF f(1-5), of host0 False] f(6) show ?thesis by (simp add: Let_def)
qed

end
