(* ===== verification/Sync_Document.thy ===== *)
theory Sync_Document
  imports Repair_Validation
begin

text \<open>
  Reading a document from storage or from the remote (\<^verbatim>\<open>packages/core/src/sync-document.ts\<close>): the payload
  is validated, brought into the shape of \<open>AppData\<close>, and a remote one loses the attachment state that only
  means something on the device that wrote it.
\<close>

datatype SyncDocumentSource = LocalSource | RemoteSource

definition source_name :: "SyncDocumentSource \<Rightarrow> string" where
  "source_name source = (case source of LocalSource \<Rightarrow> ''local'' | RemoteSource \<Rightarrow> ''remote'')"

definition DEVICE_STATE_KEYS :: "string list" where
  "DEVICE_STATE_KEYS = [''localStatus'', ''contentMtimeMs'', ''contentSize'', ''pendingContentUpload'']"

definition strip_attachment :: "js \<Rightarrow> js" where
  "strip_attachment attachment =
     (if get attachment ''kind'' \<noteq> JStr ''file'' then attachment
      else if get attachment ''uri'' = JStr '''' \<and> \<not> list_ex (has_own attachment) DEVICE_STATE_KEYS then attachment
      else put (foldl del attachment DEVICE_STATE_KEYS) ''uri'' (JStr ''''))"

definition strip_owner :: "entity \<Rightarrow> entity" where
  "strip_owner owner =
     (case get owner ''attachments'' of
        JArr xs \<Rightarrow> if map strip_attachment xs = xs then owner else put owner ''attachments'' (JArr (map strip_attachment xs))
      | _ \<Rightarrow> owner)"

definition stripRemoteAttachmentDeviceState :: "AppData \<Rightarrow> AppData" where
  "stripRemoteAttachmentDeviceState d = d\<lparr>tasks := map strip_owner (tasks d), projects := map strip_owner (projects d)\<rparr>"

definition parseSyncDocument :: "js \<Rightarrow> SyncDocumentSource \<Rightarrow> string list + AppData" where
  "parseSyncDocument input source =
     (let errors = validateSyncPayloadShape input (source_name source)
      in if errors \<noteq> [] then Inl errors
         else Inr (case source of RemoteSource \<Rightarrow> stripRemoteAttachmentDeviceState (normalizeAppData input)
                   | LocalSource \<Rightarrow> normalizeAppData input))"

section \<open>Nothing device-local comes in\<close>

definition no_device_state :: "js \<Rightarrow> bool" where
  "no_device_state a \<longleftrightarrow> get a ''uri'' = JStr '''' \<and> (\<forall>k\<in>set DEVICE_STATE_KEYS. \<not> has_own a k)"

lemma has_own_foldl_del: "has_own (foldl del a ks) k \<longleftrightarrow> has_own a k \<and> k \<notin> set ks"
  by (induction ks arbitrary: a) auto

lemma get_foldl_del: "k \<notin> set ks \<Longrightarrow> get (foldl del a ks) k = get a k"
  by (induction ks arbitrary: a) auto

lemma strip_attachment_stateless: "get (strip_attachment a) ''kind'' = JStr ''file'' \<Longrightarrow> no_device_state (strip_attachment a)"
  unfolding strip_attachment_def no_device_state_def
  by (auto simp: has_own_foldl_del list_ex_iff DEVICE_STATE_KEYS_def)

lemma strip_attachment_keeps: "k \<noteq> ''uri'' \<Longrightarrow> k \<notin> set DEVICE_STATE_KEYS \<Longrightarrow> get (strip_attachment a) k = get a k"
  by (simp add: strip_attachment_def get_foldl_del)

lemma strip_owner_attachments: "get (strip_owner e) ''attachments'' = (case get e ''attachments'' of JArr xs \<Rightarrow> JArr (map strip_attachment xs) | v \<Rightarrow> v)"
  by (simp add: strip_owner_def split: js.split)

lemma strip_owner_keeps: "k \<noteq> ''attachments'' \<Longrightarrow> get (strip_owner e) k = get e k"
  by (simp add: strip_owner_def split: js.split)

text \<open>
  A document read from the remote carries no device-local attachment state: every file of a task or a project
  has an empty URI and none of the four device fields, so another device's paths and upload markers
  cannot be mistaken for this one's. Everything else of the attachments and their owners is kept.
\<close>

theorem remote_document_has_no_device_state:
  assumes "parseSyncDocument input RemoteSource = Inr d"
  shows "(\<forall>e\<in>set (tasks d) \<union> set (projects d). \<forall>a\<in>set (elems (get e ''attachments'')).
      get a ''kind'' = JStr ''file'' \<longrightarrow> no_device_state a)
    \<and> ids (tasks d) = ids (elems (get input ''tasks'')) \<and> ids (projects d) = ids (elems (get input ''projects''))
    \<and> sections d = elems (get input ''sections'') \<and> areas d = elems (get input ''areas'')"
proof -
  from assms have d: "d = stripRemoteAttachmentDeviceState (normalizeAppData input)"
    by (auto simp: parseSyncDocument_def Let_def split: if_splits)
  have "no_device_state a"
    if "a \<in> set (elems (get (strip_owner e) ''attachments''))" "get a ''kind'' = JStr ''file''" for a e
    using that strip_attachment_stateless by (auto simp: strip_owner_attachments split: js.splits)
  then show ?thesis
    by (auto simp: d stripRemoteAttachmentDeviceState_def normalizeAppData_def ids_def strip_owner_keeps)
qed

definition remote_payload :: js where
  "remote_payload = JObj [(''tasks'', JArr [JObj [(''id'', JStr ''t''), (''attachments'', JArr [JObj
     [(''id'', JStr ''a''), (''kind'', JStr ''file''), (''uri'', JStr ''file:/other''), (''localStatus'', JStr ''available'')]])]])]"

theorem remote_document_has_no_device_state_witness:
  "\<exists>d. parseSyncDocument remote_payload RemoteSource = Inr d \<and> ids (tasks d) = [JStr ''t'']"
proof -
  have ok: "validateSyncPayloadShape remote_payload (source_name RemoteSource) = []" by code_simp
  then have "parseSyncDocument remote_payload RemoteSource = Inr (stripRemoteAttachmentDeviceState (normalizeAppData remote_payload))"
    by (simp add: parseSyncDocument_def)
  from this remote_document_has_no_device_state [OF this] show ?thesis by (auto simp: remote_payload_def)
qed

end
