(* ===== verification/Sync_Tombstones.thy ===== *)
theory Sync_Tombstones
  imports App_Data
begin

text \<open>
  Expiry of tombstones (\<^verbatim>\<open>packages/core/src/sync-tombstones.ts\<close>, with the pending remote
  deletes of \<^verbatim>\<open>attachment-cleanup.ts\<close>): deleted entities are dropped from the document once
  they are older than the retention period.
\<close>

section \<open>Retention\<close>

definition resolveTombstoneRetentionDays :: "js \<Rightarrow> int" where
  "resolveTombstoneRetentionDays v = (case v of JNum q \<Rightarrow> min 3650 (max 1 \<lfloor>q\<rfloor>) | _ \<Rightarrow> 90)"

text \<open>\<open>None\<close> is \<open>Number.POSITIVE_INFINITY\<close>.\<close>

definition parseTimestampOrInfinity :: "host \<Rightarrow> js \<Rightarrow> int option" where
  "parseTimestampOrInfinity h v = (case v of JStr s \<Rightarrow> if s = [] then None else date_parse h s | _ \<Rightarrow> None)"

definition expired_at :: "int \<Rightarrow> int option \<Rightarrow> bool" where
  "expired_at cutoffMs t = (case t of None \<Rightarrow> False | Some ms \<Rightarrow> ms \<le> cutoffMs)"

datatype EntityTombstoneKind = TaskKind | ProjectKind | SectionKind | AreaKind | PersonKind

definition isEntityTombstoneExpired :: "host \<Rightarrow> EntityTombstoneKind \<Rightarrow> entity \<Rightarrow> int \<Rightarrow> bool" where
  "isEntityTombstoneExpired h kind e cutoffMs =
     (if \<not> is_str (get e ''deletedAt'') \<or> \<not> truthy (get e ''deletedAt'') then False
      else
        let deletedMs = parseTimestampOrInfinity h (get e ''deletedAt'')
        in if kind = TaskKind \<or> kind = ProjectKind
           then (let purgedMs = parseTimestampOrInfinity h (get e ''purgedAt'')
                 in expired_at cutoffMs (if purgedMs \<noteq> None then purgedMs else deletedMs))
           else expired_at cutoffMs deletedMs)"

text \<open>The filter both attachment and saved filter tombstones go through.\<close>

definition keep_tombstone :: "host \<Rightarrow> int \<Rightarrow> js \<Rightarrow> bool" where
  "keep_tombstone h cutoffMs a \<longleftrightarrow>
     \<not> truthy (get a ''deletedAt'') \<or> \<not> expired_at cutoffMs (parseTimestampOrInfinity h (get a ''deletedAt''))"

definition pruneAttachmentTombstones :: "host \<Rightarrow> js \<Rightarrow> int \<Rightarrow> js \<times> nat" where
  "pruneAttachmentTombstones h attachments cutoffMs =
     (if elems attachments = [] then (attachments, 0)
      else
        let kept = filter (keep_tombstone h cutoffMs) (elems attachments)
        in (if kept \<noteq> [] then JArr kept else JUndef, length (elems attachments) - length kept))"

definition pruneSavedFilterTombstones :: "host \<Rightarrow> js \<Rightarrow> int \<Rightarrow> js \<times> nat" where
  "pruneSavedFilterTombstones h savedFilters cutoffMs =
     (if elems savedFilters = [] then (savedFilters, 0)
      else
        let kept = filter (keep_tombstone h cutoffMs) (elems savedFilters)
        in (JArr kept, length (elems savedFilters) - length kept))"

definition prune_owner :: "host \<Rightarrow> int \<Rightarrow> entity \<Rightarrow> entity" where
  "prune_owner h cutoffMs e =
     (let (next, removed) = pruneAttachmentTombstones h (get e ''attachments'') cutoffMs
      in if 0 < removed then put e ''attachments'' next else e)"

section \<open>Pending remote attachment deletes\<close>

definition PENDING_REMOTE_ATTACHMENT_DELETE_MAX_ATTEMPTS :: int where
  "PENDING_REMOTE_ATTACHMENT_DELETE_MAX_ATTEMPTS = 12"

definition PENDING_REMOTE_ATTACHMENT_DELETE_MAX_AGE_MS :: int where
  "PENDING_REMOTE_ATTACHMENT_DELETE_MAX_AGE_MS = 30 * 24 * 60 * 60 * 1000"

definition parseTimestampMs :: "host \<Rightarrow> js \<Rightarrow> int option" where
  "parseTimestampMs h v = (case v of JStr s \<Rightarrow> if non_blank s then date_parse h s else None | _ \<Rightarrow> None)"

definition shouldRetainPendingRemoteAttachmentDelete :: "host \<Rightarrow> js \<Rightarrow> js \<Rightarrow> bool" where
  "shouldRetainPendingRemoteAttachmentDelete h entry nowIso =
     (let attempts = (case get entry ''attempts'' of JNum q \<Rightarrow> max 0 \<lfloor>q\<rfloor> | _ \<Rightarrow> 0)
      in if PENDING_REMOTE_ATTACHMENT_DELETE_MAX_ATTEMPTS \<le> attempts then False
         else (case parseTimestampMs h (get entry ''lastErrorAt'') of
                 None \<Rightarrow> True
               | Some lastErrorMs \<Rightarrow>
                   (case parseTimestampMs h nowIso of
                      None \<Rightarrow> True
                    | Some nowMs \<Rightarrow> nowMs - lastErrorMs \<le> PENDING_REMOTE_ATTACHMENT_DELETE_MAX_AGE_MS)))"

definition prunePendingRemoteAttachmentDeletes :: "host \<Rightarrow> js \<Rightarrow> js \<Rightarrow> js list" where
  "prunePendingRemoteAttachmentDeletes h pendingRemoteDeletes nowIso =
     filter (\<lambda>entry. shouldRetainPendingRemoteAttachmentDelete h entry nowIso) (elems pendingRemoteDeletes)"

section \<open>purgeExpiredTombstones\<close>

record purge_result =
  data :: AppData
  removedTaskTombstones :: nat
  removedProjectTombstones :: nat
  removedSectionTombstones :: nat
  removedAreaTombstones :: nat
  removedPersonTombstones :: nat
  removedAttachmentTombstones :: nat
  removedSavedFilterTombstones :: nat
  removedPendingRemoteDeletes :: nat

text \<open>One collection: drop what expired, prune what stays; the attachments removed on the way.\<close>

definition purge_collection :: "(entity \<Rightarrow> bool) \<Rightarrow> (entity \<Rightarrow> entity) \<Rightarrow> entity list \<Rightarrow> entity list" where
  "purge_collection expired prune es = map prune (filter (\<lambda>e. \<not> expired e) es)"

definition pruned_attachments :: "host \<Rightarrow> EntityTombstoneKind \<Rightarrow> int \<Rightarrow> entity list \<Rightarrow> nat" where
  "pruned_attachments h kind cutoffMs es =
     sum_list (map (\<lambda>e. snd (pruneAttachmentTombstones h (get e ''attachments'') cutoffMs))
       (filter (\<lambda>e. \<not> isEntityTombstoneExpired h kind e cutoffMs) es))"

definition count_expired :: "host \<Rightarrow> EntityTombstoneKind \<Rightarrow> int \<Rightarrow> entity list \<Rightarrow> nat" where
  "count_expired h kind cutoffMs es = length (filter (\<lambda>e. isEntityTombstoneExpired h kind e cutoffMs) es)"

definition prune_saved_filters :: "host \<Rightarrow> int \<Rightarrow> js \<Rightarrow> js" where
  "prune_saved_filters h cutoffMs st =
     (let (next, removed) = pruneSavedFilterTombstones h (get st ''savedFilters'') cutoffMs
      in if 0 < removed then put st ''savedFilters'' next else st)"

definition prune_pending_deletes :: "host \<Rightarrow> js \<Rightarrow> js \<Rightarrow> js" where
  "prune_pending_deletes h nowIso st =
     (let pending = get (get st ''attachments'') ''pendingRemoteDeletes'';
          next = prunePendingRemoteAttachmentDeletes h pending nowIso
      in if length next < length (elems pending)
         then put st ''attachments''
                (put (get st ''attachments'') ''pendingRemoteDeletes'' (if next \<noteq> [] then JArr next else JUndef))
         else st)"

definition purge_cutoff :: "int \<Rightarrow> js \<Rightarrow> int" where
  "purge_cutoff nowMs retentionDays = nowMs - resolveTombstoneRetentionDays retentionDays * 24 * 60 * 60 * 1000"

definition purgeExpiredTombstones :: "host \<Rightarrow> AppData \<Rightarrow> string \<Rightarrow> js \<Rightarrow> purge_result" where
  "purgeExpiredTombstones h d nowIso retentionDays =
     (case date_parse h nowIso of
        None \<Rightarrow>
          \<lparr>data = d, removedTaskTombstones = 0, removedProjectTombstones = 0, removedSectionTombstones = 0,
           removedAreaTombstones = 0, removedPersonTombstones = 0, removedAttachmentTombstones = 0,
           removedSavedFilterTombstones = 0, removedPendingRemoteDeletes = 0\<rparr>
      | Some nowMs \<Rightarrow>
          let cutoffMs = purge_cutoff nowMs retentionDays;
              expired = (\<lambda>kind e. isEntityTombstoneExpired h kind e cutoffMs);
              pending = get (get (settings d) ''attachments'') ''pendingRemoteDeletes''
          in \<lparr>data = d
                \<lparr>tasks := purge_collection (expired TaskKind) (prune_owner h cutoffMs) (tasks d),
                 projects := purge_collection (expired ProjectKind) (prune_owner h cutoffMs) (projects d),
                 sections := purge_collection (expired SectionKind) id (sections d),
                 areas := purge_collection (expired AreaKind) id (areas d),
                 people := purge_collection (expired PersonKind) id (people d),
                 settings := prune_pending_deletes h (JStr nowIso) (prune_saved_filters h cutoffMs (settings d))\<rparr>,
              removedTaskTombstones = count_expired h TaskKind cutoffMs (tasks d),
              removedProjectTombstones = count_expired h ProjectKind cutoffMs (projects d),
              removedSectionTombstones = count_expired h SectionKind cutoffMs (sections d),
              removedAreaTombstones = count_expired h AreaKind cutoffMs (areas d),
              removedPersonTombstones = count_expired h PersonKind cutoffMs (people d),
              removedAttachmentTombstones =
                pruned_attachments h TaskKind cutoffMs (tasks d) + pruned_attachments h ProjectKind cutoffMs (projects d),
              removedSavedFilterTombstones = snd (pruneSavedFilterTombstones h (get (settings d) ''savedFilters'') cutoffMs),
              removedPendingRemoteDeletes =
                length (elems pending) - length (prunePendingRemoteAttachmentDeletes h pending (JStr nowIso))\<rparr>)"

section \<open>Purging a collection\<close>

text \<open>
  What the purge relies on: pruning an entity does not change whether it is expired, and
  pruning twice is pruning once.
\<close>

locale retention =
  fixes expired :: "entity \<Rightarrow> bool" and prune :: "entity \<Rightarrow> entity"
  assumes prune_expired: "expired (prune e) = expired e"
    and prune_idem: "prune (prune e) = prune e"
    and prune_id: "get (prune e) ''id'' = get e ''id''"
begin

lemma purge_idem: "purge_collection expired prune (purge_collection expired prune es) = purge_collection expired prune es"
  by (induction es) (auto simp: purge_collection_def prune_expired prune_idem)

lemma purge_keeps: "e \<in> set es \<Longrightarrow> \<not> expired e \<Longrightarrow> prune e \<in> set (purge_collection expired prune es)"
  by (auto simp: purge_collection_def)

lemma purge_ids: "ids (purge_collection expired prune es) = ids (filter (\<lambda>e. \<not> expired e) es)"
  by (induction es) (auto simp: purge_collection_def prune_id)

lemma purge_length: "length (purge_collection expired prune es) + length (filter expired es) = length es"
  by (induction es) (auto simp: purge_collection_def)

lemma purge_none_left: "filter expired (purge_collection expired prune es) = []"
  by (auto simp: purge_collection_def filter_empty_conv prune_expired)

end

lemma get_prune_owner: "k \<noteq> ''attachments'' \<Longrightarrow> get (prune_owner h c e) k = get e k"
  by (simp add: prune_owner_def split: prod.split)

lemma snd_pruneAttachmentTombstones:
  "snd (pruneAttachmentTombstones h a c) = length (filter (\<lambda>x. \<not> keep_tombstone h c x) (elems a))"
  using sum_length_filter_compl [of "keep_tombstone h c" "elems a"]
  by (auto simp: pruneAttachmentTombstones_def Let_def)

lemma prune_attachments_again:
  "snd (pruneAttachmentTombstones h (get (prune_owner h c e) ''attachments'') c) = 0"
proof (cases "0 < snd (pruneAttachmentTombstones h (get e ''attachments'') c)")
  case True
  then have "elems (get (prune_owner h c e) ''attachments'') = filter (keep_tombstone h c) (elems (get e ''attachments''))"
    by (auto simp: prune_owner_def pruneAttachmentTombstones_def Let_def split: if_splits)
  then show ?thesis by (simp add: snd_pruneAttachmentTombstones filter_empty_conv)
next
  case False
  then have "prune_owner h c e = e" by (simp add: prune_owner_def split_beta)
  with False show ?thesis by simp
qed

lemma prune_owner_fixpoint: "snd (pruneAttachmentTombstones h (get e ''attachments'') c) = 0 \<Longrightarrow> prune_owner h c e = e"
  by (simp add: prune_owner_def split_beta)

lemma prune_owner_idem: "prune_owner h c (prune_owner h c e) = prune_owner h c e"
  by (rule prune_owner_fixpoint) (rule prune_attachments_again)

lemma expired_prune_owner:
  "isEntityTombstoneExpired h kind (prune_owner h c e) c' = isEntityTombstoneExpired h kind e c'"
  by (simp add: isEntityTombstoneExpired_def get_prune_owner)

interpretation owner_ret: retention "\<lambda>e. isEntityTombstoneExpired h kind e c" "prune_owner h c" for h kind c
  by unfold_locales (simp_all add: expired_prune_owner prune_owner_idem get_prune_owner)

interpretation plain_ret: retention "\<lambda>e. isEntityTombstoneExpired h kind e c" id for h kind c
  by unfold_locales simp_all

section \<open>Settings\<close>

lemma prune_saved_filters_again: "snd (pruneSavedFilterTombstones h (get (prune_saved_filters h c st) ''savedFilters'') c) = 0"
  by (auto simp: prune_saved_filters_def pruneSavedFilterTombstones_def Let_def)

lemma prune_saved_filters_idem: "prune_saved_filters h c (prune_saved_filters h c st) = prune_saved_filters h c st"
  using prune_saved_filters_again [of h c st] by (simp add: prune_saved_filters_def [of h c "prune_saved_filters h c st"] split_beta)

lemma get_prune_pending: "k \<noteq> ''attachments'' \<Longrightarrow> get (prune_pending_deletes h n st) k = get st k"
  by (simp add: prune_pending_deletes_def Let_def)

lemma get_prune_saved: "k \<noteq> ''savedFilters'' \<Longrightarrow> get (prune_saved_filters h c st) k = get st k"
  by (simp add: prune_saved_filters_def split: prod.split)

lemma filter_length_less: "length (filter P xs) < length xs \<or> filter P xs = xs"
  by (metis filter_id_conv length_filter_less)

lemma prune_pending_again:
  "prunePendingRemoteAttachmentDeletes h (get (get (prune_pending_deletes h n st) ''attachments'') ''pendingRemoteDeletes'') n
   = elems (get (get (prune_pending_deletes h n st) ''attachments'') ''pendingRemoteDeletes'')"
  using filter_length_less [of "\<lambda>e. shouldRetainPendingRemoteAttachmentDelete h e n"
      "elems (get (get st ''attachments'') ''pendingRemoteDeletes'')"]
  by (auto simp: prune_pending_deletes_def prunePendingRemoteAttachmentDeletes_def Let_def)

lemma prune_pending_idem: "prune_pending_deletes h n (prune_pending_deletes h n st) = prune_pending_deletes h n st"
  using prune_pending_again [of h n st] by (simp add: prune_pending_deletes_def [of h n "prune_pending_deletes h n st"] Let_def)

lemma prune_settings_idem:
  "prune_pending_deletes h n (prune_saved_filters h c (prune_pending_deletes h n (prune_saved_filters h c st)))
   = prune_pending_deletes h n (prune_saved_filters h c st)"
proof -
  let ?s = "prune_pending_deletes h n (prune_saved_filters h c st)"
  have "get ?s ''savedFilters'' = get (prune_saved_filters h c st) ''savedFilters''"
    by (simp add: get_prune_pending)
  then have "prune_saved_filters h c ?s = ?s"
    using prune_saved_filters_again [of h c st] by (simp add: prune_saved_filters_def [of h c ?s] split_beta)
  then show ?thesis by (simp add: prune_pending_idem)
qed

section \<open>Properties\<close>

text \<open>
  Purging with the same clock and retention a second time changes nothing: every
  collection and the settings are at a fixed point after one purge.
\<close>

theorem purgeExpiredTombstones_idem:
  "data (purgeExpiredTombstones h (data (purgeExpiredTombstones h d nowIso ret)) nowIso ret)
   = data (purgeExpiredTombstones h d nowIso ret)"
  by (simp add: purgeExpiredTombstones_def Let_def owner_ret.purge_idem plain_ret.purge_idem prune_settings_idem
      split: option.split)

text \<open>
  The removed counts account for every entity: in each of the five collections, kept plus
  removed is what was there, and no expired tombstone is left.
\<close>

theorem purgeExpiredTombstones_counts:
  "let r = purgeExpiredTombstones h d nowIso ret; again = purgeExpiredTombstones h (data r) nowIso ret
   in length (tasks (data r)) + removedTaskTombstones r = length (tasks d)
    \<and> length (projects (data r)) + removedProjectTombstones r = length (projects d)
    \<and> length (sections (data r)) + removedSectionTombstones r = length (sections d)
    \<and> length (areas (data r)) + removedAreaTombstones r = length (areas d)
    \<and> length (people (data r)) + removedPersonTombstones r = length (people d)
    \<and> removedTaskTombstones again = 0 \<and> removedAttachmentTombstones again = 0
    \<and> removedSavedFilterTombstones again = 0 \<and> removedPendingRemoteDeletes again = 0"
  unfolding Let_def
proof (intro conjI)
  note defs = purgeExpiredTombstones_def count_expired_def Let_def
  show "length (tasks (data (purgeExpiredTombstones h d nowIso ret))) + removedTaskTombstones (purgeExpiredTombstones h d nowIso ret) = length (tasks d)"
    by (simp add: defs owner_ret.purge_length split: option.split)
  show "length (projects (data (purgeExpiredTombstones h d nowIso ret))) + removedProjectTombstones (purgeExpiredTombstones h d nowIso ret) = length (projects d)"
    by (simp add: defs owner_ret.purge_length split: option.split)
  show "length (sections (data (purgeExpiredTombstones h d nowIso ret))) + removedSectionTombstones (purgeExpiredTombstones h d nowIso ret) = length (sections d)"
    by (simp add: defs plain_ret.purge_length split: option.split)
  show "length (areas (data (purgeExpiredTombstones h d nowIso ret))) + removedAreaTombstones (purgeExpiredTombstones h d nowIso ret) = length (areas d)"
    by (simp add: defs plain_ret.purge_length split: option.split)
  show "length (people (data (purgeExpiredTombstones h d nowIso ret))) + removedPersonTombstones (purgeExpiredTombstones h d nowIso ret) = length (people d)"
    by (simp add: defs plain_ret.purge_length split: option.split)
  show "removedTaskTombstones (purgeExpiredTombstones h (data (purgeExpiredTombstones h d nowIso ret)) nowIso ret) = 0"
    by (simp add: defs owner_ret.purge_none_left split: option.split)
  have "pruned_attachments h k c (purge_collection (\<lambda>e. isEntityTombstoneExpired h k e c) (prune_owner h c) es) = 0" for k c es
    by (auto simp: pruned_attachments_def purge_collection_def prune_attachments_again)
  then show "removedAttachmentTombstones (purgeExpiredTombstones h (data (purgeExpiredTombstones h d nowIso ret)) nowIso ret) = 0"
    by (simp add: defs split: option.split)
  show "removedSavedFilterTombstones (purgeExpiredTombstones h (data (purgeExpiredTombstones h d nowIso ret)) nowIso ret) = 0"
    by (simp add: defs get_prune_pending prune_saved_filters_again split: option.split)
  show "removedPendingRemoteDeletes (purgeExpiredTombstones h (data (purgeExpiredTombstones h d nowIso ret)) nowIso ret) = 0"
    by (simp add: defs prune_pending_again split: option.split)
qed

lemma retention_at_least_a_day: "86400000 \<le> resolveTombstoneRetentionDays ret * 24 * 60 * 60 * 1000"
  by (simp add: resolveTombstoneRetentionDays_def split: js.split)

lemma recent_not_expired:
  assumes "\<not> deleted e \<or> (\<forall>k ms. k \<in> {''deletedAt'', ''purgedAt''} \<longrightarrow>
      parseTimestampOrInfinity h (get e k) = Some ms \<longrightarrow> nowMs - 86400000 < ms)"
  shows "\<not> isEntityTombstoneExpired h kind e (purge_cutoff nowMs ret)"
  using assms retention_at_least_a_day [of ret]
  by (fastforce simp: isEntityTombstoneExpired_def deleted_def expired_at_def purge_cutoff_def Let_def split: option.splits if_splits)



end
