(* ===== verification/Sync_Cycle.thy ===== *)
theory Sync_Cycle
  imports Merge_Attachments Sync_Document Sync_Tombstones
begin

text \<open>
  One sync cycle (\<^verbatim>\<open>packages/core/src/sync.ts\<close>, lines 68 to 98 and 1203 to 1570): read the local
  document, read the remote one, merge, validate, write local with a pending marker, write remote, clear the
  marker. The storage back ends are functions of the host on a world of type \<open>'w\<close>; every call is recorded
  in a trace, which is what the properties speak about. Progress callbacks are not modelled.
\<close>

section \<open>The pending remote write\<close>

definition PENDING_REMOTE_WRITE_RETRY_BASE_MS :: int where
  "PENDING_REMOTE_WRITE_RETRY_BASE_MS = 5 * 1000"

definition PENDING_REMOTE_WRITE_RETRY_MAX_MS :: int where
  "PENDING_REMOTE_WRITE_RETRY_MAX_MS = 5 * 60 * 1000"

definition PENDING_REMOTE_WRITE_MAX_ATTEMPTS :: nat where
  "PENDING_REMOTE_WRITE_MAX_ATTEMPTS = 12"

definition withPendingRemoteWriteFlag :: "AppData \<Rightarrow> js \<Rightarrow> nat \<Rightarrow> AppData" where
  "withPendingRemoteWriteFlag d pendingAt attempts =
     d\<lparr>settings := puts (settings d)
       [(''pendingRemoteWriteAt'', pendingAt), (''pendingRemoteWriteRetryAt'', JUndef),
        (''pendingRemoteWriteAttempts'', if 0 < attempts then JNum (of_nat attempts) else JUndef)]\<rparr>"

definition clearPendingRemoteWriteFlag :: "AppData \<Rightarrow> AppData" where
  "clearPendingRemoteWriteFlag d =
     (if \<not> truthy (get (settings d) ''pendingRemoteWriteAt'') \<and> get (settings d) ''pendingRemoteWriteRetryAt'' = JUndef
         \<and> get (settings d) ''pendingRemoteWriteAttempts'' = JUndef then d
      else d\<lparr>settings := puts (settings d)
        [(''pendingRemoteWriteAt'', JUndef), (''pendingRemoteWriteRetryAt'', JUndef), (''pendingRemoteWriteAttempts'', JUndef)]\<rparr>)"

definition hasPendingRemoteWriteFlag :: "host \<Rightarrow> AppData \<Rightarrow> bool" where
  "hasPendingRemoteWriteFlag h d = isValidTimestamp h (get (settings d) ''pendingRemoteWriteAt'')"

definition getPendingRemoteWriteAttemptCount :: "AppData \<Rightarrow> nat" where
  "getPendingRemoteWriteAttemptCount d =
     (case get (settings d) ''pendingRemoteWriteAttempts'' of JNum q \<Rightarrow> if q < 0 then 0 else nat \<lfloor>q\<rfloor> | _ \<Rightarrow> 0)"

definition getPendingRemoteWriteBlockedMs :: "host \<Rightarrow> AppData \<Rightarrow> string \<Rightarrow> int" where
  "getPendingRemoteWriteBlockedMs h d nowIso =
     (case (parse_js h (get (settings d) ''pendingRemoteWriteRetryAt''), date_parse h nowIso) of
        (Some retryAtMs, Some nowMs) \<Rightarrow> max 0 (retryAtMs - nowMs) | _ \<Rightarrow> 0)"

text \<open>What a rejected promise carries: an error object with a name and a message, or any other value.\<close>

datatype js_error = JsError string string | Thrown js

definition isLocalSyncAbortError :: "js_error \<Rightarrow> bool" where
  "isLocalSyncAbortError e = (case e of JsError name _ \<Rightarrow> name = ''LocalSyncAbort'' | Thrown _ \<Rightarrow> False)"

definition getSyncErrorMessage :: "js_error \<Rightarrow> string option" where
  "getSyncErrorMessage e =
     (case e of
        JsError _ message \<Rightarrow> if trim_str message \<noteq> [] then Some (trim_str message) else None
      | Thrown (JStr s) \<Rightarrow> if trim_str s \<noteq> [] then Some (trim_str s) else None
      | Thrown _ \<Rightarrow> None)"

definition retry_backoff :: "nat \<Rightarrow> int" where
  "retry_backoff attempts = min PENDING_REMOTE_WRITE_RETRY_MAX_MS (PENDING_REMOTE_WRITE_RETRY_BASE_MS * 2 ^ (attempts - 1))"

definition withPendingRemoteWriteRetry :: "host \<Rightarrow> AppData \<Rightarrow> string \<Rightarrow> js_error \<Rightarrow> AppData" where
  "withPendingRemoteWriteRetry h d nowIso error =
     (let rawNextAttempts = getPendingRemoteWriteAttemptCount d + 1;
          nextAttempts = min rawNextAttempts PENDING_REMOTE_WRITE_MAX_ATTEMPTS;
          reachedAttemptCeiling = (PENDING_REMOTE_WRITE_MAX_ATTEMPTS \<le> rawNextAttempts);
          baseMs = (case date_parse h nowIso of Some t \<Rightarrow> t | None \<Rightarrow> date_now h);
          message = (if reachedAttemptCeiling
            then ''Remote write failed after 12 attempts. Check your sync backend, then sync again.''
            else (case getSyncErrorMessage error of Some m \<Rightarrow> m | None \<Rightarrow> ''Remote write failed. Retrying in the background.''))
      in d\<lparr>settings := puts (settings d)
           [(''lastSyncStatus'', JStr ''error''), (''lastSyncError'', JStr message),
            (''pendingRemoteWriteRetryAt'', JStr (iso_string (baseMs + retry_backoff nextAttempts))),
            (''pendingRemoteWriteAttempts'', JNum (of_nat nextAttempts))]\<rparr>)"

section \<open>Statistics and history\<close>

definition js_nat :: "nat \<Rightarrow> js" where
  "js_nat n = JNum (of_nat n)"

definition js_int :: "int \<Rightarrow> js" where
  "js_int n = JNum (of_int n)"

definition reason_name :: "ConflictReason \<Rightarrow> string" where
  "reason_name r = (case r of RevisionReason \<Rightarrow> ''revision'' | DeleteStateReason \<Rightarrow> ''deleteState'' | ContentReason \<Rightarrow> ''content'')"

definition str_or_undef :: "string \<Rightarrow> js" where
  "str_or_undef s = (if s = [] then JUndef else JStr s)"

definition sample_js :: "MergeConflictSample \<Rightarrow> js" where
  "sample_js s = JObj
     [(''id'', sample_id s), (''winner'', JStr (case sample_winner s of LocalSide \<Rightarrow> ''local'' | IncomingSide \<Rightarrow> ''incoming'')),
      (''reasons'', JArr (map (JStr \<circ> reason_name) (sample_reasons s))), (''hasRevision'', JBool (sample_hasRevision s)),
      (''timeDiffMs'', js_int (sample_timeDiffMs s)),
      (''localUpdatedAt'', sample_localUpdatedAt s), (''incomingUpdatedAt'', sample_incomingUpdatedAt s),
      (''localDeletedAt'', sample_localDeletedAt s), (''incomingDeletedAt'', sample_incomingDeletedAt s),
      (''localRev'', JNum (sample_localRev s)), (''incomingRev'', JNum (sample_incomingRev s)),
      (''localRevBy'', str_or_undef (sample_localRevBy s)), (''incomingRevBy'', str_or_undef (sample_incomingRevBy s)),
      (''localComparableHash'', JStr (sample_localComparableHash s)), (''incomingComparableHash'', JStr (sample_incomingComparableHash s)),
      (''diffKeys'', JArr (map JStr (sample_diffKeys s)))]"

definition entity_stats_js :: "EntityMergeStats \<Rightarrow> js" where
  "entity_stats_js s = JObj
     [(''localTotal'', js_nat (localTotal s)), (''incomingTotal'', js_nat (incomingTotal s)), (''mergedTotal'', js_nat (mergedTotal s)),
      (''localOnly'', js_nat (localOnly s)), (''incomingOnly'', js_nat (incomingOnly s)), (''conflicts'', js_nat (conflicts s)),
      (''resolvedUsingLocal'', js_nat (resolvedUsingLocal s)), (''resolvedUsingIncoming'', js_nat (resolvedUsingIncoming s)),
      (''deletionsWon'', js_nat (deletionsWon s)), (''conflictIds'', JArr (conflictIds s)),
      (''maxClockSkewMs'', js_int (maxClockSkewMs s)),
      (''maxClockSkewDirection'', case maxClockSkewDirection s of None \<Rightarrow> JUndef | Some LocalAhead \<Rightarrow> JStr ''local-ahead''
         | Some RemoteAhead \<Rightarrow> JStr ''remote-ahead''),
      (''invalidTimestamps'', js_nat (invalidTimestamps s)), (''timestampAdjustments'', js_nat (timestampAdjustments s)),
      (''timestampAdjustmentIds'', JArr (timestampAdjustmentIds s)), (''futureTimestampClamps'', js_nat (futureTimestampClamps s)),
      (''futureTimestampClampIds'', JArr (futureTimestampClampIds s)),
      (''conflictReasonCounts'', JObj (map (\<lambda>(r, n). (reason_name r, js_nat n)) (conflictReasonCounts s))),
      (''conflictSamples'', JArr (map sample_js (conflictSamples s)))]"

definition merge_stats_js :: "MergeStats \<Rightarrow> js" where
  "merge_stats_js s = JObj
     [(''tasks'', entity_stats_js (task_stats s)), (''projects'', entity_stats_js (project_stats s)),
      (''sections'', entity_stats_js (section_stats s)), (''areas'', entity_stats_js (area_stats s)),
      (''people'', entity_stats_js (people_stats s)), (''tombstoneRepairs'', js_nat (tombstoneRepairs s))]"

record MergeStatsSummary =
  sum_conflicts :: nat
  sum_conflictIds :: "js list"
  sum_maxClockSkewMs :: int
  sum_timestampAdjustments :: nat
  sum_deleteVsLiveConflicts :: nat
  sum_futureTimestampClamps :: nat

definition entity_stats_list :: "MergeStats \<Rightarrow> EntityMergeStats list" where
  "entity_stats_list s = [task_stats s, project_stats s, section_stats s, area_stats s, people_stats s]"

definition summarizeMergeStats :: "MergeStats \<Rightarrow> MergeStatsSummary" where
  "summarizeMergeStats stats =
     (let es = entity_stats_list stats in
      \<lparr>sum_conflicts = sum_list (map conflicts es),
       sum_conflictIds = concat (map conflictIds es),
       sum_maxClockSkewMs = foldl max 0 (map maxClockSkewMs es),
       sum_timestampAdjustments = sum_list (map timestampAdjustments es),
       sum_deleteVsLiveConflicts =
         sum_list (map (\<lambda>e. case map_of (conflictReasonCounts e) DeleteStateReason of Some n \<Rightarrow> n | None \<Rightarrow> 0) es),
       sum_futureTimestampClamps = sum_list (map futureTimestampClamps es)\<rparr>)"

definition buildSyncHistoryDetails :: "MergeStats \<Rightarrow> js" where
  "buildSyncHistoryDetails stats =
     (let summary = summarizeMergeStats stats;
          d = sum_deleteVsLiveConflicts summary; f = sum_futureTimestampClamps summary;
          details =
            (if 0 < d then [''Delete-vs-live conflict on '' @ num_str (of_nat d) @ (if d = 1 then '' item'' else '' items'')
               @ ''; live edits can be preserved when delete and edit times are ambiguous.''] else [])
          @ (if 0 < f then [''Future sync timestamp clamp on '' @ num_str (of_nat f) @ (if f = 1 then '' timestamp'' else '' timestamps'')
               @ ''; check device clocks if this repeats.''] else [])
      in if details = [] then JUndef else JStr (join '' '' details))"

section \<open>Input, output and errors\<close>

datatype cycle_event =
    ReadLocal | FlushLocal | ReadRemote | PrepareRemote AppData | WriteLocal AppData | WriteRemote AppData
  | SaveStatus AppData | ClearMarker js

type_synonym ('w, 'a) io_op = "'w \<Rightarrow> (js_error + 'a) \<times> 'w"

record 'w SyncCycleIO =
  io_now :: "string option"
  readLocal :: "('w, js) io_op"
  readRemote :: "('w, js) io_op"
  writeLocal :: "AppData \<Rightarrow> ('w, AppData option) io_op"
  clearPendingRemoteWriteAfterLocalAbort :: "(js \<Rightarrow> ('w, unit) io_op) option"
  flushPendingLocalBeforeRetryRead :: "('w, unit) io_op option"
  prepareRemoteWrite :: "(AppData \<Rightarrow> ('w, AppData option) io_op) option"
  writeRemote :: "AppData \<Rightarrow> ('w, unit) io_op"
  isLocalPersistUnchanged :: "(AppData \<Rightarrow> bool) option"
  persistSyncStatusOnly :: "(AppData \<Rightarrow> ('w, unit) io_op) option"
  preferIncomingCloudKeys :: bool
  skipEmptyRemoteMerge :: bool
  historyContext :: js
  tombstoneRetentionDays :: js

datatype SyncCycleResult =
    CycleSkipped AppData int string
  | CycleDone AppData MergeStats string "(int \<times> ClockSkewDirection) option" bool

text \<open>A step of the cycle: it threads the world and the trace and may throw.\<close>

type_synonym ('w, 'a) run = "'w \<times> cycle_event list \<Rightarrow> (js_error + 'a) \<times> 'w \<times> cycle_event list"

definition ok :: "'a \<Rightarrow> ('w, 'a) run" where
  "ok a s = (Inr a, s)"

definition throw :: "js_error \<Rightarrow> ('w, 'a) run" where
  "throw e s = (Inl e, s)"

definition then_do :: "('w, 'a) run \<Rightarrow> ('a \<Rightarrow> ('w, 'b) run) \<Rightarrow> ('w, 'b) run" where
  "then_do m f s = (case m s of (Inl e, s') \<Rightarrow> (Inl e, s') | (Inr a, s') \<Rightarrow> f a s')"

definition try_catch :: "('w, 'a) run \<Rightarrow> (js_error \<Rightarrow> ('w, 'a) run) \<Rightarrow> ('w, 'a) run" where
  "try_catch m handler s = (case m s of (Inl e, s') \<Rightarrow> handler e s' | (Inr a, s') \<Rightarrow> (Inr a, s'))"

definition call :: "cycle_event \<Rightarrow> ('w, 'a) io_op \<Rightarrow> ('w, 'a) run" where
  "call event operation s = (case operation (fst s) of (r, w) \<Rightarrow> (r, w, snd s @ [event]))"

definition error_of :: "string \<Rightarrow> string list \<Rightarrow> js_error" where
  "error_of prefix errors = JsError ''Error'' (prefix @ join ''; '' (take 3 errors))"

section \<open>Reading\<close>

definition purged_data :: "host \<Rightarrow> 'w SyncCycleIO \<Rightarrow> string \<Rightarrow> AppData \<Rightarrow> AppData" where
  "purged_data h io nowIso d = data (purgeExpiredTombstones h d nowIso (tombstoneRetentionDays io))"

definition readLocalDataForSync :: "host \<Rightarrow> 'w SyncCycleIO \<Rightarrow> string \<Rightarrow> ('w, AppData) run" where
  "readLocalDataForSync h io nowIso =
     then_do (call ReadLocal (readLocal io)) (\<lambda>input.
       case parseSyncDocument input LocalSource of
         Inl errors \<Rightarrow> throw (error_of ''Invalid local sync payload: '' errors)
       | Inr d \<Rightarrow> ok (purged_data h io nowIso d))"

definition readRemoteDataForSync :: "host \<Rightarrow> 'w SyncCycleIO \<Rightarrow> string \<Rightarrow> ('w, AppData) run" where
  "readRemoteDataForSync h io nowIso =
     then_do (call ReadRemote (readRemote io)) (\<lambda>input.
       case parseSyncDocument (coalesce input (JObj [])) RemoteSource of
         Inl errors \<Rightarrow> throw (error_of ''Invalid remote sync payload: '' errors)
       | Inr d \<Rightarrow> ok (purged_data h io nowIso d))"

text \<open>A pending marker found on the first read: its time and the failed attempts so far.\<close>

type_synonym pending_meta = "(js \<times> nat) option"

definition skip_message :: "int \<Rightarrow> string" where
  "skip_message blockedMs =
     ''Sync paused briefly after remote write failure. Retry in about ''
     @ num_str (of_int (max 1 \<lceil>of_int blockedMs / (1000 :: rat)\<rceil>)) @ ''s.''"

definition settle_pending :: "host \<Rightarrow> 'w SyncCycleIO \<Rightarrow> string \<Rightarrow> AppData \<Rightarrow> ('w, AppData \<times> pending_meta) run" where
  "settle_pending h io nowIso localData =
     (if \<not> hasPendingRemoteWriteFlag h localData then ok (localData, None)
      else
        then_do (case flushPendingLocalBeforeRetryRead io of Some flush \<Rightarrow> call FlushLocal flush | None \<Rightarrow> ok ()) (\<lambda>_.
        then_do (readLocalDataForSync h io nowIso) (\<lambda>reread.
          ok (clearPendingRemoteWriteFlag reread,
              Some (get (settings localData) ''pendingRemoteWriteAt'', getPendingRemoteWriteAttemptCount localData)))))"

section \<open>Merging\<close>

definition remote_is_empty :: "AppData \<Rightarrow> bool" where
  "remote_is_empty d \<longleftrightarrow>
     tasks d = [] \<and> projects d = [] \<and> sections d = [] \<and> areas d = [] \<and> people d = [] \<and> keys (settings d) = []"

definition merge_for_cycle :: "host \<Rightarrow> 'w SyncCycleIO \<Rightarrow> string \<Rightarrow> AppData \<Rightarrow> AppData \<Rightarrow> MergeResult" where
  "merge_for_cycle h io nowIso localData remoteData =
     (if skipEmptyRemoteMerge io \<and> remote_is_empty remoteData
      then \<lparr>merged_data = localData, merged_stats = createLocalOnlyMergeStats localData, clockSkewWarning = None\<rparr>
      else mergeAppDataWithStats h localData remoteData
        \<lparr>nowIso_option = JStr nowIso, preferIncomingAttachmentCloudKeys = preferIncomingCloudKeys io\<rparr>)"

definition next_status :: "MergeStats \<Rightarrow> string" where
  "next_status stats = (if 0 < sum_conflicts (summarizeMergeStats stats) then ''conflict'' else ''success'')"

definition history_entry :: "'w SyncCycleIO \<Rightarrow> string \<Rightarrow> MergeStats \<Rightarrow> js" where
  "history_entry io nowIso stats =
     (let summary = summarizeMergeStats stats; context = historyContext io
      in JObj [(''at'', JStr nowIso), (''status'', JStr (next_status stats)), (''backend'', get context ''backend''),
        (''type'', coalesce (get context ''type'') (JStr ''merge'')), (''conflicts'', js_nat (sum_conflicts summary)),
        (''conflictIds'', JArr (take 10 (sum_conflictIds summary))), (''maxClockSkewMs'', js_int (sum_maxClockSkewMs summary)),
        (''timestampAdjustments'', js_nat (sum_timestampAdjustments summary)),
        (''details'', coalesce (get context ''details'') (buildSyncHistoryDetails stats))])"

definition merged_with_status :: "'w SyncCycleIO \<Rightarrow> string \<Rightarrow> MergeResult \<Rightarrow> AppData" where
  "merged_with_status io nowIso result =
     (let d = merged_data result; stats = merged_stats result
      in d\<lparr>settings := puts (settings d)
           [(''lastSyncAt'', JStr nowIso), (''lastSyncStatus'', JStr (next_status stats)), (''lastSyncError'', JUndef),
            (''lastSyncStats'', merge_stats_js stats),
            (''lastSyncHistory'', JArr (appendSyncHistory (settings d) (history_entry io nowIso stats) 50))]\<rparr>)"

definition validated :: "host \<Rightarrow> AppData \<Rightarrow> ('w, AppData) run" where
  "validated h d =
     (let errors = validateMergedSyncData h d
      in if errors \<noteq> [] then throw (error_of ''Sync validation failed: '' errors) else ok d)"

definition prepared :: "host \<Rightarrow> 'w SyncCycleIO \<Rightarrow> AppData \<Rightarrow> ('w, AppData) run" where
  "prepared h io finalData =
     (case prepareRemoteWrite io of
        None \<Rightarrow> ok finalData
      | Some prepare \<Rightarrow>
          then_do (call (PrepareRemote finalData) (prepare finalData)) (\<lambda>preparedData.
            validated h (case preparedData of Some d \<Rightarrow> d | None \<Rightarrow> finalData)))"

section \<open>Writing\<close>

text \<open>The retry schedule that a failed remote write leaves in the local store.\<close>

definition schedule_retry :: "host \<Rightarrow> 'w SyncCycleIO \<Rightarrow> string \<Rightarrow> AppData \<Rightarrow> js_error \<Rightarrow> ('w, 'a) run" where
  "schedule_retry h io nowIso d e =
     (let retry = withPendingRemoteWriteRetry h d nowIso e
      in then_do (call (WriteLocal retry) (writeLocal io retry)) (\<lambda>_. throw e))"

definition write_unchanged :: "host \<Rightarrow> 'w SyncCycleIO \<Rightarrow> string \<Rightarrow> MergeResult \<Rightarrow> (AppData \<Rightarrow> ('w, unit) io_op)
    \<Rightarrow> AppData \<Rightarrow> ('w, SyncCycleResult) run" where
  "write_unchanged h io nowIso result persistStatus finalData =
     then_do (try_catch (call (WriteRemote finalData) (writeRemote io finalData))
       (\<lambda>e. if isLocalSyncAbortError e then throw e else schedule_retry h io nowIso finalData e)) (\<lambda>_.
     then_do (try_catch (call (SaveStatus finalData) (persistStatus finalData)) (\<lambda>_. ok ())) (\<lambda>_.
       ok (CycleDone finalData (merged_stats result) (next_status (merged_stats result)) (clockSkewWarning result) True)))"

definition clear_after_abort :: "'w SyncCycleIO \<Rightarrow> js \<Rightarrow> js_error \<Rightarrow> ('w, 'a) run" where
  "clear_after_abort io pendingAt e =
     then_do (case clearPendingRemoteWriteAfterLocalAbort io of
         Some clear \<Rightarrow> call (ClearMarker pendingAt) (clear pendingAt) | None \<Rightarrow> ok ()) (\<lambda>_. throw e)"

text \<open>The marked document is saved, its unmarked form published, and saved again without the marker.\<close>

definition publish_marked :: "host \<Rightarrow> 'w SyncCycleIO \<Rightarrow> string \<Rightarrow> MergeResult \<Rightarrow> AppData \<Rightarrow> AppData \<Rightarrow> ('w, SyncCycleResult) run" where
  "publish_marked h io nowIso result marked canonicalMarked =
     (let persisted = clearPendingRemoteWriteFlag canonicalMarked;
          pendingAt = get (settings marked) ''pendingRemoteWriteAt''
      in then_do (try_catch (call (WriteRemote persisted) (writeRemote io persisted))
           (\<lambda>e. if isLocalSyncAbortError e then clear_after_abort io pendingAt e
                else schedule_retry h io nowIso canonicalMarked e)) (\<lambda>_.
         then_do (try_catch (call (WriteLocal persisted) (writeLocal io persisted))
           (\<lambda>e. if isLocalSyncAbortError e then clear_after_abort io pendingAt e else throw e)) (\<lambda>saved.
           ok (CycleDone (case saved of Some d \<Rightarrow> d | None \<Rightarrow> persisted) (merged_stats result)
                (next_status (merged_stats result)) (clockSkewWarning result) False))))"

definition write_both :: "host \<Rightarrow> 'w SyncCycleIO \<Rightarrow> string \<Rightarrow> MergeResult \<Rightarrow> pending_meta \<Rightarrow> AppData \<Rightarrow> ('w, SyncCycleResult) run" where
  "write_both h io nowIso result pending finalData =
     (let pendingAt = (case pending of Some (since, _) \<Rightarrow> coalesce since (JStr nowIso) | None \<Rightarrow> JStr nowIso);
          attempts = (case pending of Some (_, attempts) \<Rightarrow> attempts | None \<Rightarrow> 0);
          marked = withPendingRemoteWriteFlag finalData pendingAt attempts
      in then_do (call (WriteLocal marked) (writeLocal io marked)) (\<lambda>canonical.
           publish_marked h io nowIso result marked (case canonical of Some d \<Rightarrow> d | None \<Rightarrow> marked)))"

definition write_cycle :: "host \<Rightarrow> 'w SyncCycleIO \<Rightarrow> string \<Rightarrow> MergeResult \<Rightarrow> pending_meta \<Rightarrow> AppData \<Rightarrow> ('w, SyncCycleResult) run" where
  "write_cycle h io nowIso result pending finalData =
     (case (pending, isLocalPersistUnchanged io, persistSyncStatusOnly io) of
        (None, Some unchanged, Some persistStatus) \<Rightarrow>
          if unchanged finalData then write_unchanged h io nowIso result persistStatus finalData
          else write_both h io nowIso result pending finalData
      | _ \<Rightarrow> write_both h io nowIso result pending finalData)"

section \<open>The cycle\<close>

definition merge_and_write :: "host \<Rightarrow> 'w SyncCycleIO \<Rightarrow> string \<Rightarrow> AppData \<times> pending_meta \<Rightarrow> ('w, SyncCycleResult) run" where
  "merge_and_write h io nowIso local =
     then_do (readRemoteDataForSync h io nowIso) (\<lambda>remoteData.
       let result = merge_for_cycle h io nowIso (fst local) remoteData
       in then_do (validated h (purged_data h io nowIso (merged_with_status io nowIso result))) (\<lambda>mergedData.
          then_do (prepared h io mergedData) (\<lambda>finalData.
            write_cycle h io nowIso result (snd local) finalData)))"

definition cycle_now :: "host \<Rightarrow> 'w SyncCycleIO \<Rightarrow> string" where
  "cycle_now h io = (case io_now io of Some s \<Rightarrow> s | None \<Rightarrow> iso_string (date_now h))"

definition performSyncCycleUnlocked :: "host \<Rightarrow> 'w SyncCycleIO \<Rightarrow> ('w, SyncCycleResult) run" where
  "performSyncCycleUnlocked h io =
     (let nowIso = cycle_now h io in
      then_do (readLocalDataForSync h io nowIso) (\<lambda>localData.
        let blockedMs = getPendingRemoteWriteBlockedMs h localData nowIso
        in if hasPendingRemoteWriteFlag h localData \<and> 0 < blockedMs
           then ok (CycleSkipped localData blockedMs (skip_message blockedMs))
           else then_do (settle_pending h io nowIso localData) (merge_and_write h io nowIso)))"

end
