(* ===== verification/Cycle_Properties.thy ===== *)
theory Cycle_Properties
  imports Sync_Cycle
begin

text \<open>
  What a cycle does to the two stores, whatever the back ends answer: the order of its writes,
  what a failure leaves behind, and when it writes nothing.
\<close>

section \<open>Reasoning about traces\<close>

text \<open>\<open>emits m Q\<close>: whatever \<open>m\<close> returns, the events it added satisfy \<open>Q\<close> together with the result.\<close>

definition emits :: "('w, 'a) run \<Rightarrow> (js_error + 'a \<Rightarrow> cycle_event list \<Rightarrow> bool) \<Rightarrow> bool" where
  "emits m Q \<longleftrightarrow> (\<forall>s. \<exists>es. snd (snd (m s)) = snd s @ es \<and> Q (fst (m s)) es)"

lemma emitsE:
  assumes "emits m P" obtains es where "snd (snd (m s)) = snd s @ es" "P (fst (m s)) es"
  using assms unfolding emits_def by meson

named_theorems emits_rules "how the events of a step come from those of its parts"

lemma emits_ok [emits_rules]: "Q (Inr a) [] \<Longrightarrow> emits (ok a) Q"
  by (simp add: emits_def ok_def)

lemma emits_throw [emits_rules]: "Q (Inl e) [] \<Longrightarrow> emits (throw e) Q"
  by (simp add: emits_def throw_def)

lemma emits_call [emits_rules]: "(\<And>r. Q r [event]) \<Longrightarrow> emits (call event operation) Q"
  by (auto simp: emits_def call_def split: prod.split)

lemma emits_then:
  assumes "emits m P" "\<And>a. emits (f a) (R a)"
    and "\<And>e es. P (Inl e) es \<Longrightarrow> Q (Inl e) es" "\<And>a es r es'. P (Inr a) es \<Longrightarrow> R a r es' \<Longrightarrow> Q r (es @ es')"
  shows "emits (then_do m f) Q"
  unfolding emits_def
proof
  fix s
  from assms(1) obtain es where es: "snd (snd (m s)) = snd s @ es" "P (fst (m s)) es" by (rule emitsE)
  show "\<exists>es. snd (snd (then_do m f s)) = snd s @ es \<and> Q (fst (then_do m f s)) es"
  proof -
    obtain r s' where Pair: "m s = (r, s')" by (rule prod.exhaust)
    show ?thesis
    proof (cases r)
      case (Inl e)
      with Pair es assms(3) show ?thesis by (auto simp: then_do_def)
    next
      case (Inr a)
      from emitsE [OF assms(2)] obtain es' where "snd (snd (f a s')) = snd s' @ es'" "R a (fst (f a s')) es'" .
      with Pair Inr es assms(4) [of a es "fst (f a s')" es'] show ?thesis by (auto simp: then_do_def)
    qed
  qed
qed

lemma emits_catch:
  assumes "emits m P" "\<And>e. emits (handler e) (R e)"
    and "\<And>a es. P (Inr a) es \<Longrightarrow> Q (Inr a) es" "\<And>e es r es'. P (Inl e) es \<Longrightarrow> R e r es' \<Longrightarrow> Q r (es @ es')"
  shows "emits (try_catch m handler) Q"
  unfolding emits_def
proof
  fix s
  from assms(1) obtain es where es: "snd (snd (m s)) = snd s @ es" "P (fst (m s)) es" by (rule emitsE)
  show "\<exists>es. snd (snd (try_catch m handler s)) = snd s @ es \<and> Q (fst (try_catch m handler s)) es"
  proof -
    obtain r s' where Pair: "m s = (r, s')" by (rule prod.exhaust)
    show ?thesis
    proof (cases r)
      case (Inr a)
      with Pair es assms(3) show ?thesis by (auto simp: try_catch_def)
    next
      case (Inl e)
      from emitsE [OF assms(2)] obtain es' where "snd (snd (handler e s')) = snd s' @ es'" "R e (fst (handler e s')) es'" .
      with Pair Inl es assms(4) [of e es "fst (handler e s')" es'] show ?thesis by (auto simp: try_catch_def)
    qed
  qed
qed

lemma emits_mono: "emits m P \<Longrightarrow> (\<And>r es. P r es \<Longrightarrow> Q r es) \<Longrightarrow> emits m Q"
  unfolding emits_def by meson

lemma emits_run: "emits m Q \<Longrightarrow> Q (fst (m (w, []))) (snd (snd (m (w, []))))"
  unfolding emits_def by (metis append_Nil snd_conv)

section \<open>Steps that write nothing\<close>

fun is_write :: "cycle_event \<Rightarrow> bool" where
  "is_write (WriteLocal d) = True"
| "is_write (WriteRemote d) = True"
| "is_write _ = False"

definition quiet :: "js_error + 'a \<Rightarrow> cycle_event list \<Rightarrow> bool" where
  "quiet r es \<longleftrightarrow> filter is_write es = []"

lemma quiet_then:
  assumes "emits m quiet" "\<And>a. emits (f a) quiet" shows "emits (then_do m f) quiet"
  by (rule emits_then [OF assms]) (auto simp: quiet_def)

lemma quiet_call: "\<not> is_write event \<Longrightarrow> emits (call event operation) quiet"
  by (auto intro!: emits_rules simp: quiet_def)

lemma quiet_ok: "emits (ok a) quiet"
  by (auto intro!: emits_rules simp: quiet_def)

lemma quiet_throw: "emits (throw e) quiet"
  by (auto intro!: emits_rules simp: quiet_def)

lemma quiet_read: "emits (readLocalDataForSync h io n) quiet" "emits (readRemoteDataForSync h io n) quiet"
  unfolding readLocalDataForSync_def readRemoteDataForSync_def
  by (auto intro!: quiet_then quiet_call quiet_ok quiet_throw split: sum.split)

lemma quiet_settle: "emits (settle_pending h io n d) quiet"
  unfolding settle_pending_def by (auto intro!: quiet_then quiet_call quiet_ok quiet_read split: option.split)

definition valid_or_error :: "host \<Rightarrow> js_error + AppData \<Rightarrow> cycle_event list \<Rightarrow> bool" where
  "valid_or_error h r es \<longleftrightarrow> filter is_write es = [] \<and> (\<forall>d. r = Inr d \<longrightarrow> validateMergedSyncData h d = [])"

lemma validated_emits: "emits (validated h d) (valid_or_error h)"
  unfolding validated_def Let_def by (auto intro!: emits_rules simp: valid_or_error_def)

lemma prepared_emits: "validateMergedSyncData h d = [] \<Longrightarrow> emits (prepared h io d) (valid_or_error h)"
proof (cases "prepareRemoteWrite io")
  case (Some prepare)
  have "emits (then_do (call (PrepareRemote d) (prepare d)) (\<lambda>p. validated h (case p of Some d' \<Rightarrow> d' | None \<Rightarrow> d))) (valid_or_error h)"
    by (rule emits_then [where P = quiet, OF quiet_call validated_emits]) (auto simp: quiet_def valid_or_error_def)
  with Some show ?thesis by (simp add: prepared_def)
qed (auto intro!: emits_rules simp: prepared_def valid_or_error_def)

section \<open>The writes of a cycle\<close>

text \<open>The sequences of writes a cycle may make for a validated document \<open>d\<close>; \<open>saved\<close> is the marked
  document as the store returned it.\<close>

inductive publishes :: "host \<Rightarrow> string \<Rightarrow> AppData \<Rightarrow> cycle_event list \<Rightarrow> bool" for h nowIso d where
  nothing: "publishes h nowIso d []"
| unchanged: "publishes h nowIso d [WriteRemote d]"
| unchanged_failed: "publishes h nowIso d [WriteRemote d, WriteLocal (withPendingRemoteWriteRetry h d nowIso e)]"
| marked_only: "publishes h nowIso d [WriteLocal (withPendingRemoteWriteFlag d since n)]"
| marked: "publishes h nowIso d
    [WriteLocal (withPendingRemoteWriteFlag d since n), WriteRemote (clearPendingRemoteWriteFlag saved)]"
| failed: "publishes h nowIso d
    [WriteLocal (withPendingRemoteWriteFlag d since n), WriteRemote (clearPendingRemoteWriteFlag saved),
     WriteLocal (withPendingRemoteWriteRetry h saved nowIso e)]"
| completed: "publishes h nowIso d
    [WriteLocal (withPendingRemoteWriteFlag d since n), WriteRemote (clearPendingRemoteWriteFlag saved),
     WriteLocal (clearPendingRemoteWriteFlag saved)]"

lemma schedule_retry_emits:
  "emits (schedule_retry h io n d e :: ('w, 'a) run) (\<lambda>r es. es = [WriteLocal (withPendingRemoteWriteRetry h d n e)] \<and> (\<exists>x. r = Inl x))"
  unfolding schedule_retry_def Let_def
  by (rule emits_then [where P = "\<lambda>r es. es = [WriteLocal (withPendingRemoteWriteRetry h d n e)]" and R = "\<lambda>_ r es. r = Inl e \<and> es = []"])
    (auto intro!: emits_rules)

lemma clear_after_abort_emits: "emits (clear_after_abort io v e :: ('w, 'a) run) (\<lambda>r es. filter is_write es = [] \<and> (\<exists>x. r = Inl x))"
proof -
  have "emits (case clearPendingRemoteWriteAfterLocalAbort io of Some clear \<Rightarrow> call (ClearMarker v) (clear v) | None \<Rightarrow> ok ()) quiet"
    by (auto intro!: quiet_call quiet_ok split: option.split)
  then show ?thesis
    unfolding clear_after_abort_def
    by (rule emits_then [where R = "\<lambda>_ r es. r = Inl e \<and> es = []"]) (auto intro!: emits_rules simp: quiet_def)
qed

lemma remote_write_emits:
  fixes handler :: "js_error \<Rightarrow> ('w, unit) run"
  assumes "\<And>e. emits (handler e) (\<lambda>r es. filter is_write es = [] \<and> (\<exists>x. r = Inl x))"
  shows "emits (try_catch (call (WriteRemote p) operation)
      (\<lambda>e. if isLocalSyncAbortError e then handler e else schedule_retry h io n d e))
    (\<lambda>r es. (\<exists>es'. es = WriteRemote p # es' \<and> filter is_write es' = [])
        \<or> (\<exists>e x. es = [WriteRemote p, WriteLocal (withPendingRemoteWriteRetry h d n e)] \<and> r = Inl x))"
proof (rule emits_catch [where P = "\<lambda>r es. es = [WriteRemote p]"])
  fix e
  show "emits (if isLocalSyncAbortError e then handler e else schedule_retry h io n d e)
      (\<lambda>r es. (\<exists>x. r = Inl x) \<and> (filter is_write es = [] \<or> es = [WriteLocal (withPendingRemoteWriteRetry h d n e)]))"
    using emits_mono [OF assms] emits_mono [OF schedule_retry_emits] by (smt (verit))
qed (auto intro!: emits_rules)

lemma write_unchanged_emits:
  "emits (write_unchanged h io n res persist d) (\<lambda>r es. publishes h n d (filter is_write es))"
proof -
  have throw: "emits (throw e :: ('w, unit) run) (\<lambda>r es. filter is_write es = [] \<and> (\<exists>x. r = Inl x))" for e
    by (auto intro!: emits_rules)
  have status: "emits (then_do (try_catch (call (SaveStatus d) (persist d)) (\<lambda>_. ok ())) (\<lambda>_. ok c)) quiet" for c
    by (intro quiet_then emits_catch [where P = quiet and R = "\<lambda>_. quiet"] quiet_call quiet_ok) (auto simp: quiet_def)
  show ?thesis
    unfolding write_unchanged_def
    by (rule emits_then [OF remote_write_emits [OF throw] status])
      (auto simp: quiet_def intro: publishes.intros)
qed

lemma local_write_emits:
  "emits (try_catch (call (WriteLocal p) operation)
      (\<lambda>e. if isLocalSyncAbortError e then clear_after_abort io v e else throw e) :: ('w, AppData option) run)
    (\<lambda>r es. filter is_write es = [WriteLocal p])"
proof (rule emits_catch [where P = "\<lambda>r es. es = [WriteLocal p]"])
  fix e
  show "emits (if isLocalSyncAbortError e then clear_after_abort io v e else throw e :: ('w, AppData option) run)
      (\<lambda>r es. filter is_write es = [])"
    using emits_mono [OF clear_after_abort_emits, where Q = "\<lambda>r es. filter is_write es = []"] by (auto intro!: emits_rules)
qed (auto intro!: emits_rules)

lemma publish_marked_emits:
  "emits (publish_marked h io n res marked saved)
    (\<lambda>r es. filter is_write es \<in> {[WriteRemote (clearPendingRemoteWriteFlag saved)],
        [WriteRemote (clearPendingRemoteWriteFlag saved), WriteLocal (clearPendingRemoteWriteFlag saved)]}
      \<or> (\<exists>e. filter is_write es = [WriteRemote (clearPendingRemoteWriteFlag saved), WriteLocal (withPendingRemoteWriteRetry h saved n e)]))"
proof -
  let ?p = "clearPendingRemoteWriteFlag saved"
  have last: "emits (then_do (try_catch (call (WriteLocal ?p) (writeLocal io ?p))
      (\<lambda>e. if isLocalSyncAbortError e then clear_after_abort io v e else throw e)) (\<lambda>x. ok (c x)))
    (\<lambda>r es. filter is_write es = [WriteLocal ?p])" for v and c :: "AppData option \<Rightarrow> SyncCycleResult"
    by (rule emits_then [OF local_write_emits quiet_ok]) (auto simp: quiet_def)
  show ?thesis
    unfolding publish_marked_def Let_def
    by (rule emits_then [OF remote_write_emits [OF clear_after_abort_emits] last]) auto
qed

lemma write_both_emits:
  "emits (write_both h io n res pending d) (\<lambda>r es. publishes h n d (filter is_write es))"
  unfolding write_both_def Let_def
  by (rule emits_then [where P = "\<lambda>r es. es = [WriteLocal (withPendingRemoteWriteFlag d
        (case pending of Some (since, _) \<Rightarrow> coalesce since (JStr n) | None \<Rightarrow> JStr n)
        (case pending of Some (_, attempts) \<Rightarrow> attempts | None \<Rightarrow> 0))]", OF _ publish_marked_emits])
    (auto intro!: emits_rules intro: publishes.intros)

lemma write_cycle_emits:
  "emits (write_cycle h io n res pending d) (\<lambda>r es. publishes h n d (filter is_write es))"
  by (auto simp: write_cycle_def write_both_emits write_unchanged_emits split: option.split)

lemma merge_and_write_emits:
  "emits (merge_and_write h io n local)
    (\<lambda>r es. filter is_write es = [] \<or> (\<exists>d. validateMergedSyncData h d = [] \<and> publishes h n d (filter is_write es)))"
proof -
  have final: "emits (then_do (prepared h io d) (\<lambda>d'. write_cycle h io n res (snd local) d'))
      (\<lambda>r es. filter is_write es = [] \<or> (\<exists>d. validateMergedSyncData h d = [] \<and> publishes h n d (filter is_write es)))"
    if "validateMergedSyncData h d = []" for d res
    by (rule emits_then [OF prepared_emits [OF that] write_cycle_emits]) (auto simp: valid_or_error_def)
  have step: "emits (then_do (validated h x) (\<lambda>d. then_do (prepared h io d) (\<lambda>d'. write_cycle h io n res (snd local) d')))
      (\<lambda>r es. filter is_write es = [] \<or> (\<exists>d. validateMergedSyncData h d = [] \<and> publishes h n d (filter is_write es)))" for x res
  proof (cases "validateMergedSyncData h x = []")
    case True
    then have "then_do (validated h x) f = f x" for f :: "AppData \<Rightarrow> ('a, SyncCycleResult) run"
      by (auto simp: fun_eq_iff then_do_def validated_def ok_def)
    with final [OF True] show ?thesis by simp
  next
    case False
    then have "then_do (validated h x) f = throw (error_of ''Sync validation failed: '' (validateMergedSyncData h x))"
      for f :: "AppData \<Rightarrow> ('a, SyncCycleResult) run"
      by (auto simp: fun_eq_iff then_do_def validated_def throw_def Let_def)
    then show ?thesis by (auto intro!: emits_rules)
  qed
  show ?thesis
    unfolding merge_and_write_def Let_def
    by (rule emits_then [OF quiet_read(2) step]) (auto simp: quiet_def)
qed


section \<open>Reliable back ends\<close>

lemma emits_call_prop:
  fixes operation :: "('w, 'a) io_op"
  assumes "\<And>w. \<exists>a w'. operation w = (Inr a, w') \<and> P a" "\<And>a. P a \<Longrightarrow> Q (Inr a) [event]"
  shows "emits (call event operation) Q"
  unfolding emits_def
proof
  fix s :: "'w \<times> cycle_event list"
  from assms(1) obtain a w' where "operation (fst s) = (Inr a, w')" "P a" by blast
  with assms(2) show "\<exists>es. snd (snd (call event operation s)) = snd s @ es \<and> Q (fst (call event operation s)) es"
    by (auto simp: call_def)
qed

lemma emits_call_ok: "(\<And>w. \<exists>a w'. operation w = (Inr a, w')) \<Longrightarrow> (\<And>a. Q (Inr a) [event]) \<Longrightarrow> emits (call event operation) Q"
  by (rule emits_call_prop [where P = "\<lambda>_. True"]) auto

definition always :: "('w, 'a) io_op \<Rightarrow> bool" where
  "always operation \<longleftrightarrow> (\<forall>w. \<exists>a w'. operation w = (Inr a, w'))"

text \<open>Nothing fails, the stores hold well-formed payloads, and no preparation step changes the document.\<close>

definition reliable :: "'w SyncCycleIO \<Rightarrow> bool" where
  "reliable io \<longleftrightarrow>
     (\<forall>w. \<exists>v w'. readLocal io w = (Inr v, w') \<and> validateSyncPayloadShape v ''local'' = [])
     \<and> (\<forall>w. \<exists>v w'. readRemote io w = (Inr v, w') \<and> validateSyncPayloadShape (coalesce v (JObj [])) ''remote'' = [])
     \<and> (\<forall>d. always (writeLocal io d)) \<and> (\<forall>d. always (writeRemote io d))
     \<and> (\<forall>flush. flushPendingLocalBeforeRetryRead io = Some flush \<longrightarrow> always flush)
     \<and> prepareRemoteWrite io = None"

definition succeeds :: "js_error + 'a \<Rightarrow> cycle_event list \<Rightarrow> bool" where
  "succeeds r es \<longleftrightarrow> filter is_write es = [] \<and> (\<exists>a. r = Inr a)"

lemma succeeds_then: "emits m succeeds \<Longrightarrow> (\<And>a. emits (f a) succeeds) \<Longrightarrow> emits (then_do m f) succeeds"
  by (rule emits_then [where P = succeeds and R = "\<lambda>_. succeeds"]) (auto simp: succeeds_def)

lemma reliable_reads:
  assumes "reliable io"
  shows "emits (readLocalDataForSync h io n) succeeds" "emits (readRemoteDataForSync h io n) succeeds"
proof -
  have l: "emits (call ReadLocal (readLocal io))
      (\<lambda>r es. es = [ReadLocal] \<and> (\<exists>v. r = Inr v \<and> validateSyncPayloadShape v ''local'' = []))"
    by (rule emits_call_prop [where P = "\<lambda>v. validateSyncPayloadShape v ''local'' = []"]) (use assms in \<open>auto simp: reliable_def\<close>)
  have r: "emits (call ReadRemote (readRemote io))
      (\<lambda>r es. es = [ReadRemote] \<and> (\<exists>v. r = Inr v \<and> validateSyncPayloadShape (coalesce v (JObj [])) ''remote'' = []))"
    by (rule emits_call_prop [where P = "\<lambda>v. validateSyncPayloadShape (coalesce v (JObj [])) ''remote'' = []"])
      (use assms in \<open>auto simp: reliable_def\<close>)
  have parse: "emits (case parseSyncDocument v src of Inl errors \<Rightarrow> throw (x errors) | Inr d \<Rightarrow> ok (purged_data h io n d))
      (\<lambda>r es. validateSyncPayloadShape v (source_name src) = [] \<longrightarrow> succeeds r es)" for v src x
    by (auto intro!: emits_rules simp: parseSyncDocument_def Let_def succeeds_def split: sum.split)
  show "emits (readLocalDataForSync h io n) succeeds"
    unfolding readLocalDataForSync_def
    by (rule emits_then [OF l parse]) (auto simp: succeeds_def source_name_def)
  show "emits (readRemoteDataForSync h io n) succeeds"
    unfolding readRemoteDataForSync_def
    by (rule emits_then [OF r parse]) (auto simp: succeeds_def source_name_def)
qed

lemma reliable_settle:
  assumes "reliable io" shows "emits (settle_pending h io n d) succeeds"
proof -
  have "emits (ok a) succeeds" for a :: 'b by (auto intro!: emits_rules simp: succeeds_def)
  moreover have "emits (case flushPendingLocalBeforeRetryRead io of Some flush \<Rightarrow> call FlushLocal flush | None \<Rightarrow> ok ()) succeeds"
    using assms by (auto intro!: emits_call_ok emits_ok simp: succeeds_def reliable_def always_def split: option.split)
  ultimately show ?thesis
    unfolding settle_pending_def by (auto intro!: succeeds_then reliable_reads [OF assms])
qed

text \<open>A finished cycle: either the local store already held the document, or the store and the remote end up
  with the same one, without a marker.\<close>

definition finished :: "js_error + SyncCycleResult \<Rightarrow> cycle_event list \<Rightarrow> bool" where
  "finished r es \<longleftrightarrow> (\<exists>d stats status warning.
     (r = Inr (CycleDone d stats status warning True) \<and> filter is_write es = [WriteRemote d])
     \<or> (\<exists>m p. r = Inr (CycleDone d stats status warning False) \<and> filter is_write es = [WriteLocal m, WriteRemote p, WriteLocal p]
         \<and> \<not> truthy (get (settings p) ''pendingRemoteWriteAt'')))"

lemma cleared: "\<not> truthy (get (settings (clearPendingRemoteWriteFlag d)) ''pendingRemoteWriteAt'')"
  by (simp add: clearPendingRemoteWriteFlag_def)

lemma catch_ok: "emits m Q \<Longrightarrow> (\<And>r es. Q r es \<Longrightarrow> \<exists>a. r = Inr a) \<Longrightarrow> emits (try_catch m handler) Q"
proof -
  assume m: "emits m Q" and ok: "\<And>r es. Q r es \<Longrightarrow> \<exists>a. r = Inr a"
  have "try_catch m handler s = m s" for s
  proof -
    from emitsE [OF m, of s] ok obtain a where "fst (m s) = Inr a" by metis
    then show ?thesis by (cases "m s") (auto simp: try_catch_def)
  qed
  with m show ?thesis by (simp add: emits_def)
qed

lemma reliable_write:
  assumes "reliable io" shows "emits (write_cycle h io n res pending d) finished"
proof -
  have ops: "\<exists>a w'. writeLocal io x w = (Inr a, w')" "\<exists>a w'. writeRemote io x w = (Inr a, w')" for x w
    using assms by (simp_all add: reliable_def always_def)
  have w: "emits (call (WriteLocal x) (writeLocal io x)) (\<lambda>r es. es = [WriteLocal x] \<and> (\<exists>a. r = Inr a))"
    and p: "emits (call (WriteRemote x) (writeRemote io x)) (\<lambda>r es. es = [WriteRemote x] \<and> (\<exists>a. r = Inr a))" for x
    by (rule emits_call_ok, rule ops, simp)+
  have local: "emits (try_catch (call (WriteLocal x) (writeLocal io x)) handler) (\<lambda>r es. es = [WriteLocal x] \<and> (\<exists>a. r = Inr a))"
    and remote: "emits (try_catch (call (WriteRemote x) (writeRemote io x)) handler2) (\<lambda>r es. es = [WriteRemote x] \<and> (\<exists>a. r = Inr a))"
    for x handler handler2
    by (rule catch_ok [OF w], blast) (rule catch_ok [OF p], blast)
  have last: "emits (then_do (try_catch (call (WriteLocal x) (writeLocal io x)) handler) (\<lambda>saved. ok (CycleDone (g saved) st s c False)))
      (\<lambda>r es. es = [WriteLocal x] \<and> (\<exists>e. r = Inr (CycleDone e st s c False)))" for x handler g st s c
    by (rule emits_then [OF local, where R = "\<lambda>a r es. r = Inr (CycleDone (g a) st s c False) \<and> es = []"]) (auto intro: emits_ok)
  have publish: "emits (publish_marked h io n res m saved)
      (\<lambda>r es. es = [WriteRemote (clearPendingRemoteWriteFlag saved), WriteLocal (clearPendingRemoteWriteFlag saved)]
        \<and> (\<exists>e st s c. r = Inr (CycleDone e st s c False)))" for m saved
    unfolding publish_marked_def Let_def by (rule emits_then [OF remote last]) auto
  have both: "emits (write_both h io n res pending d) finished"
    unfolding write_both_def Let_def
    by (rule emits_then [OF w publish]) (auto simp: finished_def cleared)
  have "emits (write_unchanged h io n res persist d) finished" for persist
  proof -
    have save: "emits (try_catch (call (SaveStatus d) (persist d)) (\<lambda>_. ok ())) succeeds"
      by (rule emits_catch [where P = quiet and R = "\<lambda>_ r es. r = Inr () \<and> es = []"])
        (auto intro!: quiet_call emits_ok simp: quiet_def succeeds_def)
    have then_save: "emits (then_do (try_catch (call (SaveStatus d) (persist d)) (\<lambda>_. ok ())) (\<lambda>_. ok c))
        (\<lambda>r es. r = Inr c \<and> filter is_write es = [])" for c :: SyncCycleResult
      by (rule emits_then [OF save, where R = "\<lambda>_ r es. r = Inr c \<and> es = []"]) (auto intro: emits_ok simp: succeeds_def)
    show ?thesis
      unfolding write_unchanged_def
      by (rule emits_then [OF remote then_save]) (auto simp: finished_def succeeds_def)
  qed
  with both show ?thesis by (auto simp: write_cycle_def split: option.split)
qed

definition outcome :: "js_error + SyncCycleResult \<Rightarrow> cycle_event list \<Rightarrow> bool" where
  "outcome r es \<longleftrightarrow>
     (\<exists>d ms message. r = Inr (CycleSkipped d ms message) \<and> 0 < ms \<and> filter is_write es = [])
     \<or> (\<exists>errors. r = Inl (error_of ''Sync validation failed: '' errors) \<and> errors \<noteq> [] \<and> filter is_write es = [])
     \<or> finished r es"

lemma reliable_merge_and_write:
  assumes "reliable io" shows "emits (merge_and_write h io n local) outcome"
proof -
  have step: "emits (then_do (validated h x) (\<lambda>d. then_do (prepared h io d) (\<lambda>d'. write_cycle h io n res (snd local) d'))) outcome" for x res
  proof (cases "validateMergedSyncData h x = []")
    case True
    then have "then_do (validated h x) f = f x" for f :: "AppData \<Rightarrow> ('a, SyncCycleResult) run"
      by (auto simp: fun_eq_iff then_do_def validated_def ok_def)
    moreover have "prepared h io x = ok x" using assms by (simp add: prepared_def reliable_def)
    moreover have "then_do (ok x) f = f x" for f :: "AppData \<Rightarrow> ('a, SyncCycleResult) run"
      by (auto simp: fun_eq_iff then_do_def ok_def)
    ultimately show ?thesis using emits_mono [OF reliable_write [OF assms], where Q = outcome] by (simp add: outcome_def)
  next
    case False
    then have "then_do (validated h x) f = throw (error_of ''Sync validation failed: '' (validateMergedSyncData h x))"
      for f :: "AppData \<Rightarrow> ('a, SyncCycleResult) run"
      by (auto simp: fun_eq_iff then_do_def validated_def throw_def Let_def)
    moreover from False have "outcome (Inl (error_of ''Sync validation failed: '' (validateMergedSyncData h x))) []"
      unfolding outcome_def by (simp only: filter.simps) blast
    ultimately show ?thesis by (auto intro: emits_throw)
  qed
  show ?thesis
    unfolding merge_and_write_def Let_def
    by (rule emits_then [OF reliable_reads(2) [OF assms] step]) (auto simp: succeeds_def outcome_def finished_def)
qed


definition empty_stores :: "unit SyncCycleIO" where
  "empty_stores = \<lparr>io_now = Some ''2024-03-01T12:00:00.000Z'',
     readLocal = (\<lambda>w. (Inr (JObj []), w)), readRemote = (\<lambda>w. (Inr JNull, w)), writeLocal = (\<lambda>d w. (Inr None, w)),
     clearPendingRemoteWriteAfterLocalAbort = None, flushPendingLocalBeforeRetryRead = None, prepareRemoteWrite = None,
     writeRemote = (\<lambda>d w. (Inr (), w)), isLocalPersistUnchanged = None, persistSyncStatusOnly = None,
     preferIncomingCloudKeys = False, skipEmptyRemoteMerge = True, historyContext = JUndef, tombstoneRetentionDays = JUndef\<rparr>"


section \<open>Pauses and refusals\<close>

text \<open>
  A cycle that finds a pending marker whose retry time has not come touches nothing but the local read: it
  returns the local document and the time left, and reads no remote, so a failing backend is not
  hammered.
\<close>

theorem paused_cycle_only_reads:
  assumes "readLocal io w = (Inr v, w')" "parseSyncDocument v LocalSource = Inr d"
    and "hasPendingRemoteWriteFlag h (purged_data h io (cycle_now h io) d)"
    and "0 < getPendingRemoteWriteBlockedMs h (purged_data h io (cycle_now h io) d) (cycle_now h io)"
  shows "\<exists>message. performSyncCycleUnlocked h io (w, []) =
    (Inr (CycleSkipped (purged_data h io (cycle_now h io) d)
       (getPendingRemoteWriteBlockedMs h (purged_data h io (cycle_now h io) d) (cycle_now h io)) message), w', [ReadLocal])"
  using assms by (simp add: performSyncCycleUnlocked_def Let_def readLocalDataForSync_def then_do_def call_def ok_def)

text \<open>
  A remote payload that is refused stops the cycle before the merge: it fails with the first three
  messages and neither store is written.
\<close>

theorem refused_remote_stops_cycle:
  assumes "readLocal io w = (Inr v, w')" "parseSyncDocument v LocalSource = Inr d"
    and "\<not> hasPendingRemoteWriteFlag h (purged_data h io (cycle_now h io) d)"
    and "readRemote io w' = (Inr u, w2)" "parseSyncDocument (coalesce u (JObj [])) RemoteSource = Inl errors"
  shows "performSyncCycleUnlocked h io (w, []) =
    (Inl (error_of ''Invalid remote sync payload: '' errors), w2, [ReadLocal, ReadRemote])"
  using assms by (simp add: performSyncCycleUnlocked_def Let_def readLocalDataForSync_def readRemoteDataForSync_def settle_pending_def
      merge_and_write_def then_do_def call_def ok_def throw_def)

lemma purged_settings:
  "k \<noteq> ''savedFilters'' \<Longrightarrow> k \<noteq> ''attachments'' \<Longrightarrow> get (settings (purged_data h io n d)) k = get (settings d) k"
  by (simp add: purged_data_def purgeExpiredTombstones_def prune_pending_deletes_def prune_saved_filters_def Let_def
      split: option.split prod.split)

definition waiting_payload :: js where
  "waiting_payload = JObj [(''settings'', JObj [(''pendingRemoteWriteAt'', JStr ''2024-03-01T11:59:00.000Z''),
     (''pendingRemoteWriteRetryAt'', JStr ''2024-03-01T12:00:05.000Z''), (''pendingRemoteWriteAttempts'', JNum 1)])]"

definition waiting_stores :: "unit SyncCycleIO" where
  "waiting_stores = empty_stores\<lparr>readLocal := (\<lambda>w. (Inr waiting_payload, w))\<rparr>"

theorem paused_cycle_only_reads_witness:
  "\<exists>d ms message. performSyncCycleUnlocked host0 waiting_stores ((), []) = (Inr (CycleSkipped d ms message), (), [ReadLocal])"
proof -
  let ?d = "normalizeAppData waiting_payload" and ?n = "''2024-03-01T12:00:00.000Z''"
  have n: "cycle_now host0 waiting_stores = ?n" by (simp add: cycle_now_def waiting_stores_def empty_stores_def)
  have p: "validateSyncPayloadShape waiting_payload (source_name LocalSource) = []" by code_simp
  have at: "get (settings ?d) ''pendingRemoteWriteAt'' = JStr ''2024-03-01T11:59:00.000Z''"
    and retry: "get (settings ?d) ''pendingRemoteWriteRetryAt'' = JStr ''2024-03-01T12:00:05.000Z''" by code_simp+
  have "isValidTimestamp host0 (JStr ''2024-03-01T11:59:00.000Z'')" by code_simp
  then have f: "hasPendingRemoteWriteFlag host0 (purged_data host0 waiting_stores ?n ?d)"
    by (simp add: hasPendingRemoteWriteFlag_def purged_settings at)
  have "date_parse host0 ?n = Some 1709294400000" "date_parse host0 ''2024-03-01T12:00:05.000Z'' = Some 1709294405000"
    by code_simp+
  then have b: "0 < getPendingRemoteWriteBlockedMs host0 (purged_data host0 waiting_stores ?n ?d) ?n"
    by (simp add: getPendingRemoteWriteBlockedMs_def purged_settings retry)
  have r: "readLocal waiting_stores () = (Inr waiting_payload, ())" by (simp add: waiting_stores_def)
  have q: "parseSyncDocument waiting_payload LocalSource = Inr ?d" by (simp add: parseSyncDocument_def p)
  from paused_cycle_only_reads [OF r q, of host0] f b show ?thesis unfolding n by blast
qed

definition broken_remote :: "unit SyncCycleIO" where
  "broken_remote = empty_stores\<lparr>readRemote := (\<lambda>w. (Inr (JObj [(''tasks'', JStr ''x'')]), w))\<rparr>"

theorem refused_remote_stops_cycle_witness:
  "\<exists>errors. performSyncCycleUnlocked host0 broken_remote ((), []) =
     (Inl (error_of ''Invalid remote sync payload: '' errors), (), [ReadLocal, ReadRemote])"
proof -
  let ?d = "normalizeAppData (JObj [])" and ?n = "''2024-03-01T12:00:00.000Z''" and ?u = "JObj [(''tasks'', JStr ''x'')]"
  have n: "cycle_now host0 broken_remote = ?n" by (simp add: cycle_now_def broken_remote_def empty_stores_def)
  have l: "validateSyncPayloadShape (JObj []) (source_name LocalSource) = []"
    and u: "validateSyncPayloadShape ?u (source_name RemoteSource) \<noteq> []"
    and "get (settings ?d) ''pendingRemoteWriteAt'' = JUndef" by code_simp+
  then have f: "\<not> hasPendingRemoteWriteFlag host0 (purged_data host0 broken_remote ?n ?d)"
    by (simp add: hasPendingRemoteWriteFlag_def purged_settings isValidTimestamp_def)
  have r: "readLocal broken_remote () = (Inr (JObj []), ())" "readRemote broken_remote () = (Inr ?u, ())"
    by (simp_all add: broken_remote_def empty_stores_def)
  have q: "parseSyncDocument (JObj []) LocalSource = Inr ?d" by (simp add: parseSyncDocument_def l)
  have c: "coalesce ?u (JObj []) = ?u" by (simp add: coalesce_def nullish_def)
  obtain errors where e: "parseSyncDocument (coalesce ?u (JObj [])) RemoteSource = Inl errors"
    unfolding c using u by (simp add: parseSyncDocument_def)
  from refused_remote_stops_cycle [OF r(1) q _ r(2) e, of host0] f show ?thesis unfolding n by blast
qed

section \<open>Backoff\<close>

lemma day_from_year_mono: "x \<le> y \<Longrightarrow> day_from_year x \<le> day_from_year y"
  by (induction y rule: int_ge_induct) (auto simp: day_from_year_Suc)

lemma year_of_day_range:
  assumes "0 \<le> n" "n < 2932897"
  shows "0 \<le> year_of_day n \<and> year_of_day n \<le> 9999"
proof (rule ccontr)
  assume "\<not> ?thesis"
  then have "year_of_day n + 1 \<le> 0 \<or> 10000 \<le> year_of_day n" by linarith
  then have "day_from_year (year_of_day n + 1) \<le> day_from_year 0 \<or> day_from_year 10000 \<le> day_from_year (year_of_day n)"
    using day_from_year_mono by blast
  moreover have "day_from_year 0 < 0" "day_from_year 10000 = 2932897" by (simp_all add: day_from_year_def)
  ultimately show False using year_of_day_bounds [of n] assms by linarith
qed

lemma date_parse_iso_range: "0 \<le> t \<Longrightarrow> t \<le> 253402300799999 \<Longrightarrow> date_parse h (iso_string t) = Some t"
proof -
  assume t: "0 \<le> t" "t \<le> 253402300799999"
  then have "0 \<le> t div 86400000" by (simp add: pos_imp_zdiv_nonneg_iff)
  moreover have "t div 86400000 < 2932897" using zdiv_mono1 [OF t(2), of 86400000] by simp
  ultimately show ?thesis using date_parse_iso_string [of t h] year_of_day_range t by (simp add: max_time_def)
qed

lemma retry_backoff_bounds: "5000 \<le> retry_backoff n \<and> retry_backoff n \<le> 300000"
proof -
  have "(1::int) \<le> 2 ^ (n - 1)" by simp
  then show ?thesis
    unfolding retry_backoff_def PENDING_REMOTE_WRITE_RETRY_MAX_MS_def PENDING_REMOTE_WRITE_RETRY_BASE_MS_def by linarith
qed

text \<open>
  The retry schedule after a failed publication: the attempt counter grows by one and stops at 12, the
  delay is between 5 seconds and 5 minutes, the status is an error with a message, and the pending
  marker is kept. Read back at any instant, the document is blocked exactly for the rest of the delay.
\<close>

theorem retry_schedule_bounds:
  assumes "date_parse h nowIso = Some t" "0 \<le> t" "t + 300000 \<le> 253402300799999"
  shows "let r = withPendingRemoteWriteRetry h d nowIso e; attempts = getPendingRemoteWriteAttemptCount r in
      attempts = min 12 (getPendingRemoteWriteAttemptCount d + 1)
    \<and> 5000 \<le> retry_backoff attempts \<and> retry_backoff attempts \<le> 300000
    \<and> get (settings r) ''lastSyncStatus'' = JStr ''error'' \<and> is_str (get (settings r) ''lastSyncError'')
    \<and> get (settings r) ''pendingRemoteWriteAt'' = get (settings d) ''pendingRemoteWriteAt''
    \<and> (\<forall>later. getPendingRemoteWriteBlockedMs h r later =
         (case date_parse h later of Some t' \<Rightarrow> max 0 (t + retry_backoff attempts - t') | None \<Rightarrow> 0))"
proof -
  define n where "n = min (getPendingRemoteWriteAttemptCount d + 1) PENDING_REMOTE_WRITE_MAX_ATTEMPTS"
  define r where "r = withPendingRemoteWriteRetry h d nowIso e"
  have at: "get (settings r) ''pendingRemoteWriteRetryAt'' = JStr (iso_string (t + retry_backoff n))"
    and count: "get (settings r) ''pendingRemoteWriteAttempts'' = JNum (of_nat n)"
    and keep: "get (settings r) ''lastSyncStatus'' = JStr ''error''" "is_str (get (settings r) ''lastSyncError'')"
      "get (settings r) ''pendingRemoteWriteAt'' = get (settings d) ''pendingRemoteWriteAt''"
    by (simp_all add: r_def withPendingRemoteWriteRetry_def Let_def assms(1) n_def puts_def)
  have attempts: "getPendingRemoteWriteAttemptCount r = n" by (simp add: getPendingRemoteWriteAttemptCount_def count)
  have "date_parse h (iso_string (t + retry_backoff n)) = Some (t + retry_backoff n)"
    by (rule date_parse_iso_range) (use assms retry_backoff_bounds [of n] in linarith)+
  then have "getPendingRemoteWriteBlockedMs h r later =
      (case date_parse h later of Some t' \<Rightarrow> max 0 (t + retry_backoff n - t') | None \<Rightarrow> 0)" for later
    by (simp add: getPendingRemoteWriteBlockedMs_def at split: option.split)
  moreover have "n = min 12 (getPendingRemoteWriteAttemptCount d + 1)"
    by (simp add: n_def PENDING_REMOTE_WRITE_MAX_ATTEMPTS_def min.commute)
  ultimately show ?thesis
    using keep retry_backoff_bounds [of n] unfolding r_def [symmetric] Let_def attempts by blast
qed

theorem retry_schedule_bounds_witness:
  "getPendingRemoteWriteBlockedMs host0
     (withPendingRemoteWriteRetry host0 (normalizeAppData JNull) ''2024-03-01T12:00:00.000Z'' (Thrown JNull)) ''2024-03-01T12:00:02.000Z'' = 3000"
proof -
  have now: "date_parse host0 ''2024-03-01T12:00:00.000Z'' = Some 1709294400000"
    and later: "date_parse host0 ''2024-03-01T12:00:02.000Z'' = Some 1709294402000" by code_simp+
  have "getPendingRemoteWriteAttemptCount (normalizeAppData JNull) = 0" by code_simp
  with retry_schedule_bounds [OF now, of "normalizeAppData JNull" "Thrown JNull"] later show ?thesis
    by (simp add: Let_def retry_backoff_def PENDING_REMOTE_WRITE_RETRY_MAX_MS_def PENDING_REMOTE_WRITE_RETRY_BASE_MS_def)
qed

end
