(* ===== verification/Merge_Properties.thy ===== *)
theory Merge_Properties
  imports Sync_Convergence
begin

text \<open>
  What the entity merge guarantees besides convergence: the statistics add up, timestamps of
  merged entities are in order, merging again is a no-op, and the rules that decide between a
  deletion and a live edit and between two revisions.
\<close>

section \<open>Statistics\<close>

definition statsOf :: "EntityMergeStats \<Rightarrow> nat \<times> nat \<times> nat \<times> nat" where
  "statsOf st = (localOnly st, incomingOnly st, resolvedUsingLocal st + resolvedUsingIncoming st, conflicts st)"

definition samples_bounded :: "EntityMergeStats \<Rightarrow> bool" where
  "samples_bounded st \<longleftrightarrow> length (conflictIds st) = min 20 (conflicts st)
     \<and> length (conflictSamples st) = min CONFLICT_SAMPLE_LIMIT (conflicts st)"

lemmas count_defs = count_adjustment_def count_clamps_def count_conflict_def count_invalid_def
  count_winner_def count_sample_def push_upto_def Let_def

lemma statsOf_count [simp]:
  "statsOf (count_adjustment r st) = statsOf st"
  "statsOf (count_clamps h m key l i st) = statsOf st"
  "statsOf (count_invalid h l i st) = statsOf st"
  "statsOf (count_sample h m nrm key l i w st) = statsOf st"
  by (simp_all add: statsOf_def count_defs)

lemma statsOf_count_conflict:
  "statsOf (count_conflict h m nrm key l i st) =
     (case statsOf st of (a, b, c, d) \<Rightarrow> (a, b, c, d + of_bool (differs nrm l i)))"
  by (simp add: statsOf_def count_defs)

lemma statsOf_count_winner:
  "statsOf (count_winner nrm l i w st) = (case statsOf st of (a, b, c, d) \<Rightarrow> (a, b, c + 1, d))"
  by (simp add: statsOf_def count_defs)

lemma statsOf_merge_pair:
  "statsOf (snd (merge_pair h m mc nrm key l i st)) =
     (case statsOf st of (x, y, z, u) \<Rightarrow> (x, y, z + 1,
        u + of_bool (differs nrm (fst (normalizeTimestamps h (Some i) l)) (fst (normalizeTimestamps h (Some l) i)))))"
  by (cases "statsOf st") (simp add: merge_pair_def Let_def statsOf_count_winner statsOf_count_conflict)

lemma statsOf_merge_single:
  "statsOf (snd (merge_single h w e st)) =
     (case statsOf st of (a, b, c, d) \<Rightarrow>
        (a + of_bool (w = LocalSide), b + of_bool (w = IncomingSide), c + 1, d))"
  by (cases w) (simp_all add: merge_single_def Let_def statsOf_def count_adjustment_def)

lemma statsOf_merge_step:
  assumes "key \<in> set (all_ids A B)" "statsOf st = (x, y, z, u)"
  shows "\<exists>b. statsOf (snd (merge_step h m mc nrm (id_map A) (id_map B) (es, st) key)) =
    (x + of_bool (key \<notin> set (ids B)), y + of_bool (key \<notin> set (ids A)), z + 1,
     u + of_bool (key \<in> set (ids A) \<inter> set (ids B) \<and> b))"
proof (cases rule: id_map_cases [of A key])
  case absent
  then show ?thesis using assms
    by (cases rule: id_map_cases [of B key])
       (auto simp: merge_step_def Let_def statsOf_merge_single set_all_ids)
next
  case (present l)
  note l = this
  show ?thesis
  proof (cases rule: id_map_cases [of B key])
    case absent
    then show ?thesis using assms l by (auto simp: merge_step_def Let_def statsOf_merge_single)
  next
    case (present i)
    then show ?thesis using l assms(2) by (auto simp: merge_step_def Let_def statsOf_merge_pair)
  qed
qed

lemma statsOf_merge_fold:
  assumes "set ks \<subseteq> set (all_ids A B)" "statsOf st = (x, y, z, u)"
  shows "\<exists>c. statsOf (snd (foldl (merge_step h m mc nrm (id_map A) (id_map B)) (es, st) ks)) =
      (x + length (filter (\<lambda>k. k \<notin> set (ids B)) ks), y + length (filter (\<lambda>k. k \<notin> set (ids A)) ks), z + length ks, c)
    \<and> c \<le> u + length (filter (\<lambda>k. k \<in> set (ids A) \<inter> set (ids B)) ks)"
  using assms
proof (induction ks arbitrary: es st x y z u)
  case Nil
  then show ?case by simp
next
  case (Cons k ks)
  obtain es' st' where step: "merge_step h m mc nrm (id_map A) (id_map B) (es, st) k = (es', st')"
    by fastforce
  with statsOf_merge_step [of k A B st x y z u h m mc nrm es] Cons.prems obtain b where
    "statsOf st' = (x + of_bool (k \<notin> set (ids B)), y + of_bool (k \<notin> set (ids A)), z + 1,
       u + of_bool (k \<in> set (ids A) \<inter> set (ids B) \<and> b))"
    by (metis list.set_intros(1) snd_conv subset_code(1))
  from Cons.IH [OF _ this, of es'] Cons.prems(1) show ?case
    by (cases b) (auto simp: step split: if_splits)
qed

lemma length_filter_card: "distinct ks \<Longrightarrow> length (filter P ks) = card {k \<in> set ks. P k}"
  by (metis distinct_card distinct_filter set_filter)

definition sampleSizes :: "EntityMergeStats \<Rightarrow> nat \<times> nat \<times> nat" where
  "sampleSizes st = (conflicts st, length (conflictIds st), length (conflictSamples st))"

lemma sampleSizes_count [simp]:
  "sampleSizes (count_adjustment r st) = sampleSizes st"
  "sampleSizes (count_clamps h m key l i st) = sampleSizes st"
  "sampleSizes (count_invalid h l i st) = sampleSizes st"
  "sampleSizes (count_winner nrm l i w st) = sampleSizes st"
  "sampleSizes (snd (merge_single h w e st)) = sampleSizes st"
  by (simp_all add: sampleSizes_def count_defs merge_single_def split: side.split)

lemma sampleSizes_count_conflict:
  "sampleSizes (count_conflict h m nrm key l i st) =
     (case sampleSizes st of (c, n, k) \<Rightarrow> if differs nrm l i then (c + 1, if n < 20 then n + 1 else n, k) else (c, n, k))"
  by (simp add: sampleSizes_def count_defs)

lemma sampleSizes_count_sample:
  "sampleSizes (count_sample h m nrm key l i w st) =
     (case sampleSizes st of (c, n, k) \<Rightarrow>
        (c, n, if differs nrm l i \<and> k < CONFLICT_SAMPLE_LIMIT then k + 1 else k))"
  by (simp add: sampleSizes_def count_sample_def)

lemma samples_bounded_sizes:
  "samples_bounded st \<longleftrightarrow>
     (case sampleSizes st of (c, n, k) \<Rightarrow> n = min 20 c \<and> k = min CONFLICT_SAMPLE_LIMIT c)"
  by (simp add: samples_bounded_def sampleSizes_def)

lemma samples_bounded_merge_pair: "samples_bounded st \<Longrightarrow> samples_bounded (snd (merge_pair h m mc nrm key l i st))"
  by (cases "sampleSizes st")
     (simp add: samples_bounded_sizes merge_pair_def Let_def sampleSizes_count_conflict sampleSizes_count_sample min_def)

lemma samples_bounded_fold:
  "samples_bounded (snd acc) \<Longrightarrow> samples_bounded (snd (foldl (merge_step h m mc nrm lm im) acc ks))"
proof (induction ks arbitrary: acc)
  case (Cons k ks)
  have "samples_bounded (snd (merge_step h m mc nrm lm im acc k))"
    using Cons.prems samples_bounded_merge_pair
    by (auto simp: merge_step_def Let_def samples_bounded_sizes split: option.split)
  from Cons.IH [OF this] show ?case by simp
qed simp

lemma all_ids_partition:
  "length (filter (\<lambda>k. k \<notin> set (ids B)) (all_ids A B)) = card (set (ids A) - set (ids B))"
  "length (filter (\<lambda>k. k \<notin> set (ids A)) (all_ids A B)) = card (set (ids B) - set (ids A))"
  "length (filter (\<lambda>k. k \<in> set (ids A) \<and> k \<in> set (ids B)) (all_ids A B)) = card (set (ids A) \<inter> set (ids B))"
  "length (all_ids A B) = card (set (ids A) \<union> set (ids B))"
  by (auto simp: length_filter_card set_all_ids distinct_card [symmetric] intro!: arg_cong [where f = card])

text \<open>
  The statistics of a merge add up: every merged entity is counted once as resolved to the
  local or the incoming copy, the one-sided entities are exactly those whose id the other side
  lacks, only entities on both sides can conflict, and the conflict lists are complete up to
  their caps of 20 ids and 5 samples.
\<close>

theorem merge_stats_account:
  "let r = mergeEntitiesWithStats h A B mc nrm nowIso; st = snd r
   in mergedTotal st = length (fst r)
    \<and> resolvedUsingLocal st + resolvedUsingIncoming st = card (set (ids A) \<union> set (ids B))
    \<and> localOnly st = card (set (ids A) - set (ids B))
    \<and> incomingOnly st = card (set (ids B) - set (ids A))
    \<and> conflicts st \<le> card (set (ids A) \<inter> set (ids B))
    \<and> length (conflictIds st) = min 20 (conflicts st)
    \<and> length (conflictSamples st) = min CONFLICT_SAMPLE_LIMIT (conflicts st)"
proof -
  let ?fold = "foldl (merge_step h (maxAllowedMergeTime h nowIso) mc nrm (id_map A) (id_map B))
    ([], createEmptyEntityStats (length A) (length B)) (all_ids A B)"
  have "statsOf (createEmptyEntityStats (length A) (length B)) = (0, 0, 0, 0)"
    by (simp add: statsOf_def createEmptyEntityStats_def)
  from statsOf_merge_fold [OF subset_refl this, where A = A and B = B and h = h and m = "maxAllowedMergeTime h nowIso" and mc = mc and nrm = nrm
      and es = "[]"] obtain c where
    fold: "statsOf (snd ?fold) = (card (set (ids A) - set (ids B)), card (set (ids B) - set (ids A)),
      card (set (ids A) \<union> set (ids B)), c)" "c \<le> card (set (ids A) \<inter> set (ids B))"
    by (auto simp: all_ids_partition)
  have bounded: "samples_bounded (snd ?fold)"
    by (rule samples_bounded_fold) (simp add: samples_bounded_def createEmptyEntityStats_def)
  show ?thesis
    using fold bounded
    by (simp add: mergeEntitiesWithStats_def Let_def statsOf_def samples_bounded_def)
qed

section \<open>Timestamps\<close>

definition time_ordered :: "host \<Rightarrow> entity \<Rightarrow> bool" where
  "time_ordered h e \<longleftrightarrow>
     \<not> truthy (get e ''createdAt'') \<or>
     (case (date_time h (get e ''createdAt''), date_time h (get e ''updatedAt'')) of
        (Some createdTime, Some updatedTime) \<Rightarrow> createdTime \<le> updatedTime | _ \<Rightarrow> True)"

lemma time_ordered_iff: "time_ordered h e \<longleftrightarrow> normalizeTimestamps h None e = (e, False)"
  by (auto simp: time_ordered_def normalizeTimestamps_def split: option.splits if_splits)

lemma time_ordered_fixed: "time_ordered h e \<Longrightarrow> normalizeTimestamps h c e = (e, False)"
  by (auto simp: time_ordered_def normalizeTimestamps_def split: option.splits)

lemma time_ordered_normalize: "time_ordered h (fst (normalizeTimestamps h c e))"
  by (simp add: time_ordered_iff normalizeTimestamps_stable)

text \<open>
  Every merged entity that has a creation time is created no later than it was updated,
  whatever the two inputs said and whatever the conflict handler produced: the precondition of
  the payload validation.
\<close>

theorem merge_time_ordered:
  "list_all (time_ordered h) (fst (mergeEntitiesWithStats h A B mc nrm nowIso))"
proof -
  have "time_ordered h (the (join_opt (merged_one h) (merged_both h m mc) (map_of (id_map A) key) (map_of (id_map B) key)))"
    if "key \<in> set (all_ids A B)" for key m
    using that
    by (cases rule: id_map_cases [of A key]; cases rule: id_map_cases [of B key])
       (auto simp: set_all_ids merged_one_def merged_both_def Let_def time_ordered_normalize)
  then show ?thesis by (simp add: mergeEntitiesWithStats_refines keyed_join_def list_all_iff)
qed

section \<open>Merging again\<close>

locale idempotent_join = entity_join +
  assumes one_absorb: "ok e \<Longrightarrow> one (one e) = one e"
    and both_one_right: "ok e \<Longrightarrow> both (one e) e = one e"
    and both_absorb: "ok l \<Longrightarrow> ok i \<Longrightarrow> both (both l i) i = both l i"
    and both_self: "ok e \<Longrightarrow> both e e = one e"
begin

lemma all_ids_absorb: "all_ids (keyed_join one both A B) B = all_ids A B"
proof -
  have "map fst (id_map (keyed_join one both A B)) = all_ids A B"
    using keyed_join_ids [of A B] by (simp add: id_map_distinct keyed_join_distinct ids_def comp_def)
  moreover have "set (map fst (id_map B)) \<subseteq> set (all_ids A B)"
    by (auto simp: all_ids_def)
  ultimately show ?thesis
    unfolding all_ids_def [of "keyed_join one both A B"] by (simp add: uniq_absorb)
qed

lemma keyed_join_absorb:
  assumes "\<forall>e\<in>set A \<union> set B. ok e"
  shows "keyed_join one both (keyed_join one both A B) B = keyed_join one both A B"
proof -
  have "join_opt one both (map_of (id_map (keyed_join one both A B)) key) (map_of (id_map B) key)
      = join_opt one both (map_of (id_map A) key) (map_of (id_map B) key)" for key
    using assms unfolding keyed_join_lookup
    by (cases rule: id_map_cases [of A key]; cases rule: id_map_cases [of B key])
       (auto simp: one_absorb both_one_right both_absorb)
  then show ?thesis
    by (subst keyed_join_def) (simp add: all_ids_absorb keyed_join_def [of one both A B, symmetric])
qed

end

definition settled :: "host \<Rightarrow> entity \<Rightarrow> bool" where
  "settled h e \<longleftrightarrow> has_id e \<and> time_ordered h e"

lemma merged_one_settled: "time_ordered h e \<Longrightarrow> merged_one h e = e"
  by (simp add: merged_one_def time_ordered_fixed)

lemma merged_both_settled:
  "time_ordered h l \<Longrightarrow> time_ordered h i \<Longrightarrow> merged_both h m None l i = item_of (resolveWinner h m l i) l i"
  by (simp add: merged_both_plain time_ordered_fixed)

lemma item_of_self [simp]: "item_of w e e = e"
  by (cases w) (simp_all add: item_of_def)

lemma item_of_either: "item_of w l i = l \<or> item_of w l i = i"
  by (cases w) (simp_all add: item_of_def)

interpretation settled_merge: idempotent_join "settled h" "merged_one h" "merged_both h maxT None" toDeterministicSignature
  for h maxT
proof
  fix l i
  assume l: "settled h l" and i: "settled h i"
  then have both: "merged_both h maxT None l i = item_of (resolveWinner h maxT l i) l i"
    by (simp add: merged_both_settled settled_def)
  show "settled h (merged_both h maxT None l i)"
    using l i item_of_either [of "resolveWinner h maxT l i" l i] by (auto simp: both)
  show "merged_both h maxT None (merged_both h maxT None l i) i = merged_both h maxT None l i"
    using item_of_either [of "resolveWinner h maxT l i" l i] i by (auto simp: both merged_both_settled settled_def)
  show "toDeterministicSignature (merged_both h maxT None i l) = toDeterministicSignature (merged_both h maxT None l i)"
    using l i by (simp add: merged_both_plain_commute settled_def)
qed (auto simp: settled_def merged_one_settled merged_both_settled plain_merge.one_id plain_merge.both_id)

text \<open>
  C8. A cycle that finds the remote unchanged changes nothing: merging the same incoming
  collection into an already merged one gives the merged one, entity by entity and in the same
  order.
\<close>

theorem merge_again_is_noop:
  assumes "\<forall>e\<in>set A \<union> set B. settled h e"
  shows "fst (mergeEntitiesWithStats h (fst (mergeEntitiesWithStats h A B None nrm nowIso)) B None nrm nowIso) =
         fst (mergeEntitiesWithStats h A B None nrm nowIso)"
  unfolding mergeEntitiesWithStats_refines using assms by (rule settled_merge.keyed_join_absorb)

theorem merge_again_is_noop_witness:
  "let a = task_at ''Buy milk'' 3 ''2024-02-01T00:00:00.000Z''; b = task_at ''Buy oat milk'' 2 ''2024-03-01T00:00:00.000Z''
   in settled host0 a \<and> settled host0 b \<and>
      fst (mergeEntitiesWithStats host0 (fst (mergeEntitiesWithStats host0 [a] [b] None None JUndef)) [b] None None JUndef) =
      fst (mergeEntitiesWithStats host0 [a] [b] None None JUndef)"
proof -
  let ?a = "task_at ''Buy milk'' 3 ''2024-02-01T00:00:00.000Z''" and ?b = "task_at ''Buy oat milk'' 2 ''2024-03-01T00:00:00.000Z''"
  have ok: "settled host0 ?a" "settled host0 ?b" by (simp_all add: settled_def time_ordered_def has_id_def example_facts)
  then have "\<forall>e\<in>set [?a] \<union> set [?b]. settled host0 e" by simp
  from merge_again_is_noop [OF this, of None JUndef] ok show ?thesis by (simp only: Let_def simp_thms)
qed

lemma differs_self: "\<not> differs nrm e e"
  by (simp add: differs_def unresolvedDeleteStateDiff_def contentDiff_def)

lemma conflicts_sizes: "conflicts st = fst (sampleSizes st)"
  by (simp add: sampleSizes_def)

lemma conflicts_merge_step_self:
  "conflicts (snd (merge_step h m mc nrm lm lm acc key)) = conflicts (snd acc)"
proof -
  have "conflicts (snd (merge_pair h m mc nrm key l l st)) = conflicts st" for l st
    by (cases "sampleSizes st")
       (simp add: conflicts_sizes merge_pair_def Let_def differs_self sampleSizes_count_conflict sampleSizes_count_sample)
  then show ?thesis by (simp add: merge_step_def Let_def conflicts_sizes split: option.split)
qed

lemma conflicts_merge_fold_self:
  "conflicts (snd (foldl (merge_step h m mc nrm lm lm) acc ks)) = conflicts (snd acc)"
  by (induction ks arbitrary: acc) (simp_all add: conflicts_merge_step_self)

lemma all_ids_self: "distinct (ids A) \<Longrightarrow> all_ids A A = ids A"
  by (simp add: all_ids_def id_map_distinct comp_def ids_def [symmetric] uniq_absorb)

text \<open>
  Merging a collection with an identical copy of itself gives it back and reports no
  conflict: a device that syncs against its own last write does nothing.
\<close>

theorem merge_self:
  assumes "\<forall>e\<in>set A. settled h e" "distinct (ids A)"
  shows "fst (mergeEntitiesWithStats h A A None nrm nowIso) = A
       \<and> conflicts (snd (mergeEntitiesWithStats h A A None nrm nowIso)) = 0"
proof
  have "the (join_opt (merged_one h) (merged_both h m None) (map_of (id_map A) (get e ''id'')) (map_of (id_map A) (get e ''id''))) = e"
    if "e \<in> set A" for e m
    using that assms by (simp add: map_of_id_map_distinct settled_def merged_both_settled)
  then show "fst (mergeEntitiesWithStats h A A None nrm nowIso) = A"
    using assms(2) by (simp add: mergeEntitiesWithStats_refines keyed_join_def all_ids_self ids_def map_idI)
  show "conflicts (snd (mergeEntitiesWithStats h A A None nrm nowIso)) = 0"
    by (simp add: mergeEntitiesWithStats_def Let_def conflicts_merge_fold_self createEmptyEntityStats_def)
qed

theorem merge_self_witness:
  "let a = task_at ''Buy milk'' 3 ''2024-02-01T00:00:00.000Z''
   in settled host0 a \<and> distinct (ids [a]) \<and> fst (mergeEntitiesWithStats host0 [a] [a] None None JUndef) = [a]
    \<and> conflicts (snd (mergeEntitiesWithStats host0 [a] [a] None None JUndef)) = 0"
proof -
  let ?a = "task_at ''Buy milk'' 3 ''2024-02-01T00:00:00.000Z''"
  have ok: "settled host0 ?a" by (simp add: settled_def time_ordered_def has_id_def example_facts)
  with merge_self [of "[?a]" host0 None JUndef] show ?thesis by (simp add: Let_def)
qed

section \<open>Who wins\<close>

text \<open>The merged entity under a key that both sides have.\<close>

lemma merged_lookup:
  assumes "map_of (id_map A) key = Some l" "map_of (id_map B) key = Some i" "time_ordered h l" "time_ordered h i"
  shows "map_of (id_map (fst (mergeEntitiesWithStats h A B None nrm nowIso))) key =
    Some (item_of (resolveWinner h (maxAllowedMergeTime h nowIso) l i) l i)"
  using assms by (simp add: mergeEntitiesWithStats_refines plain_merge.keyed_join_lookup merged_both_settled)

text \<open>
  C7. Delete against live, clear order: when one side deleted an entity and the other holds it
  live, and their last operations lie more than 30 seconds apart, the later operation wins on
  both devices, whatever the revisions say. (An entity restored from a backup is the
  exception, below.)
\<close>

theorem later_operation_wins:
  assumes "map_of (id_map A) key = Some l" "map_of (id_map B) key = Some i" "time_ordered h l" "time_ordered h i"
    and "deleted l \<noteq> deleted i" "\<not> isBackupRestoreLiveCandidate l" "\<not> isBackupRestoreLiveCandidate i"
    and "resolveOperationTime h (maxAllowedMergeTime h nowIso) i + DELETE_VS_LIVE_AMBIGUOUS_WINDOW_MS
         < resolveOperationTime h (maxAllowedMergeTime h nowIso) l"
  shows "map_of (id_map (fst (mergeEntitiesWithStats h A B None nrm nowIso))) key = Some l
       \<and> map_of (id_map (fst (mergeEntitiesWithStats h B A None nrm nowIso))) key = Some l"
proof -
  let ?m = "maxAllowedMergeTime h nowIso"
  have "resolveWinner h ?m l i = LocalSide"
    using assms(5-8)
    by (auto simp: resolveWinner_def resolveDeleteVsLiveWinner_def restoreWinner_def operationDiff_def Let_def
        DELETE_VS_LIVE_AMBIGUOUS_WINDOW_MS_def)
  moreover have "resolveWinner h ?m i l = flip (resolveWinner h ?m l i)"
    using resolveDeleteVsLiveWinner_flip [OF assms(5)] assms(5) by (auto simp: resolveWinner_def)
  ultimately show ?thesis using assms(1-4) by (simp add: merged_lookup item_of_def)
qed

theorem later_operation_wins_witness:
  "map_of (id_map (fst (mergeEntitiesWithStats host0 [tomb_at 2 ''2024-03-01T00:01:00.000Z'']
      [task_at ''Buy milk'' 9 ''2024-03-01T00:00:00.000Z''] None None (JStr ''2024-04-01T00:00:00.000Z'')))) (JStr ''t1'') = Some (tomb_at 2 ''2024-03-01T00:01:00.000Z'')
   \<and> map_of (id_map (fst (mergeEntitiesWithStats host0 [task_at ''Buy milk'' 9 ''2024-03-01T00:00:00.000Z'']
      [tomb_at 2 ''2024-03-01T00:01:00.000Z''] None None (JStr ''2024-04-01T00:00:00.000Z'')))) (JStr ''t1'') = Some (tomb_at 2 ''2024-03-01T00:01:00.000Z'')"
  by (rule later_operation_wins [where l = "tomb_at 2 ''2024-03-01T00:01:00.000Z''"
      and i = "task_at ''Buy milk'' 9 ''2024-03-01T00:00:00.000Z''"];
      simp add: example_facts id_map_def js_map_def time_ordered_def deleted_def isBackupRestoreLiveCandidate_def hasRevision_def
        item_rev_def operationDiff_def resolveOperationTime_def updated_time_def parseMergeTimestamp_def maxAllowedMergeTime_def
        DELETE_VS_LIVE_AMBIGUOUS_WINDOW_MS_def CLOCK_SKEW_THRESHOLD_MS_def Let_def)

text \<open>
  Delete against live, ambiguous order: within the 30 second window the higher revision
  wins, and at equal revisions the live copy is kept, so a racing delete never loses an edit.
\<close>

theorem ambiguous_delete_keeps_live:
  assumes "map_of (id_map A) key = Some l" "map_of (id_map B) key = Some i" "time_ordered h l" "time_ordered h i"
    and "deleted l" "\<not> deleted i" "\<not> isBackupRestoreLiveCandidate i" "hasRevision l i"
    and "\<bar>operationDiff h (maxAllowedMergeTime h nowIso) l i\<bar> \<le> DELETE_VS_LIVE_AMBIGUOUS_WINDOW_MS"
  shows "map_of (id_map (fst (mergeEntitiesWithStats h A B None nrm nowIso))) key =
      Some (if item_rev i < item_rev l then l else i)
    \<and> map_of (id_map (fst (mergeEntitiesWithStats h B A None nrm nowIso))) key =
      Some (if item_rev i < item_rev l then l else i)"
proof -
  let ?m = "maxAllowedMergeTime h nowIso"
  have del: "deleted l \<noteq> deleted i" using assms(5,6) by simp
  have "resolveWinner h ?m l i = (if item_rev i < item_rev l then LocalSide else IncomingSide)"
    using assms(5-9)
    by (auto simp: resolveWinner_def resolveDeleteVsLiveWinner_def restoreWinner_def Let_def preferLiveCandidate_def
        isBackupRestoreLiveCandidate_def [of l])
  moreover have "resolveWinner h ?m i l = flip (resolveWinner h ?m l i)"
    using resolveDeleteVsLiveWinner_flip [OF del] del by (auto simp: resolveWinner_def)
  ultimately show ?thesis using assms(1-4) by (simp add: merged_lookup item_of_def)
qed

theorem ambiguous_delete_keeps_live_witness:
  "map_of (id_map (fst (mergeEntitiesWithStats host0 [tomb_at 2 ''2024-03-01T00:00:20.000Z'']
      [task_at ''Buy milk'' 2 ''2024-03-01T00:00:00.000Z''] None None (JStr ''2024-04-01T00:00:00.000Z'')))) (JStr ''t1'')
     = Some (if item_rev (task_at ''Buy milk'' 2 ''2024-03-01T00:00:00.000Z'') < item_rev (tomb_at 2 ''2024-03-01T00:00:20.000Z'')
             then tomb_at 2 ''2024-03-01T00:00:20.000Z'' else task_at ''Buy milk'' 2 ''2024-03-01T00:00:00.000Z'')
   \<and> map_of (id_map (fst (mergeEntitiesWithStats host0 [task_at ''Buy milk'' 2 ''2024-03-01T00:00:00.000Z'']
      [tomb_at 2 ''2024-03-01T00:00:20.000Z''] None None (JStr ''2024-04-01T00:00:00.000Z'')))) (JStr ''t1'')
     = Some (if item_rev (task_at ''Buy milk'' 2 ''2024-03-01T00:00:00.000Z'') < item_rev (tomb_at 2 ''2024-03-01T00:00:20.000Z'')
             then tomb_at 2 ''2024-03-01T00:00:20.000Z'' else task_at ''Buy milk'' 2 ''2024-03-01T00:00:00.000Z'')"
  by (rule ambiguous_delete_keeps_live [where l = "tomb_at 2 ''2024-03-01T00:00:20.000Z''"
      and i = "task_at ''Buy milk'' 2 ''2024-03-01T00:00:00.000Z''"];
      simp add: example_facts id_map_def js_map_def time_ordered_def deleted_def isBackupRestoreLiveCandidate_def hasRevision_def
        item_rev_def operationDiff_def resolveOperationTime_def updated_time_def parseMergeTimestamp_def maxAllowedMergeTime_def
        DELETE_VS_LIVE_AMBIGUOUS_WINDOW_MS_def CLOCK_SKEW_THRESHOLD_MS_def Let_def)

text \<open>
  C17. Two copies in the same delete state: the one with the higher revision wins on both
  devices, whatever their clocks say.
\<close>

theorem higher_revision_wins:
  assumes "map_of (id_map A) key = Some l" "map_of (id_map B) key = Some i" "time_ordered h l" "time_ordered h i"
    and "deleted l = deleted i" "0 \<le> item_rev i" "item_rev i < item_rev l"
  shows "map_of (id_map (fst (mergeEntitiesWithStats h A B None nrm nowIso))) key = Some l
       \<and> map_of (id_map (fst (mergeEntitiesWithStats h B A None nrm nowIso))) key = Some l"
proof -
  let ?m = "maxAllowedMergeTime h nowIso"
  have "hasRevision l i" "hasRevision i l" using assms(6,7) by (auto simp: hasRevision_def)
  then have "resolveWinner h ?m l i = LocalSide" "resolveWinner h ?m i l = IncomingSide"
    using assms(5,7) by (simp_all add: resolveWinner_def resolveRevisionWinner_def Let_def)
  then show ?thesis using assms(1-4) by (simp add: merged_lookup item_of_def)
qed

theorem higher_revision_wins_witness:
  "map_of (id_map (fst (mergeEntitiesWithStats host0 [task_at ''Buy milk'' 3 ''2024-02-01T00:00:00.000Z'']
      [task_at ''Buy oat milk'' 2 ''2024-03-01T00:00:00.000Z''] None None (JStr ''2024-04-01T00:00:00.000Z'')))) (JStr ''t1'')
     = Some (task_at ''Buy milk'' 3 ''2024-02-01T00:00:00.000Z'')
   \<and> map_of (id_map (fst (mergeEntitiesWithStats host0 [task_at ''Buy oat milk'' 2 ''2024-03-01T00:00:00.000Z'']
      [task_at ''Buy milk'' 3 ''2024-02-01T00:00:00.000Z''] None None (JStr ''2024-04-01T00:00:00.000Z'')))) (JStr ''t1'')
     = Some (task_at ''Buy milk'' 3 ''2024-02-01T00:00:00.000Z'')"
  by (rule higher_revision_wins [where l = "task_at ''Buy milk'' 3 ''2024-02-01T00:00:00.000Z''"
      and i = "task_at ''Buy oat milk'' 2 ''2024-03-01T00:00:00.000Z''"];
      simp add: example_facts id_map_def js_map_def time_ordered_def deleted_def isBackupRestoreLiveCandidate_def hasRevision_def
        item_rev_def operationDiff_def resolveOperationTime_def updated_time_def parseMergeTimestamp_def maxAllowedMergeTime_def
        DELETE_VS_LIVE_AMBIGUOUS_WINDOW_MS_def CLOCK_SKEW_THRESHOLD_MS_def Let_def)

section \<open>The merge as a join of two maps\<close>

definition entity_map :: "entity list \<Rightarrow> js \<Rightarrow> entity option" where
  "entity_map es = map_of (id_map es)"

text \<open>
  C3. The merge refines a join of two finite maps: read as the map from ids to entities, the list it builds with
  its counters, samples and order is the pointwise join of the two maps, which keeps an
  entity of one side (with its timestamps in order) and resolves two.
\<close>

theorem merge_refines_map_join:
  "entity_map (fst (mergeEntitiesWithStats h A B None nrm nowIso)) =
     (\<lambda>key. join_opt (merged_one h) (merged_both h (maxAllowedMergeTime h nowIso) None) (entity_map A key) (entity_map B key))"
  by (rule ext) (simp add: entity_map_def mergeEntitiesWithStats_refines plain_merge.keyed_join_lookup)

end
