(* ===== verification/Sync_Mutex.thy ===== *)
theory Sync_Mutex
  imports Main
begin

text \<open>
  The executor that runs one sync cycle at a time (\<^verbatim>\<open>packages/core/src/sync-cycle.ts\<close>). Every call chains
  itself behind the promise of the call before it. A promise is a number; the calls interleave in
  any order the event loop allows, so the executor is a step relation. The chained promises are
  only ever resolved, never rejected.
\<close>

section \<open>The promise chain\<close>

text \<open>A call is named by the promise it releases, \<open>current\<close> in the code.\<close>

datatype 'r call_phase =
    AwaitingPrevious nat
  | RunningOperation
  | SettledCall 'r

record 'r executor =
  syncCycleMutex :: nat
  next_promise :: nat
  resolved :: "nat set"
  phase_of :: "nat \<Rightarrow> 'r call_phase option"

definition createSyncCycleExecutor :: "'r executor" where
  "createSyncCycleExecutor = \<lparr>syncCycleMutex = 0, next_promise = 1, resolved = {0}, phase_of = Map.empty\<rparr>"

text \<open>The synchronous part of a call: it takes the mutex as its predecessor and leaves its own promise there.\<close>

definition enter_call :: "'r executor \<Rightarrow> 'r executor" where
  "enter_call s =
     (let previous = syncCycleMutex s; current = next_promise s
      in s\<lparr>syncCycleMutex := current, next_promise := current + 1,
           phase_of := (phase_of s)(current \<mapsto> AwaitingPrevious previous)\<rparr>)"

definition start_operation :: "'r executor \<Rightarrow> nat \<Rightarrow> 'r executor" where
  "start_operation s current = s\<lparr>phase_of := (phase_of s)(current \<mapsto> RunningOperation)\<rparr>"

text \<open>The \<open>finally\<close> block: release, and forget the promise when no call has come since.\<close>

definition finish_operation :: "'r executor \<Rightarrow> nat \<Rightarrow> 'r \<Rightarrow> 'r executor" where
  "finish_operation s current result =
     (let released = s\<lparr>resolved := insert current (resolved s), phase_of := (phase_of s)(current \<mapsto> SettledCall result)\<rparr>
      in if syncCycleMutex s = current
         then released\<lparr>syncCycleMutex := next_promise s, next_promise := next_promise s + 1,
                resolved := insert (next_promise s) (resolved released)\<rparr>
         else released)"

datatype 'r executor_event = CallMade nat | OperationStarted nat | OperationFinished nat 'r

inductive executor_step :: "'r executor \<Rightarrow> 'r executor_event \<Rightarrow> 'r executor \<Rightarrow> bool" where
  call: "executor_step s (CallMade (next_promise s)) (enter_call s)"
| start: "phase_of s current = Some (AwaitingPrevious previous) \<Longrightarrow> previous \<in> resolved s \<Longrightarrow>
    executor_step s (OperationStarted current) (start_operation s current)"
| finish: "phase_of s current = Some RunningOperation \<Longrightarrow>
    executor_step s (OperationFinished current result) (finish_operation s current result)"

text \<open>The executions: a state reached from the new executor, with the events on the way.\<close>

inductive executes :: "'r executor_event list \<Rightarrow> 'r executor \<Rightarrow> bool" where
  created: "executes [] createSyncCycleExecutor"
| stepped: "executes es s \<Longrightarrow> executor_step s e t \<Longrightarrow> executes (es @ [e]) t"

fun calls :: "'r executor_event list \<Rightarrow> nat list" where
  "calls [] = []"
| "calls (CallMade c # es) = c # calls es"
| "calls (_ # es) = calls es"

fun starts :: "'r executor_event list \<Rightarrow> nat list" where
  "starts [] = []"
| "starts (OperationStarted c # es) = c # starts es"
| "starts (_ # es) = starts es"

fun finishes :: "'r executor_event list \<Rightarrow> nat list" where
  "finishes [] = []"
| "finishes (OperationFinished c _ # es) = c # finishes es"
| "finishes (_ # es) = finishes es"

lemma events_append [simp]:
  "calls (es @ fs) = calls es @ calls fs" "starts (es @ fs) = starts es @ starts fs"
  "finishes (es @ fs) = finishes es @ finishes fs"
  by (induction es rule: calls.induct; simp)+

section \<open>The invariant of the chain\<close>

definition settled_call :: "'r executor \<Rightarrow> nat \<Rightarrow> bool" where
  "settled_call s c \<longleftrightarrow> (\<exists>r. phase_of s c = Some (SettledCall r))"

definition waiting_call :: "'r executor \<Rightarrow> nat \<Rightarrow> bool" where
  "waiting_call s c \<longleftrightarrow> (\<exists>p. phase_of s c = Some (AwaitingPrevious p))"

text \<open>Calls settle in order: behind a call that has started, everything is settled.\<close>

definition in_order :: "'r executor \<Rightarrow> bool" where
  "in_order s \<longleftrightarrow> (\<forall>c i. phase_of s c \<noteq> None \<longrightarrow> \<not> waiting_call s c \<longrightarrow> phase_of s i \<noteq> None \<longrightarrow> i < c \<longrightarrow> settled_call s i)"

text \<open>A promise that stands for every call up to it: it is a call's, or an already resolved one.\<close>

definition covers :: "'r executor \<Rightarrow> nat \<Rightarrow> bool" where
  "covers s p \<longleftrightarrow> (phase_of s p = None \<longrightarrow> p \<in> resolved s \<and> (\<forall>i. phase_of s i \<noteq> None \<longrightarrow> i < p \<longrightarrow> settled_call s i))"

definition well_chained :: "'r executor \<Rightarrow> bool" where
  "well_chained s \<longleftrightarrow> (\<forall>c p. phase_of s c = Some (AwaitingPrevious p) \<longrightarrow>
     p < c \<and> covers s p \<and> (\<forall>i. phase_of s i \<noteq> None \<longrightarrow> i < c \<longrightarrow> i \<le> p))"

definition fresh_promises :: "'r executor \<Rightarrow> bool" where
  "fresh_promises s \<longleftrightarrow> syncCycleMutex s < next_promise s \<and> covers s (syncCycleMutex s)
     \<and> (\<forall>c. phase_of s c \<noteq> None \<longrightarrow> c \<le> syncCycleMutex s)
     \<and> (\<forall>c\<in>resolved s. c < next_promise s)
     \<and> (\<forall>c. phase_of s c \<noteq> None \<longrightarrow> (c \<in> resolved s \<longleftrightarrow> settled_call s c))"

definition chain_inv :: "'r executor \<Rightarrow> bool" where
  "chain_inv s \<longleftrightarrow> in_order s \<and> well_chained s \<and> fresh_promises s"

lemmas chain_defs = in_order_def well_chained_def fresh_promises_def covers_def settled_call_def waiting_call_def

lemma chain_inv_created: "chain_inv createSyncCycleExecutor"
  by (simp add: chain_inv_def chain_defs createSyncCycleExecutor_def)

lemma enter_call_inv:
  assumes "chain_inv s" shows "chain_inv (enter_call s)"
proof -
  let ?n = "next_promise s"
  have n: "phase_of s ?n = None" "?n \<notin> resolved s" "syncCycleMutex s < ?n"
    using assms by (auto simp: chain_inv_def fresh_promises_def; fastforce)+
  have le: "c \<le> syncCycleMutex s" if "phase_of s c \<noteq> None" for c
    using assms that by (auto simp: chain_inv_def fresh_promises_def)
  have p: "phase_of (enter_call s) = (phase_of s)(?n \<mapsto> AwaitingPrevious (syncCycleMutex s))"
    "resolved (enter_call s) = resolved s" "syncCycleMutex (enter_call s) = ?n" "next_promise (enter_call s) = ?n + 1"
    by (simp_all add: enter_call_def Let_def)
  have settled: "settled_call (enter_call s) c \<longleftrightarrow> settled_call s c" for c
    using n(1) by (simp add: settled_call_def p)
  have covers: "covers (enter_call s) q" if "covers s q" "q < ?n" for q
    using that n by (auto simp: covers_def p settled)
  have "in_order (enter_call s)"
    using assms n le by (fastforce simp: chain_inv_def in_order_def p settled waiting_call_def)
  moreover have "well_chained (enter_call s)"
    unfolding well_chained_def
  proof (intro allI impI)
    fix c q assume "phase_of (enter_call s) c = Some (AwaitingPrevious q)"
    then consider "c = ?n" "q = syncCycleMutex s" | "c \<noteq> ?n" "phase_of s c = Some (AwaitingPrevious q)"
      by (auto simp: p split: if_splits)
    then show "q < c \<and> covers (enter_call s) q \<and> (\<forall>i. phase_of (enter_call s) i \<noteq> None \<longrightarrow> i < c \<longrightarrow> i \<le> q)"
    proof cases
      case 1
      with n le covers [of q] assms show ?thesis by (auto simp: p chain_inv_def fresh_promises_def)
    next
      case 2
      with assms have "q < c" "covers s q" "\<forall>i. phase_of s i \<noteq> None \<longrightarrow> i < c \<longrightarrow> i \<le> q"
        by (auto simp: chain_inv_def well_chained_def)
      moreover have "c < ?n" using le [of c] 2 n(3) by force
      ultimately show ?thesis using covers [of q] by (auto simp: p)
    qed
  qed
  moreover have "fresh_promises (enter_call s)"
    unfolding fresh_promises_def
  proof (intro conjI allI ballI impI)
    show "covers (enter_call s) (syncCycleMutex (enter_call s))" by (simp add: covers_def p)
    show "c < next_promise (enter_call s)" if "c \<in> resolved (enter_call s)" for c
      using assms that by (auto simp: p chain_inv_def fresh_promises_def less_Suc_eq)
    show "c \<le> syncCycleMutex (enter_call s)" if "phase_of (enter_call s) c \<noteq> None" for c
      using le [of c] n(3) that by (auto simp: p split: if_splits)
    show "c \<in> resolved (enter_call s) \<longleftrightarrow> settled_call (enter_call s) c" if "phase_of (enter_call s) c \<noteq> None" for c
    proof (cases "c = ?n")
      case True
      with n show ?thesis unfolding settled by (simp add: p(2) settled_call_def)
    next
      case False
      with assms that show ?thesis unfolding settled by (simp add: p chain_inv_def fresh_promises_def)
    qed
  qed (simp add: p)
  ultimately show ?thesis by (simp add: chain_inv_def)
qed

lemma settled_before:
  assumes "chain_inv s" "phase_of s c = Some (AwaitingPrevious q)" "q \<in> resolved s" "phase_of s i \<noteq> None" "i < c"
  shows "settled_call s i"
proof -
  from assms have i: "i \<le> q" "covers s q" by (auto simp: chain_inv_def well_chained_def)
  show ?thesis
  proof (cases "phase_of s q")
    case None
    with i assms show ?thesis by (cases "i = q") (auto simp: covers_def)
  next
    case (Some ph)
    with assms have "settled_call s q" by (auto simp: chain_inv_def fresh_promises_def)
    then have "\<not> waiting_call s q" by (auto simp: settled_call_def waiting_call_def)
    with \<open>settled_call s q\<close> i Some assms show ?thesis
      by (cases "i = q") (auto simp: chain_inv_def in_order_def)
  qed
qed

lemma start_operation_inv:
  assumes "chain_inv s" "phase_of s c = Some (AwaitingPrevious q)" "q \<in> resolved s"
  shows "chain_inv (start_operation s c)"
proof -
  have p: "phase_of (start_operation s c) = (phase_of s)(c \<mapsto> RunningOperation)"
    "resolved (start_operation s c) = resolved s" "syncCycleMutex (start_operation s c) = syncCycleMutex s"
    "next_promise (start_operation s c) = next_promise s"
    by (simp_all add: start_operation_def)
  have settled: "settled_call (start_operation s c) i \<longleftrightarrow> settled_call s i" for i
    using assms(2) by (simp add: settled_call_def p)
  have before: "settled_call s i" if "phase_of s i \<noteq> None" "i < c" for i
    using settled_before [OF assms that] .
  have none: "phase_of (start_operation s c) i = None \<longleftrightarrow> phase_of s i = None" for i using assms(2) by (simp add: p)
  have covers: "covers (start_operation s c) i \<longleftrightarrow> covers s i" for i
    unfolding covers_def none settled p(2) ..
  have "in_order (start_operation s c)"
    unfolding in_order_def settled none
  proof (intro allI impI)
    fix k i assume k: "phase_of s k \<noteq> None" "\<not> waiting_call (start_operation s c) k" "phase_of s i \<noteq> None" "i < k"
    show "settled_call s i"
    proof (cases "k = c")
      case False
      with k(2) have "\<not> waiting_call s k" by (simp add: waiting_call_def p)
      with k assms(1) show ?thesis unfolding chain_inv_def in_order_def by blast
    qed (use k before in blast)
  qed
  moreover have "well_chained (start_operation s c)"
    using assms(1) by (auto simp: chain_inv_def well_chained_def none covers) (auto simp: p split: if_splits)
  moreover have "fresh_promises (start_operation s c)"
    using assms(1) by (auto simp: chain_inv_def fresh_promises_def none covers settled p(2-4))
  ultimately show ?thesis by (simp add: chain_inv_def)
qed

lemma finish_operation_inv:
  assumes "chain_inv s" "phase_of s c = Some RunningOperation"
  shows "chain_inv (finish_operation s c r)"
proof -
  let ?t = "finish_operation s c r" and ?n = "next_promise s"
  have p: "phase_of ?t = (phase_of s)(c \<mapsto> SettledCall r)" by (simp add: finish_operation_def Let_def)
  have fresh: "phase_of s ?n = None" "?n \<notin> resolved s" "c < ?n"
    using assms by (auto simp: chain_inv_def fresh_promises_def; fastforce)+
  have res: "i \<in> resolved ?t \<longleftrightarrow> i = c \<or> i \<in> resolved s \<or> (i = ?n \<and> syncCycleMutex s = c)" for i
    by (auto simp: finish_operation_def Let_def)
  have none: "phase_of ?t i = None \<longleftrightarrow> phase_of s i = None" for i using assms(2) by (simp add: p)
  have settled: "settled_call ?t i \<longleftrightarrow> i = c \<or> settled_call s i" for i using assms(2) by (auto simp: settled_call_def p)
  have before: "settled_call s i" if "phase_of s i \<noteq> None" "i < c" for i
    using assms that by (force simp: chain_inv_def in_order_def waiting_call_def)
  have covers: "covers ?t i" if "covers s i" for i
    using that unfolding covers_def none settled res by blast
  have "in_order ?t"
    unfolding in_order_def none settled
  proof (intro allI impI)
    fix k i assume k: "phase_of s k \<noteq> None" "\<not> waiting_call ?t k" "phase_of s i \<noteq> None" "i < k"
    show "i = c \<or> settled_call s i"
    proof (cases "k = c")
      case False
      with k(2) have "\<not> waiting_call s k" by (simp add: waiting_call_def p)
      with k assms(1) show ?thesis unfolding chain_inv_def in_order_def by blast
    qed (use k before in blast)
  qed
  moreover have "well_chained ?t"
    unfolding well_chained_def none
  proof (intro allI impI)
    fix k q assume "phase_of ?t k = Some (AwaitingPrevious q)"
    then have "phase_of s k = Some (AwaitingPrevious q)" by (auto simp: p split: if_splits)
    with assms(1) covers show "q < k \<and> covers ?t q \<and> (\<forall>i. phase_of s i \<noteq> None \<longrightarrow> i < k \<longrightarrow> i \<le> q)"
      unfolding chain_inv_def well_chained_def by blast
  qed
  moreover have "fresh_promises ?t"
  proof (cases "syncCycleMutex s = c")
    case False
    then have "syncCycleMutex ?t = syncCycleMutex s" "next_promise ?t = ?n" by (simp_all add: finish_operation_def Let_def)
    with assms(1) covers fresh False show ?thesis
      unfolding chain_inv_def fresh_promises_def none settled by (auto simp: res)
  next
    case True
    then have t: "syncCycleMutex ?t = ?n" "next_promise ?t = ?n + 1" by (simp_all add: finish_operation_def Let_def)
    have le: "i \<le> c" if "phase_of s i \<noteq> None" for i using assms(1) that True by (auto simp: chain_inv_def fresh_promises_def)
    have "covers ?t ?n"
      unfolding covers_def none settled res using True le before by (auto simp: le_less)
    moreover have "i \<le> ?n" if "phase_of s i \<noteq> None" for i using le [OF that] fresh(3) by simp
    moreover have "i < ?n + 1" if "i \<in> resolved ?t" for i
      using that assms(1) fresh(3) unfolding res by (auto simp: chain_inv_def fresh_promises_def less_Suc_eq)
    moreover have "i \<in> resolved ?t \<longleftrightarrow> i = c \<or> settled_call s i" if "phase_of s i \<noteq> None" for i
      unfolding res using that assms(1) fresh by (auto simp: chain_inv_def fresh_promises_def)
    ultimately show ?thesis unfolding fresh_promises_def none settled t by simp
  qed
  ultimately show ?thesis by (simp add: chain_inv_def)
qed

lemma executor_step_inv: "executor_step s e t \<Longrightarrow> chain_inv s \<Longrightarrow> chain_inv t"
  by (induction rule: executor_step.induct) (simp_all add: enter_call_inv start_operation_inv finish_operation_inv)

lemma executes_inv: "executes es s \<Longrightarrow> chain_inv s"
  by (induction rule: executes.induct) (auto simp: chain_inv_created executor_step_inv)

section \<open>One at a time, in the order of the calls\<close>

text \<open>What the events say of the state: who has called, who has started and who has finished.\<close>

definition events_match :: "'r executor_event list \<Rightarrow> 'r executor \<Rightarrow> bool" where
  "events_match es s \<longleftrightarrow> sorted (calls es) \<and> distinct (calls es) \<and> distinct (starts es)
     \<and> (\<forall>c. c \<in> set (calls es) \<longleftrightarrow> phase_of s c \<noteq> None)
     \<and> (\<forall>c. c \<in> set (starts es) \<longleftrightarrow> phase_of s c \<noteq> None \<and> \<not> waiting_call s c)
     \<and> (\<forall>c. c \<in> set (finishes es) \<longleftrightarrow> settled_call s c)"

definition serial :: "'r executor_event list \<Rightarrow> bool" where
  "serial es \<longleftrightarrow> starts es = take (length (starts es)) (calls es)
     \<and> (finishes es = starts es \<or> (starts es \<noteq> [] \<and> finishes es = butlast (starts es)))"

lemma sorted_next:
  fixes xs :: "nat list"
  assumes "sorted xs" "distinct xs" "ys = take (length ys) xs" "c \<in> set xs" "c \<notin> set ys" "\<forall>i\<in>set xs. i < c \<longrightarrow> i \<in> set ys"
  shows "ys @ [c] = take (length (ys @ [c])) xs"
proof -
  let ?k = "length ys"
  have split: "xs = ys @ drop ?k xs" using assms(3) by (metis append_take_drop_id)
  with assms(4,5) obtain z zs where z: "drop ?k xs = z # zs" "c = z \<or> c \<in> set zs"
    by (metis Un_iff list.set_cases set_append set_ConsD)
  have "sorted (z # zs)" "distinct (ys @ z # zs)" using assms(1,2) split z(1) by (metis sorted_append, metis)
  then have "c = z" using z(2) assms(6) split z(1) by (metis Un_iff distinct.simps(2) distinct_append disjoint_iff le_neq_implies_less list.set_intros(1) set_append sorted_simps(2))
  then show ?thesis using split z(1) by (metis append_Cons append_Nil append_assoc append_eq_conv_conj length_append)
qed

lemma sorted_prefix_less:
  fixes xs :: "nat list"
  assumes "sorted xs" "k \<in> set (take n xs)" "c \<in> set xs" "c \<notin> set (take n xs)"
  shows "k < c"
proof -
  have "c \<in> set (drop n xs)" using assms(3,4) by (metis Un_iff append_take_drop_id set_append)
  moreover have "sorted (take n xs @ drop n xs)" using assms(1) by simp
  ultimately have "k \<le> c" using assms(2) unfolding sorted_append by blast
  then show ?thesis using assms(2,4) by (cases "k = c") auto
qed

lemma step_serial:
  assumes "executor_step s e t" "chain_inv s" "events_match es s" "serial es"
  shows "events_match (es @ [e]) t \<and> serial (es @ [e])"
  using assms
proof (induction rule: executor_step.induct)
  case (call s)
  then have fresh: "phase_of s (next_promise s) = None" "\<forall>c. phase_of s c \<noteq> None \<longrightarrow> c < next_promise s"
    by (auto simp: chain_inv_def fresh_promises_def; fastforce)+
  have p: "phase_of (enter_call s) = (phase_of s)(next_promise s \<mapsto> AwaitingPrevious (syncCycleMutex s))"
    by (simp add: enter_call_def Let_def)
  have "length (starts es) \<le> length (calls es)" using call.prems(3) by (metis serial_def length_take min.cobounded1)
  with call.prems fresh show ?case
    by (auto simp: events_match_def serial_def p sorted_append settled_call_def waiting_call_def less_imp_le)
next
  case (start s c q)
  have c: "c \<in> set (calls es)" "c \<notin> set (starts es)"
    using start.hyps start.prems(2) by (auto simp: events_match_def waiting_call_def)
  have before: "i \<in> set (finishes es)" "i \<in> set (starts es)" if "i \<in> set (calls es)" "i < c" for i
  proof -
    have "settled_call s i" using settled_before [OF start.prems(1) start.hyps] that start.prems(2) by (auto simp: events_match_def)
    then show "i \<in> set (finishes es)" "i \<in> set (starts es)"
      using start.prems(2) by (auto simp: events_match_def settled_call_def waiting_call_def)
  qed
  have all: "finishes es = starts es"
  proof (rule ccontr)
    assume "finishes es \<noteq> starts es"
    with start.prems(3) have b: "starts es \<noteq> []" "finishes es = butlast (starts es)" "starts es = take (length (starts es)) (calls es)"
      by (auto simp: serial_def)
    then have l: "last (starts es) \<in> set (starts es)" by simp
    have "last (starts es) < c"
      using sorted_prefix_less [of "calls es" "last (starts es)" "length (starts es)" c] b(3) l c start.prems(2)
      by (simp add: events_match_def)
    moreover have "last (starts es) \<in> set (calls es)" using b(3) l by (metis in_set_takeD)
    ultimately have "last (starts es) \<in> set (butlast (starts es))" using before(1) b(2) by simp
    with b(1) start.prems(2) show False
      by (metis append_butlast_last_id distinct_append events_match_def disjoint_iff list.set_intros(1))
  qed
  have p: "phase_of (start_operation s c) = (phase_of s)(c \<mapsto> RunningOperation)" by (simp add: start_operation_def)
  have step: "starts es @ [c] = take (length (starts es @ [c])) (calls es)"
    using start.prems(2,3) c before(2) by (intro sorted_next) (auto simp: events_match_def serial_def)
  have "events_match (es @ [OperationStarted c]) (start_operation s c)"
    using start.prems(2) start.hyps c unfolding events_match_def
    by (auto simp: p settled_call_def waiting_call_def)
  moreover have "serial (es @ [OperationStarted c])"
    unfolding serial_def events_append starts.simps calls.simps finishes.simps append_Nil2 all butlast_snoc using step by blast
  ultimately show ?case by blast
next
  case (finish s c r)
  have p: "phase_of (finish_operation s c r) = (phase_of s)(c \<mapsto> SettledCall r)" by (simp add: finish_operation_def Let_def)
  have c: "c \<in> set (starts es)" "c \<notin> set (finishes es)"
    using finish.hyps finish.prems(2) by (auto simp: events_match_def waiting_call_def settled_call_def)
  then have "starts es \<noteq> []" "finishes es = butlast (starts es)" "finishes es \<noteq> starts es"
    using finish.prems(3) by (auto simp: serial_def)
  moreover from this c have "c = last (starts es)"
    by (metis append_butlast_last_id in_set_butlastD rotate1.simps(2) set_ConsD set_rotate1)
  ultimately have "finishes es @ [c] = starts es" by simp
  moreover have "events_match (es @ [OperationFinished c r]) (finish_operation s c r)"
    using finish.prems(2) finish.hyps unfolding events_match_def
    by (auto simp: p settled_call_def waiting_call_def)
  ultimately show ?case using finish.prems(3) by (simp add: serial_def)
qed

lemma executes_serial: "executes es s \<Longrightarrow> events_match es s \<and> serial es"
proof (induction rule: executes.induct)
  case created
  show ?case by (simp add: events_match_def serial_def createSyncCycleExecutor_def settled_call_def waiting_call_def)
next
  case (stepped es s e t)
  then show ?case using step_serial [OF stepped.hyps(2) executes_inv [OF stepped.hyps(1)]] by blast
qed

text \<open>
  C10. Cycles never overlap and run in the order they were asked for: in every execution the operations that
  have started are the first calls, in the order of the calls, and all of them but possibly the last
  have finished, in that same order; two operations are never running at once, whoever throws.
\<close>

theorem sync_cycles_are_serial:
  assumes "executes es s"
  shows "starts es = take (length (starts es)) (calls es)
    \<and> (finishes es = starts es \<or> finishes es = butlast (starts es))
    \<and> (\<forall>c d. phase_of s c = Some RunningOperation \<and> phase_of s d = Some RunningOperation \<longrightarrow> c = d)"
proof -
  have m: "events_match es s" "serial es" using executes_serial [OF assms] by auto
  have "c = last (starts es)" if "phase_of s c = Some RunningOperation" for c
  proof -
    have c: "c \<in> set (starts es)" "c \<notin> set (finishes es)"
      using that m(1) by (auto simp: events_match_def waiting_call_def settled_call_def)
    with m(2) have b: "starts es \<noteq> []" "finishes es = butlast (starts es)" by (auto simp: serial_def)
    then have "set (starts es) = insert (last (starts es)) (set (finishes es))"
      by (metis append_butlast_last_id list.simps(15) rotate1.simps(2) set_rotate1)
    with c show ?thesis by blast
  qed
  with m(2) show ?thesis unfolding serial_def by metis
qed

theorem sync_cycles_are_serial_witness:
  "\<exists>s :: string executor. executes [CallMade 1, CallMade 2, OperationStarted 1, OperationFinished 1 ''done'', OperationStarted 2] s
     \<and> phase_of s 2 = Some RunningOperation"
proof -
  let ?s0 = "createSyncCycleExecutor :: string executor"
  let ?s1 = "enter_call ?s0" let ?s2 = "enter_call ?s1" let ?s3 = "start_operation ?s2 1"
  let ?s4 = "finish_operation ?s3 1 ''done''" let ?s5 = "start_operation ?s4 2"
  note defs = createSyncCycleExecutor_def enter_call_def start_operation_def finish_operation_def Let_def
  have "executes [] ?s0" by (rule executes.created)
  note run1 = executes.stepped [OF this executor_step.call]
  note run2 = executes.stepped [OF run1 executor_step.call]
  have "executor_step ?s2 (OperationStarted 1) ?s3" by (rule executor_step.start [of _ _ 0]) (simp_all add: defs)
  note run3 = executes.stepped [OF run2 this]
  have "executor_step ?s3 (OperationFinished 1 ''done'') ?s4" by (rule executor_step.finish) (simp add: defs)
  note run4 = executes.stepped [OF run3 this]
  have "executor_step ?s4 (OperationStarted 2) ?s5" by (rule executor_step.start [of _ _ 1]) (simp_all add: defs)
  note run5 = executes.stepped [OF run4 this]
  have e: "(([] @ [CallMade (next_promise ?s0)]) @ [CallMade (next_promise ?s1)]) = [CallMade 1, CallMade 2]" by (simp add: defs)
  have r: "phase_of ?s5 2 = Some RunningOperation" by (simp add: start_operation_def)
  from sync_cycles_are_serial [OF run5] run5 [unfolded e] r show ?thesis by auto
qed

section \<open>Every cycle gets its turn\<close>

text \<open>The steps left to the calls made so far: two for one that waits, one for one that runs.\<close>

definition outstanding :: "'r executor \<Rightarrow> nat" where
  "outstanding s = 2 * card {c. waiting_call s c} + card {c. phase_of s c = Some RunningOperation}"

lemma finite_calls: "executes es s \<Longrightarrow> finite {c. phase_of s c \<noteq> None}"
proof (induction rule: executes.induct)
  case created
  show ?case by (simp add: createSyncCycleExecutor_def)
next
  case (stepped es s e t)
  from stepped.hyps(2) obtain c ph where "phase_of t = (phase_of s)(c \<mapsto> ph)"
    by (cases rule: executor_step.cases) (auto simp: enter_call_def start_operation_def finish_operation_def Let_def)
  then have "{i. phase_of t i \<noteq> None} \<subseteq> insert c {i. phase_of s i \<noteq> None}" by auto
  then show ?case using stepped.IH by (meson finite.insertI finite_subset)
qed

lemma step_outstanding:
  assumes "executor_step s e t" "finite {c. phase_of s c \<noteq> None}" "\<forall>c. e \<noteq> CallMade c"
  shows "outstanding t < outstanding s"
proof -
  have fin: "finite {c. waiting_call s c}" "finite {c. phase_of s c = Some RunningOperation}"
    by (rule finite_subset [OF _ assms(2)]; auto simp: waiting_call_def)+
  from assms(1) show ?thesis
  proof (cases rule: executor_step.cases)
    case (start c q)
    have w: "{i. waiting_call s i} = insert c {i. waiting_call t i}" "c \<notin> {i. waiting_call t i}"
      and r: "{i. phase_of t i = Some RunningOperation} = insert c {i. phase_of s i = Some RunningOperation}"
        "c \<notin> {i. phase_of s i = Some RunningOperation}"
      using start by (auto simp: waiting_call_def start_operation_def)
    have "finite {i. waiting_call t i}" using fin(1) w(1) by simp
    with w r fin(2) show ?thesis by (simp add: outstanding_def)
  next
    case (finish c r)
    have "{i. waiting_call t i} = {i. waiting_call s i}"
      and "{i. phase_of s i = Some RunningOperation} = insert c {i. phase_of t i = Some RunningOperation}"
        "c \<notin> {i. phase_of t i = Some RunningOperation}"
      using finish by (auto simp: waiting_call_def finish_operation_def Let_def)
    moreover from this fin(2) have "finite {i. phase_of t i = Some RunningOperation}" by simp
    ultimately show ?thesis by (simp add: outstanding_def)
  qed (use assms(3) in blast)
qed

lemma executor_progress:
  assumes "chain_inv s" "phase_of s c \<noteq> None" "\<not> settled_call s c"
  shows "\<exists>e t. executor_step s e t \<and> (\<forall>i. e \<noteq> CallMade i)"
proof -
  define m where "m = (LEAST c. phase_of s c \<noteq> None \<and> \<not> settled_call s c)"
  have m: "phase_of s m \<noteq> None" "\<not> settled_call s m"
    using LeastI [of "\<lambda>c. phase_of s c \<noteq> None \<and> \<not> settled_call s c"] assms(2,3) unfolding m_def by blast+
  have least: "settled_call s i" if "i < m" "phase_of s i \<noteq> None" for i
    using not_less_Least [of i "\<lambda>c. phase_of s c \<noteq> None \<and> \<not> settled_call s c"] that unfolding m_def by blast
  from m obtain ph where ph: "phase_of s m = Some ph" by blast
  show ?thesis
  proof (cases ph)
    case (AwaitingPrevious q)
    with assms(1) ph have q: "q < m" "covers s q" by (auto simp: chain_inv_def well_chained_def)
    have "q \<in> resolved s"
      using q least [of q] assms(1) by (cases "phase_of s q") (auto simp: covers_def chain_inv_def fresh_promises_def)
    then show ?thesis using executor_step.start [of s m q] ph AwaitingPrevious by blast
  next
    case RunningOperation
    then show ?thesis using executor_step.finish [of s m] ph by blast
  qed (use ph m(2) in \<open>simp add: settled_call_def\<close>)
qed

text \<open>A continuation in which the operations settle and no new call is made.\<close>

inductive drains :: "'r executor \<Rightarrow> 'r executor_event list \<Rightarrow> 'r executor \<Rightarrow> bool" where
  drained: "drains s [] s"
| drain: "executor_step s e t \<Longrightarrow> \<forall>c. e \<noteq> CallMade c \<Longrightarrow> drains t fs u \<Longrightarrow> drains s (e # fs) u"

lemma drains_bounds:
  "drains s fs t \<Longrightarrow> executes es s \<Longrightarrow> executes (es @ fs) t \<and> length fs + outstanding t \<le> outstanding s"
proof (induction arbitrary: es rule: drains.induct)
  case (drain s e t fs u)
  from drain.IH [OF executes.stepped [OF drain.prems drain.hyps(1)]]
    step_outstanding [OF drain.hyps(1) finite_calls [OF drain.prems] drain.hyps(2)]
  show ?case by simp
qed simp

text \<open>
  C28. No cycle is starved: when no new call comes, the event loop can take at most two steps for every call that
  waits and one for the one that runs, and as long as one of the calls has not settled one of these
  steps is possible. So every call settles, with the result of its own operation.
\<close>

theorem every_sync_cycle_settles:
  assumes "executes es s" "drains s fs t"
  shows "length fs \<le> outstanding s
    \<and> ((\<exists>e u. executor_step t e u \<and> (\<forall>c. e \<noteq> CallMade c)) \<or> (\<forall>c\<in>set (calls (es @ fs)). \<exists>r. phase_of t c = Some (SettledCall r)))"
proof -
  have t: "executes (es @ fs) t" "length fs \<le> outstanding s" using drains_bounds [OF assms(2,1)] by auto
  have "\<forall>c\<in>set (calls (es @ fs)). phase_of t c \<noteq> None"
    using executes_serial [OF t(1)] by (simp add: events_match_def)
  with t(2) executor_progress [OF executes_inv [OF t(1)]] show ?thesis unfolding settled_call_def by blast
qed

theorem every_sync_cycle_settles_witness:
  "\<exists>t :: string executor. executes [CallMade 1] (enter_call createSyncCycleExecutor :: string executor)
     \<and> drains (enter_call createSyncCycleExecutor) [OperationStarted 1, OperationFinished 1 ''done''] t
     \<and> phase_of t 1 = Some (SettledCall ''done'') \<and> outstanding (enter_call createSyncCycleExecutor :: string executor) \<ge> 2"
proof -
  let ?s1 = "enter_call createSyncCycleExecutor :: string executor"
  let ?s2 = "start_operation ?s1 1" let ?s3 = "finish_operation ?s2 1 ''done''"
  note defs = createSyncCycleExecutor_def enter_call_def start_operation_def finish_operation_def Let_def
  have e: "executes [CallMade 1] ?s1"
    using executes.stepped [OF executes.created executor_step.call] by (simp add: defs)
  have "executor_step ?s1 (OperationStarted 1) ?s2" by (rule executor_step.start [of _ _ 0]) (simp_all add: defs)
  moreover have "executor_step ?s2 (OperationFinished 1 ''done'') ?s3" by (rule executor_step.finish) (simp add: defs)
  ultimately have d: "drains ?s1 [OperationStarted 1, OperationFinished 1 ''done''] ?s3" by (auto intro: drains.intros)
  have "phase_of ?s3 1 = Some (SettledCall ''done'')" by (simp add: finish_operation_def Let_def)
  moreover have "2 \<le> outstanding ?s1" using every_sync_cycle_settles [OF e d] by simp
  ultimately show ?thesis using e d by blast
qed

end
