(* ===== verification/Sync_Outbound.thy ===== *)
theory Sync_Outbound
  imports Attachment_Uri Sync_Document Merge_Settings "HOL-Library.Sublist"
begin

text \<open>
  What leaves the device (\<^verbatim>\<open>packages/core/src/sync-helpers.ts\<close>, first half): the search for file
  attachments whose content is not uploaded yet, the assertion that refuses to publish before it is, and
  the sanitising that takes device state, secrets and settings the user does not sync out of the document.
\<close>

section \<open>Addresses\<close>

definition strip_slashes :: "string \<Rightarrow> string" where
  "strip_slashes s = rev (dropWhile (\<lambda>c. c = CHR 0x2F) (rev s))"

text \<open>The test \<^verbatim>\<open>/\/v\d+$/i\<close>.\<close>

definition ends_with_version :: "string \<Rightarrow> bool" where
  "ends_with_version s =
     (let digits = takeWhile js_digit (rev s); before = dropWhile js_digit (rev s)
      in digits \<noteq> [] \<and> starts_with (lower before) ''v/'')"

definition normalizeCloudUrl :: "string \<Rightarrow> string" where
  "normalizeCloudUrl rawUrl =
     (let trimmed = strip_slashes rawUrl
      in if ends_with (lower trimmed) ''/v1/data'' \<or> ends_with (lower trimmed) ''/data'' then trimmed
         else if ends_with_version trimmed then trimmed @ ''/data''
         else trimmed @ ''/v1/data'')"

definition isLocalAttachmentUri :: "string \<Rightarrow> bool" where
  "isLocalAttachmentUri uri =
     (let trimmed = trim_str uri
      in trimmed \<noteq> [] \<and> \<not> starts_with (lower trimmed) ''http://'' \<and> \<not> starts_with (lower trimmed) ''https://'')"

definition scheme_char :: "char \<Rightarrow> bool" where
  "scheme_char c \<longleftrightarrow> alpha_char c \<or> js_digit c \<or> c \<in> set ''+.-''"

definition getAttachmentUriScheme :: "string \<Rightarrow> string" where
  "getAttachmentUriScheme uri =
     (let trimmed = trim_str uri; scheme = takeWhile scheme_char trimmed; rest = dropWhile scheme_char trimmed
      in if scheme \<noteq> [] \<and> alpha_char (hd scheme) \<and> starts_with rest '':'' then lower scheme
         else if trimmed \<noteq> [] then ''file'' else ''empty'')"

section \<open>Pending uploads\<close>

datatype upload_owner = TaskOwner | ProjectOwner

definition owner_name :: "upload_owner \<Rightarrow> string" where
  "owner_name kind = (case kind of TaskOwner \<Rightarrow> ''task'' | ProjectOwner \<Rightarrow> ''project'')"

datatype upload_reason = ContentReplacement | MissingCloudKey

record PendingAttachmentUpload =
  ownerType :: upload_owner
  ownerId :: js
  attachmentId :: js
  upload_title :: js
  uriScheme :: string
  upload_status :: js
  upload_reason :: upload_reason

definition awaits_upload :: "js \<Rightarrow> bool" where
  "awaits_upload attachment =
     (if get attachment ''kind'' \<noteq> JStr ''file'' then False
      else if truthy (get attachment ''deletedAt'') then False
      else if get attachment ''pendingContentUpload'' = JBool True then True
      else if truthy (get attachment ''cloudKey'') then False
      else if \<not> isLocalAttachmentUri (the_str (get attachment ''uri'')) then False
      else get attachment ''localStatus'' \<noteq> JStr ''missing'')"

definition collectPendingUploads :: "upload_owner \<Rightarrow> entity \<Rightarrow> PendingAttachmentUpload list" where
  "collectPendingUploads kind owner =
     map (\<lambda>a. \<lparr>ownerType = kind, ownerId = get owner ''id'', attachmentId = get a ''id'', upload_title = get a ''title'',
          uriScheme = getAttachmentUriScheme (the_str (get a ''uri'')), upload_status = get a ''localStatus'',
          upload_reason = (if get a ''pendingContentUpload'' = JBool True then ContentReplacement else MissingCloudKey)\<rparr>)
       (filter awaits_upload (elems (get owner ''attachments'')))"

definition findPendingAttachmentUploads :: "AppData \<Rightarrow> PendingAttachmentUpload list" where
  "findPendingAttachmentUploads d =
     concat (map (collectPendingUploads TaskOwner) (filter (\<lambda>t. \<not> deleted t) (tasks d)))
   @ concat (map (collectPendingUploads ProjectOwner) (filter (\<lambda>p. \<not> deleted p) (projects d)))"

definition upload_label :: "PendingAttachmentUpload \<Rightarrow> string" where
  "upload_label u = owner_name (ownerType u) @ '':'' @ js_string (ownerId u) @ '':'' @ js_string (attachmentId u)"

definition assertNoPendingUploadList :: "PendingAttachmentUpload list \<Rightarrow> string + unit" where
  "assertNoPendingUploadList pending =
     (let n = length pending;
          sample = join '', '' (map upload_label (take 3 pending));
          extra = (if 3 < n then '', +'' @ nat_str (n - 3) @ '' more'' else [])
      in if n = 0 then Inr ()
         else Inl (''Attachment upload incomplete: '' @ nat_str n @ '' file attachment(s) are still pending upload (''
                @ sample @ extra @ '').''))"

definition assertNoPendingAttachmentUploads :: "AppData \<Rightarrow> string + unit" where
  "assertNoPendingAttachmentUploads d = assertNoPendingUploadList (findPendingAttachmentUploads d)"

definition assertNoPendingAttachmentContentReplacements :: "AppData \<Rightarrow> string + unit" where
  "assertNoPendingAttachmentContentReplacements d =
     assertNoPendingUploadList (filter (\<lambda>u. upload_reason u = ContentReplacement) (findPendingAttachmentUploads d))"

definition hasPendingSyncSideEffects :: "AppData \<Rightarrow> bool" where
  "hasPendingSyncSideEffects d \<longleftrightarrow>
     truthy (get (settings d) ''pendingRemoteWriteAt'')
   \<or> findPendingAttachmentUploads d \<noteq> []
   \<or> elems (get (get (settings d) ''attachments'') ''pendingRemoteDeletes'') \<noteq> []"

section \<open>Settings for the remote\<close>

definition advance_to :: "host \<Rightarrow> int \<Rightarrow> js \<Rightarrow> int" where
  "advance_to h latestTime v =
     (case date_parse h (js_string (coalesce v (JStr ''''))) of
        Some parsed \<Rightarrow> max latestTime parsed | None \<Rightarrow> latestTime)"

definition advanceLatestSyncTimestamp :: "host \<Rightarrow> js list \<Rightarrow> js" where
  "advanceLatestSyncTimestamp h vs =
     (let latestTime = foldl (advance_to h) 0 vs
      in if latestTime + 1 \<le> max_time then JStr (iso_string (latestTime + 1)) else JUndef)"

text \<open>The stamps of a document that states the default of the GTD group explicitly.\<close>

definition remote_stamps :: "host \<Rightarrow> js \<Rightarrow> js \<Rightarrow> js" where
  "remote_stamps h prefs stamps =
     (let copied = (if truthy stamps then spread stamps else JUndef);
          materializedAt = advanceLatestSyncTimestamp h [get copied ''preferences'', get copied ''gtd'']
      in if isSettingsSyncGroupEnabled prefs ''gtd'' \<and> get prefs ''gtd'' = JUndef \<and> truthy materializedAt
         then put (spread copied) ''preferences'' materializedAt else copied)"

definition spread_if :: "js \<Rightarrow> js" where
  "spread_if v = (if truthy v then spread v else v)"

definition remote_calendars :: "js \<Rightarrow> js" where
  "remote_calendars v =
     (case v of JArr items \<Rightarrow> JArr (map spread (filter (\<lambda>item. \<not> isLocalCalendarSource item) items)) | _ \<Rightarrow> v)"

definition remote_ai :: "js \<Rightarrow> js" where
  "remote_ai ai =
     puts (spread ai) [(''apiKey'', JUndef),
       (''speechToText'', let speech = get ai ''speechToText''
          in if truthy speech then put (spread speech) ''offlineModelPath'' JUndef else speech)]"

definition remote_groups :: "host \<Rightarrow> js \<Rightarrow> js \<Rightarrow> (string \<times> js) list" where
  "remote_groups h prefs s =
     (if get prefs ''appearance'' = JBool True
      then [(''theme'', get s ''theme''), (''appearance'', spread_if (get s ''appearance'')), (''keybindingStyle'', get s ''keybindingStyle''),
            (''globalQuickAddShortcut'', JUndef)] else [])
   @ (if get prefs ''language'' = JBool True then map (\<lambda>k. (k, get s k)) LANGUAGE_KEYS else [])
   @ (if isSettingsSyncGroupEnabled prefs ''gtd''
      then map (\<lambda>k. (k, get (getGtdSyncSnapshot s) k)) [''gtd'', ''quickAddAutoClean'', ''markdownEditorAssist'', ''features''] else [])
   @ (if get prefs ''savedFilters'' = JBool True then [(''savedFilters'', JArr (normalizeSavedFilters h (get s ''savedFilters'')))] else [])
   @ (if get prefs ''externalCalendars'' = JBool True
      then [(''externalCalendars'', remote_calendars (get s ''externalCalendars''))] else [])
   @ (if get prefs ''ai'' = JBool True \<and> truthy (get s ''ai'') then [(''ai'', remote_ai (get s ''ai''))] else [])"

definition sanitizeSettingsForRemote :: "host \<Rightarrow> js \<Rightarrow> js" where
  "sanitizeSettingsForRemote h s =
     (let prefs = coalesce (get s ''syncPreferences'') (JObj []);
          remotePrefs = (if isSettingsSyncGroupEnabled prefs ''gtd'' then put (spread prefs) ''gtd'' (JBool True) else spread prefs)
      in puts (JObj [(''syncPreferences'', remotePrefs),
              (''syncPreferencesUpdatedAt'', remote_stamps h prefs (get s ''syncPreferencesUpdatedAt''))])
           (remote_groups h prefs s))"

section \<open>The document for the remote\<close>

definition MISSING_ATTACHMENT_TIMESTAMP_SENTINEL :: string where
  "MISSING_ATTACHMENT_TIMESTAMP_SENTINEL = ''1970-01-01T00:00:00.000Z''"

definition hasNonEmptyValue :: "js \<Rightarrow> bool" where
  "hasNonEmptyValue v = (case v of JStr s \<Rightarrow> trim_str s \<noteq> [] | _ \<Rightarrow> False)"

definition cleared_state :: "(string \<times> js) list" where
  "cleared_state = (''uri'', JStr '''') # map (\<lambda>k. (k, JUndef)) DEVICE_STATE_KEYS"

text \<open>A live file without content in the cloud, of a deleted owner or missing on this device, goes out as a tombstone.\<close>

definition sanitize_attachment :: "bool \<Rightarrow> js \<Rightarrow> js" where
  "sanitize_attachment ownerDeleted attachment =
     (if get attachment ''kind'' \<noteq> JStr ''file'' then attachment
      else if \<not> truthy (get attachment ''deletedAt'') \<and> \<not> hasNonEmptyValue (get attachment ''cloudKey'')
              \<and> (ownerDeleted \<or> get attachment ''localStatus'' = JStr ''missing'')
      then let fallbackUpdatedAt = (if hasNonEmptyValue (get attachment ''updatedAt'') then get attachment ''updatedAt''
                 else JStr MISSING_ATTACHMENT_TIMESTAMP_SENTINEL)
           in puts attachment ([(''deletedAt'', fallbackUpdatedAt), (''updatedAt'', fallbackUpdatedAt)] @ cleared_state)
      else puts attachment cleared_state)"

definition sanitizeAttachments :: "js \<Rightarrow> bool \<Rightarrow> js" where
  "sanitizeAttachments attachments ownerDeleted =
     (case attachments of JArr items \<Rightarrow> JArr (map (sanitize_attachment ownerDeleted) items) | _ \<Rightarrow> attachments)"

definition sanitize_owner :: "(entity \<Rightarrow> entity) \<Rightarrow> entity \<Rightarrow> entity" where
  "sanitize_owner compactTombstone owner =
     (if truthy (get owner ''purgedAt'') then compactTombstone owner
      else put owner ''attachments'' (sanitizeAttachments (get owner ''attachments'') (deleted owner)))"

definition sanitizeAppDataForRemote :: "host \<Rightarrow> AppData \<Rightarrow> AppData" where
  "sanitizeAppDataForRemote h d =
     d\<lparr>tasks := map (sanitize_owner compactPurgedTaskTombstone) (tasks d),
       projects := map (sanitize_owner compactPurgedProjectTombstone) (projects d),
       sections := compactSectionsForPurgedProjects (sections d) (projects d) False,
       settings := sanitizeSettingsForRemote h (settings d)\<rparr>"

definition toRemoteSyncDocument :: "host \<Rightarrow> AppData \<Rightarrow> AppData" where
  "toRemoteSyncDocument h d = sanitizeAppDataForRemote h d"

section \<open>Nothing private leaves the device\<close>

text \<open>The settings a remote document can have.\<close>

definition SYNCED_SETTINGS_KEYS :: "string list" where
  "SYNCED_SETTINGS_KEYS =
     [''syncPreferences'', ''syncPreferencesUpdatedAt'', ''theme'', ''appearance'', ''keybindingStyle'', ''globalQuickAddShortcut'',
      ''language'', ''weekStart'', ''dateFormat'', ''timeFormat'', ''gtd'', ''quickAddAutoClean'', ''markdownEditorAssist'', ''features'',
      ''savedFilters'', ''externalCalendars'', ''ai'']"

lemma set_keys_put: "set (keys (put v k x)) = insert k (set (keys v))"
  by (auto simp: keys_def put_def update_keys)

lemma keys_puts: "set (keys (puts v kvs)) = set (keys v) \<union> fst ` set kvs"
  by (induction kvs arbitrary: v) (auto simp: set_keys_put)

lemma keys_spread [simp]: "keys (spread v) = keys v"
  by (cases v) (simp_all add: spread_def keys_def)

lemma remote_groups_order: "subseq (map fst (remote_groups h prefs s)) (drop 2 SYNCED_SETTINGS_KEYS)"
proof -
  have optional: "subseq (map fst (if b then xs else [])) ks" if "map fst xs = ks" for b and xs :: "(string \<times> js) list" and ks
    using that by simp
  have ks: "drop 2 SYNCED_SETTINGS_KEYS = [''theme'', ''appearance'', ''keybindingStyle'', ''globalQuickAddShortcut''] @ LANGUAGE_KEYS
      @ [''gtd'', ''quickAddAutoClean'', ''markdownEditorAssist'', ''features''] @ [''savedFilters''] @ [''externalCalendars''] @ [''ai'']"
    by (simp add: SYNCED_SETTINGS_KEYS_def LANGUAGE_KEYS_def)
  show ?thesis
    unfolding ks remote_groups_def map_append by (intro list_emb_append_mono optional) (simp_all add: comp_def)
qed

lemma subseq_set_subset: "subseq xs ys \<Longrightarrow> set xs \<subseteq> set ys"
  by (induction rule: list_emb.induct) auto

lemma subseq_distinct_lists: "subseq xs ys \<Longrightarrow> distinct ys \<Longrightarrow> distinct xs"
  by (induction rule: list_emb.induct) (auto dest: subseq_set_subset)

lemma remote_groups_keys: "fst ` set (remote_groups h prefs s) \<subseteq> set (drop 2 SYNCED_SETTINGS_KEYS)"
  using remote_groups_order [of h prefs s] by (metis list.set_map subseq_set_subset)

lemma distinct_remote_groups: "distinct (map fst (remote_groups h prefs s))"
  using remote_groups_order [of h prefs s] by (rule subseq_distinct_lists) (simp add: SYNCED_SETTINGS_KEYS_def)

text \<open>What the sanitised settings hold under a key.\<close>

definition remote_prefs :: "js \<Rightarrow> js" where
  "remote_prefs s = coalesce (get s ''syncPreferences'') (JObj [])"

lemma get_puts_distinct:
  "distinct (map fst kvs) \<Longrightarrow> get (puts v kvs) k = (case map_of kvs k of Some x \<Rightarrow> x | None \<Rightarrow> get v k)"
  by (simp add: get_puts map_of_rev_same)

lemma remote_settings_alt:
  "sanitizeSettingsForRemote h s = puts (JObj
     [(''syncPreferences'', if isSettingsSyncGroupEnabled (remote_prefs s) ''gtd'' then put (spread (remote_prefs s)) ''gtd'' (JBool True)
         else spread (remote_prefs s)),
      (''syncPreferencesUpdatedAt'', remote_stamps h (remote_prefs s) (get s ''syncPreferencesUpdatedAt''))])
     (remote_groups h (remote_prefs s) s)"
  by (simp add: sanitizeSettingsForRemote_def Let_def remote_prefs_def)

lemma remote_settings_keys: "set (keys (sanitizeSettingsForRemote h s)) \<subseteq> set SYNCED_SETTINGS_KEYS"
proof -
  have "keys (JObj [(k1, x), (k2, y)]) = [k1, k2]" for k1 k2 x y by (simp add: keys_def)
  moreover have "set SYNCED_SETTINGS_KEYS = {''syncPreferences'', ''syncPreferencesUpdatedAt''} \<union> set (drop 2 SYNCED_SETTINGS_KEYS)"
    unfolding SYNCED_SETTINGS_KEYS_def drop_Suc_Cons numeral_2_eq_2 drop_0 list.set Un_insert_left Un_empty_left ..
  ultimately show ?thesis
    unfolding remote_settings_alt keys_puts using remote_groups_keys [of h "remote_prefs s" s] by auto
qed

lemma get_remote_settings:
  "get (sanitizeSettingsForRemote h s) ''syncPreferences'' =
     (if isSettingsSyncGroupEnabled (remote_prefs s) ''gtd'' then put (spread (remote_prefs s)) ''gtd'' (JBool True)
      else spread (remote_prefs s))"
  "get (sanitizeSettingsForRemote h s) ''syncPreferencesUpdatedAt'' = remote_stamps h (remote_prefs s) (get s ''syncPreferencesUpdatedAt'')"
  "k \<notin> {''syncPreferences'', ''syncPreferencesUpdatedAt''} \<Longrightarrow> get (sanitizeSettingsForRemote h s) k =
     (case map_of (remote_groups h (remote_prefs s) s) k of Some v \<Rightarrow> v | None \<Rightarrow> JUndef)"
proof -
  have n: "map_of (remote_groups h p s) ''syncPreferences'' = None" "map_of (remote_groups h p s) ''syncPreferencesUpdatedAt'' = None" for p
    using remote_groups_keys [of h p s] by (auto simp: map_of_eq_None_iff SYNCED_SETTINGS_KEYS_def)
  show "get (sanitizeSettingsForRemote h s) ''syncPreferences'' =
     (if isSettingsSyncGroupEnabled (remote_prefs s) ''gtd'' then put (spread (remote_prefs s)) ''gtd'' (JBool True)
      else spread (remote_prefs s))"
    "get (sanitizeSettingsForRemote h s) ''syncPreferencesUpdatedAt'' = remote_stamps h (remote_prefs s) (get s ''syncPreferencesUpdatedAt'')"
    unfolding remote_settings_alt get_puts_distinct [OF distinct_remote_groups] n by simp_all
  show "k \<notin> {''syncPreferences'', ''syncPreferencesUpdatedAt''} \<Longrightarrow> get (sanitizeSettingsForRemote h s) k =
     (case map_of (remote_groups h (remote_prefs s) s) k of Some v \<Rightarrow> v | None \<Rightarrow> JUndef)"
    unfolding remote_settings_alt get_puts_distinct [OF distinct_remote_groups] by (simp split: option.split)
qed

lemma remote_ai_value:
  "get (sanitizeSettingsForRemote h s) ''ai'' =
     (if get (remote_prefs s) ''ai'' = JBool True \<and> truthy (get s ''ai'') then remote_ai (get s ''ai'') else JUndef)"
  "get (sanitizeSettingsForRemote h s) ''externalCalendars'' =
     (if get (remote_prefs s) ''externalCalendars'' = JBool True then remote_calendars (get s ''externalCalendars'') else JUndef)"
  by (simp_all add: get_remote_settings(3)) (simp_all add: remote_groups_def LANGUAGE_KEYS_def map_add_def map_of_append)

lemma remote_ai_secrets:
  "get (remote_ai ai) ''apiKey'' = JUndef" "get (get (remote_ai ai) ''speechToText'') ''offlineModelPath'' = JUndef"
  by (simp_all add: remote_ai_def Let_def get_falsy)

lemma get_cleared:
  "get (puts a cleared_state) k = (if k = ''uri'' then JStr '''' else if k \<in> set DEVICE_STATE_KEYS then JUndef else get a k)"
  by (simp add: cleared_state_def DEVICE_STATE_KEYS_def)

definition stateless :: "js \<Rightarrow> bool" where
  "stateless a \<longleftrightarrow> get a ''uri'' = JStr '''' \<and> (\<forall>k\<in>set DEVICE_STATE_KEYS. get a k = JUndef)"

lemma puts_append: "puts v (xs @ ys) = puts (puts v xs) ys"
  by (induction xs arbitrary: v) simp_all

lemma sanitize_attachment_stateless:
  assumes "get (sanitize_attachment b a) ''kind'' = JStr ''file''" shows "stateless (sanitize_attachment b a)"
proof (cases "get a ''kind'' = JStr ''file''")
  case True
  have "stateless (puts x cleared_state)" for x by (auto simp: stateless_def get_cleared DEVICE_STATE_KEYS_def)
  with True show ?thesis unfolding sanitize_attachment_def Let_def puts_append by simp
qed (use assms in \<open>simp add: sanitize_attachment_def\<close>)

lemma compacted_no_attachments:
  "truthy (get e ''purgedAt'') \<Longrightarrow> get (compactPurgedTaskTombstone e) ''attachments'' = JUndef"
  "truthy (get e ''purgedAt'') \<Longrightarrow> get (compactPurgedProjectTombstone e) ''attachments'' = JUndef"
  by (simp_all add: compactPurgedTaskTombstone_def compactPurgedProjectTombstone_def)

lemma sanitize_owner_attachments:
  "truthy (get e ''purgedAt'') \<Longrightarrow> get (compact_tomb e) ''attachments'' = JUndef \<Longrightarrow> elems (get (sanitize_owner compact_tomb e) ''attachments'') = []"
  "\<not> truthy (get e ''purgedAt'') \<Longrightarrow> elems (get (sanitize_owner compact_tomb e) ''attachments'')
     = map (sanitize_attachment (deleted e)) (elems (get e ''attachments''))"
  by (simp_all add: sanitize_owner_def sanitizeAttachments_def split: js.split)


definition private_document :: AppData where
  "private_document = \<lparr>tasks = [JObj [(''id'', JStr ''t''), (''attachments'', JArr [JObj
       [(''id'', JStr ''a''), (''kind'', JStr ''file''), (''uri'', JStr ''/home/me/plan.txt''), (''localStatus'', JStr ''available''),
        (''cloudKey'', JStr ''k'')]])]],
     projects = [], sections = [], areas = [], people = [],
     settings = JObj [(''syncPreferences'', JObj [(''ai'', JBool True)]), (''ai'', JObj [(''apiKey'', JStr ''secret'')]),
       (''deviceId'', JStr ''d1'')]\<rparr>"


section \<open>Sanitising once is enough\<close>

lemma puts_same: "is_obj v \<Longrightarrow> \<forall>(k, x)\<in>set kvs. has_own v k \<and> get v k = x \<Longrightarrow> puts v kvs = v"
  by (induction kvs) (auto simp: put_same)

lemma cleared_again: "puts (puts a cleared_state) cleared_state = puts a cleared_state"
proof (rule puts_same)
  show "is_obj (puts a cleared_state)" by (simp add: cleared_state_def DEVICE_STATE_KEYS_def)
  show "\<forall>(k, x)\<in>set cleared_state. has_own (puts a cleared_state) k \<and> get (puts a cleared_state) k = x"
    by (auto simp: has_own_puts get_cleared) (auto simp: cleared_state_def DEVICE_STATE_KEYS_def)
qed

lemma sentinel_kept: "hasNonEmptyValue v \<Longrightarrow> truthy v"
  by (cases v) (auto simp: hasNonEmptyValue_def trim_str_def)

lemma sanitize_attachment_again: "sanitize_attachment b (sanitize_attachment b a) = sanitize_attachment b a"
proof -
  have other: "get (puts x cleared_state) k = get x k" if "k \<in> {''kind'', ''deletedAt'', ''cloudKey'', ''updatedAt''}" for x k
    using that by (auto simp: get_cleared DEVICE_STATE_KEYS_def)
  have status: "get (puts x cleared_state) ''localStatus'' = JUndef" for x by (simp add: get_cleared DEVICE_STATE_KEYS_def)
  have stamp: "truthy (if hasNonEmptyValue v then v else JStr MISSING_ATTACHMENT_TIMESTAMP_SENTINEL)" for v
    using sentinel_kept by (simp add: MISSING_ATTACHMENT_TIMESTAMP_SENTINEL_def)
  show ?thesis
    unfolding sanitize_attachment_def Let_def puts_append
    by (auto simp: other status stamp cleared_again simp del: if_split)
qed

lemma sanitizeAttachments_again: "sanitizeAttachments (sanitizeAttachments v b) b = sanitizeAttachments v b"
  by (simp add: sanitizeAttachments_def sanitize_attachment_again split: js.split)

lemma sanitize_owner_again:
  assumes "\<And>e. truthy (get e ''purgedAt'') \<Longrightarrow> get (c e) ''purgedAt'' = get e ''purgedAt''" "\<And>e. c (c e) = c e"
  shows "sanitize_owner c (sanitize_owner c e) = sanitize_owner c e"
proof (cases "truthy (get e ''purgedAt'')")
  case True
  with assms show ?thesis by (simp add: sanitize_owner_def)
next
  case False
  then show ?thesis by (simp add: sanitize_owner_def sanitizeAttachments_again deleted_def put_same)
qed

lemma compacted_purge_times:
  "truthy (get e ''purgedAt'') \<Longrightarrow> get (compactPurgedTaskTombstone e) ''purgedAt'' = get e ''purgedAt''"
  "truthy (get e ''purgedAt'') \<Longrightarrow> get (compactPurgedProjectTombstone e) ''purgedAt'' = get e ''purgedAt''"
  "truthy (get e ''purgedAt'') \<Longrightarrow> get (compactPurgedProjectTombstone e) ''id'' = get e ''id''"
  by (simp_all add: compactPurgedTaskTombstone_def compactPurgedProjectTombstone_def)

lemma purged_map_kept:
  "purgedAtByProjectId (map (sanitize_owner compactPurgedProjectTombstone) ps) = purgedAtByProjectId ps"
proof -
  have k: "get (sanitize_owner compactPurgedProjectTombstone p) ''purgedAt'' = get p ''purgedAt''"
    "get (sanitize_owner compactPurgedProjectTombstone p) ''id'' = get p ''id''" for p
    by (simp_all add: sanitize_owner_def compacted_purge_times)
  show ?thesis by (simp add: purgedAtByProjectId_def filter_map comp_def k)
qed

lemma compacted_sections_again:
  "compactSectionsForPurgedProjects (compactSectionsForPurgedProjects ss ps False) ps False = compactSectionsForPurgedProjects ss ps False"
proof -
  have "compactSection False m (compactSection False m s) = compactSection False m s" for m s
    by (simp add: compactSection_def Let_def compactPurgedProjectSectionTombstone_def split: option.split)
  then show ?thesis by (simp add: compactSectionsForPurgedProjects_def)
qed

text \<open>The GTD snapshot of settings that are a snapshot already.\<close>

lemma get_picked_rest:
  "get (JObj (picked v ks @ rest)) k = (if k \<in> set ks \<and> get v k \<noteq> JUndef then get v k else get (JObj rest) k)"
  by (induction ks) (auto simp: picked_def)

lemma picked_again:
  assumes "\<And>k. k \<in> set ks \<Longrightarrow> get w k = get v k" shows "picked w ks = picked v ks"
  using assms by (auto simp: picked_def intro!: filter_cong)

lemma get_entry_if_any:
  "get (JObj (entry_if_any k kvs @ rest)) k' = (if k' = k \<and> kvs \<noteq> [] then JObj kvs else get (JObj rest) k')"
  by (simp add: entry_if_any_def)

lemma get_picked_own: "get (JObj (picked v ks)) k = (if k \<in> set ks then get v k else JUndef)"
  using get_picked_rest [of v ks "[]" k] by auto

definition snapshot_gtd :: "js \<Rightarrow> (string \<times> js) list" where
  "snapshot_gtd s = picked (get s ''gtd'') GTD_SYNCED_FIELD_KEYS
     @ entry_if_any ''inboxProcessing'' (picked (get (get s ''gtd'') ''inboxProcessing'') GTD_SYNCED_INBOX_PROCESSING_FIELD_KEYS)"

lemma snapshot_alt:
  "getGtdSyncSnapshot s = JObj (entry_if_any ''gtd'' (snapshot_gtd s) @ picked s GTD_SYNCED_APP_SETTINGS_FIELD_KEYS
     @ entry_if_any ''features'' (picked (get s ''features'') GTD_SYNCED_FEATURE_FIELD_KEYS))"
  by (simp add: getGtdSyncSnapshot_def snapshot_gtd_def Let_def)

lemma get_snapshot:
  "get (getGtdSyncSnapshot s) ''gtd'' = (if snapshot_gtd s \<noteq> [] then JObj (snapshot_gtd s) else JUndef)"
  "k \<in> set GTD_SYNCED_APP_SETTINGS_FIELD_KEYS \<Longrightarrow> get (getGtdSyncSnapshot s) k = get s k"
  "get (getGtdSyncSnapshot s) ''features'' = (let fs = picked (get s ''features'') GTD_SYNCED_FEATURE_FIELD_KEYS
     in if fs \<noteq> [] then JObj fs else JUndef)"
proof -
  have e: "get (JObj (entry_if_any k kvs)) k' = (if k' = k \<and> kvs \<noteq> [] then JObj kvs else JUndef)" for k kvs k'
    by (simp add: entry_if_any_def)
  have k: "''gtd'' \<notin> set GTD_SYNCED_APP_SETTINGS_FIELD_KEYS" "''features'' \<notin> set GTD_SYNCED_APP_SETTINGS_FIELD_KEYS"
    by (simp_all add: GTD_SYNCED_APP_SETTINGS_FIELD_KEYS_def)
  show "get (getGtdSyncSnapshot s) ''gtd'' = (if snapshot_gtd s \<noteq> [] then JObj (snapshot_gtd s) else JUndef)"
    "get (getGtdSyncSnapshot s) ''features'' = (let fs = picked (get s ''features'') GTD_SYNCED_FEATURE_FIELD_KEYS
     in if fs \<noteq> [] then JObj fs else JUndef)"
    using k by (simp_all add: snapshot_alt get_entry_if_any get_picked_rest e Let_def)
  assume "k \<in> set GTD_SYNCED_APP_SETTINGS_FIELD_KEYS"
  then show "get (getGtdSyncSnapshot s) k = get s k"
    using k by (auto simp: snapshot_alt get_entry_if_any get_picked_rest e)
qed

lemma picked_nothing: "picked JUndef ks = []"
  by (induction ks) (simp_all add: picked_def get_falsy)

lemma picked_own: "distinct ks \<Longrightarrow> picked (JObj (picked v ks)) ks = picked v ks"
  by (rule picked_again) (simp add: get_picked_own)

lemma snapshot_gtd_again:
  assumes "get s' ''gtd'' = (if snapshot_gtd s \<noteq> [] then JObj (snapshot_gtd s) else JUndef)"
  shows "snapshot_gtd s' = snapshot_gtd s"
proof (cases "snapshot_gtd s = []")
  case True
  with assms show ?thesis by (simp add: snapshot_gtd_def picked_nothing get_falsy entry_if_any_def)
next
  case False
  have inbox: "''inboxProcessing'' \<notin> set GTD_SYNCED_FIELD_KEYS" by (simp add: GTD_SYNCED_FIELD_KEYS_def)
  let ?inner = "picked (get (get s ''gtd'') ''inboxProcessing'') GTD_SYNCED_INBOX_PROCESSING_FIELD_KEYS"
  from False assms have g: "get s' ''gtd'' = JObj (snapshot_gtd s)" by simp
  have i: "get (get s' ''gtd'') ''inboxProcessing'' = (if ?inner \<noteq> [] then JObj ?inner else JUndef)"
    unfolding g unfolding snapshot_gtd_def get_picked_rest using inbox by (simp add: entry_if_any_def)
  have "picked (get s' ''gtd'') GTD_SYNCED_FIELD_KEYS = picked (get s ''gtd'') GTD_SYNCED_FIELD_KEYS"
  proof (rule picked_again)
    fix k assume "k \<in> set GTD_SYNCED_FIELD_KEYS"
    with inbox show "get (get s' ''gtd'') k = get (get s ''gtd'') k"
      unfolding g unfolding snapshot_gtd_def get_picked_rest by (auto simp: entry_if_any_def)
  qed
  moreover have "picked (get (get s' ''gtd'') ''inboxProcessing'') GTD_SYNCED_INBOX_PROCESSING_FIELD_KEYS = ?inner"
    unfolding i by (simp add: picked_own picked_nothing GTD_SYNCED_INBOX_PROCESSING_FIELD_KEYS_def)
  ultimately show ?thesis by (simp add: snapshot_gtd_def [of s'] snapshot_gtd_def [of s])
qed

lemma snapshot_again:
  assumes "\<And>k. k \<in> set [''gtd'', ''quickAddAutoClean'', ''markdownEditorAssist'', ''features''] \<Longrightarrow> get s' k = get (getGtdSyncSnapshot s) k"
  shows "getGtdSyncSnapshot s' = getGtdSyncSnapshot s"
proof -
  have "snapshot_gtd s' = snapshot_gtd s"
    by (rule snapshot_gtd_again) (simp add: assms get_snapshot(1))
  moreover have "picked s' GTD_SYNCED_APP_SETTINGS_FIELD_KEYS = picked s GTD_SYNCED_APP_SETTINGS_FIELD_KEYS"
    by (rule picked_again) (auto simp: assms get_snapshot(2) GTD_SYNCED_APP_SETTINGS_FIELD_KEYS_def)
  moreover have "picked (get s' ''features'') GTD_SYNCED_FEATURE_FIELD_KEYS = picked (get s ''features'') GTD_SYNCED_FEATURE_FIELD_KEYS"
    by (simp add: assms get_snapshot(3) Let_def picked_nothing picked_own GTD_SYNCED_FEATURE_FIELD_KEYS_def)
  ultimately show ?thesis by (simp add: snapshot_alt)
qed

text \<open>The groups of settings that are sanitised already.\<close>

lemma get_optional:
  "get (JObj ((if b then xs else []) @ ys)) k = (if b \<and> k \<in> fst ` set xs then get (JObj xs) k else get (JObj ys) k)"
  "get (JObj (if b then xs else [])) k = (if b \<and> k \<in> fst ` set xs then get (JObj xs) k else JUndef)"
proof -
  have "k \<in> fst ` set xs \<longleftrightarrow> map_of xs k \<noteq> None" by (simp add: map_of_eq_None_iff)
  then show "get (JObj ((if b then xs else []) @ ys)) k = (if b \<and> k \<in> fst ` set xs then get (JObj xs) k else get (JObj ys) k)"
    "get (JObj (if b then xs else [])) k = (if b \<and> k \<in> fst ` set xs then get (JObj xs) k else JUndef)"
    by (auto simp: get_def map_add_def split: option.split)
qed

lemma get_remote_group:
  "k \<notin> {''syncPreferences'', ''syncPreferencesUpdatedAt''} \<Longrightarrow>
   get (sanitizeSettingsForRemote h s) k = get (JObj (remote_groups h (remote_prefs s) s)) k"
  by (subst get_remote_settings(3)) (auto simp: get_def)

lemma get_remote_groups:
  "k \<in> set [''theme'', ''keybindingStyle''] \<Longrightarrow> get (sanitizeSettingsForRemote h s) k = (if get (remote_prefs s) ''appearance'' = JBool True then get s k else JUndef)"
  "get (sanitizeSettingsForRemote h s) ''appearance'' =
     (if get (remote_prefs s) ''appearance'' = JBool True then spread_if (get s ''appearance'') else JUndef)"
  "k \<in> set LANGUAGE_KEYS \<Longrightarrow> get (sanitizeSettingsForRemote h s) k = (if get (remote_prefs s) ''language'' = JBool True then get s k else JUndef)"
  "k \<in> set [''gtd'', ''quickAddAutoClean'', ''markdownEditorAssist'', ''features''] \<Longrightarrow> get (sanitizeSettingsForRemote h s) k =
     (if isSettingsSyncGroupEnabled (remote_prefs s) ''gtd'' then get (getGtdSyncSnapshot s) k else JUndef)"
  "get (sanitizeSettingsForRemote h s) ''savedFilters'' =
     (if get (remote_prefs s) ''savedFilters'' = JBool True then JArr (normalizeSavedFilters h (get s ''savedFilters'')) else JUndef)"
proof -
  let ?G = "remote_groups h (remote_prefs s) s"
  note group_simps = get_remote_group remote_groups_def get_optional LANGUAGE_KEYS_def
  have "\<forall>k\<in>set [''theme'', ''keybindingStyle'']. get (sanitizeSettingsForRemote h s) k = (if get (remote_prefs s) ''appearance'' = JBool True then get s k else JUndef)"
    by (simp add: group_simps del: if_split)
  then show "k \<in> set [''theme'', ''keybindingStyle''] \<Longrightarrow> get (sanitizeSettingsForRemote h s) k = (if get (remote_prefs s) ''appearance'' = JBool True then get s k else JUndef)"
    by blast
  show "get (sanitizeSettingsForRemote h s) ''appearance'' =
     (if get (remote_prefs s) ''appearance'' = JBool True then spread_if (get s ''appearance'') else JUndef)"
    by (simp add: group_simps del: if_split)
  have "\<forall>k\<in>set LANGUAGE_KEYS. get (sanitizeSettingsForRemote h s) k = (if get (remote_prefs s) ''language'' = JBool True then get s k else JUndef)"
    by (simp add: group_simps del: if_split)
  then show "k \<in> set LANGUAGE_KEYS \<Longrightarrow> get (sanitizeSettingsForRemote h s) k = (if get (remote_prefs s) ''language'' = JBool True then get s k else JUndef)"
    by blast
  have "\<forall>k\<in>set [''gtd'', ''quickAddAutoClean'', ''markdownEditorAssist'', ''features'']. get (sanitizeSettingsForRemote h s) k =
     (if isSettingsSyncGroupEnabled (remote_prefs s) ''gtd'' then get (getGtdSyncSnapshot s) k else JUndef)"
    by (simp add: group_simps del: if_split)
  then show "k \<in> set [''gtd'', ''quickAddAutoClean'', ''markdownEditorAssist'', ''features''] \<Longrightarrow> get (sanitizeSettingsForRemote h s) k =
     (if isSettingsSyncGroupEnabled (remote_prefs s) ''gtd'' then get (getGtdSyncSnapshot s) k else JUndef)"
    by blast
  show "get (sanitizeSettingsForRemote h s) ''savedFilters'' =
     (if get (remote_prefs s) ''savedFilters'' = JBool True then JArr (normalizeSavedFilters h (get s ''savedFilters'')) else JUndef)"
    by (simp add: group_simps del: if_split)
qed

lemma remote_prefs_again:
  "get (remote_prefs (sanitizeSettingsForRemote h s)) k =
     (if k = ''gtd'' \<and> isSettingsSyncGroupEnabled (remote_prefs s) ''gtd'' then JBool True else get (remote_prefs s) k)"
  unfolding remote_prefs_def [of "sanitizeSettingsForRemote h s"] get_remote_settings(1)
  by (simp add: coalesce_def put_def spread_def) (simp add: get_def update_conv')

lemma spread_again: "spread (spread v) = spread v" "spread_if (spread_if v) = spread_if v"
  by (simp_all add: spread_def spread_if_def)

lemma remote_calendars_again: "remote_calendars (remote_calendars v) = remote_calendars v"
proof -
  have "isLocalCalendarSource (spread c) = isLocalCalendarSource c" for c by (simp add: isLocalCalendarSource_def)
  then show ?thesis by (simp add: remote_calendars_def comp_def filter_map spread_again split: js.split)
qed

lemma remote_ai_again: "remote_ai (remote_ai ai) = remote_ai ai"
proof -
  let ?speech = "\<lambda>v. if truthy v then put (spread v) ''offlineModelPath'' JUndef else v"
  have sp: "spread (put v k x) = put v k x" for v k x by (simp add: spread_def put_def)
  have again: "?speech (?speech v) = ?speech v" for v by (auto simp: sp put_same)
  have "get (remote_ai ai) ''speechToText'' = ?speech (get ai ''speechToText'')" by (simp add: remote_ai_def Let_def)
  moreover have "spread (remote_ai ai) = remote_ai ai" by (simp add: remote_ai_def sp)
  ultimately have "remote_ai (remote_ai ai) = puts (remote_ai ai) [(''apiKey'', JUndef), (''speechToText'', ?speech (get ai ''speechToText''))]"
    unfolding remote_ai_def [of "remote_ai ai"] Let_def by (simp only: again)
  also have "\<dots> = remote_ai ai"
    by (rule puts_same) (simp_all add: remote_ai_def Let_def)
  finally show ?thesis .
qed

lemma gtd_enabled_again:
  "isSettingsSyncGroupEnabled (remote_prefs (sanitizeSettingsForRemote h s)) ''gtd'' = isSettingsSyncGroupEnabled (remote_prefs s) ''gtd''"
  by (simp add: isSettingsSyncGroupEnabled_def remote_prefs_again coalesce_def)

lemma remote_groups_again:
  assumes filters: "\<And>v. normalizeSavedFilters h (JArr (normalizeSavedFilters h v)) = normalizeSavedFilters h v"
  shows "remote_groups h (remote_prefs (sanitizeSettingsForRemote h s)) (sanitizeSettingsForRemote h s) = remote_groups h (remote_prefs s) s"
proof -
  let ?s = "sanitizeSettingsForRemote h s" and ?p = "remote_prefs s"
  have on: "get (remote_prefs ?s) k = get ?p k" if "k \<noteq> ''gtd''" for k using that by (simp add: remote_prefs_again)
  have language: "map (\<lambda>k. (k, get ?s k)) LANGUAGE_KEYS = map (\<lambda>k. (k, get s k)) LANGUAGE_KEYS" if "get ?p ''language'' = JBool True"
    using that by (simp add: get_remote_groups(3))
  have gtd: "getGtdSyncSnapshot ?s = getGtdSyncSnapshot s" if "isSettingsSyncGroupEnabled ?p ''gtd''"
    by (rule snapshot_again) (use that in \<open>simp only: get_remote_groups(4) if_True\<close>)
  have ai: "truthy (remote_ai x)" for x by (simp add: remote_ai_def Let_def put_def)
  show ?thesis
    unfolding remote_groups_def gtd_enabled_again
    by (simp add: on language gtd get_remote_groups(1,2,5) remote_ai_value ai spread_again remote_calendars_again
        remote_ai_again filters cong: if_cong)
qed

lemma remote_stamps_again:
  "remote_stamps h (remote_prefs (sanitizeSettingsForRemote h s)) (remote_stamps h p stamps) = remote_stamps h p stamps"
proof -
  have "truthy x \<Longrightarrow> spread x = x" if "x = JUndef \<or> (\<exists>y. x = spread y) \<or> (\<exists>y k v. x = put y k v)" for x
    using that by (auto simp: spread_def put_def)
  moreover have shape: "remote_stamps h p stamps = JUndef \<or> (\<exists>y. remote_stamps h p stamps = spread y)
      \<or> (\<exists>y k v. remote_stamps h p stamps = put y k v)"
    by (auto simp: remote_stamps_def Let_def)
  moreover have "\<not> truthy (remote_stamps h p stamps) \<Longrightarrow> remote_stamps h p stamps = JUndef"
    using shape by (auto simp: spread_def put_def)
  moreover have "isSettingsSyncGroupEnabled (remote_prefs (sanitizeSettingsForRemote h s)) ''gtd''
      \<Longrightarrow> get (remote_prefs (sanitizeSettingsForRemote h s)) ''gtd'' \<noteq> JUndef"
    unfolding gtd_enabled_again remote_prefs_again by simp
  ultimately show ?thesis unfolding remote_stamps_def [of h "remote_prefs (sanitizeSettingsForRemote h s)"] Let_def by auto
qed

lemma remote_settings_again:
  assumes "\<And>v. normalizeSavedFilters h (JArr (normalizeSavedFilters h v)) = normalizeSavedFilters h v"
  shows "sanitizeSettingsForRemote h (sanitizeSettingsForRemote h s) = sanitizeSettingsForRemote h s"
proof -
  let ?s = "sanitizeSettingsForRemote h s"
  have prefs: "remote_prefs ?s = (if isSettingsSyncGroupEnabled (remote_prefs s) ''gtd''
      then put (spread (remote_prefs s)) ''gtd'' (JBool True) else spread (remote_prefs s))"
    unfolding remote_prefs_def [of ?s] get_remote_settings(1) by (simp add: coalesce_def put_def spread_def)
  have "spread (put v k x) = put v k x" "put (put v k x) k x = put v k x" for v k x by (simp_all add: spread_def put_def put_same)
  then have same: "(if isSettingsSyncGroupEnabled (remote_prefs ?s) ''gtd'' then put (spread (remote_prefs ?s)) ''gtd'' (JBool True)
      else spread (remote_prefs ?s)) = remote_prefs ?s"
    unfolding gtd_enabled_again prefs by (simp add: spread_again isSettingsSyncGroupEnabled_def)
  show ?thesis
    unfolding remote_settings_alt [of h ?s] same remote_groups_again [OF assms] get_remote_settings(2) remote_stamps_again
    unfolding prefs remote_settings_alt [of h s, symmetric] ..
qed

text \<open>
  C16. Sanitising for the remote settles: the document a device publishes is its own remote document, so publishing what
  was just received, or comparing it with what would be published, finds no difference. It holds
  for any collation that orders no pair both ways.
\<close>

theorem outbound_document_settles:
  assumes "\<And>a b. 0 < locale_compare h a b \<Longrightarrow> locale_compare h b a \<le> 0"
  shows "toRemoteSyncDocument h (toRemoteSyncDocument h d) = toRemoteSyncDocument h d"
proof -
  have "normalizeSavedFilters h (JArr (normalizeSavedFilters h v)) = normalizeSavedFilters h v" for v
    using normalizeSavedFilters_settled [of h v] assms by blast
  note settings = remote_settings_again [OF this]
  have task: "sanitize_owner compactPurgedTaskTombstone (sanitize_owner compactPurgedTaskTombstone e) = sanitize_owner compactPurgedTaskTombstone e" for e
    by (rule sanitize_owner_again) (simp_all add: compacted_purge_times compactPurgedTaskTombstone_idem)
  have project: "sanitize_owner compactPurgedProjectTombstone (sanitize_owner compactPurgedProjectTombstone e) = sanitize_owner compactPurgedProjectTombstone e" for e
    by (rule sanitize_owner_again) (simp_all add: compacted_purge_times compactPurgedProjectTombstone_idem)
  have "compactSectionsForPurgedProjects ss (map (sanitize_owner compactPurgedProjectTombstone) ps) False = compactSectionsForPurgedProjects ss ps False" for ss ps
    by (simp add: compactSectionsForPurgedProjects_def purged_map_kept)
  then show ?thesis
    by (simp add: toRemoteSyncDocument_def sanitizeAppDataForRemote_def comp_def task project settings compacted_sections_again)
qed

theorem outbound_document_settles_witness:
  "toRemoteSyncDocument host0 (toRemoteSyncDocument host0 private_document) = toRemoteSyncDocument host0 private_document
   \<and> toRemoteSyncDocument host0 private_document \<noteq> private_document"
proof -
  have "0 < locale_compare host0 a b \<Longrightarrow> locale_compare host0 b a \<le> 0" for a b
    by (auto simp: host0_def split: if_splits)
  from outbound_document_settles [of host0, OF this]
  have "toRemoteSyncDocument host0 (toRemoteSyncDocument host0 private_document) = toRemoteSyncDocument host0 private_document" by blast
  moreover have "\<not> has_own (settings (toRemoteSyncDocument host0 private_document)) ''deviceId''"
    using remote_settings_keys [of host0 "settings private_document"]
    by (auto simp: toRemoteSyncDocument_def sanitizeAppDataForRemote_def has_own_def SYNCED_SETTINGS_KEYS_def)
  moreover have "has_own (settings private_document) ''deviceId''" by (simp add: private_document_def has_own_def keys_def)
  ultimately show ?thesis by metis
qed

section \<open>Publishing waits for the uploads\<close>

lemma pending_none:
  "findPendingAttachmentUploads d = [] \<longleftrightarrow>
     (\<forall>e\<in>set (tasks d) \<union> set (projects d). \<not> deleted e \<longrightarrow> (\<forall>a\<in>set (elems (get e ''attachments'')). \<not> awaits_upload a))"
  by (auto simp: findPendingAttachmentUploads_def collectPendingUploads_def filter_empty_conv)

text \<open>
  Publishing waits for the uploads: the assertion before a remote write passes exactly when no live file of a live
  task or project awaits an upload, and then no file goes out that others could not read: a file that
  is live in the outbound document has its content in the cloud, or was never a local file. Otherwise it
  fails with a message that counts the files.
\<close>

theorem publishing_waits_for_uploads:
  "(case assertNoPendingAttachmentUploads d of
      Inr _ \<Rightarrow> (\<forall>e\<in>set (tasks d) \<union> set (projects d). \<forall>a\<in>set (elems (get e ''attachments'')).
          let b = sanitize_attachment (deleted e) a
          in get b ''kind'' = JStr ''file'' \<and> \<not> deleted b \<longrightarrow>
               truthy (get b ''cloudKey'') \<or> \<not> isLocalAttachmentUri (the_str (get a ''uri'')))
    | Inl message \<Rightarrow> (\<exists>e\<in>set (tasks d) \<union> set (projects d). \<exists>a\<in>set (elems (get e ''attachments'')). \<not> deleted e \<and> awaits_upload a)
        \<and> starts_with message (''Attachment upload incomplete: '' @ nat_str (length (findPendingAttachmentUploads d))))"
proof (cases "findPendingAttachmentUploads d = []")
  case True
  have "truthy (get b ''cloudKey'') \<or> \<not> isLocalAttachmentUri (the_str (get a ''uri''))"
    if "e \<in> set (tasks d) \<union> set (projects d)" "a \<in> set (elems (get e ''attachments''))" "b = sanitize_attachment (deleted e) a"
      "get b ''kind'' = JStr ''file''" "\<not> deleted b" for e a b
  proof -
    have other: "get (puts x cleared_state) k = get x k" if "k \<in> {''kind'', ''deletedAt'', ''cloudKey''}" for x k
      using that by (auto simp: get_cleared DEVICE_STATE_KEYS_def)
    have stamp: "truthy (if hasNonEmptyValue v then v else JStr MISSING_ATTACHMENT_TIMESTAMP_SENTINEL)" for v
      using sentinel_kept by (simp add: MISSING_ATTACHMENT_TIMESTAMP_SENTINEL_def)
    from that(3-5) have a: "get a ''kind'' = JStr ''file''" "\<not> truthy (get a ''deletedAt'')" "get b ''cloudKey'' = get a ''cloudKey''"
      "hasNonEmptyValue (get a ''cloudKey'') \<or> \<not> deleted e \<and> get a ''localStatus'' \<noteq> JStr ''missing''"
      unfolding sanitize_attachment_def Let_def puts_append deleted_def
      by (auto simp: other stamp simp del: if_split split: if_splits)
    from True that(1,2) have "deleted e \<or> \<not> awaits_upload a" by (auto simp: pending_none)
    with a sentinel_kept show ?thesis by (auto simp: awaits_upload_def split: if_splits)
  qed
  with True show ?thesis by (simp add: assertNoPendingAttachmentUploads_def assertNoPendingUploadList_def Let_def)
next
  case False
  then have "\<exists>e\<in>set (tasks d) \<union> set (projects d). \<exists>a\<in>set (elems (get e ''attachments'')). \<not> deleted e \<and> awaits_upload a"
    by (auto simp: pending_none)
  moreover have "starts_with (p @ n @ r) (p @ n)" for p n r :: string by (simp add: starts_with_def)
  ultimately show ?thesis using False
    by (simp add: assertNoPendingAttachmentUploads_def assertNoPendingUploadList_def Let_def starts_with_def)
qed

definition unsent_document :: AppData where
  "unsent_document = \<lparr>tasks = [JObj [(''id'', JStr ''t''), (''attachments'', JArr [JObj
       [(''id'', JStr ''a''), (''kind'', JStr ''file''), (''uri'', JStr ''/home/me/plan.txt'')]])]],
     projects = [], sections = [], areas = [], people = [], settings = JObj []\<rparr>"

theorem publishing_waits_for_uploads_witness:
  "\<exists>message. assertNoPendingAttachmentUploads unsent_document = Inl message
     \<and> starts_with message ''Attachment upload incomplete: 1''"
proof -
  have n: "''Attachment upload incomplete: '' @ nat_str (length (findPendingAttachmentUploads unsent_document))
      = ''Attachment upload incomplete: 1''" "findPendingAttachmentUploads unsent_document \<noteq> []" by code_simp+
  then obtain m where m: "assertNoPendingAttachmentUploads unsent_document = Inl m"
    by (auto simp: assertNoPendingAttachmentUploads_def assertNoPendingUploadList_def Let_def)
  from publishing_waits_for_uploads [of unsent_document] show ?thesis unfolding m n sum.case by blast
qed

section \<open>Cloud addresses\<close>

lemma strip_slashes_again: "strip_slashes (strip_slashes s) = strip_slashes s"
  by (simp add: strip_slashes_def)

text \<open>A normalised address is a data address and stays as it is.\<close>

lemma normalizeCloudUrl_again:
  "normalizeCloudUrl (normalizeCloudUrl u) = normalizeCloudUrl u \<and> ends_with (lower (normalizeCloudUrl u)) ''/data''"
proof -
  have slash: "strip_slashes (s @ ''/data'') = s @ ''/data''" "strip_slashes (s @ ''/v1/data'') = s @ ''/v1/data''" for s
    by (simp_all add: strip_slashes_def)
  have low: "lower (s @ ''/data'') = lower s @ ''/data''" "lower (s @ ''/v1/data'') = lower s @ ''/v1/data''" for s
    by (simp_all add: lower_def lower_char_def)
  have e: "ends_with (x @ ''/data'') ''/data''" "ends_with (x @ ''/v1/data'') ''/data''" "ends_with (x @ ''/v1/data'') ''/v1/data''" for x
    by (simp_all add: ends_with_def starts_with_def)
  have longer: "ends_with s ''/data''" if "ends_with s ''/v1/data''" for s
  proof -
    have "take 8 (rev s) = rev ''/v1/data''" using that by (simp add: ends_with_def starts_with_def eval_nat_numeral)
    then have "take 5 (take 8 (rev s)) = rev ''/data''" by simp
    then show ?thesis by (simp add: ends_with_def starts_with_def eval_nat_numeral)
  qed
  show ?thesis
    unfolding normalizeCloudUrl_def Let_def
    using longer by (auto simp: strip_slashes_again slash low e)
qed

end
