(* ===== verification/Sync_Comparison.thy ===== *)
theory Sync_Comparison
  imports Sync_Outbound "HOL-Library.Multiset"
begin

text \<open>
  Comparing documents (\<^verbatim>\<open>packages/core/src/sync-helpers.ts\<close>, second half): the stable form two payloads
  are compared and fingerprinted by, the comparison that decides whether a local write can be skipped, the
  revision digest that decides whether anything is worth a sync, and the calendars a device adds to its
  document. The property-order cache of the code only saves sorting; two references to one object are
  compared by content.
\<close>

section \<open>The stable form\<close>

definition isIdKeyed :: "js \<Rightarrow> bool" where
  "isIdKeyed item \<longleftrightarrow> is_str (get item ''id'')"

fun normalizeForSyncComparison :: "js \<Rightarrow> js" where
  "normalizeForSyncComparison (JArr xs) =
     (let items = map normalizeForSyncComparison xs
      in JArr (if 1 < length items \<and> list_all isIdKeyed items then sort_key (\<lambda>item. the_str (get item ''id'')) items else items))"
| "normalizeForSyncComparison (JObj kvs) =
     JObj (sort_key fst (map (\<lambda>kv. (fst kv, normalizeForSyncComparison (snd kv))) kvs))"
| "normalizeForSyncComparison v = v"

text \<open>A document as the object it is.\<close>

definition document_js :: "AppData \<Rightarrow> js" where
  "document_js d = JObj [(''tasks'', JArr (tasks d)), (''projects'', JArr (projects d)), (''sections'', JArr (sections d)),
     (''areas'', JArr (areas d)), (''people'', JArr (people d)), (''settings'', settings d)]"

definition toStableSyncJson :: "js \<Rightarrow> string option" where
  "toStableSyncJson v = json (normalizeForSyncComparison v)"

definition areSyncPayloadsEqual :: "AppData \<Rightarrow> AppData \<Rightarrow> bool" where
  "areSyncPayloadsEqual l r \<longleftrightarrow> toStableSyncJson (document_js l) = toStableSyncJson (document_js r)"

definition areRemoteSyncDocumentsEqual :: "AppData \<Rightarrow> AppData \<Rightarrow> bool" where
  "areRemoteSyncDocumentsEqual l r \<longleftrightarrow> areSyncPayloadsEqual l r"

section \<open>Fingerprints\<close>

definition hash_left :: "32 word \<Rightarrow> char \<Rightarrow> 32 word" where
  "hash_left w c = (w XOR of_char c) * 0x01000193"

definition hash_right :: "32 word \<Rightarrow> nat \<times> char \<Rightarrow> 32 word" where
  "hash_right w ic =
     (let mixed = (w XOR of_nat (of_char (snd ic) + fst ic)) * 0x85ebca6b
      in mixed XOR drop_bit 13 mixed)"

definition hashStableSyncJson :: "string \<Rightarrow> string" where
  "hashStableSyncJson s =
     hex8 (foldl hash_left 0x811c9dc5 s) @ hex8 (foldl hash_right 0x9e3779b9 (enumerate 0 s))"

text \<open>Without a text, the code reads the length of \<open>undefined\<close> and throws.\<close>

definition computeStableValueFingerprint :: "js \<Rightarrow> string option" where
  "computeStableValueFingerprint v =
     map_option (\<lambda>text. ''stable-v2:'' @ nat_str (length text) @ '':'' @ hashStableSyncJson text) (toStableSyncJson v)"

definition computeSyncPayloadFingerprint :: "host \<Rightarrow> AppData \<Rightarrow> string option" where
  "computeSyncPayloadFingerprint h d = computeStableValueFingerprint (document_js (sanitizeAppDataForRemote h d))"

definition computeRemoteSyncDocumentFingerprint :: "AppData \<Rightarrow> string option" where
  "computeRemoteSyncDocumentFingerprint d = computeStableValueFingerprint (document_js d)"

definition SYNC_STATUS_BOOKKEEPING_SETTINGS_KEYS :: "string list" where
  "SYNC_STATUS_BOOKKEEPING_SETTINGS_KEYS =
     [''lastSyncAt'', ''lastSyncStatus'', ''lastSyncError'', ''pendingRemoteWriteAt'', ''pendingRemoteWriteRetryAt'',
      ''pendingRemoteWriteAttempts'', ''lastSyncStats'', ''lastSyncHistory'']"

definition withoutSyncStatusBookkeeping :: "js \<Rightarrow> js" where
  "withoutSyncStatusBookkeeping s = foldl del (spread s) SYNC_STATUS_BOOKKEEPING_SETTINGS_KEYS"

definition computeCoveredSettingsFingerprint :: "js \<Rightarrow> string option" where
  "computeCoveredSettingsFingerprint s = computeStableValueFingerprint (withoutSyncStatusBookkeeping s)"

text \<open>The revision digest of a collection and of the document.\<close>

definition revision_label :: "entity \<Rightarrow> string" where
  "revision_label e =
     join ''|'' (js_string (get e ''id'') # num_str (normalizeRevision (get e ''rev''))
       # map (\<lambda>k. js_string (coalesce (get e k) (JStr ''''))) [''revBy'', ''updatedAt'', ''deletedAt'', ''purgedAt''])"

definition appendEntityRevisions :: "string list \<Rightarrow> entity list \<Rightarrow> string list" where
  "appendEntityRevisions parts entities = parts @ nat_str (length entities) # map revision_label entities"

definition change_digest :: "host \<Rightarrow> AppData \<Rightarrow> string" where
  "change_digest h d =
     (let parts = foldl appendEntityRevisions [] [tasks d, projects d, sections d, areas d, people d];
          covered = computeStableValueFingerprint (sanitizeSettingsForRemote h (coalesce (settings d) (JObj [])))
      in join [CHR 0x0A] (parts @ [case covered of Some f \<Rightarrow> f | None \<Rightarrow> []]))"

definition computeSyncChangeFingerprint :: "host \<Rightarrow> AppData \<Rightarrow> string" where
  "computeSyncChangeFingerprint h d =
     (let digest = change_digest h d in ''change-v1:'' @ nat_str (length digest) @ '':'' @ hashStableSyncJson digest)"

section \<open>Equality of JSON values\<close>

definition defined_props :: "js \<Rightarrow> nat" where
  "defined_props v = length (filter (\<lambda>kv. snd kv \<noteq> JUndef) (props v))"

function isDeepJsonEqual :: "js \<Rightarrow> js \<Rightarrow> bool" where
  "isDeepJsonEqual (JArr xs) r =
     (case r of JArr ys \<Rightarrow> length xs = length ys \<and> list_all (\<lambda>xy. isDeepJsonEqual (fst xy) (snd xy)) (zip xs ys) | _ \<Rightarrow> False)"
| "isDeepJsonEqual (JObj kvs) r =
     (is_obj r
      \<and> list_all (\<lambda>kv. if snd kv = JUndef then get r (fst kv) = JUndef else isDeepJsonEqual (snd kv) (get r (fst kv))) kvs
      \<and> defined_props (JObj kvs) = defined_props r)"
| "isDeepJsonEqual JNaN r = False"
| "isDeepJsonEqual JUndef r = (r = JUndef)"
| "isDeepJsonEqual JNull r = (r = JNull)"
| "isDeepJsonEqual (JBool b) r = (r = JBool b)"
| "isDeepJsonEqual (JNum q) r = (r = JNum q)"
| "isDeepJsonEqual (JInf neg) r = (r = JInf neg)"
| "isDeepJsonEqual (JStr s) r = (r = JStr s)"
  by pat_completeness auto

lemma size_zip_fst: "xy \<in> set (zip xs ys) \<Longrightarrow> size (fst xy) < Suc (size_list size xs)"
  using size_list_estimation' [of "fst xy" xs "size (fst xy)" size] by (cases xy) (auto dest!: set_zip_leftD simp: le_imp_less_Suc)

lemma size_prop_value: "kv \<in> set kvs \<Longrightarrow> size (snd kv) < size (JObj kvs)"
  by (induction kvs) auto

termination isDeepJsonEqual
  by (relation "measure (\<lambda>(l, r). size l)") (use size_zip_fst size_prop_value in \<open>auto simp: less_Suc_eq_le\<close>)

definition isLocalPersistEquivalent :: "AppData \<Rightarrow> AppData \<Rightarrow> bool" where
  "isLocalPersistEquivalent candidate stored \<longleftrightarrow>
     isDeepJsonEqual (withoutSyncStatusBookkeeping (settings candidate)) (withoutSyncStatusBookkeeping (settings stored))
   \<and> isDeepJsonEqual (put (document_js candidate) ''settings'' JUndef) (put (document_js stored) ''settings'' JUndef)"

section \<open>Calendars of the device\<close>

text \<open>The provider loads and saves calendars or fails; a failure is only reported.\<close>

definition injectExternalCalendars :: "AppData \<Rightarrow> (string + js) \<Rightarrow> AppData" where
  "injectExternalCalendars d loaded =
     (if get (get (settings d) ''syncPreferences'') ''externalCalendars'' \<noteq> JBool True then d
      else case loaded of
        Inl error \<Rightarrow> d
      | Inr stored \<Rightarrow>
          (if elems stored = [] then d
           else if elems (get (settings d) ''externalCalendars'') \<noteq> [] then d
           else d\<lparr>settings := put (spread (settings d)) ''externalCalendars'' stored\<rparr>))"

definition persistExternalCalendars :: "AppData \<Rightarrow> js option" where
  "persistExternalCalendars d =
     (if get (get (settings d) ''syncPreferences'') ''externalCalendars'' \<noteq> JBool True then None
      else Some (coalesce (get (settings d) ''externalCalendars'') (JArr [])))"

section \<open>What the equality means\<close>

text \<open>The value with undefined properties dropped and the others in the order of their keys.\<close>

fun canonical :: "js \<Rightarrow> js" where
  "canonical (JArr xs) = JArr (map canonical xs)"
| "canonical (JObj kvs) = JObj (sort_key fst (map (\<lambda>kv. (fst kv, canonical (snd kv))) (filter (\<lambda>kv. snd kv \<noteq> JUndef) kvs)))"
| "canonical v = v"

text \<open>Values of the language that JSON can carry: no \<open>NaN\<close>, and no object has a key twice.\<close>

fun json_like :: "js \<Rightarrow> bool" where
  "json_like (JArr xs) = list_all json_like xs"
| "json_like (JObj kvs) = (distinct (map fst kvs) \<and> list_all (\<lambda>kv. json_like (snd kv)) kvs)"
| "json_like JNaN = False"
| "json_like v = True"

lemma canonical_undef [simp]: "canonical v = JUndef \<longleftrightarrow> v = JUndef" "JUndef = canonical v \<longleftrightarrow> v = JUndef"
  by (cases v; simp)+

lemma canonical_plain: "\<not> is_arr v \<Longrightarrow> \<not> is_obj v \<Longrightarrow> v = canonical r \<longleftrightarrow> r = v"
  by (cases r) auto

lemma sorted_by_key_unique:
  assumes "distinct (map fst xs)" "distinct (map fst ys)"
  shows "sort_key fst xs = sort_key fst ys \<longleftrightarrow> set xs = set ys"
proof
  assume eq: "set xs = set ys"
  have "inj_on fst (set xs)" using assms(1) by (simp add: distinct_map)
  moreover have "distinct (map fst (sort_key fst zs))" if "distinct (map fst zs)" for zs :: "('a \<times> 'b) list"
    using that by (simp add: distinct_map)
  ultimately show "sort_key fst xs = sort_key fst ys"
    using assms eq by (intro map_sorted_distinct_set_unique [of fst]) simp_all
qed (metis set_sort)

lemma get_JObj_mem: "distinct (map fst kvs) \<Longrightarrow> (k, x) \<in> set kvs \<Longrightarrow> get (JObj kvs) k = x"
  by (simp add: get_def)

lemma get_JObj_defined: "get (JObj kvs) k \<noteq> JUndef \<Longrightarrow> (k, get (JObj kvs) k) \<in> set kvs"
  by (auto simp: get_def dest: map_of_SomeD split: option.splits)

lemma json_like_get: "json_like (JObj kvs) \<Longrightarrow> json_like (get (JObj kvs) k)"
  using get_JObj_defined [of kvs k] by (cases "get (JObj kvs) k = JUndef") (auto simp: list_all_iff)

lemma defined_values_equal:
  assumes "distinct (map fst as)" "distinct (map fst bs)"
  shows "set (filter (\<lambda>kv. snd kv \<noteq> JUndef) as) = set (filter (\<lambda>kv. snd kv \<noteq> JUndef) bs) \<longleftrightarrow>
    (\<forall>(k, x)\<in>set as. x = get (JObj bs) k) \<and> defined_props (JObj as) = defined_props (JObj bs)" (is "set ?a = set ?b \<longleftrightarrow> ?R")
proof
  assume eq: "set ?a = set ?b"
  have d: "distinct ?a" "distinct ?b" using assms by (simp_all add: distinct_map)
  have "x = get (JObj bs) k" if "(k, x) \<in> set as" for k x
  proof (cases "x = JUndef")
    case False
    with that have "(k, x) \<in> set ?a" by simp
    with eq have "(k, x) \<in> set bs" by auto
    with assms(2) show ?thesis by (simp add: get_JObj_mem)
  next
    case True
    show ?thesis
    proof (rule ccontr)
      assume "x \<noteq> get (JObj bs) k"
      with True have "(k, get (JObj bs) k) \<in> set ?b" using get_JObj_defined [of bs k] by auto
      then have "(k, get (JObj bs) k) \<in> set ?a" by (simp only: eq)
      then have "(k, get (JObj bs) k) \<in> set as" by simp
      from get_JObj_mem [OF assms(1) this] get_JObj_mem [OF assms(1) that] \<open>x \<noteq> get (JObj bs) k\<close> show False by simp
    qed
  qed
  moreover have "length ?a = length ?b" using d eq by (metis distinct_card)
  ultimately show ?R by (auto simp: defined_props_def)
next
  assume R: ?R
  have "set ?a \<subseteq> set ?b" using R get_JObj_defined by fastforce
  moreover have "card (set ?a) = card (set ?b)"
    using R distinct_card [of ?a] distinct_card [of ?b] assms by (simp only: defined_props_def props.simps distinct_map distinct_filter)
  ultimately show "set ?a = set ?b" by (simp add: card_subset_eq)
qed

definition canonical_props :: "(string \<times> js) list \<Rightarrow> (string \<times> js) list" where
  "canonical_props kvs = map (\<lambda>kv. (fst kv, canonical (snd kv))) kvs"

lemma canonical_props:
  "map fst (canonical_props kvs) = map fst kvs" "defined_props (JObj (canonical_props kvs)) = defined_props (JObj kvs)"
  "get (JObj (canonical_props kvs)) k = canonical (get (JObj kvs) k)"
  "canonical (JObj kvs) = JObj (sort_key fst (filter (\<lambda>kv. snd kv \<noteq> JUndef) (canonical_props kvs)))"
proof -
  show "get (JObj (canonical_props kvs)) k = canonical (get (JObj kvs) k)"
    by (induction kvs) (auto simp: canonical_props_def)
qed (simp_all add: canonical_props_def defined_props_def filter_map comp_def)

lemma isDeepJsonEqual_iff:
  assumes "json_like l" "json_like r"
  shows "isDeepJsonEqual l r \<longleftrightarrow> canonical l = canonical r"
  using assms
proof (induction l r rule: isDeepJsonEqual.induct)
  case (1 xs r)
  show ?case
  proof (cases r)
    case (JArr ys)
    have "isDeepJsonEqual x y \<longleftrightarrow> canonical x = canonical y" if "length xs = length ys" "(x, y) \<in> set (zip xs ys)" for x y
      using "1.IH" [OF JArr that(2)] "1.prems" JArr set_zip_leftD [OF that(2)] set_zip_rightD [OF that(2)] by (simp add: list_all_iff)
    then show ?thesis using JArr by (auto simp: list_all_iff list_eq_iff_zip_eq zip_map1 zip_map2)
  qed simp_all
next
  case (2 kvs r)
  show ?case
  proof (cases "is_obj r")
    case True
    then obtain bs where r: "r = JObj bs" by (cases r) auto
    from "2.prems" r have d: "distinct (map fst (canonical_props kvs))" "distinct (map fst (canonical_props bs))"
      by (simp_all add: canonical_props)
    then have d': "distinct (map fst (filter (\<lambda>kv. snd kv \<noteq> JUndef) (canonical_props kvs)))"
      "distinct (map fst (filter (\<lambda>kv. snd kv \<noteq> JUndef) (canonical_props bs)))" by (simp_all add: distinct_map_filter)
    have one: "(if snd kv = JUndef then get r (fst kv) = JUndef else isDeepJsonEqual (snd kv) (get r (fst kv)))
        \<longleftrightarrow> canonical (snd kv) = canonical (get r (fst kv))" if "kv \<in> set kvs" for kv
      using "2.IH" [OF that] "2.prems" json_like_get [of bs "fst kv"] that r by (auto simp: list_all_iff)
    have "canonical (JObj kvs) = canonical r \<longleftrightarrow>
        (\<forall>(k, x)\<in>set (canonical_props kvs). x = canonical (get r k)) \<and> defined_props (JObj kvs) = defined_props r"
      using sorted_by_key_unique [OF d'] defined_values_equal [OF d] by (simp only: canonical_props r js.inject)
    also have "(\<forall>(k, x)\<in>set (canonical_props kvs). x = canonical (get r k)) \<longleftrightarrow>
        list_all (\<lambda>kv. if snd kv = JUndef then get r (fst kv) = JUndef else isDeepJsonEqual (snd kv) (get r (fst kv))) kvs"
      using one by (auto simp: canonical_props_def list_all_iff)
    finally show ?thesis using True by simp
  next
    case False
    then show ?thesis by (cases r) auto
  qed
qed (simp_all add: canonical_plain)

text \<open>
  The cheap comparison decides equality of JSON values: on values JSON can carry it holds exactly when the two have
  the same canonical form, the same properties and elements once undefined properties are dropped and
  the order of keys is forgotten. So it is an equivalence, and a local write is skipped only over equal content.
\<close>

theorem isDeepJsonEqual_iff_canonical:
  assumes "json_like l" "json_like r"
  shows "isDeepJsonEqual l r \<longleftrightarrow> canonical l = canonical r"
  using assms by (rule isDeepJsonEqual_iff)

theorem isDeepJsonEqual_iff_canonical_witness:
  "isDeepJsonEqual (JObj [(''a'', JUndef), (''b'', JNum 1)]) (JObj [(''b'', JNum 1)])
   \<and> \<not> isDeepJsonEqual (JObj [(''b'', JNum 1)]) (JObj [(''b'', JNum 2)])"
  using isDeepJsonEqual_iff_canonical [of "JObj [(''a'', JUndef), (''b'', JNum 1)]" "JObj [(''b'', JNum 1)]"]
    isDeepJsonEqual_iff_canonical [of "JObj [(''b'', JNum 1)]" "JObj [(''b'', JNum 2)]"]
  by simp

lemma defined_members:
  "distinct (map fst kvs) \<Longrightarrow> (k, x) \<in> set (filter (\<lambda>kv. snd kv \<noteq> JUndef) kvs) \<longleftrightarrow> x \<noteq> JUndef \<and> get (JObj kvs) k = x"
  using get_JObj_mem [of kvs k x] get_JObj_defined [of kvs k] by auto

lemma canonical_object:
  assumes "json_like (JObj a)" "json_like (JObj b)"
  shows "canonical (JObj a) = canonical (JObj b) \<longleftrightarrow> (\<forall>k. canonical (get (JObj a) k) = canonical (get (JObj b) k))"
proof -
  let ?F = "\<lambda>kvs. filter (\<lambda>kv. snd kv \<noteq> JUndef) (canonical_props kvs)"
  from assms have d: "distinct (map fst (canonical_props a))" "distinct (map fst (canonical_props b))"
    by (simp_all add: canonical_props)
  then have "canonical (JObj a) = canonical (JObj b) \<longleftrightarrow> set (?F a) = set (?F b)"
    unfolding canonical_props(4) js.inject by (intro sorted_by_key_unique) (simp_all add: distinct_map_filter)
  also have "\<dots> \<longleftrightarrow> (\<forall>k x. x \<noteq> JUndef \<longrightarrow> canonical (get (JObj a) k) = x \<longleftrightarrow> canonical (get (JObj b) k) = x)"
    unfolding set_eq_iff split_paired_All defined_members [OF d(1)] defined_members [OF d(2)] canonical_props(3) by auto
  also have "\<dots> \<longleftrightarrow> (\<forall>k. canonical (get (JObj a) k) = canonical (get (JObj b) k))" by metis
  finally show ?thesis .
qed

lemma json_like_del: "json_like (JObj kvs) \<Longrightarrow> json_like (del (JObj kvs) k)"
  by (auto simp: del_def list_all_iff AList.delete_eq distinct_map_filter)

lemma json_like_foldl_del:
  "is_obj v \<Longrightarrow> json_like v \<Longrightarrow> is_obj (foldl del v ks) \<and> json_like (foldl del v ks)"
proof (induction ks arbitrary: v)
  case (Cons k ks)
  from Cons.prems have "json_like (del v k)" by (cases v) (auto intro: json_like_del)
  then show ?case using Cons.IH [of "del v k"] by simp
qed simp

definition json_document :: "AppData \<Rightarrow> bool" where
  "json_document d \<longleftrightarrow> json_like (document_js d) \<and> is_obj (settings d)"

text \<open>
  C20. Skipping a local write loses nothing: on documents JSON can carry, the merged document counts as already stored
  exactly when every collection has the same entities, property by property, in the same order, and
  every setting but the bookkeeping of the sync is the same, the device-local ones included.
\<close>

theorem skipped_write_loses_nothing:
  assumes "json_document candidate" "json_document stored"
  shows "isLocalPersistEquivalent candidate stored \<longleftrightarrow>
      (\<forall>part\<in>{tasks, projects, sections, areas, people}. map canonical (part candidate) = map canonical (part stored))
    \<and> (\<forall>k. k \<notin> set SYNC_STATUS_BOOKKEEPING_SETTINGS_KEYS \<longrightarrow>
         canonical (get (settings candidate) k) = canonical (get (settings stored) k))"
proof -
  let ?w = withoutSyncStatusBookkeeping
  have w: "is_obj (?w s) \<and> json_like (?w s)" "get (?w s) k = (if k \<in> set SYNC_STATUS_BOOKKEEPING_SETTINGS_KEYS then JUndef else get s k)"
    if "json_like s" "is_obj s" for s k
  proof -
    have "spread s = s" using that(2) by (cases s) (simp_all add: spread_def)
    with that show "is_obj (?w s) \<and> json_like (?w s)" by (simp add: withoutSyncStatusBookkeeping_def json_like_foldl_del)
    have "get (foldl del v ks) k = (if k \<in> set ks then JUndef else get v k)" for v ks by (induction ks arbitrary: v) auto
    then show "get (?w s) k = (if k \<in> set SYNC_STATUS_BOOKKEEPING_SETTINGS_KEYS then JUndef else get s k)"
      by (simp add: withoutSyncStatusBookkeeping_def)
  qed
  from assms have s: "json_like (settings candidate)" "is_obj (settings candidate)" "json_like (settings stored)" "is_obj (settings stored)"
    by (simp_all add: json_document_def document_js_def)
  have "isDeepJsonEqual (?w (settings candidate)) (?w (settings stored)) \<longleftrightarrow> (\<forall>k. k \<notin> set SYNC_STATUS_BOOKKEEPING_SETTINGS_KEYS \<longrightarrow>
         canonical (get (settings candidate) k) = canonical (get (settings stored) k))"
  proof -
    obtain a b where ab: "?w (settings candidate) = JObj a" "?w (settings stored) = JObj b"
      using w(1) [OF s(1,2)] w(1) [OF s(3,4)] by (metis is_obj.elims(2))
    show ?thesis
      using isDeepJsonEqual_iff [of "JObj a" "JObj b"] canonical_object [of a b] w [OF s(1,2)] w [OF s(3,4)]
      unfolding ab by auto
  qed
  moreover have "isDeepJsonEqual (put (document_js candidate) ''settings'' JUndef) (put (document_js stored) ''settings'' JUndef) \<longleftrightarrow>
      (\<forall>part\<in>{tasks, projects, sections, areas, people}. map canonical (part candidate) = map canonical (part stored))"
  proof -
    have "json_like (put (document_js d) ''settings'' JUndef)" if "json_document d" for d
      using that by (simp add: json_document_def document_js_def put_def)
    from isDeepJsonEqual_iff [OF this this, OF assms] have
      "isDeepJsonEqual (put (document_js candidate) ''settings'' JUndef) (put (document_js stored) ''settings'' JUndef) \<longleftrightarrow>
        canonical (put (document_js candidate) ''settings'' JUndef) = canonical (put (document_js stored) ''settings'' JUndef)" .
    also have "\<dots> \<longleftrightarrow> (\<forall>part\<in>{tasks, projects, sections, areas, people}. map canonical (part candidate) = map canonical (part stored))"
      by (simp add: document_js_def put_def canonical_props(4) canonical_props_def) blast
    finally show ?thesis .
  qed
  ultimately show ?thesis by (simp only: isLocalPersistEquivalent_def conj_commute)
qed

theorem skipped_write_loses_nothing_witness:
  "isLocalPersistEquivalent (unsent_document\<lparr>settings := JObj [(''lastSyncAt'', JStr ''now'')]\<rparr>) unsent_document
   \<and> \<not> isLocalPersistEquivalent (unsent_document\<lparr>settings := JObj [(''deviceId'', JStr ''d'')]\<rparr>) unsent_document"
proof -
  have j: "json_document unsent_document" "json_document (unsent_document\<lparr>settings := JObj [(''lastSyncAt'', JStr ''now'')]\<rparr>)"
    "json_document (unsent_document\<lparr>settings := JObj [(''deviceId'', JStr ''d'')]\<rparr>)"
    by (simp_all add: json_document_def document_js_def unsent_document_def)
  have "''lastSyncAt'' \<in> set SYNC_STATUS_BOOKKEEPING_SETTINGS_KEYS" "''deviceId'' \<notin> set SYNC_STATUS_BOOKKEEPING_SETTINGS_KEYS"
    by (simp_all add: SYNC_STATUS_BOOKKEEPING_SETTINGS_KEYS_def)
  then show ?thesis
    using skipped_write_loses_nothing [OF j(2,1)] skipped_write_loses_nothing [OF j(3,1)]
    by (auto simp: unsent_document_def intro: exI [of _ "''deviceId''"])
qed

section \<open>Order does not count\<close>

text \<open>A collection whose entities are objects with distinct text ids, as validation demands.\<close>

definition id_keyed :: "entity list \<Rightarrow> bool" where
  "id_keyed es \<longleftrightarrow> (\<forall>e\<in>set es. obj_wf e \<and> is_str (get e ''id'')) \<and> distinct (ids es)"

lemma get_stable:
  assumes "obj_wf v" shows "get (normalizeForSyncComparison v) k = normalizeForSyncComparison (get v k)"
proof -
  from assms obtain kvs where v: "v = JObj kvs" "distinct (map fst kvs)" by (cases v) (auto simp: obj_wf_def keys_def)
  let ?n = "map (\<lambda>kv. (fst kv, normalizeForSyncComparison (snd kv))) kvs"
  have d: "distinct (map fst ?n)" using v(2) by (simp add: comp_def)
  moreover then have "distinct (map fst (sort_key fst ?n))" by (simp only: distinct_map set_sort distinct_sort)
  ultimately have "map_of (sort_key fst ?n) = map_of ?n" by (simp add: map_of_inject_set)
  moreover have "map_of ?n k = map_option normalizeForSyncComparison (map_of kvs k)" by (induction kvs) auto
  ultimately show ?thesis by (simp add: v get_def split: option.split)
qed

lemma stable_collection:
  assumes "id_keyed xs" "mset xs = mset ys"
  shows "normalizeForSyncComparison (JArr xs) = normalizeForSyncComparison (JArr ys)"
proof -
  let ?n = "map normalizeForSyncComparison" and ?id = "\<lambda>v. the_str (get v ''id'')"
  have id: "get (normalizeForSyncComparison e) ''id'' = get e ''id''" if "e \<in> set xs" for e
    using assms(1) that by (cases "get e ''id''") (auto simp: id_keyed_def get_stable)
  have set: "set ys = set xs" "length ys = length xs" using assms(2) by (metis mset_eq_setD, metis mset_eq_length)
  have keyed: "list_all isIdKeyed (?n xs)" "list_all isIdKeyed (?n ys)"
    using assms(1) set by (auto simp: list_all_iff isIdKeyed_def id id_keyed_def)
  have same_text: "v = w" if "is_str v" "is_str w" "the_str v = the_str w" for v w using that by (cases v; cases w) auto
  have "distinct xs" "inj_on (\<lambda>e. get e ''id'') (set xs)" using assms(1) by (simp_all add: id_keyed_def ids_def distinct_map)
  then have "inj_on (\<lambda>e. the_str (get e ''id'')) (set xs)"
  proof (intro inj_onI)
    fix x y assume xy: "x \<in> set xs" "y \<in> set xs" "the_str (get x ''id'') = the_str (get y ''id'')"
    with assms(1) have "get x ''id'' = get y ''id''" by (intro same_text) (auto simp: id_keyed_def)
    with \<open>inj_on (\<lambda>e. get e ''id'') (set xs)\<close> xy(1,2) show "x = y" by (simp add: inj_on_def)
  qed
  then have "inj_on (?id \<circ> normalizeForSyncComparison) (set xs)"
    by (auto simp: inj_on_def id)
  then have inj: "inj_on ?id (set (?n xs))" and nd: "inj_on normalizeForSyncComparison (set xs)"
    by (auto simp: inj_on_def)
  have d: "distinct (?n xs)" "distinct (?n ys)"
    using nd \<open>distinct xs\<close> assms(2) set by (auto simp: distinct_map intro: mset_eq_imp_distinct_iff [THEN iffD1])
  have "sort_key ?id (?n xs) = sort_key ?id (?n ys)"
  proof (rule map_sorted_distinct_set_unique)
    show "inj_on ?id (set (sort_key ?id (?n xs)) \<union> set (sort_key ?id (?n ys)))" using inj set by simp
    show "distinct (map ?id (sort_key ?id (?n xs)))" using inj d by (simp add: distinct_map)
    show "distinct (map ?id (sort_key ?id (?n ys)))" using inj d set by (simp add: distinct_map)
  qed (use set in simp_all)
  moreover have "?n xs = ?n ys" if "\<not> 1 < length xs"
  proof -
    from that consider "xs = []" | x where "xs = [x]" by (cases xs; cases "tl xs") auto
    then show ?thesis using assms(2) by cases auto
  qed
  ultimately show ?thesis using keyed set by (auto simp: Let_def)
qed

text \<open>
  Devices that hold the same entities in different orders agree: two documents with the same settings whose
  collections are permutations of each other are equal payloads with the same fingerprint, so they
  do not overwrite each other in turn.
\<close>

theorem comparison_ignores_order:
  assumes "\<forall>part\<in>{tasks, projects, sections, areas, people}. id_keyed (part l) \<and> mset (part l) = mset (part r)" "settings l = settings r"
  shows "areSyncPayloadsEqual l r
    \<and> computeRemoteSyncDocumentFingerprint l = computeRemoteSyncDocumentFingerprint r"
proof -
  have "normalizeForSyncComparison (document_js l) = normalizeForSyncComparison (document_js r)"
    using assms stable_collection by (simp add: document_js_def del: normalizeForSyncComparison.simps(1))
  then show ?thesis
    by (simp add: areSyncPayloadsEqual_def computeRemoteSyncDocumentFingerprint_def computeStableValueFingerprint_def toStableSyncJson_def)
qed

definition swapped_areas :: "AppData \<Rightarrow> AppData" where
  "swapped_areas d = d\<lparr>areas := rev (areas d)\<rparr>"

definition two_areas :: AppData where
  "two_areas = \<lparr>tasks = [], projects = [], sections = [], areas = [JObj [(''id'', JStr ''a'')], JObj [(''id'', JStr ''b'')]],
     people = [], settings = JObj []\<rparr>"

theorem comparison_ignores_order_witness:
  "areSyncPayloadsEqual two_areas (swapped_areas two_areas) \<and> two_areas \<noteq> swapped_areas two_areas"
proof -
  have "id_keyed (areas two_areas)" "id_keyed []" by (simp_all add: id_keyed_def two_areas_def obj_wf_def keys_def)
  then have "\<forall>part\<in>{tasks, projects, sections, areas, people}. id_keyed (part two_areas) \<and> mset (part two_areas) = mset (part (swapped_areas two_areas))"
    by (simp add: swapped_areas_def two_areas_def)
  from comparison_ignores_order [OF this] show ?thesis by (simp add: swapped_areas_def two_areas_def)
qed

end
