(* ===== verification/Sync_Orchestrator.thy ===== *)
theory Sync_Orchestrator
  imports Complex_Main
begin

text \<open>
  The orchestrator that runs sync cycles one after the other (\<^verbatim>\<open>packages/core/src/sync-orchestrator.ts\<close>).
  The record holds the variables of the closure; a step is one call of its interface, one call of the
  controls a running cycle was given, the \<open>finally\<close> callback of a cycle that has settled, or
  the follow-up timer firing. The callbacks and the cycles it starts are the notices of a step. Cycles are
  numbered in the order they start, and the arguments, the results and the delay policy are parameters.
\<close>

section \<open>State\<close>

text \<open>The timer remembers the argument of the cycle that set it.\<close>

record 'a orchestrator =
  inFlight :: "nat option"
  queued :: bool
  queuedArg :: "'a option"
  followUpTimer :: "'a option"
  minimumFollowUpDelayMs :: int
  cycle_args :: "'a list"

datatype 'a notice =
    QueueStateChange bool
  | CycleStarted nat 'a
  | Drained

type_synonym 'a outcome = "'a orchestrator \<times> 'a notice list"

definition createSyncOrchestrator :: "'a orchestrator" where
  "createSyncOrchestrator = \<lparr>inFlight = None, queued = False, queuedArg = None, followUpTimer = None,
     minimumFollowUpDelayMs = 0, cycle_args = []\<rparr>"

section \<open>Operations\<close>

definition cancelFollowUpTimer :: "'a orchestrator \<Rightarrow> 'a orchestrator" where
  "cancelFollowUpTimer s = s\<lparr>followUpTimer := None\<rparr>"

definition setQueued :: "bool \<Rightarrow> 'a orchestrator \<Rightarrow> 'a outcome" where
  "setQueued b s = (if queued s = b then (s, []) else (s\<lparr>queued := b\<rparr>, [QueueStateChange b]))"

definition note_arg :: "'a option \<Rightarrow> 'a orchestrator \<Rightarrow> 'a orchestrator" where
  "note_arg nextArg s = (case nextArg of Some a \<Rightarrow> s\<lparr>queuedArg := Some a\<rparr> | None \<Rightarrow> s)"

definition requestFollowUp :: "'a option \<Rightarrow> 'a orchestrator \<Rightarrow> 'a outcome" where
  "requestFollowUp nextArg s = setQueued True (note_arg nextArg s)"

definition requestFollowUpAfter :: "rat \<Rightarrow> 'a option \<Rightarrow> 'a orchestrator \<Rightarrow> 'a outcome" where
  "requestFollowUpAfter delayMs nextArg s =
     setQueued True ((note_arg nextArg s)\<lparr>minimumFollowUpDelayMs := max (minimumFollowUpDelayMs s) (max 0 \<lceil>delayMs\<rceil>)\<rparr>)"

definition clearFollowUp :: "'a orchestrator \<Rightarrow> 'a outcome" where
  "clearFollowUp s = setQueued False ((cancelFollowUpTimer s)\<lparr>queuedArg := None, minimumFollowUpDelayMs := 0\<rparr>)"

definition orchestrator_reset :: "'a orchestrator \<Rightarrow> 'a outcome" where
  "orchestrator_reset s = setQueued False ((cancelFollowUpTimer s)\<lparr>inFlight := None, queuedArg := None, minimumFollowUpDelayMs := 0\<rparr>)"

text \<open>\<open>run\<close>: during a cycle a follow-up, otherwise a new cycle.\<close>

definition start_cycle :: "'a \<Rightarrow> 'a orchestrator \<Rightarrow> 'a outcome" where
  "start_cycle arg s =
     (let (s1, notices) = setQueued False (cancelFollowUpTimer s);
          n = length (cycle_args s1)
      in (s1\<lparr>queuedArg := None, inFlight := Some n, cycle_args := cycle_args s1 @ [arg]\<rparr>, notices @ [CycleStarted n arg]))"

definition orchestrator_run :: "'a \<Rightarrow> 'a orchestrator \<Rightarrow> 'a outcome" where
  "orchestrator_run arg s = (if inFlight s \<noteq> None then requestFollowUp (Some arg) s else start_cycle arg s)"

text \<open>\<open>startQueuedRun\<close>: what the timer, or a settled cycle without a delay, does.\<close>

definition startQueuedRun :: "'a \<Rightarrow> 'a orchestrator \<Rightarrow> 'a outcome" where
  "startQueuedRun cycleArg s =
     (let s0 = s\<lparr>followUpTimer := None\<rparr>
      in if inFlight s0 \<noteq> None \<or> \<not> queued s0 then (s0, [])
         else
           let nextArg = (case queuedArg s0 of Some a \<Rightarrow> a | None \<Rightarrow> cycleArg);
               (s1, unqueued) = setQueued False s0;
               (s2, started) = orchestrator_run nextArg (s1\<lparr>queuedArg := None\<rparr>)
           in (s2, unqueued @ started))"

text \<open>The \<open>finally\<close> callback of cycle \<open>n\<close>, with the duration it measured.\<close>

definition follow_up_delay :: "(int \<Rightarrow> int \<Rightarrow> int) option \<Rightarrow> int \<Rightarrow> 'a orchestrator \<Rightarrow> int" where
  "follow_up_delay getFollowUpDelayMs duration s =
     max (case getFollowUpDelayMs of Some f \<Rightarrow> f duration (minimumFollowUpDelayMs s) | None \<Rightarrow> 0) (minimumFollowUpDelayMs s)"

definition cycle_settled :: "(int \<Rightarrow> int \<Rightarrow> int) option \<Rightarrow> nat \<Rightarrow> int \<Rightarrow> 'a orchestrator \<Rightarrow> 'a outcome" where
  "cycle_settled getFollowUpDelayMs n duration s =
     (if inFlight s \<noteq> Some n then (s, [])
      else
        let s0 = s\<lparr>inFlight := None\<rparr>; cycleArg = cycle_args s ! n
        in if \<not> queued s0 then (s0, [Drained])
           else
             let s1 = s0\<lparr>minimumFollowUpDelayMs := 0\<rparr>
             in if 0 < follow_up_delay getFollowUpDelayMs duration s0 then (s1\<lparr>followUpTimer := Some cycleArg\<rparr>, [])
                else startQueuedRun cycleArg s1)"

text \<open>The timer calls the closure it was set with; a timer that was cancelled does not fire.\<close>

definition timer_fired :: "'a orchestrator \<Rightarrow> 'a outcome" where
  "timer_fired s = (case followUpTimer s of None \<Rightarrow> (s, []) | Some cycleArg \<Rightarrow> startQueuedRun cycleArg s)"

section \<open>Steps\<close>

text \<open>The controls of cycle \<open>n\<close> pass the argument of that cycle when they are given none.\<close>

datatype 'a orchestrator_event =
    Run 'a
  | RequestFollowUp "'a option"
  | RequestFollowUpAfter rat "'a option"
  | ControlFollowUp nat "'a option"
  | ControlFollowUpAfter nat rat "'a option"
  | ClearFollowUp
  | Reset
  | CycleSettled nat int
  | TimerFired

definition own_arg :: "nat \<Rightarrow> 'a option \<Rightarrow> 'a orchestrator \<Rightarrow> 'a option" where
  "own_arg n nextArg s = (case nextArg of Some a \<Rightarrow> Some a | None \<Rightarrow> Some (cycle_args s ! n))"

fun orchestrator_step :: "(int \<Rightarrow> int \<Rightarrow> int) option \<Rightarrow> 'a orchestrator_event \<Rightarrow> 'a orchestrator \<Rightarrow> 'a outcome" where
  "orchestrator_step delay (Run arg) s = orchestrator_run arg s"
| "orchestrator_step delay (RequestFollowUp arg) s = requestFollowUp arg s"
| "orchestrator_step delay (RequestFollowUpAfter ms arg) s = requestFollowUpAfter ms arg s"
| "orchestrator_step delay (ControlFollowUp n arg) s = requestFollowUp (own_arg n arg s) s"
| "orchestrator_step delay (ControlFollowUpAfter n ms arg) s = requestFollowUpAfter ms (own_arg n arg s) s"
| "orchestrator_step delay ClearFollowUp s = clearFollowUp s"
| "orchestrator_step delay Reset s = orchestrator_reset s"
| "orchestrator_step delay (CycleSettled n duration) s = cycle_settled delay n duration s"
| "orchestrator_step delay TimerFired s = timer_fired s"

text \<open>A cycle can use its controls, and settle, once it has started.\<close>

fun possible_event :: "'a orchestrator_event \<Rightarrow> 'a orchestrator \<Rightarrow> bool" where
  "possible_event (ControlFollowUp n _) s = (n < length (cycle_args s))"
| "possible_event (ControlFollowUpAfter n _ _) s = (n < length (cycle_args s))"
| "possible_event (CycleSettled n _) s = (n < length (cycle_args s))"
| "possible_event TimerFired s = (followUpTimer s \<noteq> None)"
| "possible_event _ _ = True"

inductive orchestrates :: "(int \<Rightarrow> int \<Rightarrow> int) option \<Rightarrow> 'a orchestrator_event list \<Rightarrow> 'a notice list \<Rightarrow> 'a orchestrator \<Rightarrow> bool"
  for delay where
  created: "orchestrates delay [] [] createSyncOrchestrator"
| stepped: "orchestrates delay es ns s \<Longrightarrow> possible_event e s \<Longrightarrow> orchestrator_step delay e s = (s', ns')
    \<Longrightarrow> orchestrates delay (es @ [e]) (ns @ ns') s'"

inductive_cases orchestrates_snocE: "orchestrates delay (es @ [e]) ns s"

section \<open>The states that are reached\<close>

lemmas orchestrator_defs = requestFollowUp_def requestFollowUpAfter_def clearFollowUp_def orchestrator_reset_def orchestrator_run_def
  start_cycle_def startQueuedRun_def cycle_settled_def timer_fired_def setQueued_def note_arg_def cancelFollowUpTimer_def Let_def

text \<open>A timer waits only between cycles and for a queued request; so the test in \<open>startQueuedRun\<close> never stops it.\<close>

definition orchestrator_inv :: "'a orchestrator \<Rightarrow> bool" where
  "orchestrator_inv s \<longleftrightarrow>
     (followUpTimer s \<noteq> None \<longrightarrow> inFlight s = None \<and> queued s)
   \<and> (queuedArg s \<noteq> None \<longrightarrow> queued s)
   \<and> 0 \<le> minimumFollowUpDelayMs s
   \<and> (\<forall>n. inFlight s = Some n \<longrightarrow> n < length (cycle_args s))"

lemma orchestrator_inv_step:
  assumes "orchestrator_inv s" "possible_event e s" shows "orchestrator_inv (fst (orchestrator_step delay e s))"
  using assms by (cases e) (auto simp: orchestrator_inv_def orchestrator_defs split: option.splits)

lemma orchestrates_inv: "orchestrates delay es ns s \<Longrightarrow> orchestrator_inv s"
proof (induction rule: orchestrates.induct)
  case created
  then show ?case by (simp add: orchestrator_inv_def createSyncOrchestrator_def)
next
  case (stepped es ns s e s' ns')
  then show ?case using orchestrator_inv_step [of s e delay] by simp
qed

section \<open>Notices of the queue\<close>

fun queue_changes :: "'a notice list \<Rightarrow> bool list" where
  "queue_changes [] = []"
| "queue_changes (QueueStateChange b # ns) = b # queue_changes ns"
| "queue_changes (_ # ns) = queue_changes ns"

lemma queue_changes_append [simp]: "queue_changes (xs @ ys) = queue_changes xs @ queue_changes ys"
  by (induction xs rule: queue_changes.induct) simp_all

text \<open>One change after the other, the last one to the state the queue is in.\<close>

fun changes_between :: "bool \<Rightarrow> bool list \<Rightarrow> bool \<Rightarrow> bool" where
  "changes_between b [] c = (b = c)"
| "changes_between b (x # xs) c = (x = (\<not> b) \<and> changes_between x xs c)"

lemma changes_between_append: "changes_between b xs c \<Longrightarrow> changes_between c ys d \<Longrightarrow> changes_between b (xs @ ys) d"
  by (induction b xs c rule: changes_between.induct) auto

lemma step_changes: "orchestrator_step delay e s = (s', ns) \<Longrightarrow> changes_between (queued s) (queue_changes ns) (queued s')"
  by (cases e) (auto simp: orchestrator_defs split: option.splits if_splits prod.splits)

text \<open>
  The listener of the queue hears each change once: whatever is called and settles in whatever order, the notices
  alternate between queued and not queued, start with queued, and end with the state the orchestrator
  reports.
\<close>

theorem queue_notices_alternate:
  assumes "orchestrates delay es ns s"
  shows "changes_between False (queue_changes ns) (queued s)
    \<and> (followUpTimer s \<noteq> None \<longrightarrow> queued s \<and> inFlight s = None)"
proof -
  from assms have "changes_between False (queue_changes ns) (queued s)"
  proof (induction rule: orchestrates.induct)
    case created
    then show ?case by (simp add: createSyncOrchestrator_def)
  next
    case (stepped es ns s e s' ns')
    then show ?case using changes_between_append step_changes [OF stepped.hyps(3)] by simp
  qed
  with orchestrates_inv [OF assms] show ?thesis by (simp add: orchestrator_inv_def)
qed

section \<open>Cycles do not overlap\<close>

definition settled_in :: "'a orchestrator_event list \<Rightarrow> nat \<Rightarrow> bool" where
  "settled_in es n \<longleftrightarrow> (\<exists>d. CycleSettled n d \<in> set es)"

text \<open>Cycle \<open>n\<close> has started and not settled.\<close>

definition running :: "'a orchestrator_event list \<Rightarrow> 'a orchestrator \<Rightarrow> nat \<Rightarrow> bool" where
  "running es s n \<longleftrightarrow> n < length (cycle_args s) \<and> \<not> settled_in es n"

definition settles :: "'a orchestrator_event \<Rightarrow> nat \<Rightarrow> bool" where
  "settles e n \<longleftrightarrow> (\<exists>d. e = CycleSettled n d)"

lemma settles_simps [simp]:
  "settles (CycleSettled n d) m \<longleftrightarrow> n = m" "\<not> settles (Run a) m" "\<not> settles (RequestFollowUp x) m" "\<not> settles (RequestFollowUpAfter r x) m"
  "\<not> settles (ControlFollowUp k x) m" "\<not> settles (ControlFollowUpAfter k r x) m" "\<not> settles ClearFollowUp m" "\<not> settles TimerFired m"
  by (auto simp: settles_def)

lemma settled_in_snoc: "settled_in (es @ [e]) n \<longleftrightarrow> settled_in es n \<or> settles e n"
  by (auto simp: settled_in_def settles_def)

text \<open>A step starts no cycle, or one when none is in flight any more.\<close>

lemma step_effect:
  assumes "orchestrator_inv s" "e \<noteq> Reset" "orchestrator_step delay e s = (s', ns)"
  obtains (none) "cycle_args s' = cycle_args s" "\<And>n. inFlight s' = Some n \<longleftrightarrow> inFlight s = Some n \<and> \<not> settles e n"
  | (one) a where "cycle_args s' = cycle_args s @ [a]" "inFlight s' = Some (length (cycle_args s))"
      "\<And>n. inFlight s = Some n \<Longrightarrow> settles e n"
  using assms by (cases e) (fastforce simp: orchestrator_inv_def orchestrator_defs split: option.splits if_splits)+

lemma running_step:
  assumes "orchestrator_inv s" "\<forall>n. settled_in es n \<longrightarrow> n < length (cycle_args s)" "\<forall>n. running es s n \<longleftrightarrow> inFlight s = Some n"
    "possible_event e s" "e \<noteq> Reset" "orchestrator_step delay e s = (s', ns)"
  shows "(\<forall>n. settled_in (es @ [e]) n \<longrightarrow> n < length (cycle_args s')) \<and> (\<forall>n. running (es @ [e]) s' n \<longleftrightarrow> inFlight s' = Some n)"
proof -
  have bound: "settles e n \<Longrightarrow> n < length (cycle_args s)" for n using assms(4) by (auto simp: settles_def)
  from assms(1,5,6) show ?thesis
  proof (cases rule: step_effect)
    case none
    then show ?thesis using assms(2,3) bound by (auto simp: running_def settled_in_snoc)
  next
    case (one a)
    then show ?thesis using assms(2,3) bound by (auto simp: running_def settled_in_snoc less_Suc_eq)
  qed
qed

text \<open>
  Cycles run one at a time: as long as nobody resets the orchestrator, at every moment the cycles that have started
  and not settled are the one in flight, so two of them never run at once, however calls, controls of
  old cycles, timers and settling cycles interleave.
\<close>

theorem cycles_run_one_at_a_time:
  assumes "orchestrates delay es ns s" "Reset \<notin> set es"
  shows "\<forall>n. running es s n \<longleftrightarrow> inFlight s = Some n"
proof -
  have "(\<forall>n. settled_in es n \<longrightarrow> n < length (cycle_args s)) \<and> (\<forall>n. running es s n \<longleftrightarrow> inFlight s = Some n)"
    using assms
  proof (induction rule: orchestrates.induct)
    case created
    then show ?case by (simp add: running_def settled_in_def createSyncOrchestrator_def)
  next
    case (stepped es ns s e s' ns')
    then have "(\<forall>n. settled_in es n \<longrightarrow> n < length (cycle_args s))" "(\<forall>n. running es s n \<longleftrightarrow> inFlight s = Some n)" "e \<noteq> Reset" by auto
    with stepped.hyps show ?case by (intro running_step [OF orchestrates_inv])
  qed
  then show ?thesis by blast
qed

section \<open>Requests during a cycle\<close>

fun is_request :: "'a orchestrator_event \<Rightarrow> bool" where
  "is_request (Run _) = True"
| "is_request (RequestFollowUp _) = True"
| "is_request (RequestFollowUpAfter _ _) = True"
| "is_request (ControlFollowUp _ _) = True"
| "is_request (ControlFollowUpAfter _ _ _) = True"
| "is_request _ = False"

text \<open>The argument a request gives, and the last one given.\<close>

fun request_arg :: "'a orchestrator \<Rightarrow> 'a orchestrator_event \<Rightarrow> 'a option" where
  "request_arg s (Run a) = Some a"
| "request_arg s (RequestFollowUp x) = x"
| "request_arg s (RequestFollowUpAfter _ x) = x"
| "request_arg s (ControlFollowUp n x) = own_arg n x s"
| "request_arg s (ControlFollowUpAfter n _ x) = own_arg n x s"
| "request_arg s _ = None"

definition latest_arg :: "'a orchestrator \<Rightarrow> 'a orchestrator_event list \<Rightarrow> 'a option" where
  "latest_arg s es = foldl (\<lambda>x e. case request_arg s e of Some a \<Rightarrow> Some a | None \<Rightarrow> x) (queuedArg s) es"

definition after_events :: "(int \<Rightarrow> int \<Rightarrow> int) option \<Rightarrow> 'a orchestrator_event list \<Rightarrow> 'a orchestrator \<Rightarrow> 'a orchestrator" where
  "after_events delay es s = foldl (\<lambda>s e. fst (orchestrator_step delay e s)) s es"

text \<open>The cycle in flight settles, and if a timer was set for the follow-up it fires.\<close>

definition follow_up :: "(int \<Rightarrow> int \<Rightarrow> int) option \<Rightarrow> nat \<Rightarrow> int \<Rightarrow> 'a orchestrator \<Rightarrow> 'a orchestrator" where
  "follow_up delay n duration s =
     (let s' = fst (cycle_settled delay n duration s) in if followUpTimer s' \<noteq> None then fst (timer_fired s') else s')"

lemma request_step:
  assumes "inFlight s = Some n" "is_request e"
  shows "let s' = fst (orchestrator_step delay e s) in inFlight s' = Some n \<and> queued s' \<and> cycle_args s' = cycle_args s
    \<and> followUpTimer s' = followUpTimer s \<and> queuedArg s' = (case request_arg s e of Some a \<Rightarrow> Some a | None \<Rightarrow> queuedArg s)"
  using assms by (cases e) (auto simp: orchestrator_defs own_arg_def split: option.splits)

lemma requests_steps:
  assumes "inFlight s = Some n" "\<forall>e\<in>set es. is_request e" "es \<noteq> []"
  shows "let s' = after_events delay es s in inFlight s' = Some n \<and> queued s' \<and> cycle_args s' = cycle_args s
    \<and> followUpTimer s' = followUpTimer s \<and> queuedArg s' = latest_arg s es"
  using assms(2,3)
proof (induction es rule: rev_induct)
  case (snoc e es)
  have same: "request_arg s' e = request_arg s e" if "cycle_args s' = cycle_args s" for s' :: "'a orchestrator"
    using that by (cases e) (simp_all add: own_arg_def split: option.split)
  show ?case
  proof (cases "es = []")
    case True
    then show ?thesis using request_step [OF assms(1), of e delay] snoc.prems by (simp add: after_events_def latest_arg_def Let_def)
  next
    case False
    with snoc have IH: "let s' = after_events delay es s in inFlight s' = Some n \<and> queued s' \<and> cycle_args s' = cycle_args s
        \<and> followUpTimer s' = followUpTimer s \<and> queuedArg s' = latest_arg s es" by auto
    then show ?thesis
      using request_step [of "after_events delay es s" n e delay] snoc.prems same [of "after_events delay es s"]
      by (simp add: after_events_def latest_arg_def Let_def split: option.split)
  qed
qed simp

text \<open>
  C9. Requests made during a cycle are not lost and not multiplied: any number of them, through the interface or through
  the controls of any cycle, become exactly one more cycle when the one in flight has settled and the
  delay has passed. It runs with the argument given last, or repeats that of the cycle when none was
  given, and leaves nothing queued.
\<close>

theorem requests_become_one_follow_up:
  assumes "orchestrates delay es0 ns s" "inFlight s = Some n" "\<forall>e\<in>set es. is_request e" "es \<noteq> []"
    "s' = follow_up delay n duration (after_events delay es s)"
  shows "cycle_args s' = cycle_args s @ [case latest_arg s es of Some a \<Rightarrow> a | None \<Rightarrow> cycle_args s ! n]
    \<and> inFlight s' = Some (length (cycle_args s)) \<and> \<not> queued s' \<and> followUpTimer s' = None"
proof -
  have "followUpTimer s = None" using orchestrates_inv [OF assms(1)] assms(2) by (auto simp: orchestrator_inv_def)
  with requests_steps [OF assms(2-4), of delay] show ?thesis
    unfolding assms(5) follow_up_def
    by (auto simp: Let_def orchestrator_defs split: option.splits)
qed

text \<open>A run of the orchestrator: a cycle, two requests while it runs, one follow-up.\<close>

theorem requests_become_one_follow_up_witness:
  "cycle_args (follow_up None 0 5 (after_events None [Run ''b'', ControlFollowUp 0 (Some ''c'')] (fst (start_cycle ''a'' createSyncOrchestrator))))
     = [''a'', ''c'']"
proof -
  have "orchestrates None ([] @ [Run ''a'']) ([] @ [CycleStarted 0 ''a'']) (fst (start_cycle ''a'' createSyncOrchestrator))"
    by (rule orchestrates.stepped [OF orchestrates.created]) (simp_all add: createSyncOrchestrator_def orchestrator_defs)
  from requests_become_one_follow_up [OF this, of 0 "[Run ''b'', ControlFollowUp 0 (Some ''c'')]" _ 5, OF _ _ _ refl]
  show ?thesis by (simp add: createSyncOrchestrator_def orchestrator_defs latest_arg_def own_arg_def)
qed

theorem queue_notices_alternate_witness:
  "changes_between False (queue_changes [CycleStarted 0 ''a'', QueueStateChange True]) True"
proof -
  have "orchestrates None ([] @ [Run ''a'']) ([] @ [CycleStarted 0 ''a'']) (fst (start_cycle ''a'' createSyncOrchestrator))"
    by (rule orchestrates.stepped [OF orchestrates.created]) (simp_all add: createSyncOrchestrator_def orchestrator_defs)
  from orchestrates.stepped [OF this, of "Run ''b''" "fst (orchestrator_run ''b'' (fst (start_cycle ''a'' createSyncOrchestrator)))" "[QueueStateChange True]"]
  have "orchestrates None [Run ''a'', Run ''b''] [CycleStarted 0 ''a'', QueueStateChange True]
      (fst (orchestrator_run ''b'' (fst (start_cycle ''a'' createSyncOrchestrator))))"
    by (simp add: createSyncOrchestrator_def orchestrator_defs)
  from queue_notices_alternate [OF this] show ?thesis by (simp add: createSyncOrchestrator_def orchestrator_defs)
qed

theorem cycles_run_one_at_a_time_witness:
  "running [Run ''a''] (fst (start_cycle ''a'' createSyncOrchestrator)) 0"
proof -
  have "orchestrates None ([] @ [Run ''a'']) ([] @ [CycleStarted 0 ''a'']) (fst (start_cycle ''a'' createSyncOrchestrator))"
    by (rule orchestrates.stepped [OF orchestrates.created]) (simp_all add: createSyncOrchestrator_def orchestrator_defs)
  from cycles_run_one_at_a_time [OF this] show ?thesis by (simp add: createSyncOrchestrator_def orchestrator_defs)
qed

section \<open>Without requests the orchestrator drains\<close>

definition settle_current :: "(int \<Rightarrow> int \<Rightarrow> int) option \<Rightarrow> int \<Rightarrow> 'a orchestrator \<Rightarrow> 'a orchestrator" where
  "settle_current delay duration s = (case inFlight s of Some n \<Rightarrow> follow_up delay n duration s | None \<Rightarrow> s)"

text \<open>
  The orchestrator drains: from any reachable state with a cycle in flight, when the cycles settle and the timers
  fire and nothing new is requested, at most one more cycle runs, and then nothing is in flight, queued or
  waiting for a timer.
\<close>

theorem orchestrator_drains:
  assumes "orchestrates delay es ns s" "inFlight s \<noteq> None"
  shows "let s' = settle_current delay d' (settle_current delay d s)
    in inFlight s' = None \<and> \<not> queued s' \<and> followUpTimer s' = None \<and> length (cycle_args s') \<le> Suc (length (cycle_args s))"
proof -
  from assms(2) obtain n where n: "inFlight s = Some n" by blast
  with orchestrates_inv [OF assms(1)] have idle: "followUpTimer s = None" by (auto simp: orchestrator_inv_def)
  show ?thesis
  proof (cases "queued s")
    case True
    then have "\<exists>m. inFlight (settle_current delay d s) = Some m" "\<not> queued (settle_current delay d s)"
      "followUpTimer (settle_current delay d s) = None" "length (cycle_args (settle_current delay d s)) = Suc (length (cycle_args s))"
      using n idle by (auto simp: settle_current_def follow_up_def orchestrator_defs split: option.splits)
    then show ?thesis by (auto simp: settle_current_def [of delay d'] follow_up_def cycle_settled_def Let_def)
  next
    case False
    with n idle have "settle_current delay d s = s\<lparr>inFlight := None\<rparr>"
      by (simp add: settle_current_def follow_up_def cycle_settled_def Let_def)
    with False idle show ?thesis by (simp add: settle_current_def [of delay d'] Let_def)
  qed
qed

theorem orchestrator_drains_witness:
  "inFlight (settle_current None 1 (settle_current None 1 (fst (start_cycle ''a'' createSyncOrchestrator)))) = None"
proof -
  have "orchestrates None ([] @ [Run ''a'']) ([] @ [CycleStarted 0 ''a'']) (fst (start_cycle ''a'' createSyncOrchestrator))"
    by (rule orchestrates.stepped [OF orchestrates.created]) (simp_all add: createSyncOrchestrator_def orchestrator_defs)
  from orchestrator_drains [OF this, of 1 1] show ?thesis by (simp add: createSyncOrchestrator_def start_cycle_def orchestrator_defs)
qed

end
