(* ===== verification/Sync_Backoff.thy ===== *)
theory Sync_Backoff
  imports Js_Library "HOL-Library.AList"
begin

text \<open>
  Waiting after failures: the retry loop around a remote call (\<^verbatim>\<open>packages/core/src/retry-utils.ts\<close>), the
  cooldown after a failed cycle and the per-file backoff of downloads (\<^verbatim>\<open>sync-runtime-utils.ts\<close>). A
  thrown value is an error object with its own properties and message, or any other value; the delays of a
  retry are recorded instead of slept. Number arithmetic is rational.
\<close>

section \<open>Errors\<close>

datatype thrown = ErrorObject js string | OtherValue js

definition error_object :: "thrown \<Rightarrow> js" where
  "error_object e = (case e of ErrorObject own _ \<Rightarrow> own | OtherValue v \<Rightarrow> v)"

definition error_text :: "thrown \<Rightarrow> string" where
  "error_text e = (case e of ErrorObject _ message \<Rightarrow> message | OtherValue v \<Rightarrow> js_string (or_else v (JStr '''')))"

fun text_includes :: "string \<Rightarrow> string \<Rightarrow> bool" where
  "text_includes [] p = (p = [])"
| "text_includes (c # cs) p = (starts_with (c # cs) p \<or> text_includes cs p)"

definition status_number :: "js \<Rightarrow> js" where
  "status_number v = (case v of JNum _ \<Rightarrow> v | JNaN \<Rightarrow> v | JInf _ \<Rightarrow> v | _ \<Rightarrow> JNull)"

definition getErrorStatus :: "thrown \<Rightarrow> js" where
  "getErrorStatus e =
     (let v = error_object e
      in status_number (coalesce (coalesce (get v ''status'') (get v ''statusCode'')) (get (get v ''response'') ''status'')))"

definition at_least_500 :: "js \<Rightarrow> bool" where
  "at_least_500 v = (case v of JNum q \<Rightarrow> 500 \<le> q | JInf negative \<Rightarrow> \<not> negative | _ \<Rightarrow> False)"

definition isRetryableError :: "thrown \<Rightarrow> bool" where
  "isRetryableError e =
     (let status = getErrorStatus e; normalized = lower (error_text e)
      in if status \<in> {JNum 401, JNum 403, JNum 404} then False
         else if status = JNum 429 then True
         else if at_least_500 status then True
         else if text_includes normalized ''validation'' \<or> text_includes normalized ''invalid'' then False
         else list_ex (text_includes normalized)
           [''timeout'', ''timed out'', ''network'', ''failed to fetch'', ''econnrefused'', ''econnreset'', ''enotfound'', ''socket hang up''])"

definition isWebdavInvalidJsonError :: "thrown \<Rightarrow> bool" where
  "isWebdavInvalidJsonError e =
     list_ex (text_includes (lower (error_text e)))
       [''invalid webdav response'', ''webdav get failed: invalid json'', ''unexpected end of input'', ''unexpected end of json input'',
        ''unexpected eof'', ''eof while parsing'', ''error decoding response body'']"

definition isRetryableWebdavReadError :: "thrown \<Rightarrow> bool" where
  "isRetryableWebdavReadError e = (if isRetryableError e then True else isWebdavInvalidJsonError e)"

definition isWebdavRateLimitedError :: "thrown \<Rightarrow> bool" where
  "isWebdavRateLimitedError e =
     (getErrorStatus e \<in> {JNum 429, JNum 503}
      \<or> list_ex (text_includes (lower (error_text e))) [''blockedtemporarily'', ''too many requests'', ''rate limit'', ''rate limited''])"

section \<open>The retry loop\<close>

record RetryOptions =
  maxAttempts :: "rat option"
  baseDelayMs :: "rat option"
  maxDelayMs :: "rat option"
  jitterRatio :: "rat option"
  random_draw :: "nat \<Rightarrow> rat"
  shouldRetry :: "(thrown \<Rightarrow> nat \<Rightarrow> bool) option"

definition or_default :: "'a option \<Rightarrow> 'a \<Rightarrow> 'a" where
  "or_default x d = (case x of Some a \<Rightarrow> a | None \<Rightarrow> d)"

definition max_attempts :: "RetryOptions \<Rightarrow> rat" where
  "max_attempts options = max 1 (or_default (maxAttempts options) 3)"

definition base_delay :: "RetryOptions \<Rightarrow> rat" where
  "base_delay options = max 0 (or_default (baseDelayMs options) 1000)"

definition max_delay :: "RetryOptions \<Rightarrow> rat" where
  "max_delay options = max (base_delay options) (or_default (maxDelayMs options) 30000)"

definition jitter_ratio :: "RetryOptions \<Rightarrow> rat" where
  "jitter_ratio options = max 0 (min 1 (or_default (jitterRatio options) (1 / 5)))"

definition can_retry :: "RetryOptions \<Rightarrow> thrown \<Rightarrow> nat \<Rightarrow> bool" where
  "can_retry options e attempt \<longleftrightarrow>
     of_nat attempt < max_attempts options \<and> or_default (shouldRetry options) (\<lambda>e _. isRetryableError e) e attempt"

definition exponential_delay :: "RetryOptions \<Rightarrow> nat \<Rightarrow> rat" where
  "exponential_delay options attempt = min (max_delay options) (base_delay options * 2 ^ (attempt - 1))"

definition retry_delay :: "RetryOptions \<Rightarrow> nat \<Rightarrow> rat" where
  "retry_delay options attempt =
     (let exponentialDelay = exponential_delay options attempt;
          jitterSpan = exponentialDelay * jitter_ratio options;
          jitterOffset = (if 0 < jitterSpan then (random_draw options attempt * 2 - 1) * jitterSpan else 0)
      in max 0 (min (max_delay options) (exponentialDelay + jitterOffset)))"

text \<open>The loop from \<open>attempt\<close> on, with the last error and the delays so far.\<close>

function retry_from :: "RetryOptions \<Rightarrow> ('w \<Rightarrow> (thrown + 'a) \<times> 'w) \<Rightarrow> nat \<Rightarrow> thrown \<Rightarrow> rat list \<Rightarrow> 'w
    \<Rightarrow> (thrown + 'a) \<times> rat list \<times> 'w" where
  "retry_from options operation attempt lastError delays w =
     (if max_attempts options < of_nat attempt then (Inl lastError, delays, w)
      else case operation w of
        (Inr a, w') \<Rightarrow> (Inr a, delays, w')
      | (Inl e, w') \<Rightarrow>
          if can_retry options e attempt then retry_from options operation (Suc attempt) e (delays @ [retry_delay options attempt]) w'
          else (Inl e, delays, w'))"
  by pat_completeness auto

termination retry_from
proof (relation "measure (\<lambda>(options, _, attempt, _, _, _). nat \<lceil>max_attempts options\<rceil> + 1 - attempt)")
  fix options :: RetryOptions and attempt :: nat
  assume "\<not> max_attempts options < of_nat attempt"
  then have "attempt \<le> nat \<lceil>max_attempts options\<rceil>" by linarith
  then show "((options, operation, Suc attempt, e, ds, w'), options, operation, attempt, l, ds', w)
      \<in> measure (\<lambda>(options, _, attempt, _, _, _). nat \<lceil>max_attempts options\<rceil> + 1 - attempt)" for operation e ds w' l ds' w
    by simp
qed simp

declare retry_from.simps [simp del]

definition withRetry :: "('w \<Rightarrow> (thrown + 'a) \<times> 'w) \<Rightarrow> RetryOptions \<Rightarrow> 'w \<Rightarrow> (thrown + 'a) \<times> rat list \<times> 'w" where
  "withRetry operation options w = retry_from options operation 1 (OtherValue JUndef) [] w"

section \<open>The cooldown after a failed cycle\<close>

text \<open>A match of \<^verbatim>\<open>/\[retryAfter=(\d+(?:\.\d+)?)\]/i\<close> at the start of a text, and the first one in it.\<close>

definition retry_after_here :: "string \<Rightarrow> string option" where
  "retry_after_here s =
     (if \<not> starts_with (lower s) ''[retryafter='' then None
      else
        let digits = takeWhile js_digit (drop 12 s); rest = dropWhile js_digit (drop 12 s);
            fraction = takeWhile js_digit (tl rest)
        in if digits = [] then None
           else if starts_with rest '']'' then Some digits
           else if starts_with rest ''.'' \<and> fraction \<noteq> [] \<and> starts_with (dropWhile js_digit (tl rest)) '']''
             then Some (digits @ ''.'' @ fraction)
           else None)"

fun retry_after_text :: "string \<Rightarrow> string option" where
  "retry_after_text [] = None"
| "retry_after_text (c # cs) = (case retry_after_here (c # cs) of Some t \<Rightarrow> Some t | None \<Rightarrow> retry_after_text cs)"

definition MAX_HONOURED_RETRY_AFTER_MS :: rat where
  "MAX_HONOURED_RETRY_AFTER_MS = 60 * 60 * 1000"

definition parseCloudKitRetryAfterMs :: "thrown \<Rightarrow> rat option" where
  "parseCloudKitRetryAfterMs e =
     (case retry_after_text (error_text e) of
        None \<Rightarrow> None
      | Some t \<Rightarrow> (case js_number t of
          JNum seconds \<Rightarrow> if seconds \<le> 0 then None else Some (min MAX_HONOURED_RETRY_AFTER_MS (of_int \<lceil>seconds * 1000\<rceil>))
        | _ \<Rightarrow> None))"

definition resolveSyncFailureCooldownMs :: "thrown \<Rightarrow> rat \<Rightarrow> rat \<Rightarrow> rat \<Rightarrow> rat" where
  "resolveSyncFailureCooldownMs e consecutiveFailures baseMs maxMs =
     (let attempt = nat (max 1 \<lfloor>consecutiveFailures\<rfloor>)
      in case parseCloudKitRetryAfterMs e of
           None \<Rightarrow> min maxMs (max baseMs (baseMs * 2 ^ (attempt - 1)))
         | Some requestedMs \<Rightarrow> min (max maxMs requestedMs) (requestedMs * 2 ^ (attempt - 1)))"

section \<open>The backoff of downloads\<close>

text \<open>When a file may be asked for again; the clock is an argument.\<close>

type_synonym backoff = "(string \<times> int) list"

definition getBlockedUntil :: "int \<Rightarrow> string \<Rightarrow> backoff \<Rightarrow> int option \<times> backoff" where
  "getBlockedUntil now attachmentId b =
     (case map_of b attachmentId of
        None \<Rightarrow> (None, b)
      | Some blockedUntil \<Rightarrow>
          if blockedUntil = 0 then (None, b)
          else if blockedUntil \<le> now then (None, AList.delete attachmentId b)
          else (Some blockedUntil, b))"

definition setFromError :: "int \<Rightarrow> int \<Rightarrow> int \<Rightarrow> string \<Rightarrow> thrown \<Rightarrow> backoff \<Rightarrow> backoff" where
  "setFromError missingBackoffMs errorBackoffMs now attachmentId e b =
     AList.update attachmentId (now + (if getErrorStatus e = JNum 404 then missingBackoffMs else errorBackoffMs)) b"

definition prune_backoff :: "int \<Rightarrow> backoff \<Rightarrow> backoff" where
  "prune_backoff now b = filter (\<lambda>entry. now < snd entry) b"

definition deleteEntry :: "string \<Rightarrow> backoff \<Rightarrow> backoff" where
  "deleteEntry attachmentId b = AList.delete attachmentId b"

section \<open>What the retry loop does\<close>

text \<open>The world after \<open>k\<close> calls of the operation.\<close>

definition after_calls :: "('w \<Rightarrow> 'b \<times> 'w) \<Rightarrow> nat \<Rightarrow> 'w \<Rightarrow> 'w" where
  "after_calls operation k w = ((\<lambda>w. snd (operation w)) ^^ k) w"

lemma after_calls_Suc: "after_calls operation (Suc k) w = after_calls operation k (snd (operation w))"
  unfolding after_calls_def by (subst funpow_Suc_right) simp

lemma after_calls_0 [simp]: "after_calls operation 0 w = w"
  by (simp add: after_calls_def)

lemma retry_delay_bounds: "0 \<le> retry_delay options n \<and> retry_delay options n \<le> max_delay options"
  by (simp add: retry_delay_def Let_def max_delay_def base_delay_def)

definition retries_well :: "RetryOptions \<Rightarrow> ('w \<Rightarrow> (thrown + 'a) \<times> 'w) \<Rightarrow> nat \<Rightarrow> 'w \<Rightarrow> nat \<Rightarrow> (thrown + 'a) \<Rightarrow> 'w \<Rightarrow> bool" where
  "retries_well options operation attempt w k r w' \<longleftrightarrow>
     of_nat (attempt + k) \<le> max_attempts options
   \<and> w' = after_calls operation (Suc k) w \<and> r = fst (operation (after_calls operation k w))
   \<and> (\<forall>j<k. \<exists>e. fst (operation (after_calls operation j w)) = Inl e \<and> can_retry options e (attempt + j))
   \<and> (\<forall>e. r = Inl e \<longrightarrow> \<not> can_retry options e (attempt + k) \<or> max_attempts options < of_nat (Suc (attempt + k)))"

lemma retries_well_once:
  assumes "of_nat attempt \<le> max_attempts options" "operation w = (r, w')"
    "\<forall>e. r = Inl e \<longrightarrow> \<not> can_retry options e attempt \<or> max_attempts options < of_nat (Suc attempt)"
  shows "retries_well options operation attempt w 0 r w'"
  using assms by (simp add: retries_well_def after_calls_Suc)

lemma retries_well_again:
  assumes "retries_well options operation (Suc attempt) w1 k r w'" "operation w = (Inl e, w1)" "can_retry options e attempt"
  shows "retries_well options operation attempt w (Suc k) r w'"
proof -
  have "\<exists>e. fst (operation (after_calls operation j w)) = Inl e \<and> can_retry options e (attempt + j)" if "j < Suc k" for j
    using assms that by (cases j) (auto simp: retries_well_def after_calls_Suc)
  then show ?thesis using assms by (simp add: retries_well_def after_calls_Suc [of operation _ w])
qed

lemma retry_from_outcome:
  assumes "retry_from options operation attempt l delays w = (r, delays', w')" "of_nat attempt \<le> max_attempts options"
    "\<forall>d\<in>set delays. 0 \<le> d \<and> d \<le> max_delay options"
  shows "\<exists>k. retries_well options operation attempt w k r w' \<and> length delays' \<le> length delays + Suc k
    \<and> (\<forall>d\<in>set delays'. 0 \<le> d \<and> d \<le> max_delay options)"
  using assms
proof (induction options operation attempt l delays w rule: retry_from.induct)
  case (1 options operation attempt lastError delays w)
  obtain x w1 where op: "operation w = (x, w1)" by (cases "operation w")
  have now: "\<not> max_attempts options < of_nat attempt" using "1.prems"(2) by simp
  show ?case
  proof (cases x)
    case (Inr a)
    with "1.prems"(1) op now have "r = Inr a" "w' = w1" "delays' = delays" by (auto simp: retry_from.simps [of options operation attempt])
    with retries_well_once [where operation = operation and w = w, OF "1.prems"(2) op] Inr "1.prems"(3) show ?thesis by (intro exI [of _ 0]) simp
  next
    case (Inl e)
    show ?thesis
    proof (cases "can_retry options e attempt")
      case False
      with Inl "1.prems"(1) op now have "r = Inl e" "w' = w1" "delays' = delays" by (auto simp: retry_from.simps [of options operation attempt])
      with retries_well_once [where operation = operation and w = w, OF "1.prems"(2) op] Inl False "1.prems"(3) show ?thesis by (intro exI [of _ 0]) simp
    next
      case True
      let ?d = "delays @ [retry_delay options attempt]"
      from True Inl "1.prems"(1) op now have next_try: "retry_from options operation (Suc attempt) e ?d w1 = (r, delays', w')"
        by (simp add: retry_from.simps [of options operation attempt])
      have bounds: "\<forall>d\<in>set ?d. 0 \<le> d \<and> d \<le> max_delay options" using "1.prems"(3) retry_delay_bounds by auto
      show ?thesis
      proof (cases "max_attempts options < of_nat (Suc attempt)")
        case True
        with next_try have "r = Inl e" "w' = w1" "delays' = ?d" by (simp_all add: retry_from.simps [of options operation "Suc attempt"])
        with retries_well_once [where operation = operation and w = w, OF "1.prems"(2) op] Inl True bounds show ?thesis by (intro exI [of _ 0]) simp
      next
        case False
        then have "of_nat (Suc attempt) \<le> max_attempts options" by simp
        from "1.IH" [OF now op [symmetric] Inl True next_try this bounds]
        obtain k where k: "retries_well options operation (Suc attempt) w1 k r w'" "length delays' \<le> length ?d + Suc k"
          "\<forall>d\<in>set delays'. 0 \<le> d \<and> d \<le> max_delay options" by blast
        have "retries_well options operation attempt w (Suc k) r w'"
          using retries_well_again [OF k(1)] op Inl True by simp
        with k(2,3) show ?thesis by (intro exI [of _ "Suc k"]) simp
      qed
    qed
  qed
qed

text \<open>
  C19. The retry loop returns after at most as many calls as it is allowed, at least one: every call but the last has failed with
  an error that may be retried, the result is that of the last call, and it is an error only when that error may not
  be retried or no attempt is left. Every delay lies between zero and the configured maximum, whatever the
  random numbers are.
\<close>

theorem retry_loop_outcome:
  "\<exists>r delays w'. withRetry operation options w = (r, delays, w')
     \<and> (\<exists>k. of_nat (Suc k) \<le> max_attempts options \<and> length delays \<le> Suc k
          \<and> w' = after_calls operation (Suc k) w \<and> r = fst (operation (after_calls operation k w))
          \<and> (\<forall>j<k. \<exists>e. fst (operation (after_calls operation j w)) = Inl e \<and> can_retry options e (Suc j))
          \<and> (case r of Inr _ \<Rightarrow> True | Inl e \<Rightarrow> \<not> can_retry options e (Suc k) \<or> max_attempts options < of_nat (Suc (Suc k))))
     \<and> (\<forall>d\<in>set delays. 0 \<le> d \<and> d \<le> max_delay options)"
proof -
  obtain r delays w' where run: "withRetry operation options w = (r, delays, w')" by (cases "withRetry operation options w") auto
  have "of_nat 1 \<le> max_attempts options" by (simp add: max_attempts_def)
  from retry_from_outcome [OF run [unfolded withRetry_def] this] obtain k where
    "retries_well options operation 1 w k r w'" "length delays \<le> Suc k" "\<forall>d\<in>set delays. 0 \<le> d \<and> d \<le> max_delay options" by auto
  then show ?thesis using run by (intro exI conjI) (auto simp: retries_well_def split: sum.split)
qed

text \<open>A call that fails twice with a network error and then answers.\<close>

definition flaky :: "nat \<Rightarrow> (thrown + nat) \<times> nat" where
  "flaky n = (if n < 2 then Inl (ErrorObject (JObj []) ''Network down'') else Inr n, Suc n)"

definition patient :: RetryOptions where
  "patient = \<lparr>maxAttempts = None, baseDelayMs = None, maxDelayMs = None, jitterRatio = Some 0, random_draw = (\<lambda>_. 0),
     shouldRetry = Some (\<lambda>_ _. True)\<rparr>"

theorem retry_loop_outcome_witness:
  "withRetry flaky patient 0 = (Inr 2, [1000, 2000], 3)
   \<and> (\<exists>k. of_nat (Suc k) \<le> max_attempts patient \<and> fst (withRetry flaky patient 0) = fst (flaky (after_calls flaky k 0)))"
proof -
  have "withRetry flaky patient 0 = (Inr 2, [1000, 2000], 3)"
    by (simp add: withRetry_def retry_from.simps can_retry_def max_attempts_def or_default_def patient_def flaky_def retry_delay_def
        exponential_delay_def max_delay_def base_delay_def jitter_ratio_def Let_def)
  with retry_loop_outcome [of flaky patient 0] show ?thesis by auto
qed

section \<open>How long a cooldown lasts\<close>

text \<open>
  Cooldowns back off and respect the server: without a delay asked for they start at the base, double with every failure in a
  row and stop at the maximum; a delay the server asked for is never cut short, not even by the maximum, and
  grows while the server keeps refusing. More failures never shorten the wait.
\<close>

theorem cooldown_backs_off:
  assumes "0 \<le> baseMs" "baseMs \<le> maxMs"
  shows "(case parseCloudKitRetryAfterMs e of
        None \<Rightarrow> baseMs \<le> resolveSyncFailureCooldownMs e n baseMs maxMs \<and> resolveSyncFailureCooldownMs e n baseMs maxMs \<le> maxMs
          \<and> resolveSyncFailureCooldownMs e 1 baseMs maxMs = baseMs
      | Some asked \<Rightarrow> 0 < asked \<and> asked \<le> MAX_HONOURED_RETRY_AFTER_MS
          \<and> asked \<le> resolveSyncFailureCooldownMs e n baseMs maxMs \<and> resolveSyncFailureCooldownMs e n baseMs maxMs \<le> max maxMs asked
          \<and> resolveSyncFailureCooldownMs e 1 baseMs maxMs = asked)
    \<and> (n \<le> m \<longrightarrow> resolveSyncFailureCooldownMs e n baseMs maxMs \<le> resolveSyncFailureCooldownMs e m baseMs maxMs)"
proof -
  have grow: "x \<le> x * 2 ^ i" if "0 \<le> x" for x :: rat and i
    using that mult_left_mono [of 1 "2 ^ i" x] by simp
  have asked: "0 < r \<and> r \<le> MAX_HONOURED_RETRY_AFTER_MS" if "parseCloudKitRetryAfterMs e = Some r" for r
  proof -
    from that obtain q :: rat where "0 < q" "r = min MAX_HONOURED_RETRY_AFTER_MS (of_int \<lceil>q * 1000\<rceil>)"
      by (auto simp: parseCloudKitRetryAfterMs_def not_le split: option.splits js.splits if_splits)
    then show ?thesis by (auto simp: MAX_HONOURED_RETRY_AFTER_MS_def)
  qed
  have mono: "resolveSyncFailureCooldownMs e n baseMs maxMs \<le> resolveSyncFailureCooldownMs e m baseMs maxMs" if "n \<le> m"
  proof -
    from that have "nat (max 1 \<lfloor>n\<rfloor>) - 1 \<le> nat (max 1 \<lfloor>m\<rfloor>) - 1" using floor_mono [of n m] by linarith
    then have power: "x * 2 ^ (nat (max 1 \<lfloor>n\<rfloor>) - 1) \<le> x * 2 ^ (nat (max 1 \<lfloor>m\<rfloor>) - 1)" if "0 \<le> x" for x :: rat
      using that by (intro mult_left_mono power_increasing) simp_all
    show ?thesis
    proof (cases "parseCloudKitRetryAfterMs e")
      case None
      then show ?thesis unfolding resolveSyncFailureCooldownMs_def Let_def option.case
        using power [OF assms(1)] by (simp only: None option.case) (intro min.mono max.mono order_refl)
    next
      case (Some r)
      with asked have "0 \<le> r" by (simp add: less_imp_le)
      then show ?thesis unfolding resolveSyncFailureCooldownMs_def Let_def
        using power [OF \<open>0 \<le> r\<close>] by (simp only: Some option.case) (intro min.mono order_refl)
    qed
  qed
  show ?thesis
  proof (cases "parseCloudKitRetryAfterMs e")
    case None
    let ?i = "nat (max 1 \<lfloor>n\<rfloor>) - 1"
    have "baseMs \<le> min maxMs (max baseMs (baseMs * 2 ^ ?i))" using assms(2) by simp
    then show ?thesis using None assms mono by (simp add: resolveSyncFailureCooldownMs_def Let_def)
  next
    case (Some r)
    with asked have r: "0 < r" "r \<le> MAX_HONOURED_RETRY_AFTER_MS" by blast+
    have "r \<le> min (max maxMs r) (r * 2 ^ i)" for i using grow [of r i] r(1) by simp
    then show ?thesis using Some r mono by (simp add: resolveSyncFailureCooldownMs_def Let_def)
  qed
qed

theorem cooldown_backs_off_witness:
  "resolveSyncFailureCooldownMs (ErrorObject (JObj []) ''Slow [retryAfter=120]'') 1 60000 90000 = 120000"
proof -
  have "retry_after_text ''Slow [retryAfter=120]'' = Some ''120''" by code_simp
  moreover have "js_number ''120'' = JNum 120"
  proof -
    have "trim_str ''120'' = ''120''" "takeWhile js_digit ''120'' = ''120''" "dropWhile js_digit ''120'' = []" "lower ''12'' = ''12''"
      "digits_nat ''120'' = 120" "digits_nat [] = 0" by code_simp+
    then show ?thesis by (simp add: js_number_def unsigned_decimal_def Let_def scan_exponent_def pow10_def)
  qed
  ultimately have "parseCloudKitRetryAfterMs (ErrorObject (JObj []) ''Slow [retryAfter=120]'') = Some 120000"
    by (simp add: parseCloudKitRetryAfterMs_def error_text_def MAX_HONOURED_RETRY_AFTER_MS_def)
  with cooldown_backs_off [of 60000 90000 "ErrorObject (JObj []) ''Slow [retryAfter=120]''" 1 1] show ?thesis by simp
qed

section \<open>Pruning the backoff\<close>

text \<open>Pruning forgets only what no longer blocks.\<close>

lemma prune_backoff_answers:
  assumes "distinct (map fst b)" "0 \<le> now"
  shows "fst (getBlockedUntil now k (prune_backoff now b)) = fst (getBlockedUntil now k b)"
proof -
  have "map_of (prune_backoff now b) k = (case map_of b k of Some t \<Rightarrow> if now < t then Some t else None | None \<Rightarrow> None)"
    using assms(1) by (induction b) (auto simp: prune_backoff_def map_of_eq_None_iff split: option.splits if_splits)
  with assms(2) show ?thesis by (auto simp: getBlockedUntil_def split: option.split)
qed

end
