(* ===== verification/Auto_Sync.thy ===== *)
theory Auto_Sync
  imports Sync_Orchestrator Sync_Backoff
begin

text \<open>
  The pacing of automatic cycles (\<^verbatim>\<open>packages/core/src/auto-sync-controller.ts\<close>). The record holds the
  variables of the closure with the orchestrator inside it, the timers with their deadlines, and for each
  cycle the \<open>await\<close> it stands at. A step is one synchronous stretch of the code: a call of the
  interface, a timer that fires, an awaited callback that answers, or a cycle that settles. What the clock
  and the callbacks of the platform say during a stretch is the record \<open>surroundings\<close>. Times are
  rational; trace output is not modelled.
\<close>

section \<open>Options and state\<close>

record AutoSyncCadence =
  minIntervalMs :: rat
  debounceFirstChangeMs :: rat
  debounceContinuousChangeMs :: rat

record AutoSyncAdaptivePacing =
  durationMultiplier :: rat
  maxIntervalMs :: rat

text \<open>The options that do not change; \<open>periodicSyncIntervalMs\<close> is a value, as \<open>undefined\<close> and \<open>null\<close> differ.\<close>

record AutoSyncControllerOptions =
  asksCanSync :: bool
  focusMinIntervalMs :: "rat option"
  autoFailureCooldownMs :: "rat option"
  maxFailureCooldownMs :: "rat option"
  initialSyncDelayMs :: "rat option"
  periodicSyncIntervalMs :: js
  refreshesCadence :: bool
  adaptivePacing :: "AutoSyncAdaptivePacing option"
  continuousDebounceUntilSuspend :: bool
  skipRetryWhileCycleRunning :: bool
  isIgnorableFailure :: "string option \<Rightarrow> bool"

definition DEFAULT_PERIODIC_SYNC_INTERVAL_MS :: rat where
  "DEFAULT_PERIODIC_SYNC_INTERVAL_MS = 15 * 60 * 1000"

definition FOCUS_TRIGGER_DEDUPE_MS :: rat where
  "FOCUS_TRIGGER_DEDUPE_MS = 1000"

definition focus_min_interval :: "AutoSyncControllerOptions \<Rightarrow> rat" where
  "focus_min_interval options = or_default (focusMinIntervalMs options) 30000"

definition failure_cooldown :: "AutoSyncControllerOptions \<Rightarrow> rat" where
  "failure_cooldown options = or_default (autoFailureCooldownMs options) 60000"

definition max_failure_cooldown :: "AutoSyncControllerOptions \<Rightarrow> rat" where
  "max_failure_cooldown options = or_default (maxFailureCooldownMs options) (10 * 60000)"

definition initial_delay :: "AutoSyncControllerOptions \<Rightarrow> rat" where
  "initial_delay options = or_default (initialSyncDelayMs options) 1500"

definition periodic_interval :: "AutoSyncControllerOptions \<Rightarrow> rat option" where
  "periodic_interval options =
     (case periodicSyncIntervalMs options of
        JUndef \<Rightarrow> Some DEFAULT_PERIODIC_SYNC_INTERVAL_MS
      | JNum q \<Rightarrow> if 0 < q then Some q else None
      | _ \<Rightarrow> None)"

text \<open>What the platform answers during one stretch.\<close>

record surroundings =
  clock :: rat
  runtimeActive :: bool
  runtimeSuspended :: bool
  windowPaused :: bool
  localChangesPending :: bool
  worthSyncing :: bool
  cadence :: AutoSyncCadence

record AutoSyncRequest =
  requestedIntervalMs :: "rat option"
  request_source :: string
  bypassFailureCooldown :: bool

datatype cycle_stage = AwaitSuspension | AwaitCanSync | AwaitFlush | AwaitSync | Ended

record auto_cycle =
  stage :: cycle_stage
  auto_request :: AutoSyncRequest
  nowMs :: rat
  cycleStartedSuspended :: bool

datatype throttle_kind = FailureRetry | PacingRetry

text \<open>
  A timer is its deadline. The debounce handle may stay set after it has fired, which is \<open>FiredHandle\<close>.
  \<open>refreshes\<close> counts the awaited cadence refreshes.
\<close>

datatype debounce_handle = PendingUntil rat | FiredHandle

record auto_sync =
  orch :: "AutoSyncRequest orchestrator"
  lastAutoSyncAt :: rat
  lastCycleDurationMs :: rat
  syncDebounceTimer :: "debounce_handle option"
  syncThrottleTimer :: "(throttle_kind \<times> rat) option"
  initialSyncTimer :: "rat option"
  periodicSyncTimer :: "rat option"
  autoSyncRetryAfter :: rat
  consecutiveAutoSyncFailures :: nat
  lastFocusTriggerAt :: rat
  requestedWhileSuspended :: bool
  disposed :: bool
  auto_cycles :: "nat \<Rightarrow> auto_cycle option"
  refreshes :: nat

datatype auto_notice =
    CycleBegan nat AutoSyncRequest
  | PerformSync nat
  | SyncFailure string

type_synonym auto_outcome = "auto_sync \<times> auto_notice list"

section \<open>Timers and pacing\<close>

definition schedulePeriodicSync :: "AutoSyncControllerOptions \<Rightarrow> rat \<Rightarrow> auto_sync \<Rightarrow> auto_sync" where
  "schedulePeriodicSync options now s =
     (case periodic_interval options of
        Some ms \<Rightarrow> s\<lparr>periodicSyncTimer := if disposed s then None else Some (now + ms)\<rparr>
      | None \<Rightarrow> s\<lparr>periodicSyncTimer := None\<rparr>)"

definition scheduleAutoRetryAfterCooldown :: "rat \<Rightarrow> bool \<Rightarrow> auto_sync \<Rightarrow> auto_sync" where
  "scheduleAutoRetryAfterCooldown now replaceExisting s =
     (let waitMs = max 0 (autoSyncRetryAfter s - now)
      in if \<not> replaceExisting \<and> syncThrottleTimer s \<noteq> None then s
         else s\<lparr>syncThrottleTimer := Some (FailureRetry, now + waitMs)\<rparr>)"

definition shouldRunAutoSyncNow :: "rat \<Rightarrow> auto_sync \<Rightarrow> bool \<times> auto_sync" where
  "shouldRunAutoSyncNow now s =
     (if autoSyncRetryAfter s \<le> now then (True, s) else (False, scheduleAutoRetryAfterCooldown now False s))"

definition canRunWindowSync :: "surroundings \<Rightarrow> bool" where
  "canRunWindowSync env \<longleftrightarrow> runtimeActive env \<and> \<not> windowPaused env"

definition shouldRunBlurSync :: "surroundings \<Rightarrow> bool" where
  "shouldRunBlurSync env \<longleftrightarrow> canRunWindowSync env \<and> localChangesPending env"

definition resolveEffectiveMinIntervalMs :: "AutoSyncControllerOptions \<Rightarrow> surroundings \<Rightarrow> rat option \<Rightarrow> auto_sync \<Rightarrow> rat" where
  "resolveEffectiveMinIntervalMs options env requestedMinIntervalMs s =
     (let requested = or_default requestedMinIntervalMs (minIntervalMs (cadence env))
      in case adaptivePacing options of
           None \<Rightarrow> requested
         | Some pacing \<Rightarrow>
             if requested \<le> 0 then requested
             else max requested (min (lastCycleDurationMs s * durationMultiplier pacing) (maxIntervalMs pacing)))"

section \<open>A cycle\<close>

definition set_stage :: "nat \<Rightarrow> cycle_stage \<Rightarrow> auto_sync \<Rightarrow> auto_sync" where
  "set_stage n st s = s\<lparr>auto_cycles := (auto_cycles s)(n := map_option (\<lambda>c. c\<lparr>stage := st\<rparr>) (auto_cycles s n))\<rparr>"

text \<open>After the encryption check and after \<open>canSync\<close>: the flush is called and awaited.\<close>

definition begin_flush :: "nat \<Rightarrow> auto_cycle \<Rightarrow> auto_sync \<Rightarrow> auto_sync" where
  "begin_flush n c s = set_stage n AwaitFlush (s\<lparr>lastAutoSyncAt := nowMs c\<rparr>)"

definition after_suspension_check :: "AutoSyncControllerOptions \<Rightarrow> nat \<Rightarrow> auto_cycle \<Rightarrow> auto_sync \<Rightarrow> auto_sync" where
  "after_suspension_check options n c s = (if asksCanSync options then set_stage n AwaitCanSync s else begin_flush n c s)"

text \<open>\<open>runCycle\<close> up to its first \<open>await\<close>. It runs while \<open>run\<close> of the orchestrator does.\<close>

definition begin_cycle :: "AutoSyncControllerOptions \<Rightarrow> surroundings \<Rightarrow> nat \<Rightarrow> AutoSyncRequest \<Rightarrow> auto_sync \<Rightarrow> auto_outcome" where
  "begin_cycle options env n request s =
     (let c = \<lparr>stage = Ended, auto_request = request, nowMs = clock env, cycleStartedSuspended = runtimeSuspended env\<rparr>;
          s0 = s\<lparr>auto_cycles := (auto_cycles s)(n := Some c)\<rparr>
      in if \<not> runtimeActive env then (s0, [])
         else if \<not> bypassFailureCooldown request \<and> \<not> fst (shouldRunAutoSyncNow (clock env) s0)
         then (snd (shouldRunAutoSyncNow (clock env) s0), [])
         else
           let effectiveMinIntervalMs = resolveEffectiveMinIntervalMs options env (requestedIntervalMs request) s0;
               elapsed = clock env - lastAutoSyncAt s0
           in if elapsed < effectiveMinIntervalMs
              then (if syncThrottleTimer s0 = None
                    then s0\<lparr>syncThrottleTimer := Some (PacingRetry, clock env + max 0 (effectiveMinIntervalMs - elapsed))\<rparr> else s0, [])
              else if request_source request = ''manual'' then (after_suspension_check options n c s0, [CycleBegan n request])
              else (set_stage n AwaitSuspension s0, [CycleBegan n request]))"

fun cycles_started :: "'a notice list \<Rightarrow> (nat \<times> 'a) list" where
  "cycles_started [] = []"
| "cycles_started (CycleStarted n a # ns) = (n, a) # cycles_started ns"
| "cycles_started (_ # ns) = cycles_started ns"

text \<open>An operation of the orchestrator, with the cycles it starts.\<close>

definition begin_all :: "AutoSyncControllerOptions \<Rightarrow> surroundings \<Rightarrow> (nat \<times> AutoSyncRequest) list \<Rightarrow> auto_outcome \<Rightarrow> auto_outcome" where
  "begin_all options env started out =
     foldl (\<lambda>(s, ns) (n, request). let (s', ns') = begin_cycle options env n request s in (s', ns @ ns')) out started"

definition orchestrated :: "AutoSyncControllerOptions \<Rightarrow> surroundings \<Rightarrow> (AutoSyncRequest orchestrator \<Rightarrow> AutoSyncRequest outcome)
    \<Rightarrow> auto_sync \<Rightarrow> auto_outcome" where
  "orchestrated options env operation s =
     (let (o', ns) = operation (orch s) in begin_all options env (cycles_started ns) (s\<lparr>orch := o'\<rparr>, []))"

section \<open>Requests\<close>

definition requestSync :: "AutoSyncControllerOptions \<Rightarrow> surroundings \<Rightarrow> rat option \<Rightarrow> auto_sync \<Rightarrow> auto_outcome" where
  "requestSync options env overrideMinIntervalMs s =
     (if \<not> runtimeActive env then (s, [])
      else orchestrated options env
        (orchestrator_run \<lparr>requestedIntervalMs = overrideMinIntervalMs, request_source = ''manual'', bypassFailureCooldown = True\<rparr>) s)"

definition requestAutoSync :: "AutoSyncControllerOptions \<Rightarrow> surroundings \<Rightarrow> rat option \<Rightarrow> string \<Rightarrow> bool \<Rightarrow> auto_sync \<Rightarrow> auto_outcome" where
  "requestAutoSync options env overrideMinIntervalMs src internalRetry s =
     (if \<not> runtimeActive env then (s, [])
      else
        let s1 = (if runtimeSuspended env \<and> inFlight (orch s) \<noteq> None then s\<lparr>requestedWhileSuspended := True\<rparr> else s)
        in if internalRetry \<and> skipRetryWhileCycleRunning options \<and> inFlight (orch s1) \<noteq> None then (s1, [])
           else (case shouldRunAutoSyncNow (clock env) s1 of
                   (False, s2) \<Rightarrow> (s2, [])
                 | (True, s2) \<Rightarrow> orchestrated options env
                     (orchestrator_run \<lparr>requestedIntervalMs = overrideMinIntervalMs, request_source = src, bypassFailureCooldown = False\<rparr>) s2))"

section \<open>The awaited callbacks answer\<close>

record SyncResult =
  result_success :: bool
  result_error :: "string option"

datatype encryption_state = RemoteEncryptedNoKey | RemotePlaintext

definition with_cycle :: "nat \<Rightarrow> cycle_stage \<Rightarrow> (auto_cycle \<Rightarrow> auto_sync \<Rightarrow> auto_outcome) \<Rightarrow> auto_sync \<Rightarrow> auto_outcome" where
  "with_cycle n st f s =
     (case auto_cycles s n of Some c \<Rightarrow> if stage c = st then f c s else (s, []) | None \<Rightarrow> (s, []))"

definition suspension_answered :: "AutoSyncControllerOptions \<Rightarrow> nat \<Rightarrow> encryption_state option \<Rightarrow> auto_sync \<Rightarrow> auto_outcome" where
  "suspension_answered options n suspension =
     with_cycle n AwaitSuspension (\<lambda>c s.
       (case suspension of Some _ \<Rightarrow> set_stage n Ended s | None \<Rightarrow> after_suspension_check options n c s, []))"

definition canSync_answered :: "nat \<Rightarrow> bool \<Rightarrow> auto_sync \<Rightarrow> auto_outcome" where
  "canSync_answered n allowed = with_cycle n AwaitCanSync (\<lambda>c s. (if allowed then begin_flush n c s else set_stage n Ended s, []))"

text \<open>The flush never fails for the cycle: its error is reported and the sync goes on.\<close>

definition flushed :: "nat \<Rightarrow> auto_sync \<Rightarrow> auto_outcome" where
  "flushed n = with_cycle n AwaitFlush (\<lambda>c s. (set_stage n AwaitSync s, [PerformSync n]))"

definition settle_result :: "AutoSyncControllerOptions \<Rightarrow> rat \<Rightarrow> SyncResult \<Rightarrow> auto_sync \<Rightarrow> auto_sync" where
  "settle_result options now result s =
     (if result_success result
      then s\<lparr>autoSyncRetryAfter := 0, consecutiveAutoSyncFailures := 0, syncThrottleTimer := None\<rparr>
      else if isIgnorableFailure options (result_error result) then s
      else
        let failures = Suc (consecutiveAutoSyncFailures s);
            cooldownMs = resolveSyncFailureCooldownMs
              (OtherValue (case result_error result of Some e \<Rightarrow> JStr e | None \<Rightarrow> JUndef))
              (of_nat failures) (failure_cooldown options) (max_failure_cooldown options)
        in scheduleAutoRetryAfterCooldown now True
             (s\<lparr>consecutiveAutoSyncFailures := failures, autoSyncRetryAfter := max (autoSyncRetryAfter s) (now + cooldownMs)\<rparr>))"

definition failure_notice :: "AutoSyncControllerOptions \<Rightarrow> SyncResult \<Rightarrow> auto_notice list" where
  "failure_notice options result =
     (case result_error result of
        Some e \<Rightarrow> if \<not> result_success result \<and> e \<noteq> [] \<and> \<not> isIgnorableFailure options (Some e) then [SyncFailure e] else []
      | None \<Rightarrow> [])"

text \<open>The adaptive tail of a cycle: the pace is measured from the end, and a queued request waits like any other.\<close>

definition follow_up_request :: "surroundings \<Rightarrow> AutoSyncRequest" where
  "follow_up_request env =
     \<lparr>requestedIntervalMs = Some (minIntervalMs (cadence env)), request_source = ''follow-up'', bypassFailureCooldown = False\<rparr>"

definition end_adaptive :: "AutoSyncControllerOptions \<Rightarrow> surroundings \<Rightarrow> auto_cycle \<Rightarrow> auto_sync \<Rightarrow> auto_sync" where
  "end_adaptive options env c s =
     (if adaptivePacing options = None then s
      else
        let s1 = s\<lparr>lastCycleDurationMs := clock env - nowMs c, lastAutoSyncAt := clock env\<rparr>
        in if cycleStartedSuspended c \<and> requestedWhileSuspended s1
           then s1\<lparr>requestedWhileSuspended := False, orch := fst (clearFollowUp (orch s1))\<rparr>
           else if queued (orch s1) then s1\<lparr>orch := fst (requestFollowUp (Some (follow_up_request env)) (orch s1))\<rparr>
           else s1)"

definition sync_returned :: "AutoSyncControllerOptions \<Rightarrow> surroundings \<Rightarrow> nat \<Rightarrow> SyncResult \<Rightarrow> auto_sync \<Rightarrow> auto_outcome" where
  "sync_returned options env n result =
     with_cycle n AwaitSync (\<lambda>c s.
       (set_stage n Ended (end_adaptive options env c (settle_result options (clock env) result s)), failure_notice options result))"

text \<open>An awaited callback other than the flush rejects: the cycle ends where it stands.\<close>

definition cycle_rejected :: "nat \<Rightarrow> auto_sync \<Rightarrow> auto_outcome" where
  "cycle_rejected n s =
     (case auto_cycles s n of
        Some c \<Rightarrow> (if stage c \<in> {AwaitSuspension, AwaitCanSync, AwaitSync} then set_stage n Ended s else s, [])
      | None \<Rightarrow> (s, []))"

text \<open>The orchestrator's \<open>finally\<close> of a cycle that has ended; it has no delay policy here.\<close>

definition cycle_finished :: "AutoSyncControllerOptions \<Rightarrow> surroundings \<Rightarrow> nat \<Rightarrow> auto_sync \<Rightarrow> auto_outcome" where
  "cycle_finished options env n s = orchestrated options env (cycle_settled None n 0) s"

section \<open>The interface and the timers\<close>

definition handleFocus :: "AutoSyncControllerOptions \<Rightarrow> surroundings \<Rightarrow> auto_sync \<Rightarrow> auto_outcome" where
  "handleFocus options env s =
     (if \<not> canRunWindowSync env then (s, [])
      else if clock env - lastFocusTriggerAt s < FOCUS_TRIGGER_DEDUPE_MS then (s, [])
      else if focus_min_interval options < clock env - lastAutoSyncAt s
      then requestAutoSync options env None ''focus'' False (s\<lparr>lastFocusTriggerAt := clock env\<rparr>)
      else (s, []))"

definition handleBlur :: "AutoSyncControllerOptions \<Rightarrow> surroundings \<Rightarrow> auto_sync \<Rightarrow> auto_outcome" where
  "handleBlur options env s = (if \<not> shouldRunBlurSync env then (s, []) else requestAutoSync options env None ''blur'' False s)"

definition handleDataChange :: "surroundings \<Rightarrow> auto_sync \<Rightarrow> auto_outcome" where
  "handleDataChange env s =
     (if \<not> runtimeActive env then (s, [])
      else
        let hadTimer = (syncDebounceTimer s \<noteq> None);
            debounceMs = (if hadTimer then debounceContinuousChangeMs (cadence env) else debounceFirstChangeMs (cadence env))
        in (s\<lparr>syncDebounceTimer := Some (PendingUntil (clock env + debounceMs))\<rparr>, []))"

definition debounce_fired :: "AutoSyncControllerOptions \<Rightarrow> surroundings \<Rightarrow> auto_sync \<Rightarrow> auto_outcome" where
  "debounce_fired options env s =
     (let s1 = s\<lparr>syncDebounceTimer := if continuousDebounceUntilSuspend options then Some FiredHandle else None\<rparr>
      in if \<not> runtimeActive env \<or> \<not> worthSyncing env then (s1, [])
         else if refreshesCadence options then (s1\<lparr>refreshes := Suc (refreshes s1)\<rparr>, [])
         else requestAutoSync options env None ''data-change'' False s1)"

definition cadence_refreshed :: "AutoSyncControllerOptions \<Rightarrow> surroundings \<Rightarrow> bool \<Rightarrow> auto_sync \<Rightarrow> auto_outcome" where
  "cadence_refreshed options env succeeded s =
     (let s1 = s\<lparr>refreshes := refreshes s - 1\<rparr>
      in if succeeded then requestAutoSync options env None ''data-change'' False s1 else (s1, []))"

definition failure_retry_fired :: "AutoSyncControllerOptions \<Rightarrow> surroundings \<Rightarrow> auto_sync \<Rightarrow> auto_outcome" where
  "failure_retry_fired options env s =
     (let s1 = s\<lparr>syncThrottleTimer := None\<rparr>
      in if disposed s1 then (s1, []) else requestAutoSync options env (Some 0) ''failure-cooldown'' True s1)"

definition pacing_retry_fired :: "AutoSyncControllerOptions \<Rightarrow> surroundings \<Rightarrow> auto_sync \<Rightarrow> auto_outcome" where
  "pacing_retry_fired options env s = requestAutoSync options env (Some 0) ''throttle'' True (s\<lparr>syncThrottleTimer := None\<rparr>)"

text \<open>The callback the timer was set with.\<close>

definition throttle_fired :: "AutoSyncControllerOptions \<Rightarrow> surroundings \<Rightarrow> auto_sync \<Rightarrow> auto_outcome" where
  "throttle_fired options env s =
     (case syncThrottleTimer s of
        None \<Rightarrow> (s, [])
      | Some (PacingRetry, _) \<Rightarrow> pacing_retry_fired options env s
      | Some (FailureRetry, _) \<Rightarrow> failure_retry_fired options env s)"

lemmas throttle_fired_defs = throttle_fired_def failure_retry_fired_def pacing_retry_fired_def

definition scheduleInitialSync :: "AutoSyncControllerOptions \<Rightarrow> surroundings \<Rightarrow> auto_sync \<Rightarrow> auto_outcome" where
  "scheduleInitialSync options env s = (s\<lparr>initialSyncTimer := Some (clock env + initial_delay options)\<rparr>, [])"

definition initial_fired :: "AutoSyncControllerOptions \<Rightarrow> surroundings \<Rightarrow> auto_sync \<Rightarrow> auto_outcome" where
  "initial_fired options env s =
     (let s1 = s\<lparr>initialSyncTimer := None\<rparr>
      in if \<not> runtimeActive env then (s1, []) else requestAutoSync options env None ''initial'' False s1)"

definition periodic_fired :: "AutoSyncControllerOptions \<Rightarrow> surroundings \<Rightarrow> auto_sync \<Rightarrow> auto_outcome" where
  "periodic_fired options env s =
     (let s1 = s\<lparr>periodicSyncTimer := None\<rparr>
      in if disposed s1 then (s1, [])
         else
           let (s2, ns) = (if canRunWindowSync env then requestAutoSync options env None ''periodic'' False s1 else (s1, []))
           in (schedulePeriodicSync options (clock env) s2, ns))"

definition handleSuspend :: "auto_sync \<Rightarrow> auto_outcome" where
  "handleSuspend s =
     (let s1 = s\<lparr>syncDebounceTimer := None\<rparr>
      in (if autoSyncRetryAfter s1 = 0 then s1\<lparr>syncThrottleTimer := None\<rparr> else s1, []))"

definition notifyExternalSyncSuccess :: "auto_sync \<Rightarrow> auto_outcome" where
  "notifyExternalSyncSuccess s =
     (s\<lparr>autoSyncRetryAfter := 0, consecutiveAutoSyncFailures := 0, syncThrottleTimer := None\<rparr>, [])"

definition takePendingSuspendedRequest :: "auto_sync \<Rightarrow> bool \<times> auto_sync" where
  "takePendingSuspendedRequest s = (requestedWhileSuspended s, s\<lparr>requestedWhileSuspended := False\<rparr>)"

definition dispose :: "auto_sync \<Rightarrow> auto_outcome" where
  "dispose s =
     (s\<lparr>disposed := True, syncDebounceTimer := None, syncThrottleTimer := None, initialSyncTimer := None, periodicSyncTimer := None,
        orch := fst (orchestrator_reset (orch s))\<rparr>, [])"

definition createAutoSyncController :: "AutoSyncControllerOptions \<Rightarrow> rat \<Rightarrow> auto_sync" where
  "createAutoSyncController options now =
     schedulePeriodicSync options now
       \<lparr>orch = createSyncOrchestrator, lastAutoSyncAt = 0, lastCycleDurationMs = 0, syncDebounceTimer = None,
        syncThrottleTimer = None, initialSyncTimer = None, periodicSyncTimer = None, autoSyncRetryAfter = 0,
        consecutiveAutoSyncFailures = 0, lastFocusTriggerAt = 0, requestedWhileSuspended = False, disposed = False,
        auto_cycles = \<lambda>_. None, refreshes = 0\<rparr>"

section \<open>Steps\<close>

datatype auto_event =
    RequestSync "rat option"
  | RequestAutoSync "rat option" string
  | Focus | Blur | DataChange | ScheduleInitial | Suspend | ExternalSyncSuccess | TakePending | Dispose
  | DebounceFired | CadenceRefreshed bool | ThrottleFired | InitialFired | PeriodicFired
  | SuspensionAnswered nat "encryption_state option" | CanSyncAnswered nat bool | Flushed nat
  | SyncReturned nat SyncResult | CycleRejected nat | CycleFinished nat

fun auto_step :: "AutoSyncControllerOptions \<Rightarrow> surroundings \<Rightarrow> auto_event \<Rightarrow> auto_sync \<Rightarrow> auto_outcome" where
  "auto_step options env (RequestSync m) s = requestSync options env m s"
| "auto_step options env (RequestAutoSync m src) s = requestAutoSync options env m src False s"
| "auto_step options env Focus s = handleFocus options env s"
| "auto_step options env Blur s = handleBlur options env s"
| "auto_step options env DataChange s = handleDataChange env s"
| "auto_step options env ScheduleInitial s = scheduleInitialSync options env s"
| "auto_step options env Suspend s = handleSuspend s"
| "auto_step options env ExternalSyncSuccess s = notifyExternalSyncSuccess s"
| "auto_step options env TakePending s = (snd (takePendingSuspendedRequest s), [])"
| "auto_step options env Dispose s = dispose s"
| "auto_step options env DebounceFired s = debounce_fired options env s"
| "auto_step options env (CadenceRefreshed ok) s = cadence_refreshed options env ok s"
| "auto_step options env ThrottleFired s = throttle_fired options env s"
| "auto_step options env InitialFired s = initial_fired options env s"
| "auto_step options env PeriodicFired s = periodic_fired options env s"
| "auto_step options env (SuspensionAnswered n x) s = suspension_answered options n x s"
| "auto_step options env (CanSyncAnswered n ok) s = canSync_answered n ok s"
| "auto_step options env (Flushed n) s = flushed n s"
| "auto_step options env (SyncReturned n r) s = sync_returned options env n r s"
| "auto_step options env (CycleRejected n) s = cycle_rejected n s"
| "auto_step options env (CycleFinished n) s = cycle_finished options env n s"

text \<open>A timer fires when it is set and due; a callback answers while it is awaited; a cycle settles after it has ended.\<close>

definition at_stage :: "nat \<Rightarrow> cycle_stage \<Rightarrow> auto_sync \<Rightarrow> bool" where
  "at_stage n st s \<longleftrightarrow> (case auto_cycles s n of Some c \<Rightarrow> stage c = st | None \<Rightarrow> False)"

fun auto_possible :: "surroundings \<Rightarrow> auto_event \<Rightarrow> auto_sync \<Rightarrow> bool" where
  "auto_possible env DebounceFired s = (case syncDebounceTimer s of Some (PendingUntil due) \<Rightarrow> due \<le> clock env | _ \<Rightarrow> False)"
| "auto_possible env ThrottleFired s = (case syncThrottleTimer s of Some (_, due) \<Rightarrow> due \<le> clock env | None \<Rightarrow> False)"
| "auto_possible env InitialFired s = (case initialSyncTimer s of Some due \<Rightarrow> due \<le> clock env | None \<Rightarrow> False)"
| "auto_possible env PeriodicFired s = (case periodicSyncTimer s of Some due \<Rightarrow> due \<le> clock env | None \<Rightarrow> False)"
| "auto_possible env (CadenceRefreshed _) s = (0 < refreshes s)"
| "auto_possible env (SuspensionAnswered n _) s = at_stage n AwaitSuspension s"
| "auto_possible env (CanSyncAnswered n _) s = at_stage n AwaitCanSync s"
| "auto_possible env (Flushed n) s = at_stage n AwaitFlush s"
| "auto_possible env (SyncReturned n _) s = at_stage n AwaitSync s"
| "auto_possible env (CycleRejected n) s = (at_stage n AwaitSuspension s \<or> at_stage n AwaitCanSync s \<or> at_stage n AwaitSync s)"
| "auto_possible env (CycleFinished n) s = at_stage n Ended s"
| "auto_possible env _ s = True"

text \<open>The clock does not go back.\<close>

inductive auto_reaches :: "AutoSyncControllerOptions \<Rightarrow> (surroundings \<times> auto_event) list \<Rightarrow> auto_notice list \<Rightarrow> rat \<Rightarrow> auto_sync \<Rightarrow> bool"
  for options where
  created: "0 \<le> t \<Longrightarrow> auto_reaches options [] [] t (createAutoSyncController options t)"
| stepped: "auto_reaches options es ns t s \<Longrightarrow> t \<le> clock env \<Longrightarrow> auto_possible env e s \<Longrightarrow> auto_step options env e s = (s', ns')
    \<Longrightarrow> auto_reaches options (es @ [(env, e)]) (ns @ ns') (clock env) s'"

section \<open>The invariant\<close>

text \<open>
  Everything but the last line says that the cycles and the orchestrator agree. The last line is about
  failures: before the cooldown is over, its retry is the timer that is set.
\<close>

definition agree :: "rat \<Rightarrow> auto_sync \<Rightarrow> bool" where
  "agree t s \<longleftrightarrow>
     orchestrator_inv (orch s) \<and> followUpTimer (orch s) = None \<and> minimumFollowUpDelayMs (orch s) = 0
   \<and> (\<forall>n c. auto_cycles s n = Some c \<longrightarrow>
        n < length (cycle_args (orch s)) \<and> nowMs c \<le> t \<and> (stage c \<noteq> Ended \<longrightarrow> inFlight (orch s) = Some n))"

definition retry_armed :: "rat \<Rightarrow> auto_sync \<Rightarrow> bool" where
  "retry_armed t s \<longleftrightarrow> 0 \<le> t \<and> lastAutoSyncAt s \<le> t
   \<and> (t < autoSyncRetryAfter s \<longrightarrow> syncThrottleTimer s = Some (FailureRetry, autoSyncRetryAfter s))"

definition auto_inv :: "rat \<Rightarrow> auto_sync \<Rightarrow> bool" where
  "auto_inv t s \<longleftrightarrow> agree t s \<and> retry_armed t s \<and> (\<forall>n. inFlight (orch s) = Some n \<longrightarrow> auto_cycles s n \<noteq> None)"

lemma auto_inv_later: "auto_inv t s \<Longrightarrow> t \<le> t' \<Longrightarrow> auto_inv t' s"
  unfolding auto_inv_def agree_def retry_armed_def by (meson le_less_trans order_trans)

lemma agree_set_stage:
  "agree t s \<Longrightarrow> (st \<noteq> Ended \<Longrightarrow> inFlight (orch s) = Some n) \<Longrightarrow> agree t (set_stage n st s)"
  by (auto simp: agree_def set_stage_def split: if_splits)

lemma retry_armed_set_stage [simp]: "retry_armed t (set_stage n st s) \<longleftrightarrow> retry_armed t s"
  by (simp add: retry_armed_def set_stage_def)

lemma set_stage_simps [simp]:
  "orch (set_stage n st s) = orch s" "disposed (set_stage n st s) = disposed s" "auto_cycles (set_stage n st s) m = None \<longleftrightarrow> auto_cycles s m = None"
  "autoSyncRetryAfter (set_stage n st s) = autoSyncRetryAfter s" "lastAutoSyncAt (set_stage n st s) = lastAutoSyncAt s"
  "syncThrottleTimer (set_stage n st s) = syncThrottleTimer s"
  by (auto simp: set_stage_def)

lemma begin_flush_inv:
  assumes "agree t s" "retry_armed t s" "inFlight (orch s) = Some n" "nowMs c \<le> t"
  shows "agree t (begin_flush n c s)" "retry_armed t (begin_flush n c s)"
proof -
  have "agree t (s\<lparr>lastAutoSyncAt := nowMs c\<rparr>)" "retry_armed t (s\<lparr>lastAutoSyncAt := nowMs c\<rparr>)"
    using assms by (auto simp: agree_def retry_armed_def)
  then show "agree t (begin_flush n c s)" "retry_armed t (begin_flush n c s)"
    using assms(3) agree_set_stage by (auto simp: begin_flush_def)
qed

lemma after_suspension_inv:
  assumes "agree t s" "retry_armed t s" "inFlight (orch s) = Some n" "nowMs c \<le> t"
  shows "agree t (after_suspension_check options n c s)" "retry_armed t (after_suspension_check options n c s)"
  using begin_flush_inv [OF assms] assms agree_set_stage by (auto simp: after_suspension_check_def)

lemma scheduled_retry:
  "agree t (scheduleAutoRetryAfterCooldown now b s) \<longleftrightarrow> agree t s"
  "retry_armed t s \<Longrightarrow> retry_armed t (scheduleAutoRetryAfterCooldown t False s)"
  "0 \<le> t \<Longrightarrow> lastAutoSyncAt s \<le> t \<Longrightarrow> retry_armed t (scheduleAutoRetryAfterCooldown t True s)"
  by (auto simp: agree_def retry_armed_def scheduleAutoRetryAfterCooldown_def Let_def)

lemma scheduled_simps [simp]:
  "orch (scheduleAutoRetryAfterCooldown now b s) = orch s" "disposed (scheduleAutoRetryAfterCooldown now b s) = disposed s"
  "auto_cycles (scheduleAutoRetryAfterCooldown now b s) = auto_cycles s"
  by (auto simp: scheduleAutoRetryAfterCooldown_def Let_def)

lemma begin_cycle_keeps:
  assumes "begin_cycle options env n request s = (s', ns)"
  shows "orch s' = orch s" "disposed s' = disposed s" "auto_cycles s' n \<noteq> None" "m \<noteq> n \<Longrightarrow> auto_cycles s' m = auto_cycles s m"
  using assms
  by (auto simp: begin_cycle_def Let_def shouldRunAutoSyncNow_def after_suspension_check_def begin_flush_def set_stage_def split: if_splits)

lemma begin_cycle_inv:
  assumes s: "agree t s" "retry_armed t s" and n: "inFlight (orch s) = Some n" "clock env = t"
    and run: "begin_cycle options env n request s = (s', ns)"
  shows "agree t s'" "retry_armed t s'"
proof -
  define c where "c = \<lparr>stage = Ended, auto_request = request, nowMs = clock env, cycleStartedSuspended = runtimeSuspended env\<rparr>"
  define s0 where "s0 = s\<lparr>auto_cycles := (auto_cycles s)(n := Some c)\<rparr>"
  have n_len: "n < length (cycle_args (orch s))" using s(1) n(1) by (simp add: agree_def orchestrator_inv_def)
  have s0: "agree t s0" "retry_armed t s0" "inFlight (orch s0) = Some n" "nowMs c \<le> t"
    using s n n_len by (auto simp: s0_def c_def agree_def retry_armed_def)
  have retry: "agree t (snd (shouldRunAutoSyncNow t s0))" "retry_armed t (snd (shouldRunAutoSyncNow t s0))"
    using s0 scheduled_retry by (auto simp: shouldRunAutoSyncNow_def)
  have throttle: "agree t (s0\<lparr>syncThrottleTimer := Some (PacingRetry, w)\<rparr>)" "retry_armed t (s0\<lparr>syncThrottleTimer := Some (PacingRetry, w)\<rparr>)"
    if "syncThrottleTimer s0 = None" for w using s0 that by (auto simp: agree_def retry_armed_def)
  have stage: "agree t (set_stage n AwaitSuspension s0)" using s0 agree_set_stage by blast
  note after = after_suspension_inv [OF s0, of options]
  from run [unfolded begin_cycle_def, folded c_def s0_def, unfolded Let_def, folded c_def s0_def]
  show "agree t s'" "retry_armed t s'"
    using s0 retry throttle stage after n(2) by (auto simp: c_def [symmetric] s0_def [symmetric] split: if_splits)
qed

text \<open>What the orchestrator does to the controller: it starts at most one cycle, when none is in flight.\<close>

definition well_ordered :: "AutoSyncRequest orchestrator \<Rightarrow> bool" where
  "well_ordered p \<longleftrightarrow> orchestrator_inv p \<and> followUpTimer p = None \<and> minimumFollowUpDelayMs p = 0"

lemma orchestrator_run_effect:
  assumes "well_ordered p" "orchestrator_run a p = (p', ns)"
  obtains (waits) "inFlight p \<noteq> None" "inFlight p' = inFlight p" "cycle_args p' = cycle_args p" "cycles_started ns = []" "well_ordered p'" "queued p'"
  | (starts) "inFlight p = None" "inFlight p' = Some (length (cycle_args p))" "cycle_args p' = cycle_args p @ [a]"
      "cycles_started ns = [(length (cycle_args p), a)]" "well_ordered p'"
  using assms by (cases "inFlight p") (auto simp: well_ordered_def orchestrator_inv_def orchestrator_defs split: if_splits)

lemma cycle_settled_effect:
  assumes "well_ordered p" "cycle_settled None n d p = (p', ns)"
  obtains (ignored) "p' = p" "cycles_started ns = []"
  | (drained) "inFlight p = Some n" "inFlight p' = None" "cycle_args p' = cycle_args p" "cycles_started ns = []" "well_ordered p'"
  | (starts) a where "inFlight p = Some n" "inFlight p' = Some (length (cycle_args p))" "cycle_args p' = cycle_args p @ [a]"
      "cycles_started ns = [(length (cycle_args p), a)]" "well_ordered p'"
  using assms
  by (cases "inFlight p = Some n"; cases "queued p")
    (auto simp: well_ordered_def orchestrator_inv_def orchestrator_defs follow_up_delay_def split: if_splits)

lemma begin_all_simps [simp]:
  "begin_all options env [] out = out"
  "begin_all options env [(n, r)] (s, ns) = (let (s', ns') = begin_cycle options env n r s in (s', ns @ ns'))"
  by (simp_all add: begin_all_def)

lemma orchestrated_starts:
  assumes inv: "auto_inv t s" and idle: "\<And>n c. auto_cycles s n = Some c \<Longrightarrow> stage c = Ended"
    and p': "inFlight p' = Some (length (cycle_args (orch s)))" "cycle_args p' = cycle_args (orch s) @ [a]" "well_ordered p'"
    and env: "clock env = t" and run: "begin_cycle options env (length (cycle_args (orch s))) a (s\<lparr>orch := p'\<rparr>) = (s', ns)"
  shows "auto_inv t s'"
proof -
  let ?s = "s\<lparr>orch := p'\<rparr>"
  have "agree t ?s" using inv p' idle by (fastforce simp: auto_inv_def agree_def well_ordered_def)
  moreover have "retry_armed t ?s" using inv by (simp add: auto_inv_def retry_armed_def)
  moreover have "inFlight (orch ?s) = Some (length (cycle_args (orch s)))" using p' by simp
  ultimately have "agree t s'" "retry_armed t s'" using begin_cycle_inv [OF _ _ _ env run] by blast+
  then show ?thesis using begin_cycle_keeps [OF run] p' by (auto simp: auto_inv_def)
qed

lemma run_inv:
  assumes inv: "auto_inv t s" and env: "clock env = t" and run: "orchestrated options env (orchestrator_run a) s = (s', ns)"
  shows "auto_inv t s'"
proof -
  obtain p' os where p': "orchestrator_run a (orch s) = (p', os)" by fastforce
  have "well_ordered (orch s)" using inv by (simp add: auto_inv_def agree_def well_ordered_def)
  then show ?thesis using p'
  proof (cases rule: orchestrator_run_effect)
    case waits
    then show ?thesis using run p' inv by (auto simp: orchestrated_def auto_inv_def agree_def retry_armed_def well_ordered_def)
  next
    case starts
    have "\<And>n c. auto_cycles s n = Some c \<Longrightarrow> stage c = Ended" using inv starts(1) by (fastforce simp: auto_inv_def agree_def)
    then show ?thesis using orchestrated_starts [OF inv _ starts(2,3,5) env] starts(4) run p' by (auto simp: orchestrated_def split: prod.splits)
  qed
qed

lemma finished_inv:
  assumes inv: "auto_inv t s" and env: "clock env = t" and n: "at_stage n Ended s" and run: "cycle_finished options env n s = (s', ns)"
  shows "auto_inv t s'"
proof -
  obtain p' os where p': "cycle_settled None n 0 (orch s) = (p', os)" by fastforce
  have idle: "stage c = Ended" if "auto_cycles s m = Some c" "inFlight (orch s) = Some n" for m c
    using inv n that by (cases "m = n") (fastforce simp: auto_inv_def agree_def at_stage_def)+
  have "well_ordered (orch s)" using inv by (simp add: auto_inv_def agree_def well_ordered_def)
  then show ?thesis using p'
  proof (cases rule: cycle_settled_effect)
    case ignored
    then show ?thesis using run p' inv by (simp add: cycle_finished_def orchestrated_def)
  next
    case drained
    then show ?thesis using run p' inv idle
      by (fastforce simp: cycle_finished_def orchestrated_def auto_inv_def agree_def retry_armed_def well_ordered_def)
  next
    case (starts a)
    then show ?thesis
      using orchestrated_starts [OF inv idle starts(2,3,5) env] run p'
      by (auto simp: cycle_finished_def orchestrated_def split: prod.splits)
  qed
qed

text \<open>Steps that change neither cycles nor orchestrator nor clock values.\<close>

lemma auto_inv_frame:
  "auto_inv t s \<Longrightarrow> orch s' = orch s \<Longrightarrow> auto_cycles s' = auto_cycles s \<Longrightarrow> lastAutoSyncAt s' = lastAutoSyncAt s
   \<Longrightarrow> autoSyncRetryAfter s' = autoSyncRetryAfter s \<Longrightarrow> syncThrottleTimer s' = syncThrottleTimer s \<Longrightarrow> auto_inv t s'"
  by (simp add: auto_inv_def agree_def retry_armed_def)

lemma should_run_inv: "auto_inv t s \<Longrightarrow> auto_inv t (snd (shouldRunAutoSyncNow t s))"
  using scheduled_retry by (auto simp: auto_inv_def shouldRunAutoSyncNow_def)

lemma request_inv:
  assumes inv: "auto_inv t s" and env: "clock env = t" and req: "requestAutoSync options env m src internal s = (s', ns)"
  shows "auto_inv t s'"
proof -
  define s1 where "s1 = (if runtimeSuspended env \<and> inFlight (orch s) \<noteq> None then s\<lparr>requestedWhileSuspended := True\<rparr> else s)"
  have s1: "auto_inv t s1" using inv by (auto simp: s1_def intro: auto_inv_frame)
  obtain b s2 where sr: "shouldRunAutoSyncNow t s1 = (b, s2)" by fastforce
  then have s2: "auto_inv t s2" using should_run_inv [OF s1] by simp
  show ?thesis
    using req [unfolded requestAutoSync_def, folded s1_def] env sr s1 s2 run_inv [OF s2 env] inv
    by (auto simp: Let_def s1_def [symmetric] split: if_splits bool.splits)
qed

lemma request_sync_inv:
  "auto_inv t s \<Longrightarrow> clock env = t \<Longrightarrow> requestSync options env m s = (s', ns) \<Longrightarrow> auto_inv t s'"
  using run_inv by (auto simp: requestSync_def split: if_splits)

text \<open>Once the throttle timer is due its deadline is no longer needed.\<close>

lemma throttle_cleared:
  "auto_inv t s \<Longrightarrow> syncThrottleTimer s = Some (k, due) \<Longrightarrow> due \<le> t \<Longrightarrow> auto_inv t (s\<lparr>syncThrottleTimer := None\<rparr>)"
  by (auto simp: auto_inv_def agree_def retry_armed_def)

lemma inv_parts: "auto_inv t s \<Longrightarrow> auto_cycles s n = Some c \<Longrightarrow> stage c \<noteq> Ended \<Longrightarrow> inFlight (orch s) = Some n \<and> nowMs c \<le> t"
  by (auto simp: auto_inv_def agree_def)

lemma set_stage_inv:
  "auto_inv t s \<Longrightarrow> (st \<noteq> Ended \<Longrightarrow> inFlight (orch s) = Some n) \<Longrightarrow> auto_inv t (set_stage n st s)"
  by (auto simp: auto_inv_def intro: agree_set_stage)

lemma begin_flush_auto_inv: "auto_inv t s \<Longrightarrow> inFlight (orch s) = Some n \<Longrightarrow> nowMs c \<le> t \<Longrightarrow> auto_inv t (begin_flush n c s)"
  using begin_flush_inv by (auto simp: auto_inv_def begin_flush_def)

lemma after_suspension_auto_inv:
  "auto_inv t s \<Longrightarrow> inFlight (orch s) = Some n \<Longrightarrow> nowMs c \<le> t \<Longrightarrow> auto_inv t (after_suspension_check options n c s)"
  by (simp add: after_suspension_check_def begin_flush_auto_inv set_stage_inv)

lemma answers_inv:
  "auto_inv t s \<Longrightarrow> suspension_answered options n x s = (s', ns) \<Longrightarrow> auto_inv t s'"
  "auto_inv t s \<Longrightarrow> canSync_answered n ok s = (s', ns) \<Longrightarrow> auto_inv t s'"
  "auto_inv t s \<Longrightarrow> flushed n s = (s', ns) \<Longrightarrow> auto_inv t s'"
  "auto_inv t s \<Longrightarrow> cycle_rejected n s = (s', ns) \<Longrightarrow> auto_inv t s'"
  by (auto simp: suspension_answered_def canSync_answered_def flushed_def cycle_rejected_def with_cycle_def
      split: option.splits if_splits dest: inv_parts intro!: set_stage_inv after_suspension_auto_inv begin_flush_auto_inv)

lemma settle_result_inv: "auto_inv t s \<Longrightarrow> auto_inv t (settle_result options t result s)"
proof -
  assume inv: "auto_inv t s"
  have failed: "retry_armed t (scheduleAutoRetryAfterCooldown t True (s\<lparr>consecutiveAutoSyncFailures := k, autoSyncRetryAfter := r\<rparr>))" for k r
    using inv by (intro scheduled_retry) (auto simp: auto_inv_def retry_armed_def)
  have frame: "agree t (s\<lparr>consecutiveAutoSyncFailures := k, autoSyncRetryAfter := r\<rparr>)"
    "agree t (s\<lparr>autoSyncRetryAfter := r, consecutiveAutoSyncFailures := k, syncThrottleTimer := None\<rparr>)" for k r
    using inv by (auto simp: auto_inv_def agree_def)
  show ?thesis
    using inv failed frame by (auto simp: settle_result_def Let_def auto_inv_def scheduled_retry retry_armed_def)
qed

lemma clear_well_ordered: "well_ordered p \<Longrightarrow> well_ordered (fst (clearFollowUp p))"
  by (auto simp: well_ordered_def orchestrator_inv_def orchestrator_defs)

lemma follow_well_ordered: "well_ordered p \<Longrightarrow> well_ordered (fst (requestFollowUp a p))"
  by (auto simp: well_ordered_def orchestrator_inv_def orchestrator_defs split: option.splits)

lemma queue_keeps [simp]:
  "inFlight (fst (clearFollowUp p)) = inFlight p" "cycle_args (fst (clearFollowUp p)) = cycle_args p"
  "inFlight (fst (requestFollowUp a p)) = inFlight p" "cycle_args (fst (requestFollowUp a p)) = cycle_args p"
  by (auto simp: orchestrator_defs split: option.splits)

lemma end_adaptive_inv: "auto_inv t s \<Longrightarrow> clock env = t \<Longrightarrow> auto_inv t (end_adaptive options env c s)"
  using clear_well_ordered [of "orch s"] follow_well_ordered [of "orch s"]
  by (auto simp: end_adaptive_def Let_def auto_inv_def agree_def retry_armed_def well_ordered_def)

lemma end_adaptive_flight: "inFlight (orch (end_adaptive options env c s)) = inFlight (orch s)"
  by (auto simp: end_adaptive_def Let_def)

lemma returned_inv: "auto_inv t s \<Longrightarrow> clock env = t \<Longrightarrow> sync_returned options env n r s = (s', ns) \<Longrightarrow> auto_inv t s'"
  by (auto simp: sync_returned_def with_cycle_def split: option.splits if_splits intro!: set_stage_inv end_adaptive_inv settle_result_inv)

lemma auto_step_inv:
  assumes inv: "auto_inv t s" and later: "t \<le> clock env" and possible: "auto_possible env e s" and alive: "e \<noteq> Dispose" "\<not> disposed s"
    and step: "auto_step options env e s = (s', ns)"
  shows "auto_inv (clock env) s'"
proof -
  have now: "auto_inv (clock env) s" using auto_inv_later [OF inv later] .
  have frame: "auto_inv (clock env) s1" if "orch s1 = orch s" "auto_cycles s1 = auto_cycles s" "lastAutoSyncAt s1 = lastAutoSyncAt s"
    "autoSyncRetryAfter s1 = autoSyncRetryAfter s" "syncThrottleTimer s1 = syncThrottleTimer s" for s1
    using auto_inv_frame [OF now that] .
  show ?thesis
  proof (cases e)
    case (RequestSync m)
    then show ?thesis using request_sync_inv [OF now] step by auto
  next
    case (RequestAutoSync m src)
    then show ?thesis using request_inv [OF now] step by auto
  next
    case Focus
    then show ?thesis using step request_inv [of "clock env" "s\<lparr>lastFocusTriggerAt := clock env\<rparr>"] frame
      by (auto simp: handleFocus_def split: if_splits)
  next
    case Blur
    then show ?thesis using step request_inv [OF now] now by (auto simp: handleBlur_def split: if_splits)
  next
    case DataChange
    then show ?thesis using step frame by (auto simp: handleDataChange_def Let_def split: if_splits)
  next
    case Suspend
    then show ?thesis using step now by (auto simp: handleSuspend_def Let_def auto_inv_def agree_def retry_armed_def split: if_splits)
  next
    case ExternalSyncSuccess
    then show ?thesis using step now by (auto simp: notifyExternalSyncSuccess_def auto_inv_def agree_def retry_armed_def)
  next
    case DebounceFired
    show ?thesis
      using step request_inv [of "clock env" "s\<lparr>syncDebounceTimer := x\<rparr>" env options None "''data-change''" False s' ns for x] frame
      by (auto simp: DebounceFired debounce_fired_def Let_def split: if_splits)
  next
    case (CadenceRefreshed ok)
    then show ?thesis
      using step request_inv [of "clock env" "s\<lparr>refreshes := refreshes s - 1\<rparr>" env options None "''data-change''" False s' ns] frame
      by (auto simp: cadence_refreshed_def Let_def split: if_splits)
  next
    case ThrottleFired
    then obtain k due where due: "syncThrottleTimer s = Some (k, due)" "due \<le> clock env"
      using possible by (auto split: option.splits)
    note cleared = throttle_cleared [OF now due]
    show ?thesis using step ThrottleFired due request_inv [OF cleared] cleared alive
      by (auto simp: throttle_fired_defs Let_def split: throttle_kind.splits)
  next
    case InitialFired
    then show ?thesis
      using step request_inv [of "clock env" "s\<lparr>initialSyncTimer := None\<rparr>" env options None "''initial''" False s' ns] frame
      by (auto simp: initial_fired_def Let_def split: if_splits)
  next
    case PeriodicFired
    have sched: "auto_inv (clock env) (schedulePeriodicSync options (clock env) s2)" if "auto_inv (clock env) s2" for s2
      using that by (auto simp: schedulePeriodicSync_def intro: auto_inv_frame split: option.splits)
    obtain s2 ns2 where s2: "(if canRunWindowSync env then requestAutoSync options env None ''periodic'' False (s\<lparr>periodicSyncTimer := None\<rparr>)
        else (s\<lparr>periodicSyncTimer := None\<rparr>, [])) = (s2, ns2)" by fastforce
    then have "auto_inv (clock env) s2"
      using request_inv [of "clock env" "s\<lparr>periodicSyncTimer := None\<rparr>"] frame by (auto split: if_splits)
    then show ?thesis using step PeriodicFired s2 sched alive by (auto simp: periodic_fired_def Let_def)
  next
    case (CycleFinished n)
    then show ?thesis using step finished_inv [OF now _ _] possible by auto
  qed (use step now alive answers_inv [OF now] returned_inv [OF now] frame in \<open>auto simp: scheduleInitialSync_def takePendingSuspendedRequest_def\<close>)
qed

section \<open>Reachable controllers\<close>

lemma begin_all_disposed: "disposed (fst (begin_all options env ls out)) = disposed (fst out)"
proof -
  have "disposed (fst (foldl (\<lambda>(s, ns) (n, r). let (s', ns') = begin_cycle options env n r s in (s', ns @ ns')) out ls)) = disposed (fst out)"
  proof (induction ls arbitrary: out)
    case (Cons l ls)
    obtain s ns n r where "out = (s, ns)" "l = (n, r)" by fastforce
    moreover obtain s' ns' where "begin_cycle options env n r s = (s', ns')" by fastforce
    ultimately show ?case using Cons begin_cycle_keeps(2) by auto
  qed simp
  then show ?thesis by (simp add: begin_all_def)
qed

lemma orchestrated_disposed: "disposed (fst (orchestrated options env f s)) = disposed s"
  by (simp add: orchestrated_def begin_all_disposed split: prod.split)

lemma request_disposed: "disposed (fst (requestAutoSync options env m src internal s)) = disposed s"
  by (auto simp: requestAutoSync_def shouldRunAutoSyncNow_def Let_def orchestrated_disposed)

lemma disposed_step: "e \<noteq> Dispose \<Longrightarrow> disposed (fst (auto_step options env e s)) = disposed s"
  by (cases e)
    (auto simp: requestSync_def handleFocus_def handleBlur_def handleDataChange_def scheduleInitialSync_def handleSuspend_def
      notifyExternalSyncSuccess_def takePendingSuspendedRequest_def debounce_fired_def cadence_refreshed_def throttle_fired_defs
      initial_fired_def periodic_fired_def suspension_answered_def canSync_answered_def flushed_def sync_returned_def cycle_rejected_def
      cycle_finished_def with_cycle_def orchestrated_disposed request_disposed Let_def after_suspension_check_def begin_flush_def
      end_adaptive_def settle_result_def schedulePeriodicSync_def split: option.split throttle_kind.split prod.split
      dest: arg_cong [where f = "disposed \<circ> fst"])

lemma created_inv: "0 \<le> t \<Longrightarrow> auto_inv t (createAutoSyncController options t)"
  by (auto simp: auto_inv_def agree_def retry_armed_def createAutoSyncController_def schedulePeriodicSync_def orchestrator_inv_def
      createSyncOrchestrator_def split: option.split)

lemma reaches_inv: "auto_reaches options es ns t s \<Longrightarrow> \<not> disposed s \<Longrightarrow> auto_inv t s"
proof (induction rule: auto_reaches.induct)
  case (created t)
  then show ?case by (simp add: created_inv)
next
  case (stepped es ns t s env e s' ns')
  have "e \<noteq> Dispose" using stepped by (auto simp: dispose_def)
  then have "\<not> disposed s" using disposed_step [of e options env s] stepped by simp
  then show ?case using auto_step_inv stepped \<open>e \<noteq> Dispose\<close> by blast
qed

section \<open>What the controller guarantees\<close>

text \<open>
  C15. As long as the controller is not disposed, at most one of its cycles is under way, whatever triggers, timers and
  answers come in whatever order: it is the one the orchestrator has in flight, so \<open>performSync\<close> is never
  called while another call of it is pending.
\<close>

theorem sync_calls_do_not_overlap:
  assumes "auto_reaches options es ns t s" "\<not> disposed s"
    and "auto_cycles s m = Some c" "stage c \<noteq> Ended" "auto_cycles s n = Some c'" "stage c' \<noteq> Ended"
  shows "m = n \<and> inFlight (orch s) = Some n"
  using inv_parts [OF reaches_inv [OF assms(1,2)] assms(3,4)] inv_parts [OF reaches_inv [OF assms(1,2)] assms(5,6)] by simp

text \<open>
  C12. A failed sync keeps its retry: in every reachable state before the cooldown is over, the throttle timer is set
  to the very end of the cooldown and belongs to the failure, through focus changes, edits, suspension of the
  runtime, manual runs and everything else short of a success or the disposal.
\<close>

theorem failed_sync_keeps_its_retry:
  assumes "auto_reaches options es ns t s" "\<not> disposed s" "t < autoSyncRetryAfter s"
  shows "syncThrottleTimer s = Some (FailureRetry, autoSyncRetryAfter s)"
  using reaches_inv [OF assms(1,2)] assms(3) by (simp add: auto_inv_def retry_armed_def)

text \<open>The conditions under which a cycle passes the gates of \<open>runCycle\<close>.\<close>

definition gates_open :: "AutoSyncControllerOptions \<Rightarrow> surroundings \<Rightarrow> AutoSyncRequest \<Rightarrow> auto_sync \<Rightarrow> bool" where
  "gates_open options env request s \<longleftrightarrow>
     runtimeActive env \<and> (bypassFailureCooldown request \<or> autoSyncRetryAfter s \<le> clock env)
   \<and> lastAutoSyncAt s + resolveEffectiveMinIntervalMs options env (requestedIntervalMs request) s \<le> clock env"

lemma gates_frame:
  "autoSyncRetryAfter s' = autoSyncRetryAfter s \<Longrightarrow> lastAutoSyncAt s' = lastAutoSyncAt s \<Longrightarrow> lastCycleDurationMs s' = lastCycleDurationMs s
   \<Longrightarrow> gates_open options env r s' = gates_open options env r s"
  by (simp add: gates_open_def resolveEffectiveMinIntervalMs_def Let_def split: option.split)

lemma resolve_cycles [simp]:
  "resolveEffectiveMinIntervalMs options env r (s\<lparr>auto_cycles := x\<rparr>) = resolveEffectiveMinIntervalMs options env r s"
  by (simp add: resolveEffectiveMinIntervalMs_def Let_def split: option.split)

lemma begin_cycle_gates:
  "begin_cycle options env n request s = (s', ns) \<Longrightarrow> CycleBegan m r \<in> set ns \<Longrightarrow> m = n \<and> r = request \<and> gates_open options env r s"
  by (auto simp: begin_cycle_def Let_def gates_open_def shouldRunAutoSyncNow_def split: if_splits)

lemma one_start:
  "orchestrator_run a p = (p', ns) \<Longrightarrow> cycles_started ns = [] \<or> (\<exists>m b. cycles_started ns = [(m, b)])"
  "cycle_settled None n d p = (p', ns) \<Longrightarrow> cycles_started ns = [] \<or> (\<exists>m b. cycles_started ns = [(m, b)])"
  by (auto simp: orchestrator_defs split: if_splits option.splits)

lemma orchestrated_gates:
  assumes "\<And>p' os. f (orch s) = (p', os) \<Longrightarrow> cycles_started os = [] \<or> (\<exists>m b. cycles_started os = [(m, b)])"
    and "orchestrated options env f s = (s', ns)" "CycleBegan m r \<in> set ns"
  shows "gates_open options env r s"
proof -
  obtain p' os where f: "f (orch s) = (p', os)" by fastforce
  with assms obtain n b where "begin_cycle options env n b (s\<lparr>orch := p'\<rparr>) = (s', ns)"
    by (fastforce simp: orchestrated_def split: prod.splits)
  from begin_cycle_gates [OF this assms(3)] show ?thesis by (auto simp: gates_frame [of "s\<lparr>orch := p'\<rparr>" s])
qed

lemma request_gates:
  assumes "requestAutoSync options env m src internal s = (s', ns)" "CycleBegan k r \<in> set ns"
  shows "gates_open options env r s"
proof -
  define s1 where "s1 = (if runtimeSuspended env \<and> inFlight (orch s) \<noteq> None then s\<lparr>requestedWhileSuspended := True\<rparr> else s)"
  have "\<exists>req. orchestrated options env (orchestrator_run req) s1 = (s', ns)"
    using assms unfolding requestAutoSync_def Let_def s1_def [symmetric]
    by (auto simp: shouldRunAutoSyncNow_def split: if_splits)
  then have "gates_open options env r s1" using orchestrated_gates one_start(1) assms(2) by metis
  then show ?thesis using gates_frame [of s1 s] by (auto simp: s1_def split: if_splits)
qed

text \<open>
  Whatever event a controller handles, in whatever state: a cycle that gets past its gates in that step does so with
  the runtime active, after the failure cooldown unless the request is a manual one, and no earlier than the
  effective interval after the last sync.
\<close>

theorem cycles_wait_for_their_gates:
  assumes "auto_step options env e s = (s', ns)" "CycleBegan n r \<in> set ns"
  shows "gates_open options env r s"
proof (cases e)
  case (RequestSync m)
  then show ?thesis using assms orchestrated_gates [OF one_start(1)] by (fastforce simp: requestSync_def split: if_splits)
next
  case Focus
  then have "gates_open options env r (s\<lparr>lastFocusTriggerAt := clock env\<rparr>)"
    using assms request_gates by (fastforce simp: handleFocus_def split: if_splits)
  then show ?thesis by (simp add: gates_frame [of "s\<lparr>lastFocusTriggerAt := clock env\<rparr>" s])
next
  case DebounceFired
  then obtain x where "gates_open options env r (s\<lparr>syncDebounceTimer := x\<rparr>)"
    using assms request_gates by (fastforce simp: debounce_fired_def Let_def split: if_splits)
  then show ?thesis by (simp add: gates_frame [of "s\<lparr>syncDebounceTimer := x\<rparr>" s])
next
  case (CadenceRefreshed b)
  then have "gates_open options env r (s\<lparr>refreshes := refreshes s - 1\<rparr>)"
    using assms request_gates by (fastforce simp: cadence_refreshed_def Let_def split: if_splits)
  then show ?thesis using gates_frame [of "s\<lparr>refreshes := refreshes s - 1\<rparr>" s options env r] by simp
next
  case ThrottleFired
  then have "gates_open options env r (s\<lparr>syncThrottleTimer := None\<rparr>)"
    using assms request_gates by (fastforce simp: throttle_fired_defs Let_def split: if_splits option.splits throttle_kind.splits prod.splits)
  then show ?thesis by (simp add: gates_frame [of "s\<lparr>syncThrottleTimer := None\<rparr>" s])
next
  case InitialFired
  then have "gates_open options env r (s\<lparr>initialSyncTimer := None\<rparr>)"
    using assms request_gates by (fastforce simp: initial_fired_def Let_def split: if_splits)
  then show ?thesis by (simp add: gates_frame [of "s\<lparr>initialSyncTimer := None\<rparr>" s])
next
  case PeriodicFired
  then have "gates_open options env r (s\<lparr>periodicSyncTimer := None\<rparr>)"
    using assms request_gates by (fastforce simp: periodic_fired_def Let_def split: if_splits prod.splits)
  then show ?thesis by (simp add: gates_frame [of "s\<lparr>periodicSyncTimer := None\<rparr>" s])
next
  case (CycleFinished k)
  then show ?thesis using assms orchestrated_gates [OF one_start(2)] by (fastforce simp: cycle_finished_def)
qed (use assms request_gates in \<open>fastforce simp: handleBlur_def handleDataChange_def scheduleInitialSync_def handleSuspend_def
      notifyExternalSyncSuccess_def takePendingSuspendedRequest_def suspension_answered_def canSync_answered_def flushed_def
      sync_returned_def cycle_rejected_def with_cycle_def failure_notice_def dispose_def Let_def split: if_splits option.splits\<close>)+

text \<open>The events of a retry: the timer, the suspension check, the platform's answer and the flush.\<close>

definition retry_events :: "AutoSyncControllerOptions \<Rightarrow> surroundings \<Rightarrow> nat \<Rightarrow> (surroundings \<times> auto_event) list" where
  "retry_events options env n =
     [(env, ThrottleFired), (env, SuspensionAnswered n None)]
   @ (if asksCanSync options then [(env, CanSyncAnswered n True)] else []) @ [(env, Flushed n)]"

lemma resolve_zero: "resolveEffectiveMinIntervalMs options env (Some 0) s = 0"
  by (simp add: resolveEffectiveMinIntervalMs_def or_default_def split: option.split)

lemma retry_starts:
  assumes "auto_inv t s" "t \<le> clock env" "syncThrottleTimer s = Some (FailureRetry, due)" "due \<le> clock env"
    and "runtimeActive env" "inFlight (orch s) = None" "\<not> disposed s"
  obtains s1 r c where "auto_step options env ThrottleFired s = (s1, [CycleBegan (length (cycle_args (orch s))) r])"
    "request_source r = ''failure-cooldown''" "auto_cycles s1 (length (cycle_args (orch s))) = Some c" "stage c = AwaitSuspension"
proof -
  have gate: "autoSyncRetryAfter s \<le> clock env" "lastAutoSyncAt s \<le> clock env"
    using assms(1-4) by (force simp: auto_inv_def retry_armed_def)+
  define r where "r = \<lparr>requestedIntervalMs = Some 0, request_source = ''failure-cooldown'', bypassFailureCooldown = False\<rparr>"
  define n where "n = length (cycle_args (orch s))"
  obtain p' os where p': "orchestrator_run r (orch s) = (p', os)" by fastforce
  have "well_ordered (orch s)" using assms(1) by (simp add: auto_inv_def agree_def well_ordered_def)
  then have os: "cycles_started os = [(n, r)]"
    using p' assms(6) by (cases rule: orchestrator_run_effect) (auto simp: n_def)
  have "auto_step options env ThrottleFired s = begin_cycle options env n r (s\<lparr>syncThrottleTimer := None, orch := p'\<rparr>)"
    using assms(3,5-7) gate p' os
    by (simp add: throttle_fired_defs Let_def requestAutoSync_def shouldRunAutoSyncNow_def orchestrated_def r_def [symmetric] split: prod.split)
  moreover have "\<exists>s1 c. begin_cycle options env n r (s\<lparr>syncThrottleTimer := None, orch := p'\<rparr>) = (s1, [CycleBegan n r])
      \<and> auto_cycles s1 n = Some c \<and> stage c = AwaitSuspension"
    using gate assms(5) by (auto simp: begin_cycle_def Let_def shouldRunAutoSyncNow_def r_def resolve_zero set_stage_def)
  ultimately show thesis using that by (auto simp: n_def r_def)
qed

lemma reaches_step:
  "auto_reaches options es ns t s \<Longrightarrow> t \<le> clock env \<Longrightarrow> auto_possible env e s
   \<Longrightarrow> auto_reaches options (es @ [(env, e)]) (ns @ snd (auto_step options env e s)) (clock env) (fst (auto_step options env e s))"
  by (rule auto_reaches.stepped) auto

lemma retry_performs:
  assumes reach: "auto_reaches options es ns t s" and "\<not> disposed s" "t \<le> clock env"
    and timer: "syncThrottleTimer s = Some (FailureRetry, due)" "due \<le> clock env"
    and env: "runtimeActive env" "inFlight (orch s) = None"
  shows "\<exists>s' r. auto_reaches options (es @ retry_events options env (length (cycle_args (orch s))))
      (ns @ [CycleBegan (length (cycle_args (orch s))) r, PerformSync (length (cycle_args (orch s)))]) (clock env) s'"
proof -
  define n where "n = length (cycle_args (orch s))"
  obtain s1 r c where s1: "auto_step options env ThrottleFired s = (s1, [CycleBegan n r])"
    "auto_cycles s1 n = Some c" "stage c = AwaitSuspension"
    using retry_starts [OF reaches_inv [OF reach assms(2)] assms(3) timer env assms(2)] by (metis n_def)
  have reach1: "auto_reaches options (es @ [(env, ThrottleFired)]) (ns @ [CycleBegan n r]) (clock env) s1"
    using reaches_step [OF reach assms(3), of ThrottleFired] timer s1(1) by simp
  define s2 where "s2 = after_suspension_check options n c s1"
  have step2: "auto_step options env (SuspensionAnswered n None) s1 = (s2, [])"
    using s1 by (simp add: suspension_answered_def with_cycle_def s2_def)
  have reach2: "auto_reaches options (es @ [(env, ThrottleFired), (env, SuspensionAnswered n None)]) (ns @ [CycleBegan n r]) (clock env) s2"
    using reaches_step [OF reach1 order_refl, of "SuspensionAnswered n None"] s1 step2 by (simp add: at_stage_def)
  define s3 where "s3 = begin_flush n (if asksCanSync options then c\<lparr>stage := AwaitCanSync\<rparr> else c) (if asksCanSync options then s2 else s1)"
  have reach3: "auto_reaches options (es @ [(env, ThrottleFired), (env, SuspensionAnswered n None)]
      @ (if asksCanSync options then [(env, CanSyncAnswered n True)] else [])) (ns @ [CycleBegan n r]) (clock env) s3"
  proof (cases "asksCanSync options")
    case True
    have "auto_cycles s2 n = Some (c\<lparr>stage := AwaitCanSync\<rparr>)" using True s1 by (simp add: s2_def after_suspension_check_def set_stage_def)
    then show ?thesis
      using reaches_step [OF reach2 order_refl, of "CanSyncAnswered n True"] True
      by (simp add: at_stage_def canSync_answered_def with_cycle_def s3_def)
  next
    case False
    then show ?thesis using reach2 by (simp add: s3_def s2_def after_suspension_check_def)
  qed
  have "\<exists>c'. auto_cycles s3 n = Some c' \<and> stage c' = AwaitFlush"
    using s1 by (auto simp: s3_def s2_def begin_flush_def set_stage_def after_suspension_check_def)
  then have "auto_reaches options (es @ retry_events options env n) (ns @ [CycleBegan n r, PerformSync n]) (clock env) (set_stage n AwaitSync s3)"
    using reaches_step [OF reach3 order_refl, of "Flushed n"] by (auto simp: at_stage_def flushed_def with_cycle_def retry_events_def)
  then show ?thesis unfolding n_def by blast
qed

text \<open>
  C14. A failed sync is tried again: when the retry timer of a reachable controller is due, the runtime is active and no
  cycle is in flight, firing it starts a cycle, and when the platform then lets it through, four steps in
  all lead to the next call of \<open>performSync\<close>.
\<close>

theorem failed_sync_is_tried_again:
  assumes "auto_reaches options es ns t s" and "\<not> disposed s" "t \<le> clock env"
    and "syncThrottleTimer s = Some (FailureRetry, due)" "due \<le> clock env"
    and "runtimeActive env" "inFlight (orch s) = None"
  shows "\<exists>s' r. auto_reaches options (es @ retry_events options env (length (cycle_args (orch s))))
      (ns @ [CycleBegan (length (cycle_args (orch s))) r, PerformSync (length (cycle_args (orch s)))]) (clock env) s'"
  by (rule retry_performs [OF assms])

section \<open>A run\<close>

definition plain_options :: AutoSyncControllerOptions where
  "plain_options = \<lparr>asksCanSync = False, focusMinIntervalMs = None, autoFailureCooldownMs = None, maxFailureCooldownMs = None,
     initialSyncDelayMs = None, periodicSyncIntervalMs = JNull, refreshesCadence = False, adaptivePacing = None,
     continuousDebounceUntilSuspend = False, skipRetryWhileCycleRunning = False, isIgnorableFailure = \<lambda>_. False\<rparr>"

definition plain_env :: "rat \<Rightarrow> surroundings" where
  "plain_env now = \<lparr>clock = now, runtimeActive = True, runtimeSuspended = False, windowPaused = False, localChangesPending = True,
     worthSyncing = True, cadence = \<lparr>minIntervalMs = 5000, debounceFirstChangeMs = 2000, debounceContinuousChangeMs = 5000\<rparr>\<rparr>"

definition manual_request :: AutoSyncRequest where
  "manual_request = \<lparr>requestedIntervalMs = None, request_source = ''manual'', bypassFailureCooldown = True\<rparr>"

definition run_cycle :: "cycle_stage \<Rightarrow> nat \<Rightarrow> auto_cycle option" where
  "run_cycle st = (\<lambda>_. None)(0 \<mapsto> \<lparr>stage = st, auto_request = manual_request, nowMs = 10000, cycleStartedSuspended = False\<rparr>)"

definition run_orchestrator :: "bool \<Rightarrow> AutoSyncRequest orchestrator" where
  "run_orchestrator busy = \<lparr>inFlight = (if busy then Some 0 else None), queued = False, queuedArg = None, followUpTimer = None,
     minimumFollowUpDelayMs = 0, cycle_args = [manual_request]\<rparr>"

definition run_state :: "bool \<Rightarrow> cycle_stage \<Rightarrow> (throttle_kind \<times> rat) option \<Rightarrow> rat \<Rightarrow> nat \<Rightarrow> auto_sync" where
  "run_state busy st throttle retryAfter failures =
     \<lparr>orch = run_orchestrator busy, lastAutoSyncAt = 10000, lastCycleDurationMs = 0, syncDebounceTimer = None,
      syncThrottleTimer = throttle, initialSyncTimer = None, periodicSyncTimer = None, autoSyncRetryAfter = retryAfter,
      consecutiveAutoSyncFailures = failures, lastFocusTriggerAt = 0, requestedWhileSuspended = False, disposed = False,
      auto_cycles = run_cycle st, refreshes = 0\<rparr>"

lemma first_cooldown: "resolveSyncFailureCooldownMs (OtherValue (JStr ''e'')) 1 60000 (10 * 60000) = 60000"
  by code_simp

lemma run_steps:
  "auto_step plain_options (plain_env 10000) (RequestSync None) (createAutoSyncController plain_options 0)
     = (run_state True AwaitFlush None 0 0, [CycleBegan 0 manual_request])"
  "auto_step plain_options (plain_env 10000) (Flushed 0) (run_state True AwaitFlush None 0 0) = (run_state True AwaitSync None 0 0, [PerformSync 0])"
  "auto_step plain_options (plain_env 10000) (SyncReturned 0 \<lparr>result_success = False, result_error = Some ''e''\<rparr>) (run_state True AwaitSync None 0 0)
     = (run_state True Ended (Some (FailureRetry, 70000)) 70000 1, [SyncFailure ''e''])"
  "auto_step plain_options (plain_env 10000) (CycleFinished 0) (run_state True Ended (Some (FailureRetry, 70000)) 70000 1)
     = (run_state False Ended (Some (FailureRetry, 70000)) 70000 1, [])"
proof -
  show "auto_step plain_options (plain_env 10000) (RequestSync None) (createAutoSyncController plain_options 0)
     = (run_state True AwaitFlush None 0 0, [CycleBegan 0 manual_request])"
    by (simp add: requestSync_def plain_env_def orchestrated_def orchestrator_defs createAutoSyncController_def schedulePeriodicSync_def
        periodic_interval_def plain_options_def createSyncOrchestrator_def begin_cycle_def resolveEffectiveMinIntervalMs_def or_default_def
        after_suspension_check_def begin_flush_def set_stage_def run_state_def run_orchestrator_def run_cycle_def manual_request_def)
  show "auto_step plain_options (plain_env 10000) (Flushed 0) (run_state True AwaitFlush None 0 0) = (run_state True AwaitSync None 0 0, [PerformSync 0])"
    by (simp add: flushed_def with_cycle_def run_state_def run_cycle_def set_stage_def)
  show "auto_step plain_options (plain_env 10000) (SyncReturned 0 \<lparr>result_success = False, result_error = Some ''e''\<rparr>) (run_state True AwaitSync None 0 0)
     = (run_state True Ended (Some (FailureRetry, 70000)) 70000 1, [SyncFailure ''e''])"
    using first_cooldown
    by (simp add: sync_returned_def with_cycle_def run_state_def run_cycle_def set_stage_def end_adaptive_def plain_options_def settle_result_def
        failure_notice_def scheduleAutoRetryAfterCooldown_def plain_env_def failure_cooldown_def max_failure_cooldown_def or_default_def Let_def)
  show "auto_step plain_options (plain_env 10000) (CycleFinished 0) (run_state True Ended (Some (FailureRetry, 70000)) 70000 1)
     = (run_state False Ended (Some (FailureRetry, 70000)) 70000 1, [])"
    by (simp add: cycle_finished_def orchestrated_def orchestrator_defs run_state_def run_orchestrator_def)
qed

lemma run_reaches:
  "auto_reaches plain_options [(plain_env 10000, RequestSync None)] [CycleBegan 0 manual_request] 10000 (run_state True AwaitFlush None 0 0)"
  "\<exists>es ns. auto_reaches plain_options es ns 10000 (run_state True Ended (Some (FailureRetry, 70000)) 70000 1)"
  "\<exists>es ns. auto_reaches plain_options es ns 10000 (run_state False Ended (Some (FailureRetry, 70000)) 70000 1)"
proof -
  note step = auto_reaches.stepped [where env = "plain_env 10000"]
  have at: "at_stage 0 st (run_state busy st throttle retry k)" for busy st throttle retry k
    by (simp add: at_stage_def run_state_def run_cycle_def)
  have now: "clock (plain_env 10000) = 10000" by (simp add: plain_env_def)
  have start: "auto_reaches plain_options [] [] 0 (createAutoSyncController plain_options 0)" by (rule auto_reaches.created) simp
  show one: "auto_reaches plain_options [(plain_env 10000, RequestSync None)] [CycleBegan 0 manual_request] 10000 (run_state True AwaitFlush None 0 0)"
    using step [OF start _ _ run_steps(1)] by (simp add: now)
  obtain es ns where "auto_reaches plain_options es ns 10000 (run_state True AwaitSync None 0 0)"
    using step [OF one _ _ run_steps(2)] by (auto simp: now at)
  from step [OF this _ _ run_steps(3)] show three: "\<exists>es ns. auto_reaches plain_options es ns 10000 (run_state True Ended (Some (FailureRetry, 70000)) 70000 1)"
    by (auto simp: now at)
  then obtain es ns where "auto_reaches plain_options es ns 10000 (run_state True Ended (Some (FailureRetry, 70000)) 70000 1)" by blast
  from step [OF this _ _ run_steps(4)] show "\<exists>es ns. auto_reaches plain_options es ns 10000 (run_state False Ended (Some (FailureRetry, 70000)) 70000 1)"
    by (auto simp: now at)
qed

theorem sync_calls_do_not_overlap_witness:
  "at_stage 0 AwaitFlush (run_state True AwaitFlush None 0 0) \<and> inFlight (orch (run_state True AwaitFlush None 0 0)) = Some 0"
  using sync_calls_do_not_overlap [OF run_reaches(1), of 0 _ 0]
  by (auto simp: at_stage_def run_state_def run_cycle_def)

theorem failed_sync_keeps_its_retry_witness:
  "autoSyncRetryAfter (run_state True Ended (Some (FailureRetry, 70000)) 70000 1) = 70000
 \<and> syncThrottleTimer (run_state True Ended (Some (FailureRetry, 70000)) 70000 1) = Some (FailureRetry, 70000)"
proof -
  obtain es ns where "auto_reaches plain_options es ns 10000 (run_state True Ended (Some (FailureRetry, 70000)) 70000 1)"
    using run_reaches(2) by blast
  from failed_sync_keeps_its_retry [OF this] show ?thesis by (simp add: run_state_def)
qed

theorem cycles_wait_for_their_gates_witness:
  "gates_open plain_options (plain_env 10000) manual_request (createAutoSyncController plain_options 0)"
  by (rule cycles_wait_for_their_gates [OF run_steps(1)]) simp

theorem failed_sync_is_tried_again_witness:
  "\<exists>es ns s' r. auto_reaches plain_options (es @ retry_events plain_options (plain_env 70000) 1)
      (ns @ [CycleBegan 1 r, PerformSync 1]) 70000 s'"
proof -
  obtain es ns where "auto_reaches plain_options es ns 10000 (run_state False Ended (Some (FailureRetry, 70000)) 70000 1)"
    using run_reaches(3) by blast
  from failed_sync_is_tried_again [OF this, of "plain_env 70000" 70000] show ?thesis
    by (auto simp: run_state_def plain_env_def run_orchestrator_def)
qed

end
