(* ===== verification/Attachment_Cleanup.thy ===== *)
theory Attachment_Cleanup
  imports Sync_Tombstones Sync_Backoff Sync_Repair
begin

text \<open>
  Removal of attachment files nobody needs any more (\<^verbatim>\<open>packages/core/src/attachment-cleanup.ts\<close>, with
  the pending deletes of \<^verbatim>\<open>attachment-transfer.ts\<close> and the generation keys of \<^verbatim>\<open>attachment-paths.ts\<close>).
  The callbacks of a run are functions on a world of type \<open>'w\<close> that may throw; every call and every
  notification is recorded, and a run that throws still has the record of what it did before. Attachment
  lists are arrays or absent, as the types say.
\<close>

section \<open>Which attachments are left over\<close>

definition entry_of :: "js \<Rightarrow> js \<times> js" where
  "entry_of a = (get a ''id'', a)"

definition owner_attachments :: "entity \<Rightarrow> js list" where
  "owner_attachments e = elems (get e ''attachments'')"

definition purged :: "entity \<Rightarrow> bool" where
  "purged e \<longleftrightarrow> truthy (get e ''purgedAt'')"

definition document_attachments :: "AppData \<Rightarrow> js list" where
  "document_attachments d = concat (map owner_attachments (tasks d @ projects d))"

text \<open>The attachments in use: not deleted, and neither is their task or project purged.\<close>

definition live_attachments :: "AppData \<Rightarrow> js list" where
  "live_attachments d =
     filter (\<lambda>a. \<not> truthy (get a ''deletedAt'')) (concat (map owner_attachments (filter (\<lambda>e. \<not> purged e) (tasks d @ projects d))))"

definition findOrphanedAttachments :: "AppData \<Rightarrow> js list" where
  "findOrphanedAttachments d =
     (let activeReferenceIds = ids (live_attachments d)
      in filter (\<lambda>a. get a ''id'' \<notin> set activeReferenceIds) (map snd (js_map (map entry_of (document_attachments d)))))"

definition findPurgedParentAttachmentIds :: "AppData \<Rightarrow> js list" where
  "findPurgedParentAttachmentIds d = ids (concat (map owner_attachments (filter purged (tasks d @ projects d))))"

definition findDeletedAttachmentsForFileCleanup :: "AppData \<Rightarrow> js list" where
  "findDeletedAttachmentsForFileCleanup d =
     map snd (js_map (map entry_of (filter (\<lambda>a. truthy (get a ''deletedAt'')) (document_attachments d))))"

section \<open>Pending remote deletes\<close>

definition attempts_of :: "js \<Rightarrow> int" where
  "attempts_of v = (case v of JNum q \<Rightarrow> max 0 \<lfloor>q\<rfloor> | _ \<Rightarrow> 0)"

definition str_only :: "js \<Rightarrow> js" where
  "str_only v = (if is_str v then v else JUndef)"

definition pending_entry :: "string \<Rightarrow> js \<Rightarrow> js" where
  "pending_entry cloudKey item = JObj
     [(''cloudKey'', JStr cloudKey), (''title'', str_only (get item ''title'')),
      (''attempts'', JNum (of_int (attempts_of (get item ''attempts'')))), (''lastErrorAt'', str_only (get item ''lastErrorAt''))]"

definition add_pending :: "(string \<times> js) list \<Rightarrow> js \<Rightarrow> (string \<times> js) list" where
  "add_pending deduped item =
     (let cloudKey = trim_str (the_str (get item ''cloudKey'')); new = pending_entry cloudKey item
      in if \<not> is_obj item \<or> cloudKey = [] then deduped
         else (case map_of deduped cloudKey of
                 None \<Rightarrow> AList.update cloudKey new deduped
               | Some existing \<Rightarrow>
                   if attempts_of (get existing ''attempts'') \<le> attempts_of (get new ''attempts'')
                   then AList.update cloudKey new deduped else deduped))"

definition normalizePendingRemoteDeletes :: "js \<Rightarrow> js list" where
  "normalizePendingRemoteDeletes v = map snd (foldl add_pending [] (elems v))"

definition lower_hex :: "char \<Rightarrow> bool" where
  "lower_hex c \<longleftrightarrow> js_digit c \<or> c \<in> set ''abcdef''"

definition lower_alnum :: "char \<Rightarrow> bool" where
  "lower_alnum c \<longleftrightarrow> js_digit c \<or> c \<in> set ''abcdefghijklmnopqrstuvwxyz''"

text \<open>
  The pattern of a generation key: a name without slashes, a dot, 64 hexadecimal digits, and perhaps an
  extension of at most eight characters. The name is never empty, and it may contain dots.
\<close>

definition digest_suffix :: "string \<Rightarrow> bool" where
  "digest_suffix s \<longleftrightarrow>
     66 \<le> length s \<and> CHR 0x2F \<notin> set (take (length s - 65) s) \<and> s ! (length s - 65) = CHR ''.''
   \<and> list_all lower_hex (drop (length s - 64) s)"

definition isFileSyncGenerationCloudKey :: "js \<Rightarrow> bool" where
  "isFileSyncGenerationCloudKey v =
     (case v of
        JStr s \<Rightarrow> starts_with s ''attachments/'' \<and>
          (let body = drop 12 s; ext = takeWhile lower_alnum (rev body); rest = dropWhile lower_alnum (rev body)
           in digest_suffix body
            \<or> (1 \<le> length ext \<and> length ext \<le> 8 \<and> starts_with rest ''.'' \<and> digest_suffix (rev (tl rest))))
      | _ \<Rightarrow> False)"

section \<open>Resources still in use\<close>

definition drive_path :: "string \<Rightarrow> bool" where
  "drive_path s \<longleftrightarrow> 3 \<le> length s \<and> alpha_char (s ! 0) \<and> s ! 1 = CHR '':'' \<and> s ! 2 = CHR 0x2F"

definition normalizeAttachmentCleanupUri :: "js \<Rightarrow> js" where
  "normalizeAttachmentCleanupUri v =
     (case v of
        JStr uri \<Rightarrow>
          if uri = [] then JUndef
          else if starts_with (lower uri) ''http://'' \<or> starts_with (lower uri) ''https://'' \<or> starts_with uri ''content://'' then JUndef
          else (let stripped = (if starts_with (lower uri) ''file://'' then drop 7 uri else uri);
                    slashed = List.map (\<lambda>c. if c = CHR 0x5C then CHR 0x2F else c) stripped;
                    rooted = (if starts_with slashed [CHR 0x2F] \<and> drive_path (tl slashed) then tl slashed else slashed);
                    path = (case decodeURIComponent rooted of Some decoded \<Rightarrow> decoded | None \<Rightarrow> rooted)
                in JStr (if drive_path path then lower path else path))
      | _ \<Rightarrow> JUndef)"

record resource_references =
  localUris :: "js list"
  cloudKeys :: "js list"

definition findLiveAttachmentResourceReferences :: "host \<Rightarrow> AppData \<Rightarrow> resource_references" where
  "findLiveAttachmentResourceReferences h d =
     \<lparr>localUris = filter truthy (map (\<lambda>a. normalizeAttachmentCleanupUri (get a ''uri'')) (live_attachments d)),
      cloudKeys = filter truthy (map (\<lambda>a. sanitizeAttachmentCloudKeyForSyncMerge h (get a ''cloudKey'')) (live_attachments d))\<rparr>"

definition isAttachmentLocalResourceReferenced :: "js \<Rightarrow> resource_references \<Rightarrow> bool" where
  "isAttachmentLocalResourceReferenced attachment refs \<longleftrightarrow>
     (let localUri = normalizeAttachmentCleanupUri (get attachment ''uri'')
      in truthy localUri \<and> localUri \<in> set (localUris refs))"

definition isAttachmentCloudResourceReferenced :: "js \<Rightarrow> resource_references \<Rightarrow> bool" where
  "isAttachmentCloudResourceReferenced cloudKey refs \<longleftrightarrow> truthy cloudKey \<and> cloudKey \<in> set (cloudKeys refs)"

section \<open>Work that does not wait\<close>

definition fresh_attachment :: "host \<Rightarrow> js list \<Rightarrow> js \<Rightarrow> bool" where
  "fresh_attachment h pendingCloudKeys a =
     (if \<not> truthy (get a ''deletedAt'') then False
      else if get a ''kind'' = JStr ''file'' \<and> get a ''localStatus'' \<noteq> JStr ''missing'' then True
      else (let cloudKey = sanitizeAttachmentCloudKeyForSyncMerge h (get a ''cloudKey'')
            in truthy cloudKey \<and> cloudKey \<notin> set pendingCloudKeys))"

definition owner_has_work :: "host \<Rightarrow> js list \<Rightarrow> entity \<Rightarrow> bool" where
  "owner_has_work h pendingCloudKeys e =
     (if owner_attachments e = [] then False
      else if purged e then True
      else list_ex (fresh_attachment h pendingCloudKeys) (owner_attachments e))"

definition pending_deletes :: "AppData \<Rightarrow> js list" where
  "pending_deletes d = normalizePendingRemoteDeletes (get (get (settings d) ''attachments'') ''pendingRemoteDeletes'')"

definition hasFreshAttachmentCleanupWork :: "host \<Rightarrow> AppData \<Rightarrow> bool" where
  "hasFreshAttachmentCleanupWork h d =
     (let pendingRemoteDeletes = pending_deletes d;
          pendingCloudKeys = map (\<lambda>entry. get entry ''cloudKey'') pendingRemoteDeletes
      in if list_ex (\<lambda>entry. isFileSyncGenerationCloudKey (get entry ''cloudKey'') \<and> attempts_of (get entry ''attempts'') = 0)
              pendingRemoteDeletes then True
         else list_ex (owner_has_work h pendingCloudKeys) (tasks d) \<or> list_ex (owner_has_work h pendingCloudKeys) (projects d))"

section \<open>Writing the result down\<close>

definition mark_processed :: "host \<Rightarrow> js list \<Rightarrow> js list \<Rightarrow> js \<Rightarrow> js \<Rightarrow> js" where
  "mark_processed h processedFileTombstoneIds clearedCloudKeys lastCleanupAt attachment =
     (let marked = (if get attachment ''id'' \<in> set processedFileTombstoneIds \<and> get attachment ''localStatus'' \<noteq> JStr ''missing''
            then put attachment ''localStatus'' (JStr ''missing'') else attachment);
          cloudKey = sanitizeAttachmentCloudKeyForSyncMerge h (get marked ''cloudKey'')
      in if truthy (get marked ''deletedAt'') \<and> truthy cloudKey \<and> cloudKey \<in> set clearedCloudKeys
         then puts marked [(''cloudKey'', JUndef), (''updatedAt'', lastCleanupAt)]
         else marked)"

record cleanup_changes =
  lastCleanupAt :: js
  pendingRemoteDeletes :: "js list"
  removableAttachmentIds :: "js list"
  fileTombstoneIds :: "js list"
  clearedKeys :: "js list"

definition clean_owner :: "host \<Rightarrow> cleanup_changes \<Rightarrow> entity \<Rightarrow> entity" where
  "clean_owner h c e =
     put e ''attachments''
       (case get e ''attachments'' of
          JArr attachments \<Rightarrow>
            JArr (map (mark_processed h (fileTombstoneIds c) (clearedKeys c) (lastCleanupAt c))
              (filter (\<lambda>a. get a ''id'' \<notin> set (removableAttachmentIds c)) attachments))
        | _ \<Rightarrow> JUndef)"

definition applyAttachmentCleanupResult :: "host \<Rightarrow> AppData \<Rightarrow> cleanup_changes \<Rightarrow> AppData" where
  "applyAttachmentCleanupResult h d c =
     (let cleaned = (if removableAttachmentIds c \<noteq> [] \<or> fileTombstoneIds c \<noteq> [] \<or> clearedKeys c \<noteq> []
            then d\<lparr>tasks := map (clean_owner h c) (tasks d), projects := map (clean_owner h c) (projects d)\<rparr> else d);
          pending = prunePendingRemoteAttachmentDeletes h (JArr (pendingRemoteDeletes c)) (lastCleanupAt c)
      in cleaned\<lparr>settings := put (settings cleaned) ''attachments''
           (puts (spread (get (settings cleaned) ''attachments''))
             [(''lastCleanupAt'', lastCleanupAt c),
              (''pendingRemoteDeletes'', if pending = [] then JUndef else JArr pending)])\<rparr>)"

section \<open>The lifecycle\<close>

record remote_target =
  target_key :: js
  target_title :: js

datatype cleanup_call =
    LocalDelete js
  | RemoteDelete remote_target
  | RemoteMissing remote_target
  | RemoteDeleteError remote_target thrown
  | BatchLimitReached nat nat

type_synonym 'w callback = "'w \<Rightarrow> (thrown + unit) \<times> 'w"

record 'w cleanup_options =
  deleteLocalAttachment :: "js \<Rightarrow> 'w callback"
  deleteRemoteAttachment :: "(remote_target \<Rightarrow> 'w callback) option"
  resolveRemoteDeleteAttachment :: "'w \<Rightarrow> (thrown + (remote_target \<Rightarrow> 'w callback) option) \<times> 'w"
  shouldRetainRemoteAttachment :: "remote_target \<Rightarrow> bool"
  cleanup_now :: js
  maxAttachmentTargets :: js
  beforeEachAttachment :: "'w callback"
  beforeEachRemoteDelete :: "'w callback"
  isRemoteMissingError :: "thrown \<Rightarrow> bool"

text \<open>The limit: \<open>None\<close> is infinity.\<close>

definition target_limit :: "js \<Rightarrow> nat option" where
  "target_limit v = (case v of JNum q \<Rightarrow> Some (nat (max 0 \<lfloor>q\<rfloor>)) | _ \<Rightarrow> None)"

definition limit_reached :: "nat option \<Rightarrow> nat \<Rightarrow> bool" where
  "limit_reached limit n \<longleftrightarrow> (case limit of None \<Rightarrow> False | Some k \<Rightarrow> k \<le> n)"

definition over_limit :: "nat option \<Rightarrow> nat \<Rightarrow> bool" where
  "over_limit limit n \<longleftrightarrow> (case limit of None \<Rightarrow> False | Some k \<Rightarrow> k < n)"

text \<open>What the loops read, and what they change.\<close>

record cleanup_input =
  orphanedIds :: "js list"
  purgedParentIds :: "js list"
  liveReferences :: resource_references
  previousPendingByCloudKey :: "(js \<times> js) list"

record 'w cleanup_state =
  outer_world :: 'w
  calls :: "cleanup_call list"
  processedOrphanedIds :: "js list"
  processedFileTombstoneIds :: "js list"
  clearedCloudKeys :: "js list"
  remoteCleanupTargets :: "(js \<times> remote_target) list"
  nextPendingByCloudKey :: "(js \<times> js) list"

definition invoke :: "'w callback \<Rightarrow> 'w cleanup_state \<Rightarrow> thrown option \<times> 'w cleanup_state" where
  "invoke f s =
     (case f (outer_world s) of
        (Inl e, w) \<Rightarrow> (Some e, s\<lparr>outer_world := w\<rparr>)
      | (Inr u, w) \<Rightarrow> (None, s\<lparr>outer_world := w\<rparr>))"

definition announce :: "cleanup_call \<Rightarrow> 'w cleanup_state \<Rightarrow> 'w cleanup_state" where
  "announce c s = s\<lparr>calls := calls s @ [c]\<rparr>"

definition isLocalSyncAbort :: "thrown \<Rightarrow> bool" where
  "isLocalSyncAbort e = (case e of ErrorObject own _ \<Rightarrow> get own ''name'' = JStr ''LocalSyncAbort'' | OtherValue _ \<Rightarrow> False)"

definition add_remote_target :: "js \<Rightarrow> js \<Rightarrow> 'w cleanup_state \<Rightarrow> 'w cleanup_state" where
  "add_remote_target cloudKey name s =
     s\<lparr>remoteCleanupTargets := AList.update cloudKey \<lparr>target_key = cloudKey, target_title = or_else name cloudKey\<rparr>
         (remoteCleanupTargets s)\<rparr>"

definition clear_key :: "js \<Rightarrow> 'w cleanup_state \<Rightarrow> 'w cleanup_state" where
  "clear_key cloudKey s = s\<lparr>clearedCloudKeys := clearedCloudKeys s @ [cloudKey]\<rparr>"

definition count_processed :: "host \<Rightarrow> cleanup_input \<Rightarrow> js \<Rightarrow> 'w cleanup_state \<Rightarrow> 'w cleanup_state" where
  "count_processed h inp attachment s =
     (let s1 = (if get attachment ''kind'' = JStr ''file'' \<and> get attachment ''id'' \<notin> set (purgedParentIds inp)
            then s\<lparr>processedFileTombstoneIds := processedFileTombstoneIds s @ [get attachment ''id'']\<rparr> else s);
          cloudKey = sanitizeAttachmentCloudKeyForSyncMerge h (get attachment ''cloudKey'')
      in if \<not> truthy cloudKey then s1
         else if isAttachmentCloudResourceReferenced cloudKey (liveReferences inp) then clear_key cloudKey s1
         else add_remote_target cloudKey (get attachment ''title'') s1)"

definition local_step :: "host \<Rightarrow> 'w cleanup_options \<Rightarrow> cleanup_input \<Rightarrow> js \<Rightarrow> 'w cleanup_state \<Rightarrow> thrown option \<times> 'w cleanup_state" where
  "local_step h options inp attachment s =
     (let s1 = (if get attachment ''id'' \<in> set (orphanedIds inp)
            then s\<lparr>processedOrphanedIds := processedOrphanedIds s @ [get attachment ''id'']\<rparr> else s);
          alreadyStampedTombstone = (truthy (get attachment ''deletedAt'') \<and> get attachment ''localStatus'' = JStr ''missing'')
      in case invoke (beforeEachAttachment options) s1 of
           (Some e, s2) \<Rightarrow> (Some e, s2)
         | (None, s2) \<Rightarrow>
             (case (if \<not> alreadyStampedTombstone \<and> \<not> isAttachmentLocalResourceReferenced attachment (liveReferences inp)
                    then invoke (deleteLocalAttachment options attachment) (announce (LocalDelete attachment) s2)
                    else (None, s2)) of
                (Some e, s3) \<Rightarrow> (Some e, s3)
              | (None, s3) \<Rightarrow> (None, count_processed h inp attachment s3)))"

fun local_loop :: "host \<Rightarrow> 'w cleanup_options \<Rightarrow> cleanup_input \<Rightarrow> nat option \<Rightarrow> nat \<Rightarrow> js list \<Rightarrow> 'w cleanup_state
    \<Rightarrow> thrown option \<times> 'w cleanup_state" where
  "local_loop h options inp limit processedCount [] s = (None, s)"
| "local_loop h options inp limit processedCount (attachment # rest) s =
     (if limit_reached limit processedCount then (None, s)
      else (case local_step h options inp attachment s of
              (Some e, s') \<Rightarrow> (Some e, s')
            | (None, s') \<Rightarrow> local_loop h options inp limit (Suc processedCount) rest s'))"

text \<open>A target that stays for a later run, with the attempts it had or one more.\<close>

definition keep_pending :: "remote_target \<Rightarrow> js \<Rightarrow> js \<Rightarrow> 'w cleanup_state \<Rightarrow> 'w cleanup_state" where
  "keep_pending target attempts lastErrorAt s =
     s\<lparr>nextPendingByCloudKey := AList.update (target_key target)
         (JObj [(''cloudKey'', target_key target), (''title'', target_title target), (''attempts'', attempts), (''lastErrorAt'', lastErrorAt)])
         (nextPendingByCloudKey s)\<rparr>"

definition previous_of :: "cleanup_input \<Rightarrow> remote_target \<Rightarrow> js" where
  "previous_of inp target = (case map_of (previousPendingByCloudKey inp) (target_key target) of Some p \<Rightarrow> p | None \<Rightarrow> JUndef)"

definition postpone :: "cleanup_input \<Rightarrow> remote_target \<Rightarrow> 'w cleanup_state \<Rightarrow> 'w cleanup_state" where
  "postpone inp target s =
     (let previous = previous_of inp target
      in keep_pending target (coalesce (get previous ''attempts'') (JNum 0)) (get previous ''lastErrorAt'') s)"

definition record_failure :: "'w cleanup_options \<Rightarrow> cleanup_input \<Rightarrow> remote_target \<Rightarrow> thrown \<Rightarrow> 'w cleanup_state \<Rightarrow> 'w cleanup_state" where
  "record_failure options inp target e s =
     keep_pending target (JNum (of_int (attempts_of (get (previous_of inp target) ''attempts'') + 1))) (cleanup_now options)
       (announce (RemoteDeleteError target e) s)"

definition remote_step :: "'w cleanup_options \<Rightarrow> cleanup_input \<Rightarrow> (remote_target \<Rightarrow> 'w callback) \<Rightarrow> remote_target \<Rightarrow> 'w cleanup_state
    \<Rightarrow> thrown option \<times> 'w cleanup_state" where
  "remote_step options inp deleteRemote target s =
     (case invoke (beforeEachRemoteDelete options) s of
        (Some e, s1) \<Rightarrow> (Some e, s1)
      | (None, s1) \<Rightarrow>
          (case invoke (deleteRemote target) (announce (RemoteDelete target) s1) of
             (None, s2) \<Rightarrow> (None, clear_key (target_key target) s2)
           | (Some e, s2) \<Rightarrow>
               if isLocalSyncAbort e then (Some e, s2)
               else if getErrorStatus e = JNum 404 \<or> isRemoteMissingError options e
               then (None, clear_key (target_key target) (announce (RemoteMissing target) s2))
               else (None, record_failure options inp target e s2)))"

fun remote_loop :: "'w cleanup_options \<Rightarrow> cleanup_input \<Rightarrow> nat option \<Rightarrow> (remote_target \<Rightarrow> 'w callback) option \<Rightarrow> nat \<Rightarrow> remote_target list
    \<Rightarrow> 'w cleanup_state \<Rightarrow> thrown option \<times> 'w cleanup_state" where
  "remote_loop options inp limit deleter processedCount [] s = (None, s)"
| "remote_loop options inp limit deleter processedCount (target # rest) s =
     (if limit_reached limit processedCount then remote_loop options inp limit deleter processedCount rest (postpone inp target s)
      else if shouldRetainRemoteAttachment options target
      then remote_loop options inp limit deleter (Suc processedCount) rest (clear_key (target_key target) s)
      else (case deleter of
              None \<Rightarrow> remote_loop options inp limit deleter (Suc processedCount) rest (postpone inp target s)
            | Some deleteRemote \<Rightarrow>
                (case remote_step options inp deleteRemote target s of
                   (Some e, s') \<Rightarrow> (Some e, s')
                 | (None, s') \<Rightarrow> remote_loop options inp limit deleter (Suc processedCount) rest s')))"

definition pending_by_key :: "host \<Rightarrow> js list \<Rightarrow> (js \<times> js) list" where
  "pending_by_key h pendings =
     js_map (List.map_filter (\<lambda>pending.
       let cloudKey = sanitizeAttachmentCloudKeyForSyncMerge h (get pending ''cloudKey'')
       in if truthy cloudKey then Some (cloudKey, put pending ''cloudKey'' cloudKey) else None) pendings)"

definition cleanup_input_of :: "host \<Rightarrow> AppData \<Rightarrow> cleanup_input" where
  "cleanup_input_of h d =
     \<lparr>orphanedIds = ids (findOrphanedAttachments d), purgedParentIds = findPurgedParentAttachmentIds d,
      liveReferences = findLiveAttachmentResourceReferences h d, previousPendingByCloudKey = pending_by_key h (pending_deletes d)\<rparr>"

definition cleanup_targets :: "AppData \<Rightarrow> js list" where
  "cleanup_targets d =
     map snd (js_map (map entry_of (findOrphanedAttachments d) @ map entry_of (findDeletedAttachmentsForFileCleanup d)))"

text \<open>The targets earlier runs left behind, unless a live record uses the object again.\<close>

definition pending_targets :: "cleanup_input \<Rightarrow> (js \<times> remote_target) list" where
  "pending_targets inp =
     js_map (map (\<lambda>pending. (get pending ''cloudKey'',
         \<lparr>target_key = get pending ''cloudKey'', target_title = or_else (get pending ''title'') (get pending ''cloudKey'')\<rparr>))
       (filter (\<lambda>pending. \<not> isAttachmentCloudResourceReferenced (get pending ''cloudKey'') (liveReferences inp))
         (map snd (previousPendingByCloudKey inp))))"

definition start_state :: "cleanup_input \<Rightarrow> 'w \<Rightarrow> 'w cleanup_state" where
  "start_state inp w =
     \<lparr>outer_world = w, calls = [], processedOrphanedIds = [], processedFileTombstoneIds = [], clearedCloudKeys = [],
      remoteCleanupTargets = pending_targets inp, nextPendingByCloudKey = []\<rparr>"

definition in_batch :: "nat option \<Rightarrow> 'a list \<Rightarrow> 'a list" where
  "in_batch limit xs = (case limit of None \<Rightarrow> xs | Some k \<Rightarrow> take k xs)"

text \<open>The remote deleter: given, or resolved when a target of the batch needs it.\<close>

definition resolve_deleter :: "'w cleanup_options \<Rightarrow> nat option \<Rightarrow> 'w cleanup_state
    \<Rightarrow> (thrown + (remote_target \<Rightarrow> 'w callback) option) \<times> 'w cleanup_state" where
  "resolve_deleter options limit s =
     (case deleteRemoteAttachment options of
        Some f \<Rightarrow> (Inr (Some f), s)
      | None \<Rightarrow>
          if filter (\<lambda>t. \<not> shouldRetainRemoteAttachment options t) (in_batch limit (map snd (remoteCleanupTargets s))) \<noteq> []
               \<and> \<not> limit_reached limit 0
          then (let (r, w) = resolveRemoteDeleteAttachment options (outer_world s) in (r, s\<lparr>outer_world := w\<rparr>))
          else (Inr None, s))"

record cleanup_result =
  cleaned_document :: AppData
  orphanedAttachments :: "js list"
  result_orphanedIds :: "js list"
  reachedBatchLimit :: bool
  shouldInvalidateFastSyncState :: bool

definition finish_cleanup :: "host \<Rightarrow> 'w cleanup_options \<Rightarrow> AppData \<Rightarrow> cleanup_input \<Rightarrow> nat option \<Rightarrow> 'w cleanup_state
    \<Rightarrow> cleanup_result \<times> 'w cleanup_state" where
  "finish_cleanup h options d inp limit s =
     (let overflow = over_limit limit (length (cleanup_targets d)) \<or> over_limit limit (length (remoteCleanupTargets s));
          s' = (if overflow
                then announce (BatchLimitReached (the limit) (max (length (cleanup_targets d)) (length (remoteCleanupTargets s)))) s else s);
          removable = filter (\<lambda>i. i \<in> set (purgedParentIds inp)) (processedOrphanedIds s)
      in (\<lparr>cleaned_document = applyAttachmentCleanupResult h d
             \<lparr>lastCleanupAt = cleanup_now options, pendingRemoteDeletes = map snd (nextPendingByCloudKey s),
              removableAttachmentIds = removable, fileTombstoneIds = processedFileTombstoneIds s, clearedKeys = clearedCloudKeys s\<rparr>,
           orphanedAttachments = findOrphanedAttachments d, result_orphanedIds = processedOrphanedIds s,
           reachedBatchLimit = overflow,
           shouldInvalidateFastSyncState = (removable \<noteq> [] \<or> clearedCloudKeys s \<noteq> [])\<rparr>, s'))"

definition runAttachmentCleanupLifecycle :: "host \<Rightarrow> 'w cleanup_options \<Rightarrow> AppData \<Rightarrow> 'w \<Rightarrow> (thrown + cleanup_result) \<times> 'w cleanup_state" where
  "runAttachmentCleanupLifecycle h options d w =
     (let inp = cleanup_input_of h d; limit = target_limit (maxAttachmentTargets options)
      in case local_loop h options inp limit 0 (cleanup_targets d) (start_state inp w) of
           (Some e, s1) \<Rightarrow> (Inl e, s1)
         | (None, s1) \<Rightarrow>
             (case resolve_deleter options limit s1 of
                (Inl e, s2) \<Rightarrow> (Inl e, s2)
              | (Inr deleter, s2) \<Rightarrow>
                  (case remote_loop options inp limit deleter 0 (map snd (remoteCleanupTargets s2)) s2 of
                     (Some e, s3) \<Rightarrow> (Inl e, s3)
                   | (None, s3) \<Rightarrow> (let (r, s4) = finish_cleanup h options d inp limit s3 in (Inr r, s4)))))"

section \<open>Only what nobody uses is deleted\<close>

lemma update_subset: "set (AList.update k v xs) \<subseteq> insert (k, v) (set xs)"
  by (induction xs) (auto simp: split: if_splits)

lemma set_js_map: "set (js_map ps) \<subseteq> set ps"
  by (auto dest: map_of_js_map_SomeD map_of_is_SomeI [rotated] simp: map_of_is_SomeI)

lemma set_cleanup_targets:
  assumes "a \<in> set (cleanup_targets d)"
  shows "a \<in> set (document_attachments d)"
    "truthy (get a ''deletedAt'') \<or> get a ''id'' \<notin> set (ids (live_attachments d))"
proof -
  have "a \<in> set (findOrphanedAttachments d) \<or> a \<in> set (findDeletedAttachmentsForFileCleanup d)"
    using assms set_js_map [of "map entry_of (findOrphanedAttachments d) @ map entry_of (findDeletedAttachmentsForFileCleanup d)"]
    by (auto simp: cleanup_targets_def entry_of_def)
  moreover have "a \<in> set (document_attachments d) \<and> get a ''id'' \<notin> set (ids (live_attachments d))" if "a \<in> set (findOrphanedAttachments d)"
    using that set_js_map [of "map entry_of (document_attachments d)"] by (auto simp: findOrphanedAttachments_def Let_def entry_of_def)
  moreover have "a \<in> set (document_attachments d) \<and> truthy (get a ''deletedAt'')" if "a \<in> set (findDeletedAttachmentsForFileCleanup d)"
    using that set_js_map [of "map entry_of (filter (\<lambda>a. truthy (get a ''deletedAt'')) (document_attachments d))"]
    by (auto simp: findDeletedAttachmentsForFileCleanup_def entry_of_def)
  ultimately show "a \<in> set (document_attachments d)" "truthy (get a ''deletedAt'') \<or> get a ''id'' \<notin> set (ids (live_attachments d))"
    by blast+
qed

definition careful_call :: "cleanup_input \<Rightarrow> js list \<Rightarrow> cleanup_call \<Rightarrow> bool" where
  "careful_call inp targets c =
     (case c of
        LocalDelete a \<Rightarrow> a \<in> set targets \<and> \<not> isAttachmentLocalResourceReferenced a (liveReferences inp)
      | RemoteDelete t \<Rightarrow> truthy (target_key t) \<and> \<not> isAttachmentCloudResourceReferenced (target_key t) (liveReferences inp)
      | _ \<Rightarrow> True)"

definition careful_target :: "cleanup_input \<Rightarrow> js \<times> remote_target \<Rightarrow> bool" where
  "careful_target inp kt \<longleftrightarrow>
     target_key (snd kt) = fst kt \<and> truthy (fst kt) \<and> \<not> isAttachmentCloudResourceReferenced (fst kt) (liveReferences inp)"

definition careful :: "cleanup_input \<Rightarrow> js list \<Rightarrow> 'w cleanup_state \<Rightarrow> bool" where
  "careful inp targets s \<longleftrightarrow>
     list_all (careful_call inp targets) (calls s) \<and> list_all (careful_target inp) (remoteCleanupTargets s)
   \<and> set (processedOrphanedIds s) \<subseteq> set (orphanedIds inp) \<and> set (processedFileTombstoneIds s) \<subseteq> set (ids targets)"

named_theorems careful_steps

lemma careful_invoke [careful_steps]: "careful inp ts (snd (invoke f s)) \<longleftrightarrow> careful inp ts s"
  by (simp add: careful_def invoke_def split: prod.split sum.split)

lemma careful_announce [careful_steps]: "careful inp ts (announce c s) \<longleftrightarrow> careful inp ts s \<and> careful_call inp ts c"
  by (auto simp: careful_def announce_def)

lemma careful_bookkeeping [careful_steps]:
  "careful inp ts (clear_key k s) \<longleftrightarrow> careful inp ts s"
  "careful inp ts (keep_pending t n since s) \<longleftrightarrow> careful inp ts s"
  "careful inp ts (postpone inp' t s) \<longleftrightarrow> careful inp ts s"
  "careful inp ts (record_failure options inp' t e s) \<longleftrightarrow> careful inp ts s"
  by (auto simp: careful_def clear_key_def keep_pending_def postpone_def record_failure_def announce_def careful_call_def Let_def)

lemma careful_add_target:
  assumes "careful inp ts s" "truthy k" "\<not> isAttachmentCloudResourceReferenced k (liveReferences inp)"
  shows "careful inp ts (add_remote_target k name s)"
  using assms update_subset [of k "\<lparr>target_key = k, target_title = or_else name k\<rparr>" "remoteCleanupTargets s"]
  by (auto simp: careful_def add_remote_target_def list_all_iff careful_target_def)

lemma careful_after: "invoke f s = (r, s') \<Longrightarrow> careful inp ts s \<Longrightarrow> careful inp ts s'"
  using careful_invoke [of inp ts f s] by simp

lemma careful_count: "careful inp ts s \<Longrightarrow> a \<in> set ts \<Longrightarrow> careful inp ts (count_processed h inp a s)"
proof -
  assume "careful inp ts s" "a \<in> set ts"
  then have "careful inp ts (s\<lparr>processedFileTombstoneIds := processedFileTombstoneIds s @ [get a ''id'']\<rparr>)"
    by (auto simp: careful_def set_ids)
  then show ?thesis using \<open>careful inp ts s\<close>
    by (auto simp: count_processed_def Let_def careful_steps intro!: careful_add_target)
qed

lemma careful_local_step:
  assumes s: "careful inp ts s" and a: "a \<in> set ts" and step: "local_step h options inp a s = (r, s')"
  shows "careful inp ts s'"
proof -
  define s1 where "s1 = (if get a ''id'' \<in> set (orphanedIds inp)
    then s\<lparr>processedOrphanedIds := processedOrphanedIds s @ [get a ''id'']\<rparr> else s)"
  have s1: "careful inp ts s1" using s by (simp add: s1_def careful_def)
  obtain r2 s2 where before: "invoke (beforeEachAttachment options) s1 = (r2, s2)" by fastforce
  have s2: "careful inp ts s2" using careful_after [OF before s1] .
  let ?del = "\<not> (truthy (get a ''deletedAt'') \<and> get a ''localStatus'' = JStr ''missing'')
    \<and> \<not> isAttachmentLocalResourceReferenced a (liveReferences inp)"
  obtain r3 s3 where during: "(if ?del then invoke (deleteLocalAttachment options a) (announce (LocalDelete a) s2) else (None, s2)) = (r3, s3)"
    by fastforce
  have s3: "careful inp ts s3"
    using during s2 a by (auto split: if_splits dest!: careful_after simp: careful_steps careful_call_def)
  have "s' = s2 \<or> s' = s3 \<or> s' = count_processed h inp a s3"
    using step during before
    by (auto simp: local_step_def s1_def [symmetric] Let_def split: option.splits)
  then show ?thesis using s2 s3 careful_count [OF s3 a] by blast
qed

lemma careful_local_loop:
  "careful inp ts s \<Longrightarrow> set as \<subseteq> set ts \<Longrightarrow> careful inp ts (snd (local_loop h options inp limit n as s))"
proof (induction as arbitrary: n s)
  case (Cons a as)
  obtain r s' where step: "local_step h options inp a s = (r, s')" by fastforce
  then have "careful inp ts s'" using Cons.prems careful_local_step by auto
  then show ?case using step Cons by (cases r) auto
qed simp

lemma careful_remote_step:
  assumes s: "careful inp ts s" and t: "truthy (target_key t)" "\<not> isAttachmentCloudResourceReferenced (target_key t) (liveReferences inp)"
    and step: "remote_step options inp f t s = (r, s')"
  shows "careful inp ts s'"
proof -
  obtain r1 s1 where before: "invoke (beforeEachRemoteDelete options) s = (r1, s1)" by fastforce
  have s1: "careful inp ts s1" using careful_after [OF before s] .
  obtain r2 s2 where during: "invoke (f t) (announce (RemoteDelete t) s1) = (r2, s2)" by fastforce
  have s2: "careful inp ts s2"
    using careful_after [OF during] s1 t by (simp add: careful_steps careful_call_def)
  have "s' \<in> {s1, s2, clear_key (target_key t) s2, clear_key (target_key t) (announce (RemoteMissing t) s2)}
      \<or> (\<exists>e. s' = record_failure options inp t e s2)"
    using step before during by (auto simp: remote_step_def split: option.splits if_splits)
  then show ?thesis using s1 s2 by (auto simp: careful_steps careful_call_def)
qed

lemma careful_remote_loop:
  assumes "careful inp ts s" "\<And>t. t \<in> set rs \<Longrightarrow> truthy (target_key t) \<and> \<not> isAttachmentCloudResourceReferenced (target_key t) (liveReferences inp)"
  shows "careful inp ts (snd (remote_loop options inp limit deleter n rs s))"
  using assms
proof (induction rs arbitrary: n s)
  case (Cons t rs)
  have goes_on: "careful inp ts (snd (remote_loop options inp limit deleter m rs s'))" if "careful inp ts s'" for m s'
    using that Cons by simp
  show ?case
  proof (cases "limit_reached limit n \<or> shouldRetainRemoteAttachment options t \<or> deleter = None")
    case True
    then show ?thesis using goes_on Cons.prems(1) by (auto simp: careful_steps)
  next
    case False
    then obtain f where f: "deleter = Some f" by auto
    obtain r s' where step: "remote_step options inp f t s = (r, s')" by fastforce
    then have "careful inp ts s'" using careful_remote_step Cons.prems by (metis list.set_intros(1))
    then show ?thesis using False f step goes_on by (cases r) auto
  qed
qed simp

lemma careful_start: "careful inp ts (start_state inp w) \<longleftrightarrow> list_all (careful_target inp) (pending_targets inp)"
  by (simp add: careful_def start_state_def)

lemma pending_keys:
  assumes "(k, p) \<in> set (pending_by_key h ps)"
  shows "get p ''cloudKey'' = k" "truthy k"
  using assms set_js_map [of "List.map_filter (\<lambda>pending.
       let cloudKey = sanitizeAttachmentCloudKeyForSyncMerge h (get pending ''cloudKey'')
       in if truthy cloudKey then Some (cloudKey, put pending ''cloudKey'' cloudKey) else None) ps"]
  by (auto simp: pending_by_key_def Let_def List.map_filter_def split: if_splits)

lemma careful_pending_targets: "list_all (careful_target (cleanup_input_of h d)) (pending_targets (cleanup_input_of h d))"
proof -
  let ?inp = "cleanup_input_of h d"
  have "careful_target ?inp kt" if kt: "kt \<in> set (pending_targets ?inp)" for kt
  proof -
    let ?live = "filter (\<lambda>pending. \<not> isAttachmentCloudResourceReferenced (get pending ''cloudKey'') (liveReferences ?inp))
         (map snd (previousPendingByCloudKey ?inp))"
    obtain k p where "(k, p) \<in> set (pending_by_key h (pending_deletes d))" "kt = (get p ''cloudKey'',
        \<lparr>target_key = get p ''cloudKey'', target_title = or_else (get p ''title'') (get p ''cloudKey'')\<rparr>)"
        "\<not> isAttachmentCloudResourceReferenced (get p ''cloudKey'') (liveReferences ?inp)"
      using kt set_js_map [of "map (\<lambda>pending. (get pending ''cloudKey'',
         \<lparr>target_key = get pending ''cloudKey'', target_title = or_else (get pending ''title'') (get pending ''cloudKey'')\<rparr>)) ?live"]
      by (auto simp: pending_targets_def cleanup_input_of_def)
    then show ?thesis using pending_keys [of k p h] by (simp add: careful_target_def)
  qed
  then show ?thesis by (auto simp: list_all_iff)
qed

lemma resolve_deleter_state:
  "resolve_deleter options limit s = (r, s') \<Longrightarrow> \<exists>w. s' = s\<lparr>outer_world := w\<rparr>"
  by (auto simp: resolve_deleter_def Let_def split: option.splits if_splits prod.splits intro: exI [of _ "outer_world s"])

lemma finish_calls:
  "finish_cleanup h options d inp limit s = (r, s') \<Longrightarrow> calls s' = calls s \<or> (\<exists>n m. calls s' = calls s @ [BatchLimitReached n m])"
  by (auto simp: finish_cleanup_def Let_def announce_def split: if_splits)

text \<open>The stages of a run, for the proofs below: a failure ends it at any of them.\<close>

lemma run_stages:
  assumes "runAttachmentCleanupLifecycle h options d w = (res, s)"
  defines "inp \<equiv> cleanup_input_of h d" and "limit \<equiv> target_limit (maxAttachmentTargets options)"
  obtains (local_failed) e where "local_loop h options inp limit 0 (cleanup_targets d) (start_state inp w) = (Some e, s)" "res = Inl e"
  | (resolve_failed) e s1 where "local_loop h options inp limit 0 (cleanup_targets d) (start_state inp w) = (None, s1)"
      "resolve_deleter options limit s1 = (Inl e, s)" "res = Inl e"
  | (remote_failed) e s1 s2 f where "local_loop h options inp limit 0 (cleanup_targets d) (start_state inp w) = (None, s1)"
      "resolve_deleter options limit s1 = (Inr f, s2)"
      "remote_loop options inp limit f 0 (map snd (remoteCleanupTargets s2)) s2 = (Some e, s)" "res = Inl e"
  | (finished) r s1 s2 f s3 where "local_loop h options inp limit 0 (cleanup_targets d) (start_state inp w) = (None, s1)"
      "resolve_deleter options limit s1 = (Inr f, s2)"
      "remote_loop options inp limit f 0 (map snd (remoteCleanupTargets s2)) s2 = (None, s3)"
      "finish_cleanup h options d inp limit s3 = (r, s)" "res = Inr r"
  using assms(1)
  by (auto simp: runAttachmentCleanupLifecycle_def inp_def limit_def Let_def split: prod.splits option.splits sum.splits)

lemma careful_stages:
  fixes options :: "'w cleanup_options" and h :: host and d :: AppData
  defines "inp \<equiv> cleanup_input_of h d"
  shows "local_loop h options inp limit 0 (cleanup_targets d) (start_state inp w) = (r, s1) \<Longrightarrow> careful inp (cleanup_targets d) s1"
    and "careful inp (cleanup_targets d) s1 \<Longrightarrow> resolve_deleter options limit s1 = (r', s2) \<Longrightarrow> careful inp (cleanup_targets d) s2"
    and "careful inp (cleanup_targets d) s2 \<Longrightarrow> remote_loop options inp limit f 0 (map snd (remoteCleanupTargets s2)) s2 = (r, s3)
      \<Longrightarrow> careful inp (cleanup_targets d) s3"
proof -
  let ?ts = "cleanup_targets d"
  have start: "careful inp ?ts (start_state inp w)" by (simp add: inp_def careful_start careful_pending_targets)
  show "careful inp ?ts s1" if "local_loop h options inp limit 0 ?ts (start_state inp w) = (r, s1)"
    using that careful_local_loop [OF start subset_refl] by (metis snd_conv)
  show "careful inp ?ts s2" if "careful inp ?ts s1" "resolve_deleter options limit s1 = (r', s2)"
    using that resolve_deleter_state by (fastforce simp: careful_def)
  show "careful inp ?ts s3" if "careful inp ?ts s2"
    "remote_loop options inp limit f 0 (map snd (remoteCleanupTargets s2)) s2 = (r, s3)"
  proof -
    have "truthy (target_key t) \<and> \<not> isAttachmentCloudResourceReferenced (target_key t) (liveReferences inp)"
      if "t \<in> set (map snd (remoteCleanupTargets s2))" for t
      using that \<open>careful inp ?ts s2\<close> by (auto simp: careful_def list_all_iff careful_target_def)
    then show ?thesis using careful_remote_loop that by (metis snd_conv)
  qed
qed

lemma careful_run:
  assumes "runAttachmentCleanupLifecycle h options d w = (res, s)"
  shows "list_all (careful_call (cleanup_input_of h d) (cleanup_targets d)) (calls s)"
  using assms
proof (cases rule: run_stages)
  case (finished r s1 s2 f s3)
  have "careful (cleanup_input_of h d) (cleanup_targets d) s3"
    using finished careful_stages by metis
  then show ?thesis using finish_calls [OF finished(4)] by (auto simp: careful_def careful_call_def)
next
  case (remote_failed e s1 s2 f)
  then have "careful (cleanup_input_of h d) (cleanup_targets d) s" using careful_stages by metis
  then show ?thesis by (simp add: careful_def)
next
  case (resolve_failed e s1)
  then have "careful (cleanup_input_of h d) (cleanup_targets d) s" using careful_stages(1,2) by metis
  then show ?thesis by (simp add: careful_def)
next
  case (local_failed e)
  then have "careful (cleanup_input_of h d) (cleanup_targets d) s" using careful_stages(1) by metis
  then show ?thesis by (simp add: careful_def)
qed

lemma careful_call_spares:
  "careful_call (cleanup_input_of h d) (cleanup_targets d) (LocalDelete a) \<Longrightarrow>
     a \<in> set (document_attachments d)
   \<and> (truthy (get a ''deletedAt'') \<or> get a ''id'' \<notin> set (ids (live_attachments d)))
   \<and> list_all (\<lambda>b. truthy (normalizeAttachmentCleanupUri (get a ''uri'')) \<longrightarrow>
        normalizeAttachmentCleanupUri (get b ''uri'') \<noteq> normalizeAttachmentCleanupUri (get a ''uri'')) (live_attachments d)"
  "careful_call (cleanup_input_of h d) (cleanup_targets d) (RemoteDelete t) \<Longrightarrow>
     list_all (\<lambda>b. sanitizeAttachmentCloudKeyForSyncMerge h (get b ''cloudKey'') \<noteq> target_key t) (live_attachments d)"
  using set_cleanup_targets
  by (auto simp: list_all_iff careful_call_def isAttachmentLocalResourceReferenced_def isAttachmentCloudResourceReferenced_def
      Let_def cleanup_input_of_def findLiveAttachmentResourceReferences_def image_iff)

text \<open>A document with a file in use under two records, one of them purged, and a deleted attachment.\<close>

definition twin_attachment :: js where
  "twin_attachment = JObj [(''id'', JStr ''a1''), (''kind'', JStr ''file''), (''uri'', JStr ''file:///tmp/f''), (''cloudKey'', JStr ''attachments/f'')]"

definition used_attachment :: js where
  "used_attachment = JObj [(''id'', JStr ''a2''), (''kind'', JStr ''file''), (''uri'', JStr ''/tmp/f''), (''cloudKey'', JStr ''attachments/f'')]"

definition stale_attachment :: js where
  "stale_attachment = JObj [(''id'', JStr ''a3''), (''kind'', JStr ''file''), (''uri'', JStr ''/tmp/g''), (''cloudKey'', JStr ''attachments/g''),
     (''deletedAt'', JStr ''d'')]"

definition shared_document :: AppData where
  "shared_document = \<lparr>tasks = [JObj [(''id'', JStr ''t1''), (''purgedAt'', JStr ''p''), (''attachments'', JArr [twin_attachment])],
       JObj [(''id'', JStr ''t2''), (''attachments'', JArr [used_attachment, stale_attachment])]],
     projects = [], sections = [], areas = [], people = [], settings = JObj []\<rparr>"

definition accepting_options :: "unit cleanup_options" where
  "accepting_options = \<lparr>deleteLocalAttachment = \<lambda>_ w. (Inr (), w), deleteRemoteAttachment = Some (\<lambda>_ w. (Inr (), w)),
     resolveRemoteDeleteAttachment = \<lambda>w. (Inr None, w), shouldRetainRemoteAttachment = \<lambda>_. False, cleanup_now = JStr ''2026-01-01'',
     maxAttachmentTargets = JUndef, beforeEachAttachment = \<lambda>w. (Inr (), w), beforeEachRemoteDelete = \<lambda>w. (Inr (), w),
     isRemoteMissingError = \<lambda>_. False\<rparr>"

lemma shared_document_tables:
  "cleanup_targets shared_document = [twin_attachment, stale_attachment]"
  "live_attachments shared_document = [used_attachment]"
  "ids (findOrphanedAttachments shared_document) = [JStr ''a1'', JStr ''a3'']"
  "findPurgedParentAttachmentIds shared_document = [JStr ''a1'']"
  "pending_deletes shared_document = []"
  by code_simp+

lemma shared_document_addresses:
  "sanitizeAttachmentCloudKeyForSyncMerge host0 (JStr ''attachments/f'') = JStr ''attachments/f''"
  "sanitizeAttachmentCloudKeyForSyncMerge host0 (JStr ''attachments/g'') = JStr ''attachments/g''"
  "normalizeAttachmentCleanupUri (JStr ''file:///tmp/f'') = JStr ''/tmp/f''"
  "normalizeAttachmentCleanupUri (JStr ''/tmp/f'') = JStr ''/tmp/f''"
  "normalizeAttachmentCleanupUri (JStr ''/tmp/g'') = JStr ''/tmp/g''"
  by code_simp+

lemmas cleanup_run_simps = runAttachmentCleanupLifecycle_def cleanup_input_of_def target_limit_def start_state_def
  pending_targets_def pending_by_key_def List.map_filter_def limit_reached_def local_step_def invoke_def announce_def
  findLiveAttachmentResourceReferences_def isAttachmentLocalResourceReferenced_def isAttachmentCloudResourceReferenced_def
  count_processed_def add_remote_target_def clear_key_def resolve_deleter_def in_batch_def remote_step_def finish_cleanup_def
  over_limit_def or_else_def Let_def

lemma shared_document_run_full:
  "(let (res, s) = runAttachmentCleanupLifecycle host0 accepting_options shared_document ()
    in \<not> isl res \<and> calls s = [LocalDelete stale_attachment,
      RemoteDelete \<lparr>target_key = JStr ''attachments/g'', target_title = JStr ''attachments/g''\<rparr>]
    \<and> nextPendingByCloudKey s = [])"
  by (simp add: cleanup_run_simps shared_document_tables shared_document_addresses accepting_options_def
      twin_attachment_def used_attachment_def stale_attachment_def)

lemma shared_document_run:
  "calls (snd (runAttachmentCleanupLifecycle host0 accepting_options shared_document ())) =
     [LocalDelete stale_attachment, RemoteDelete \<lparr>target_key = JStr ''attachments/g'', target_title = JStr ''attachments/g''\<rparr>]"
  "\<not> isl (fst (runAttachmentCleanupLifecycle host0 accepting_options shared_document ()))"
  "nextPendingByCloudKey (snd (runAttachmentCleanupLifecycle host0 accepting_options shared_document ())) = []"
  using shared_document_run_full by (simp_all add: Let_def split_beta)

text \<open>
  C11. A cleanup run, whatever its callbacks answer and even if it stops with an error, deletes the local
  file only of an attachment of the document that is deleted or has no live record, and never a file that
  an attachment still in use names in any spelling of its address; and it never deletes the remote object
  of an attachment still in use.
\<close>

theorem cleanup_spares_files_in_use:
  "list_all (\<lambda>c. case c of
       LocalDelete a \<Rightarrow>
         a \<in> set (document_attachments d)
       \<and> (truthy (get a ''deletedAt'') \<or> get a ''id'' \<notin> set (ids (live_attachments d)))
       \<and> list_all (\<lambda>b. truthy (normalizeAttachmentCleanupUri (get a ''uri'')) \<longrightarrow>
            normalizeAttachmentCleanupUri (get b ''uri'') \<noteq> normalizeAttachmentCleanupUri (get a ''uri'')) (live_attachments d)
     | RemoteDelete t \<Rightarrow>
         list_all (\<lambda>b. sanitizeAttachmentCloudKeyForSyncMerge h (get b ''cloudKey'') \<noteq> target_key t) (live_attachments d)
     | _ \<Rightarrow> True)
   (calls (snd (runAttachmentCleanupLifecycle h options d w)))"
proof -
  have all: "list_all (careful_call (cleanup_input_of h d) (cleanup_targets d)) (calls (snd (runAttachmentCleanupLifecycle h options d w)))"
    using careful_run [of h options d w] by (metis prod.collapse)
  show ?thesis
    by (rule list.pred_mono_strong [OF all]) (auto dest!: careful_call_spares split: cleanup_call.split)
qed

theorem cleanup_spares_files_in_use_witness:
  "length (calls (snd (runAttachmentCleanupLifecycle host0 accepting_options shared_document ()))) = 2
 \<and> normalizeAttachmentCleanupUri (get used_attachment ''uri'') \<noteq> normalizeAttachmentCleanupUri (get stale_attachment ''uri'')
 \<and> sanitizeAttachmentCloudKeyForSyncMerge host0 (get used_attachment ''cloudKey'') \<noteq> JStr ''attachments/g''"
  using cleanup_spares_files_in_use [of shared_document host0 accepting_options "()"]
  by (simp add: shared_document_run(1) shared_document_tables)
     (simp add: shared_document_addresses stale_attachment_def used_attachment_def)

section \<open>Records in use stay as they are\<close>

lemma set_document_attachments: "set (document_attachments d) = (\<Union>e\<in>set (tasks d @ projects d). set (owner_attachments e))"
  by (auto simp: document_attachments_def)

lemma owner_clean [simp]:
  "owner_attachments (clean_owner h c e) =
     map (mark_processed h (fileTombstoneIds c) (clearedKeys c) (lastCleanupAt c))
       (filter (\<lambda>a. get a ''id'' \<notin> set (removableAttachmentIds c)) (owner_attachments e))"
  "purged (clean_owner h c e) = purged e"
  by (auto simp: owner_attachments_def clean_owner_def purged_def split: js.split)

lemma mark_live:
  "\<not> truthy (get a ''deletedAt'') \<Longrightarrow> get a ''id'' \<notin> set fileIds \<Longrightarrow> mark_processed h fileIds cleared since a = a"
  by (simp add: mark_processed_def)

lemma mark_deletedAt [simp]: "get (mark_processed h fileIds cleared since a) ''deletedAt'' = get a ''deletedAt''"
  by (simp add: mark_processed_def Let_def)

lemma clean_owner_live:
  assumes "\<And>a. a \<in> set (owner_attachments e) \<Longrightarrow> \<not> truthy (get a ''deletedAt'') \<Longrightarrow>
      get a ''id'' \<notin> set (fileTombstoneIds c) \<and> get a ''id'' \<notin> set (removableAttachmentIds c)"
  shows "filter (\<lambda>a. \<not> truthy (get a ''deletedAt'')) (owner_attachments (clean_owner h c e))
    = filter (\<lambda>a. \<not> truthy (get a ''deletedAt'')) (owner_attachments e)"
proof -
  have "filter (\<lambda>a. \<not> truthy (get a ''deletedAt'')) (map (mark_processed h (fileTombstoneIds c) (clearedKeys c) (lastCleanupAt c))
        (filter (\<lambda>a. get a ''id'' \<notin> set (removableAttachmentIds c)) as))
      = filter (\<lambda>a. \<not> truthy (get a ''deletedAt'')) as"
    if "\<And>a. a \<in> set as \<Longrightarrow> \<not> truthy (get a ''deletedAt'') \<Longrightarrow>
      get a ''id'' \<notin> set (fileTombstoneIds c) \<and> get a ''id'' \<notin> set (removableAttachmentIds c)" for as
    using that by (induction as) (auto simp: mark_live)
  then show ?thesis using assms by simp
qed

lemma apply_collections:
  "tasks (applyAttachmentCleanupResult h d c) =
     (if removableAttachmentIds c \<noteq> [] \<or> fileTombstoneIds c \<noteq> [] \<or> clearedKeys c \<noteq> [] then map (clean_owner h c) (tasks d) else tasks d)"
  "projects (applyAttachmentCleanupResult h d c) =
     (if removableAttachmentIds c \<noteq> [] \<or> fileTombstoneIds c \<noteq> [] \<or> clearedKeys c \<noteq> [] then map (clean_owner h c) (projects d) else projects d)"
  by (simp_all add: applyAttachmentCleanupResult_def Let_def)

lemma concat_filter_map:
  "(\<And>e. e \<in> set es \<Longrightarrow> P e \<Longrightarrow> f e = g e) \<Longrightarrow> concat (map f (filter P es)) = concat (map g (filter P es))"
  by (induction es) auto

lemma clean_collection_live:
  assumes "\<And>e. e \<in> set es \<Longrightarrow> \<not> purged e \<Longrightarrow> filter (\<lambda>a. \<not> truthy (get a ''deletedAt'')) (owner_attachments (f e))
      = filter (\<lambda>a. \<not> truthy (get a ''deletedAt'')) (owner_attachments e)"
    and "\<And>e. purged (f e) = purged e"
  shows "filter (\<lambda>a. \<not> truthy (get a ''deletedAt'')) (concat (map owner_attachments (filter (\<lambda>e. \<not> purged e) (map f es))))
    = filter (\<lambda>a. \<not> truthy (get a ''deletedAt'')) (concat (map owner_attachments (filter (\<lambda>e. \<not> purged e) es)))"
  using assms by (induction es) auto

lemma apply_live:
  assumes "\<And>a. a \<in> set (live_attachments d) \<Longrightarrow> get a ''id'' \<notin> set (fileTombstoneIds c) \<and> get a ''id'' \<notin> set (removableAttachmentIds c)"
  shows "live_attachments (applyAttachmentCleanupResult h d c) = live_attachments d"
proof -
  have "filter (\<lambda>a. \<not> truthy (get a ''deletedAt'')) (owner_attachments (clean_owner h c e))
    = filter (\<lambda>a. \<not> truthy (get a ''deletedAt'')) (owner_attachments e)" if "e \<in> set (tasks d @ projects d)" "\<not> purged e" for e
    using that assms by (intro clean_owner_live) (auto simp: live_attachments_def)
  then have "filter (\<lambda>a. \<not> truthy (get a ''deletedAt'')) (concat (map owner_attachments (filter (\<lambda>e. \<not> purged e) (map (clean_owner h c) es))))
    = filter (\<lambda>a. \<not> truthy (get a ''deletedAt'')) (concat (map owner_attachments (filter (\<lambda>e. \<not> purged e) es)))"
    if "set es \<subseteq> set (tasks d @ projects d)" for es
    using that by (intro clean_collection_live) auto
  from this [of "tasks d @ projects d"] show ?thesis by (auto simp: live_attachments_def apply_collections)
qed

lemma distinct_ids_same: "distinct (ids es) \<Longrightarrow> a \<in> set es \<Longrightarrow> b \<in> set es \<Longrightarrow> get a ''id'' = get b ''id'' \<Longrightarrow> a = b"
  by (auto simp: ids_def distinct_map inj_on_def)

lemma live_in_document: "a \<in> set (live_attachments d) \<Longrightarrow> a \<in> set (document_attachments d) \<and> \<not> truthy (get a ''deletedAt'')"
  by (auto simp: live_attachments_def document_attachments_def)

lemma targets_not_live:
  assumes "distinct (ids (document_attachments d))" "a \<in> set (live_attachments d)"
  shows "get a ''id'' \<notin> set (ids (cleanup_targets d))"
proof
  assume "get a ''id'' \<in> set (ids (cleanup_targets d))"
  then obtain b where b: "b \<in> set (cleanup_targets d)" "get b ''id'' = get a ''id''" by (auto simp: set_ids)
  then have "b = a" using distinct_ids_same [OF assms(1), of b a] set_cleanup_targets(1) live_in_document [OF assms(2)] by blast
  then show False using set_cleanup_targets(2) [OF b(1)] live_in_document [OF assms(2)] assms(2) by (auto simp: set_ids)
qed

lemma orphans_not_live: "a \<in> set (live_attachments d) \<Longrightarrow> get a ''id'' \<notin> set (ids (findOrphanedAttachments d))"
  by (fastforce simp: findOrphanedAttachments_def Let_def set_ids image_iff)

text \<open>The state of the bookkeeping when a run finishes.\<close>

lemma careful_finished:
  assumes "runAttachmentCleanupLifecycle h options d w = (Inr r, s)"
  obtains s3 where "careful (cleanup_input_of h d) (cleanup_targets d) s3"
    "finish_cleanup h options d (cleanup_input_of h d) (target_limit (maxAttachmentTargets options)) s3 = (r, s)"
proof (cases rule: run_stages [OF assms])
  case (4 r' s1 s2 f s3)
  then have "careful (cleanup_input_of h d) (cleanup_targets d) s3" using careful_stages by metis
  then show ?thesis using 4 that by blast
qed auto

text \<open>
  Where attachment ids are distinct, a finished cleanup leaves every attachment in use exactly as it
  was and in its order, puts no other attachment in use, and touches nothing but attachments in tasks and
  projects: the tasks and projects are the same and the other collections are untouched.
\<close>

theorem cleanup_keeps_live_records:
  assumes "distinct (ids (document_attachments d))"
    and "runAttachmentCleanupLifecycle h options d w = (Inr r, s)"
  shows "live_attachments (cleaned_document r) = live_attachments d
   \<and> ids (tasks (cleaned_document r)) = ids (tasks d) \<and> ids (projects (cleaned_document r)) = ids (projects d)
   \<and> sections (cleaned_document r) = sections d \<and> areas (cleaned_document r) = areas d \<and> people (cleaned_document r) = people d"
proof -
  obtain s3 where s3: "careful (cleanup_input_of h d) (cleanup_targets d) s3"
    "finish_cleanup h options d (cleanup_input_of h d) (target_limit (maxAttachmentTargets options)) s3 = (r, s)"
    using careful_finished [OF assms(2)] .
  define c where "c = \<lparr>lastCleanupAt = cleanup_now options, pendingRemoteDeletes = map snd (nextPendingByCloudKey s3),
    removableAttachmentIds = filter (\<lambda>i. i \<in> set (purgedParentIds (cleanup_input_of h d))) (processedOrphanedIds s3),
    fileTombstoneIds = processedFileTombstoneIds s3, clearedKeys = clearedCloudKeys s3\<rparr>"
  have r: "cleaned_document r = applyAttachmentCleanupResult h d c"
    using s3(2) by (auto simp: finish_cleanup_def Let_def c_def)
  have "get a ''id'' \<notin> set (fileTombstoneIds c) \<and> get a ''id'' \<notin> set (removableAttachmentIds c)" if "a \<in> set (live_attachments d)" for a
    using that s3(1) targets_not_live [OF assms(1) that] orphans_not_live [OF that]
    by (auto simp: careful_def c_def cleanup_input_of_def)
  then have "live_attachments (cleaned_document r) = live_attachments d" by (simp add: r apply_live)
  moreover have "ids (map (clean_owner h c) es) = ids es" for es
    by (rule ids_map) (simp add: clean_owner_def)
  ultimately show ?thesis by (simp add: r apply_collections) (simp add: applyAttachmentCleanupResult_def Let_def)
qed

theorem cleanup_keeps_live_records_witness:
  "distinct (ids (document_attachments shared_document))
 \<and> live_attachments (cleaned_document (projr (fst (runAttachmentCleanupLifecycle host0 accepting_options shared_document ()))))
   = [used_attachment]"
proof -
  have 1: "distinct (ids (document_attachments shared_document))" by code_simp
  obtain res s where run: "runAttachmentCleanupLifecycle host0 accepting_options shared_document () = (res, s)" by fastforce
  then obtain r where "res = Inr r"
    using shared_document_run(2) by (cases res) auto
  then show ?thesis
    using 1 run cleanup_keeps_live_records [of shared_document host0 accepting_options "()" r s] by (simp add: shared_document_tables)
qed

section \<open>A finished run leaves no fresh work\<close>

text \<open>What the first loop has dealt with once it has processed an attachment.\<close>

definition dealt_with :: "host \<Rightarrow> cleanup_input \<Rightarrow> 'w cleanup_state \<Rightarrow> js \<Rightarrow> bool" where
  "dealt_with h inp s a \<longleftrightarrow>
     (get a ''id'' \<in> set (orphanedIds inp) \<longrightarrow> get a ''id'' \<in> set (processedOrphanedIds s))
   \<and> (get a ''kind'' = JStr ''file'' \<and> get a ''id'' \<notin> set (purgedParentIds inp) \<longrightarrow> get a ''id'' \<in> set (processedFileTombstoneIds s))
   \<and> (let k = sanitizeAttachmentCloudKeyForSyncMerge h (get a ''cloudKey'')
      in truthy k \<longrightarrow> k \<in> set (clearedCloudKeys s) \<or> k \<in> fst ` set (remoteCleanupTargets s))"

text \<open>The bookkeeping only grows.\<close>

definition grown :: "'w cleanup_state \<Rightarrow> 'w cleanup_state \<Rightarrow> bool" where
  "grown s s' \<longleftrightarrow> set (processedOrphanedIds s) \<subseteq> set (processedOrphanedIds s')
     \<and> set (processedFileTombstoneIds s) \<subseteq> set (processedFileTombstoneIds s')
     \<and> set (clearedCloudKeys s) \<subseteq> set (clearedCloudKeys s')
     \<and> fst ` set (remoteCleanupTargets s) \<subseteq> fst ` set (remoteCleanupTargets s')
     \<and> fst ` set (nextPendingByCloudKey s) \<subseteq> fst ` set (nextPendingByCloudKey s')"

lemma grown_refl [simp]: "grown s s"
  by (simp add: grown_def)

lemma grown_trans: "grown s s' \<Longrightarrow> grown s' s'' \<Longrightarrow> grown s s''"
  unfolding grown_def by (meson subset_trans)

lemma update_keys: "fst ` set (AList.update k v xs) = insert k (fst ` set xs)"
  by (simp add: AList.dom_update)

lemma grown_world [simp]: "grown s (s'\<lparr>outer_world := w\<rparr>) \<longleftrightarrow> grown s s'" "grown (s\<lparr>outer_world := w\<rparr>) s' \<longleftrightarrow> grown s s'"
  by (simp_all add: grown_def)

lemma grown_invoke: "invoke f s = (r, s') \<Longrightarrow> grown s s'"
  by (auto simp: invoke_def split: prod.splits sum.splits)

lemma grown_bookkeeping:
  "grown s (announce c s)" "grown s (clear_key k s)" "grown s (keep_pending t n since s)" "grown s (postpone inp t s)"
  "grown s (record_failure options inp t e s)" "grown s (add_remote_target k name s)"
  by (auto simp: grown_def announce_def clear_key_def keep_pending_def postpone_def record_failure_def add_remote_target_def Let_def
      AList.dom_update)

lemma grown_count: "grown s (count_processed h inp a s)"
proof -
  have "grown s (s\<lparr>processedFileTombstoneIds := processedFileTombstoneIds s @ [get a ''id'']\<rparr>)" by (auto simp: grown_def)
  then show ?thesis
    by (auto simp: count_processed_def Let_def intro: grown_bookkeeping grown_trans)
qed

lemma local_step_ok:
  assumes "local_step h options inp a s = (None, s')"
  obtains s3 where "s' = count_processed h inp a s3" "grown s s3"
    "get a ''id'' \<in> set (orphanedIds inp) \<Longrightarrow> get a ''id'' \<in> set (processedOrphanedIds s3)"
proof -
  define s1 where "s1 = (if get a ''id'' \<in> set (orphanedIds inp)
    then s\<lparr>processedOrphanedIds := processedOrphanedIds s @ [get a ''id'']\<rparr> else s)"
  have s1: "grown s s1" by (auto simp: s1_def grown_def)
  obtain r2 s2 where before: "invoke (beforeEachAttachment options) s1 = (r2, s2)" by fastforce
  have s2: "grown s1 s2" using grown_invoke [OF before] .
  let ?del = "\<not> (truthy (get a ''deletedAt'') \<and> get a ''localStatus'' = JStr ''missing'')
    \<and> \<not> isAttachmentLocalResourceReferenced a (liveReferences inp)"
  obtain r3 s3 where during: "(if ?del then invoke (deleteLocalAttachment options a) (announce (LocalDelete a) s2) else (None, s2)) = (r3, s3)"
    by fastforce
  have s3: "grown s2 s3"
    using during by (auto split: if_splits dest!: grown_invoke intro: grown_trans grown_bookkeeping)
  have "s' = count_processed h inp a s3"
    using assms during before by (auto simp: local_step_def s1_def [symmetric] Let_def split: option.splits)
  moreover have "get a ''id'' \<in> set (processedOrphanedIds s3)" if "get a ''id'' \<in> set (orphanedIds inp)"
    using that s2 s3 by (auto simp: s1_def grown_def)
  ultimately show thesis using that grown_trans [OF grown_trans [OF s1 s2] s3] by blast
qed

lemma dealt_with_count:
  assumes "get a ''id'' \<in> set (orphanedIds inp) \<Longrightarrow> get a ''id'' \<in> set (processedOrphanedIds s)"
  shows "dealt_with h inp (count_processed h inp a s) a"
  using assms by (auto simp: dealt_with_def count_processed_def Let_def clear_key_def add_remote_target_def AList.dom_update)

lemma dealt_with_grown: "dealt_with h inp s a \<Longrightarrow> grown s s' \<Longrightarrow> dealt_with h inp s' a"
  by (auto simp: dealt_with_def grown_def Let_def)

lemma local_loop_deals:
  "local_loop h options inp None n as s = (None, s') \<Longrightarrow> grown s s' \<and> list_all (dealt_with h inp s') as"
proof (induction as arbitrary: n s)
  case (Cons a as)
  obtain s1 where step: "local_step h options inp a s = (None, s1)" "local_loop h options inp None (Suc n) as s1 = (None, s')"
    using Cons.prems by (auto simp: limit_reached_def split: prod.splits option.splits)
  obtain s3 where s3: "s1 = count_processed h inp a s3" "grown s s3"
    "get a ''id'' \<in> set (orphanedIds inp) \<Longrightarrow> get a ''id'' \<in> set (processedOrphanedIds s3)"
    using local_step_ok [OF step(1)] by blast
  have "grown s s1" using s3 grown_count grown_trans by blast
  moreover have "dealt_with h inp s1 a" using dealt_with_count s3 by blast
  ultimately show ?case using Cons.IH [OF step(2)] dealt_with_grown grown_trans by auto
qed simp

text \<open>Every remote target of a loop that finishes is cleared or stays pending.\<close>

definition accounted :: "'w cleanup_state \<Rightarrow> js \<Rightarrow> bool" where
  "accounted s k \<longleftrightarrow> k \<in> set (clearedCloudKeys s) \<or> k \<in> fst ` set (nextPendingByCloudKey s)"

lemma accounted_bookkeeping:
  "accounted (clear_key k s) k" "accounted (postpone inp t s) (target_key t)" "accounted (record_failure options inp t e s) (target_key t)"
  by (simp_all add: accounted_def clear_key_def postpone_def record_failure_def keep_pending_def Let_def AList.dom_update)

lemma accounted_grown: "accounted s k \<Longrightarrow> grown s s' \<Longrightarrow> accounted s' k"
  by (auto simp: accounted_def grown_def)

lemma remote_step_ok:
  assumes "remote_step options inp f t s = (None, s')"
  shows "grown s s'" "accounted s' (target_key t)"
proof -
  obtain r1 s1 where before: "invoke (beforeEachRemoteDelete options) s = (r1, s1)" by fastforce
  obtain r2 s2 where during: "invoke (f t) (announce (RemoteDelete t) s1) = (r2, s2)" by fastforce
  have s2: "grown s s2"
    using grown_invoke [OF before] grown_invoke [OF during] grown_bookkeeping(1) grown_trans by blast
  have "s' \<in> {clear_key (target_key t) s2, clear_key (target_key t) (announce (RemoteMissing t) s2)}
      \<or> (\<exists>e. s' = record_failure options inp t e s2)"
    using assms before during by (auto simp: remote_step_def split: option.splits if_splits)
  then show "grown s s'" "accounted s' (target_key t)"
    using grown_trans [OF s2 grown_bookkeeping(2)] grown_trans [OF s2 grown_trans [OF grown_bookkeeping(1,2)]]
      grown_trans [OF s2 grown_bookkeeping(5)] accounted_bookkeeping by auto
qed

lemma remote_loop_accounts:
  "remote_loop options inp limit f n rs s = (None, s') \<Longrightarrow> grown s s' \<and> list_all (\<lambda>t. accounted s' (target_key t)) rs"
proof (induction rs arbitrary: n s)
  case (Cons t rs)
  have on: "grown s s' \<and> list_all (\<lambda>t. accounted s' (target_key t)) (t # rs)"
    if "grown s s1" "accounted s1 (target_key t)" "remote_loop options inp limit f m rs s1 = (None, s')" for s1 m
    using that Cons.IH [OF that(3)] accounted_grown grown_trans by auto
  show ?case
  proof (cases "limit_reached limit n")
    case True
    then show ?thesis using Cons.prems on [OF grown_bookkeeping(4) accounted_bookkeeping(2)] by simp
  next
    case False
    show ?thesis
    proof (cases "shouldRetainRemoteAttachment options t \<or> f = None")
      case True
      then show ?thesis
        using Cons.prems False on [OF grown_bookkeeping(4) accounted_bookkeeping(2)] on [OF grown_bookkeeping(2) accounted_bookkeeping(1)]
        by (auto split: if_splits)
    next
      case nf: False
      then obtain g where "f = Some g" by auto
      then obtain s1 where "remote_step options inp g t s = (None, s1)" "remote_loop options inp limit f (Suc n) rs s1 = (None, s')"
        using Cons.prems False nf by (auto split: prod.splits option.splits)
      then show ?thesis using on remote_step_ok by metis
    qed
  qed
qed simp

lemma owner_after_apply:
  assumes "e' \<in> set (tasks (applyAttachmentCleanupResult h d c) @ projects (applyAttachmentCleanupResult h d c))"
  obtains e where "e \<in> set (tasks d @ projects d)" "purged e' = purged e"
    "owner_attachments e' = map (mark_processed h (fileTombstoneIds c) (clearedKeys c) (lastCleanupAt c))
       (filter (\<lambda>a. get a ''id'' \<notin> set (removableAttachmentIds c)) (owner_attachments e))"
proof (cases "removableAttachmentIds c \<noteq> [] \<or> fileTombstoneIds c \<noteq> [] \<or> clearedKeys c \<noteq> []")
  case True
  then obtain e where "e \<in> set (tasks d @ projects d)" "e' = clean_owner h c e" using assms by (auto simp: apply_collections)
  then show ?thesis using that by simp
next
  case False
  have "map (mark_processed h [] [] (lastCleanupAt c)) as = as" for as by (simp add: mark_processed_def map_idI)
  then show ?thesis using that [of e'] False assms by (simp add: apply_collections)
qed

lemma mark_processed_not_fresh:
  assumes is_file: "get a ''kind'' = JStr ''file'' \<Longrightarrow> get a ''id'' \<in> set fileIds"
    and key: "\<And>k. sanitizeAttachmentCloudKeyForSyncMerge h (get a ''cloudKey'') = k \<Longrightarrow> truthy k \<Longrightarrow> k \<in> set cleared \<or> k \<in> set pendingKeys"
  shows "\<not> fresh_attachment h pendingKeys (mark_processed h fileIds cleared since a)"
proof -
  define m where "m = mark_processed h fileIds cleared since a"
  have kind: "get m ''kind'' = get a ''kind''" "get m ''deletedAt'' = get a ''deletedAt''"
    by (simp_all add: m_def mark_processed_def Let_def)
  have status: "get a ''id'' \<in> set fileIds \<Longrightarrow> get m ''localStatus'' = JStr ''missing''"
    by (simp add: m_def mark_processed_def Let_def)
  have cleared: "get m ''cloudKey'' = get a ''cloudKey''
      \<and> \<not> (truthy (get a ''deletedAt'') \<and> truthy (sanitizeAttachmentCloudKeyForSyncMerge h (get a ''cloudKey''))
            \<and> sanitizeAttachmentCloudKeyForSyncMerge h (get a ''cloudKey'') \<in> set cleared)
    \<or> get m ''cloudKey'' = JUndef"
    by (simp add: m_def mark_processed_def Let_def)
  have "sanitizeAttachmentCloudKeyForSyncMerge h JUndef = JUndef"
    by (simp add: sanitizeAttachmentCloudKeyForSyncMerge_def sanitize_with_def)
  then show ?thesis
    using kind status is_file key cleared unfolding m_def [symmetric] by (auto simp: fresh_attachment_def Let_def)
qed

lemma in_owner_in_document: "e \<in> set (tasks d @ projects d) \<Longrightarrow> a \<in> set (owner_attachments e) \<Longrightarrow> a \<in> set (document_attachments d)"
  by (auto simp: set_document_attachments)

lemma in_js_map: "distinct (map fst ps) \<Longrightarrow> p \<in> set ps \<Longrightarrow> p \<in> set (js_map ps)"
  by (simp add: js_map_distinct)

lemma distinct_entries: "distinct (ids as) \<Longrightarrow> js_map (map entry_of as) = map entry_of as"
  by (rule js_map_distinct) (simp add: ids_def entry_of_def comp_def)

lemma distinct_ids_filter: "distinct (ids as) \<Longrightarrow> distinct (ids (filter P as))"
  by (simp add: ids_def distinct_map_filter)

lemma tables_distinct:
  assumes "distinct (ids (document_attachments d))"
  shows "findOrphanedAttachments d = filter (\<lambda>a. get a ''id'' \<notin> set (ids (live_attachments d))) (document_attachments d)"
    "findDeletedAttachmentsForFileCleanup d = filter (\<lambda>a. truthy (get a ''deletedAt'')) (document_attachments d)"
  using assms distinct_ids_filter [OF assms]
  by (simp_all add: findOrphanedAttachments_def findDeletedAttachmentsForFileCleanup_def distinct_entries Let_def comp_def entry_of_def)

lemma target_present:
  assumes "distinct (ids (document_attachments d))"
    and "a \<in> set (document_attachments d)" "truthy (get a ''deletedAt'') \<or> get a ''id'' \<notin> set (ids (live_attachments d))"
  shows "a \<in> set (cleanup_targets d)"
proof -
  let ?ps = "map entry_of (findOrphanedAttachments d) @ map entry_of (findDeletedAttachmentsForFileCleanup d)"
  have member: "a \<in> set (findOrphanedAttachments d) \<or> a \<in> set (findDeletedAttachmentsForFileCleanup d)"
    using assms(2,3) by (auto simp: tables_distinct [OF assms(1)])
  then have "get a ''id'' \<in> fst ` set (js_map ?ps)" by (auto simp: image_Un image_image entry_of_def)
  then obtain b where b: "(get a ''id'', b) \<in> set (js_map ?ps)" by (auto simp del: set_keys_js_map)
  then have "b \<in> set (cleanup_targets d)" by (force simp: cleanup_targets_def)
  moreover have "get b ''id'' = get a ''id''" using subsetD [OF set_js_map b] by (auto simp: entry_of_def)
  ultimately show ?thesis using distinct_ids_same [OF assms(1)] set_cleanup_targets(1) assms(2) by metis
qed

text \<open>An attachment of a purged owner is never one in use, and one of a kept owner never one of a purged owner.\<close>

lemma split_owner:
  assumes "distinct (ids (concat (map owner_attachments es)))" "e \<in> set es" "f \<in> set es"
    and "a \<in> set (owner_attachments e)" "b \<in> set (owner_attachments f)" "get a ''id'' = get b ''id''"
  shows "e = f"
  using assms
proof (induction es)
  case (Cons x es)
  have apart: "get a' ''id'' \<noteq> get b' ''id''" if "a' \<in> set (owner_attachments x)" "g \<in> set es" "b' \<in> set (owner_attachments g)" for a' b' g
    using Cons.prems(1) that by (force simp: set_ids)
  show ?case
  proof (cases "e = x \<or> f = x")
    case True
    then show ?thesis using Cons.prems apart by (metis set_ConsD)
  next
    case False
    then show ?thesis using Cons by auto
  qed
qed simp

lemma purged_not_live:
  assumes "distinct (ids (document_attachments d))" "e \<in> set (tasks d @ projects d)" "purged e" "a \<in> set (owner_attachments e)"
  shows "get a ''id'' \<notin> set (ids (live_attachments d))"
proof
  assume "get a ''id'' \<in> set (ids (live_attachments d))"
  then obtain f b where "f \<in> set (tasks d @ projects d)" "\<not> purged f" "b \<in> set (owner_attachments f)" "get a ''id'' = get b ''id''"
    by (auto simp: live_attachments_def set_ids)
  then show False using split_owner assms unfolding document_attachments_def by metis
qed

lemma not_purged_parent:
  assumes "distinct (ids (document_attachments d))" "e \<in> set (tasks d @ projects d)" "\<not> purged e" "a \<in> set (owner_attachments e)"
  shows "get a ''id'' \<notin> set (findPurgedParentAttachmentIds d)"
proof
  assume "get a ''id'' \<in> set (findPurgedParentAttachmentIds d)"
  then obtain f b where "f \<in> set (tasks d @ projects d)" "purged f" "b \<in> set (owner_attachments f)" "get a ''id'' = get b ''id''"
    by (auto simp: findPurgedParentAttachmentIds_def set_ids)
  then show False using split_owner assms unfolding document_attachments_def by metis
qed

lemma remote_step_targets: "remote_step options inp f t s = (r, s') \<Longrightarrow> remoteCleanupTargets s' = remoteCleanupTargets s"
  by (auto simp: remote_step_def invoke_def announce_def clear_key_def record_failure_def keep_pending_def
      split: option.splits prod.splits sum.splits if_splits)

lemma remote_loop_targets: "remote_loop options inp limit f n rs s = (r, s') \<Longrightarrow> remoteCleanupTargets s' = remoteCleanupTargets s"
proof (induction rs arbitrary: n s)
  case (Cons t rs)
  have skip: "remoteCleanupTargets (postpone inp t s) = remoteCleanupTargets s" "remoteCleanupTargets (clear_key k s) = remoteCleanupTargets s" for k
    by (simp_all add: postpone_def keep_pending_def clear_key_def Let_def)
  show ?case
  proof (cases "limit_reached limit n \<or> shouldRetainRemoteAttachment options t \<or> f = None")
    case True
    then show ?thesis using Cons skip by (fastforce split: if_splits)
  next
    case False
    then obtain g where g: "f = Some g" by auto
    obtain r1 s1 where step: "remote_step options inp g t s = (r1, s1)" by fastforce
    then show ?thesis using False g Cons remote_step_targets [OF step] by (cases r1) auto
  qed
qed simp

lemma finished_bookkeeping:
  assumes "runAttachmentCleanupLifecycle h options d w = (Inr r, s)" "target_limit (maxAttachmentTargets options) = None"
  obtains s3 where "list_all (dealt_with h (cleanup_input_of h d) s3) (cleanup_targets d)"
    "list_all (accounted s3) (map fst (remoteCleanupTargets s3))"
    "finish_cleanup h options d (cleanup_input_of h d) None s3 = (r, s)"
  using assms(1)
proof (cases rule: run_stages)
  case (finished r' s1 s2 f s3)
  let ?inp = "cleanup_input_of h d"
  have local_part: "list_all (dealt_with h ?inp s1) (cleanup_targets d)"
    using local_loop_deals finished(1) assms(2) by metis
  have careful2: "careful ?inp (cleanup_targets d) s2" using careful_stages(1,2) finished(1,2) by metis
  have "grown s2 s3" and accounts: "list_all (\<lambda>t. accounted s3 (target_key t)) (map snd (remoteCleanupTargets s2))"
    using remote_loop_accounts [OF finished(3)] by simp_all
  moreover have "grown s1 s2" using resolve_deleter_state [OF finished(2)] by auto
  ultimately have "list_all (dealt_with h ?inp s3) (cleanup_targets d)"
    using local_part dealt_with_grown grown_trans by (metis list.pred_mono_strong)
  moreover have "remoteCleanupTargets s3 = remoteCleanupTargets s2" using remote_loop_targets [OF finished(3)] .
  then have "list_all (accounted s3) (map fst (remoteCleanupTargets s3))"
    using accounts careful2 by (auto simp: list_all_iff careful_def careful_target_def)
  ultimately show ?thesis using that finished(4,5) assms(2) by auto
qed auto


lemma no_pending_left:
  "runAttachmentCleanupLifecycle h options d w = (Inr r, s) \<Longrightarrow> nextPendingByCloudKey s = [] \<Longrightarrow> pending_deletes (cleaned_document r) = []"
  by (erule careful_finished)
    (auto simp: finish_cleanup_def Let_def announce_def applyAttachmentCleanupResult_def prunePendingRemoteAttachmentDeletes_def
      pending_deletes_def normalizePendingRemoteDeletes_def get_puts split: if_splits)

lemma shared_document_ids: "distinct (ids (document_attachments shared_document))"
  by code_simp

lemma shared_document_fresh: "hasFreshAttachmentCleanupWork host0 shared_document"
  by (simp add: hasFreshAttachmentCleanupWork_def shared_document_tables Let_def shared_document_def owner_has_work_def
      owner_attachments_def twin_attachment_def purged_def)


section \<open>Giving up on a remote delete\<close>

text \<open>
  A key whose last allowed attempt fails is dropped from the pending deletes, but the deleted record keeps the
  key, so the next check finds fresh work and the count starts again at one.
\<close>

definition tired_attachment :: js where
  "tired_attachment = JObj [(''id'', JStr ''a3''), (''kind'', JStr ''file''), (''localStatus'', JStr ''missing''),
     (''cloudKey'', JStr ''attachments/g''), (''deletedAt'', JStr ''d'')]"

definition tired_document :: AppData where
  "tired_document = \<lparr>tasks = [JObj [(''id'', JStr ''t1''), (''attachments'', JArr [tired_attachment])]],
     projects = [], sections = [], areas = [], people = [],
     settings = JObj [(''attachments'', JObj [(''pendingRemoteDeletes'', JArr [JObj [(''cloudKey'', JStr ''attachments/g''),
       (''attempts'', JNum 11)]])])]\<rparr>"

definition refusing_options :: "unit cleanup_options" where
  "refusing_options = accepting_options\<lparr>deleteRemoteAttachment := Some (\<lambda>_ w. (Inl (OtherValue (JStr ''no'')), w))\<rparr>"

lemma tired_document_tables:
  "cleanup_targets tired_document = [tired_attachment]"
  "live_attachments tired_document = []"
  "ids (findOrphanedAttachments tired_document) = [JStr ''a3'']"
  "findPurgedParentAttachmentIds tired_document = []"
  "pending_deletes tired_document = [pending_entry ''attachments/g'' (JObj [(''attempts'', JNum 11)])]"
  by code_simp+

definition tired_changes :: cleanup_changes where
  "tired_changes = \<lparr>lastCleanupAt = JStr ''2026-01-01'',
     pendingRemoteDeletes = [JObj [(''cloudKey'', JStr ''attachments/g''), (''title'', JStr ''attachments/g''), (''attempts'', JNum 12),
       (''lastErrorAt'', JStr ''2026-01-01'')]],
     removableAttachmentIds = [], fileTombstoneIds = [JStr ''a3''], clearedKeys = []\<rparr>"

lemma no_status: "getErrorStatus (OtherValue (JStr ''no'')) = JNull"
  by code_simp

lemma tired_document_run:
  "(let (res, s) = runAttachmentCleanupLifecycle host0 refusing_options tired_document ()
    in \<not> isl res \<and> cleaned_document (projr res) = applyAttachmentCleanupResult host0 tired_document tired_changes)"
  by (simp add: cleanup_run_simps tired_document_tables pending_entry_def str_only_def attempts_of_def tired_attachment_def tired_changes_def
      shared_document_addresses refusing_options_def accepting_options_def isLocalSyncAbort_def no_status
      coalesce_def record_failure_def keep_pending_def previous_of_def js_map_distinct)

lemma tired_document_result:
  "pending_deletes (applyAttachmentCleanupResult host0 tired_document tired_changes) = []"
  "hasFreshAttachmentCleanupWork host0 (applyAttachmentCleanupResult host0 tired_document tired_changes)"
proof -
  show none: "pending_deletes (applyAttachmentCleanupResult host0 tired_document tired_changes) = []"
    by (simp add: pending_deletes_def applyAttachmentCleanupResult_def tired_changes_def Let_def prunePendingRemoteAttachmentDeletes_def
        shouldRetainPendingRemoteAttachmentDelete_def PENDING_REMOTE_ATTACHMENT_DELETE_MAX_ATTEMPTS_def normalizePendingRemoteDeletes_def get_puts)
  have "owner_has_work host0 [] (clean_owner host0 tired_changes (JObj [(''id'', JStr ''t1''), (''attachments'', JArr [tired_attachment])]))"
    by (simp add: owner_has_work_def tired_changes_def purged_def fresh_attachment_def mark_processed_def Let_def shared_document_addresses
        owner_attachments_def clean_owner_def tired_attachment_def)
  then show "hasFreshAttachmentCleanupWork host0 (applyAttachmentCleanupResult host0 tired_document tired_changes)"
    by (simp add: hasFreshAttachmentCleanupWork_def none apply_collections Let_def) (simp add: tired_document_def tired_changes_def)
qed

theorem given_up_delete_starts_over:
  "let res = fst (runAttachmentCleanupLifecycle host0 refusing_options tired_document ())
   in \<not> isl res \<and> pending_deletes (cleaned_document (projr res)) = [] \<and> hasFreshAttachmentCleanupWork host0 (cleaned_document (projr res))"
  using tired_document_run tired_document_result by (simp add: Let_def split_beta)

end
