(* ===== verification/Recurrence_Dates.thy ===== *)
theory Recurrence_Dates
  imports Recurrence_Rule
begin

text \<open>
  The next date of a recurring task (\<^verbatim>\<open>packages/core/src/recurrence.ts\<close>, lines 684 to 945): a \<open>Date\<close>
  is its time value in milliseconds. What the code takes from outside is the record \<open>calendar\<close>: the
  local reading of an instant and the instant of a local reading, which are the time zone of the host, and
  the functions of the package \<^verbatim>\<open>date-fns\<close>. A local reading is the time value the same reading
  would have at UTC. Intervals are integers: the editor writes no others.
\<close>

section \<open>Dates\<close>

record calendar =
  wall :: "int \<Rightarrow> int"
  unwall :: "int \<Rightarrow> int"
  add_days :: "int \<Rightarrow> int \<Rightarrow> int"
  add_months :: "int \<Rightarrow> int \<Rightarrow> int"
  differenceInCalendarDays :: "int \<Rightarrow> int \<Rightarrow> int"
  format_date :: "int \<Rightarrow> string"
  format_local :: "int \<Rightarrow> string"

definition day_ms :: int where
  "day_ms = 86400000"

definition local_day :: "calendar \<Rightarrow> int \<Rightarrow> int" where
  "local_day c t = wall c t div day_ms"

definition time_of_day :: "calendar \<Rightarrow> int \<Rightarrow> int" where
  "time_of_day c t = wall c t mod day_ms"

definition year_of :: "int \<Rightarrow> int" where
  "year_of n = fst (civil_of_day n)"

text \<open>Months are counted from 0, as the language does.\<close>

definition month_of :: "int \<Rightarrow> int" where
  "month_of n = fst (snd (civil_of_day n)) - 1"

definition date_of :: "int \<Rightarrow> int" where
  "date_of n = snd (snd (civil_of_day n))"

definition weekday_of :: "int \<Rightarrow> int" where
  "weekday_of n = (n + 4) mod 7"

definition getFullYear :: "calendar \<Rightarrow> int \<Rightarrow> int" where
  "getFullYear c t = year_of (local_day c t)"

definition getMonth :: "calendar \<Rightarrow> int \<Rightarrow> int" where
  "getMonth c t = month_of (local_day c t)"

definition getDate :: "calendar \<Rightarrow> int \<Rightarrow> int" where
  "getDate c t = date_of (local_day c t)"

definition getDay :: "calendar \<Rightarrow> int \<Rightarrow> int" where
  "getDay c t = weekday_of (local_day c t)"

text \<open>\<open>MakeDay\<close> of the language standard; the constructor reads the years 0 to 99 as 1900 to 1999.\<close>

definition make_day :: "int \<Rightarrow> int \<Rightarrow> int \<Rightarrow> int" where
  "make_day y m d = day_number (y + m div 12) (m mod 12 + 1) 1 + d - 1"

definition new_date :: "calendar \<Rightarrow> int \<Rightarrow> int \<Rightarrow> int \<Rightarrow> int \<Rightarrow> int" where
  "new_date c y m d tod = unwall c (make_day (if 0 \<le> y \<and> y \<le> 99 then 1900 + y else y) m d * day_ms + tod)"

definition set_date :: "calendar \<Rightarrow> int \<Rightarrow> int \<Rightarrow> int" where
  "set_date c t d = unwall c (make_day (getFullYear c t) (getMonth c t) d * day_ms + time_of_day c t)"

definition add_weeks :: "calendar \<Rightarrow> int \<Rightarrow> int \<Rightarrow> int" where
  "add_weeks c t n = add_days c t (7 * n)"

section \<open>Intervals\<close>

datatype recurrence_rule = Daily | Weekly | Monthly | Yearly

definition getLastDayOfMonth :: "calendar \<Rightarrow> int \<Rightarrow> int \<Rightarrow> int" where
  "getLastDayOfMonth c year month = getDate c (new_date c year (month + 1) 0 0)"

definition buildDateWithTime :: "calendar \<Rightarrow> int \<Rightarrow> int \<Rightarrow> int \<Rightarrow> int \<Rightarrow> int" where
  "buildDateWithTime c year month day base = new_date c year month day (time_of_day c base)"

definition addMonthsClamped :: "calendar \<Rightarrow> int \<Rightarrow> int \<Rightarrow> int option \<Rightarrow> int" where
  "addMonthsClamped c base interval anchorDay =
     (let seed = new_date c (getFullYear c base) (getMonth c base + interval) 1 (time_of_day c base);
          year = getFullYear c seed; month = getMonth c seed;
          lastDay = getLastDayOfMonth c year month;
          day = min (case anchorDay of Some a \<Rightarrow> a | None \<Rightarrow> getDate c base) lastDay
      in buildDateWithTime c year month day base)"

definition addYearsClamped :: "calendar \<Rightarrow> int \<Rightarrow> int \<Rightarrow> int option \<Rightarrow> int" where
  "addYearsClamped c base interval anchorDay =
     (let year = getFullYear c base + interval; month = getMonth c base;
          lastDay = getLastDayOfMonth c year month;
          day = min (case anchorDay of Some a \<Rightarrow> a | None \<Rightarrow> getDate c base) lastDay
      in buildDateWithTime c year month day base)"

definition addInterval :: "calendar \<Rightarrow> int \<Rightarrow> recurrence_rule \<Rightarrow> int \<Rightarrow> int option \<Rightarrow> int" where
  "addInterval c base rule interval anchorDay =
     (case rule of
        Daily \<Rightarrow> add_days c base interval
      | Weekly \<Rightarrow> add_weeks c base interval
      | Monthly \<Rightarrow> addMonthsClamped c base interval anchorDay
      | Yearly \<Rightarrow> addYearsClamped c base interval anchorDay)"

section \<open>Weekly on given days\<close>

fun index_of :: "'a \<Rightarrow> 'a list \<Rightarrow> int" where
  "index_of x [] = - 1"
| "index_of x (y # ys) = (if x = y then 0 else (let i = index_of x ys in if i = - 1 then - 1 else i + 1))"

definition weekdayIndex :: "string \<Rightarrow> int" where
  "weekdayIndex weekday = index_of weekday WEEKDAY_ORDER"

definition orderWeekdaysByWeekStart :: "string \<Rightarrow> string list" where
  "orderWeekdaysByWeekStart weekStart =
     (let startIndex = weekdayIndex weekStart
      in if startIndex < 0 then WEEKDAY_ORDER
         else drop (nat startIndex) WEEKDAY_ORDER @ take (nat startIndex) WEEKDAY_ORDER)"

definition days_js :: "string list \<Rightarrow> js" where
  "days_js days = JArr (map JStr days)"

definition safe_interval :: "int \<Rightarrow> int" where
  "safe_interval interval = (if 0 < interval then interval else 1)"

text \<open>The offsets of a loop \<^verbatim>\<open>for (let o = 0; o <= step * n; o += step)\<close>.\<close>

definition offsets :: "int \<Rightarrow> nat \<Rightarrow> int list" where
  "offsets step n = map (\<lambda>k. int k * step) [0..<Suc n]"

definition week_candidates :: "calendar \<Rightarrow> string list \<Rightarrow> int \<Rightarrow> int \<Rightarrow> int \<Rightarrow> (int \<times> int) list" where
  "week_candidates c orderedDays weekStartIndex anchorWeekStart weekOffset =
     (let candidateWeekStart = add_weeks c anchorWeekStart weekOffset
      in map (\<lambda>weekday. (weekOffset, add_days c candidateWeekStart ((weekdayIndex weekday - weekStartIndex + 7) mod 7))) orderedDays)"

definition nextWeeklyByDay :: "calendar \<Rightarrow> int \<Rightarrow> string list \<Rightarrow> int \<Rightarrow> js \<Rightarrow> int" where
  "nextWeeklyByDay c base byDay interval weekStart =
     (let normalizedDays = normalizeWeeklyByDay (days_js byDay);
          safeInterval = safe_interval interval;
          normalizedWeekStart = the_str (coalesce (normalizeWeekStart weekStart) (JStr ''MO''));
          orderedDays = filter (\<lambda>day. day \<in> set normalizedDays) (orderWeekdaysByWeekStart normalizedWeekStart);
          weekStartIndex = weekdayIndex normalizedWeekStart;
          anchorWeekStart = set_date c base (getDate c base - (getDay c base - weekStartIndex + 7) mod 7)
      in if normalizedDays = [] then add_weeks c base interval
         else (case List.find (\<lambda>(weekOffset, candidate). \<not> (weekOffset = 0 \<and> candidate \<le> base))
                 (concat (map (week_candidates c orderedDays weekStartIndex anchorWeekStart) (offsets safeInterval 52))) of
                 Some (_, candidate) \<Rightarrow> candidate
               | None \<Rightarrow> add_weeks c base safeInterval))"

section \<open>Monthly on given days\<close>

definition getNthWeekdayOfMonth :: "calendar \<Rightarrow> int \<Rightarrow> int \<Rightarrow> string \<Rightarrow> int \<Rightarrow> int option" where
  "getNthWeekdayOfMonth c year month weekday ordinal =
     (if ordinal = 0 then None
      else if 0 < ordinal then
        (let firstWeekday = getDay c (new_date c year month 1 0);
             offset = (weekdayIndex weekday - firstWeekday + 7) mod 7;
             candidate = new_date c year month (1 + offset + (ordinal - 1) * 7) 0
         in if getMonth c candidate = month then Some candidate else None)
      else
        (let lastOfMonth = new_date c year (month + 1) 0 0;
             offset = (getDay c lastOfMonth - weekdayIndex weekday + 7) mod 7;
             candidate = new_date c year month (getDate c lastOfMonth - offset) 0
         in if getMonth c candidate = month then Some candidate else None))"

text \<open>\<^verbatim>\<open>/^(-?\d)?(SU|MO|TU|WE|TH|FR|SA)$/\<close>\<close>

definition parseOrdinalByDay :: "string \<Rightarrow> (string \<times> int option) option" where
  "parseOrdinalByDay tok =
     (let day = drop (length tok - 2) tok; sign = take (length tok - 2) tok
      in if length tok < 2 \<or> day \<notin> set WEEKDAY_ORDER then None
         else if sign = [] then Some (day, None)
         else if length sign = 1 \<and> js_digit (sign ! 0) then Some (day, Some (int (digits_nat sign)))
         else if length sign = 2 \<and> sign ! 0 = CHR ''-'' \<and> js_digit (sign ! 1) then Some (day, Some (- int (digits_nat (tl sign))))
         else None)"

definition by_day_in_month :: "calendar \<Rightarrow> int \<Rightarrow> int \<Rightarrow> int \<Rightarrow> string \<times> int option \<Rightarrow> int list" where
  "by_day_in_month c base year month candidate =
     (case snd candidate of
        Some ordinal \<Rightarrow>
          (case getNthWeekdayOfMonth c year month (fst candidate) ordinal of
             Some r \<Rightarrow> [buildDateWithTime c (getFullYear c r) (getMonth c r) (getDate c r) base]
           | None \<Rightarrow> [])
      | None \<Rightarrow>
          filter (\<lambda>r. getDay c r = weekdayIndex (fst candidate))
            (map (\<lambda>day. buildDateWithTime c year month day base) [1..getLastDayOfMonth c year month]))"

text \<open>The first month that offers a date; in the month of the base the date must be later.\<close>

fun first_in_months :: "calendar \<Rightarrow> int \<Rightarrow> (int \<Rightarrow> int \<Rightarrow> int list) \<Rightarrow> int list \<Rightarrow> int option" where
  "first_in_months c base dates [] = None"
| "first_in_months c base dates (offset # rest) =
     (let monthDate = add_months c base offset;
          filtered = sort (filter (\<lambda>d. offset = 0 \<longrightarrow> base < d) (dates (getFullYear c monthDate) (getMonth c monthDate)))
      in if filtered \<noteq> [] then Some (hd filtered) else first_in_months c base dates rest)"

definition nextMonthlyByDay :: "calendar \<Rightarrow> int \<Rightarrow> string list \<Rightarrow> int \<Rightarrow> int" where
  "nextMonthlyByDay c base byDay interval =
     (let normalized = map the_str (elems (normalizeWeekdays (days_js byDay)));
          candidates = List.map_filter parseOrdinalByDay normalized;
          safeInterval = safe_interval interval
      in if normalized = [] then add_months c base interval
         else (case first_in_months c base (\<lambda>year month. concat (map (by_day_in_month c base year month) candidates))
                 (offsets safeInterval 12) of
                 Some d \<Rightarrow> d | None \<Rightarrow> add_months c base safeInterval))"

definition month_days :: "js list \<Rightarrow> int list" where
  "month_days byMonthDay = map (\<lambda>v. \<lfloor>the_num v\<rfloor>) (elems (normalizeMonthDays (map js_string byMonthDay)))"

definition month_day_dates :: "calendar \<Rightarrow> int \<Rightarrow> int list \<Rightarrow> int \<Rightarrow> int \<Rightarrow> int list" where
  "month_day_dates c base normalized year month =
     filter (\<lambda>d. getMonth c d = month)
       (map (\<lambda>day. new_date c year (if day = - 1 then month + 1 else month) (if day = - 1 then 0 else day) (time_of_day c base)) normalized)"

definition nextMonthlyByMonthDay :: "calendar \<Rightarrow> int \<Rightarrow> js list \<Rightarrow> int \<Rightarrow> int" where
  "nextMonthlyByMonthDay c base byMonthDay interval =
     (let normalized = month_days byMonthDay; safeInterval = safe_interval interval
      in if normalized = [] then add_months c base interval
         else (case first_in_months c base (month_day_dates c base normalized) (offsets safeInterval 12) of
                 Some d \<Rightarrow> d | None \<Rightarrow> add_months c base safeInterval))"

section \<open>From text to text\<close>

definition is_date_only :: "string \<Rightarrow> bool" where
  "is_date_only s \<longleftrightarrow>
     length s = 10 \<and> list_all js_digit (take 4 s) \<and> s ! 4 = CHR ''-'' \<and> list_all js_digit (take 2 (drop 5 s))
   \<and> s ! 7 = CHR ''-'' \<and> list_all js_digit (drop 8 s)"

text \<open>\<^verbatim>\<open>/[T\s]\d{2}:\d{2}/\<close>\<close>

definition local_time_here :: "string \<Rightarrow> bool" where
  "local_time_here s \<longleftrightarrow>
     6 \<le> length s \<and> (s ! 0 = CHR ''T'' \<or> js_ws (s ! 0)) \<and> js_digit (s ! 1) \<and> js_digit (s ! 2) \<and> s ! 3 = CHR '':''
   \<and> js_digit (s ! 4) \<and> js_digit (s ! 5)"

fun hasTimeComponent :: "string \<Rightarrow> bool" where
  "hasTimeComponent [] = False"
| "hasTimeComponent (c # cs) = (local_time_here (c # cs) \<or> hasTimeComponent cs)"

record recurrence_shape =
  byDay :: "string list"
  byMonthDay :: "js list"
  weekStart :: js

definition next_date :: "calendar \<Rightarrow> recurrence_rule \<Rightarrow> recurrence_shape \<Rightarrow> int \<Rightarrow> int \<Rightarrow> int option \<Rightarrow> int" where
  "next_date c rule shape interval base anchor =
     (if rule = Weekly \<and> byDay shape \<noteq> [] then nextWeeklyByDay c base (byDay shape) interval (coalesce (weekStart shape) (JStr ''MO''))
      else if rule = Monthly \<and> byDay shape \<noteq> [] then nextMonthlyByDay c base (byDay shape) interval
      else if rule = Monthly \<and> byMonthDay shape \<noteq> [] then nextMonthlyByMonthDay c base (byMonthDay shape) interval
      else addInterval c base rule interval anchor)"

definition format_like :: "calendar \<Rightarrow> string \<Rightarrow> int \<Rightarrow> int \<Rightarrow> string" where
  "format_like c baseIso formatBase nextDate =
     (if is_date_only baseIso then format_date c nextDate
      else if has_timezone baseIso then iso_string nextDate
      else format_local c
        (if hasTimeComponent baseIso
         then buildDateWithTime c (getFullYear c nextDate) (getMonth c nextDate) (getDate c nextDate) formatBase
         else nextDate))"

definition nextIsoFrom :: "host \<Rightarrow> calendar \<Rightarrow> string \<Rightarrow> recurrence_rule \<Rightarrow> int \<Rightarrow> recurrence_shape \<Rightarrow> int \<Rightarrow> int option \<Rightarrow> int option \<Rightarrow> string" where
  "nextIsoFrom h c baseIso rule fallbackBase shape interval searchBase anchorDay =
     (let formatBase = (case safeParseDate h (JStr baseIso) of Some t \<Rightarrow> t | None \<Rightarrow> fallbackBase);
          base = (case searchBase of Some b \<Rightarrow> b | None \<Rightarrow> formatBase);
          anchor = (case anchorDay of Some a \<Rightarrow> a | None \<Rightarrow> getDate c formatBase)
      in format_like c baseIso formatBase (next_date c rule shape interval base (Some anchor)))"

definition day_aligned :: "recurrence_rule \<Rightarrow> recurrence_shape \<Rightarrow> bool" where
  "day_aligned rule shape \<longleftrightarrow>
     (rule = Weekly \<and> byDay shape \<noteq> []) \<or> (rule = Monthly \<and> (byDay shape \<noteq> [] \<or> byMonthDay shape \<noteq> []))"

definition nextFluidIsoFrom :: "host \<Rightarrow> calendar \<Rightarrow> string \<Rightarrow> recurrence_rule \<Rightarrow> int \<Rightarrow> recurrence_shape \<Rightarrow> int \<Rightarrow> string" where
  "nextFluidIsoFrom h c baseIso rule fallbackBase shape interval =
     (if \<not> day_aligned rule shape \<or> interval \<le> 1 then nextIsoFrom h c baseIso rule fallbackBase shape interval None None
      else
        let base = (case safeParseDate h (JStr baseIso) of Some t \<Rightarrow> t | None \<Rightarrow> fallbackBase);
            shiftedBase = (if rule = Weekly then add_weeks c base (interval - 1) else add_months c base (interval - 1))
        in nextIsoFrom h c baseIso rule fallbackBase shape 1 (Some shiftedBase) None)"

section \<open>Months as numbers\<close>

text \<open>A month is the number of months since year 0.\<close>

definition month_index :: "int \<Rightarrow> int" where
  "month_index n = 12 * year_of n + month_of n"

definition first_day :: "int \<Rightarrow> int" where
  "first_day i = day_number (i div 12) (i mod 12 + 1) 1"

definition month_length :: "int \<Rightarrow> int" where
  "month_length i = days_in_month (i div 12) (i mod 12 + 1)"

lemma make_day_first: "make_day y m d = first_day (12 * y + m) + d - 1"
  by (simp add: make_day_def first_day_def)

lemma month_length_bounds: "28 \<le> month_length i" "month_length i \<le> 31"
  by (auto simp: month_length_def days_in_month_def)

lemma div_12: "0 \<le> (s :: int) \<Longrightarrow> s < 12 \<Longrightarrow> (12 * q + s) div 12 = q \<and> (12 * q + s) mod 12 = s"
  by simp

lemma month_start_Suc:
  assumes "1 \<le> m" "m \<le> 12"
  shows "month_start y (m + 1) = month_start y m + days_in_month y m"
proof -
  have "m = 1 \<or> m = 2 \<or> m = 3 \<or> m = 4 \<or> m = 5 \<or> m = 6 \<or> m = 7 \<or> m = 8 \<or> m = 9 \<or> m = 10 \<or> m = 11 \<or> m = 12"
    using assms by presburger
  then show ?thesis by (elim disjE) (simp_all add: month_start_def days_in_month_def)
qed

lemma first_day_Suc: "first_day (i + 1) = first_day i + month_length i"
proof (cases "i mod 12 = 11")
  case True
  have "i + 1 = 12 * (q + 1) + 0" if "12 * q + 11 = i" for q using that by simp
  then have "i + 1 = 12 * (i div 12 + 1) + 0" using True mult_div_mod_eq [of 12 i] by simp
  then have "(i + 1) div 12 = i div 12 + 1" "(i + 1) mod 12 = 0" using div_12 [of 0 "i div 12 + 1"] by (metis order_refl zero_less_numeral)+
  then show ?thesis
    using True by (simp add: first_day_def month_length_def day_number_def day_from_year_Suc month_start_def days_in_month_def)
next
  case False
  have "0 \<le> i mod 12" "i mod 12 < 12" by simp_all
  with False have "0 \<le> i mod 12 + 1" "i mod 12 + 1 < 12" by linarith+
  have "i + 1 = 12 * (i div 12) + (i mod 12 + 1)" by simp
  with \<open>0 \<le> i mod 12 + 1\<close> \<open>i mod 12 + 1 < 12\<close> have "(i + 1) div 12 = i div 12" "(i + 1) mod 12 = i mod 12 + 1" using div_12 [of "i mod 12 + 1" "i div 12"] by metis+
  then show ?thesis
    using \<open>0 \<le> i mod 12 + 1\<close> \<open>i mod 12 + 1 < 12\<close> month_start_Suc [of "i mod 12 + 1" "i div 12"]
    by (simp add: first_day_def month_length_def day_number_def)
qed

lemma first_day_mono: "i \<le> j \<Longrightarrow> first_day i \<le> first_day j"
proof (induction j rule: int_ge_induct)
  case (step j)
  then show ?case using first_day_Suc [of j] month_length_bounds(1) [of j] by simp
qed simp

lemma month_index_bounds: "first_day (month_index n) \<le> n" "n < first_day (month_index n) + month_length (month_index n)"
  and date_of_day: "date_of n = n - first_day (month_index n) + 1"
  and month_of_bounds: "0 \<le> month_of n" "month_of n \<le> 11"
proof -
  obtain y m d where civil: "civil_of_day n = (y, m, d)" by (cases "civil_of_day n")
  note facts = civil_of_day [OF civil]
  have "12 * y + (m - 1) = month_index n" using civil by (simp add: month_index_def year_of_def month_of_def)
  moreover have "(12 * y + (m - 1)) div 12 = y" "(12 * y + (m - 1)) mod 12 = m - 1" using facts(1,2) by simp_all
  ultimately have "first_day (month_index n) = day_number y m 1" "month_length (month_index n) = days_in_month y m"
    by (auto simp: first_day_def month_length_def)
  then show "first_day (month_index n) \<le> n" "n < first_day (month_index n) + month_length (month_index n)"
    "date_of n = n - first_day (month_index n) + 1" "0 \<le> month_of n" "month_of n \<le> 11"
    using facts civil by (auto simp: day_number_def date_of_def month_of_def)
qed

lemma month_index_unique: "first_day i \<le> n \<Longrightarrow> n < first_day i + month_length i \<Longrightarrow> month_index n = i"
proof -
  assume n: "first_day i \<le> n" "n < first_day i + month_length i"
  have "\<not> i < month_index n" using first_day_mono [of "i + 1" "month_index n"] month_index_bounds(1) [of n] n by (auto simp: first_day_Suc)
  moreover have "\<not> month_index n < i" using first_day_mono [of "month_index n + 1" i] month_index_bounds(2) [of n] n by (auto simp: first_day_Suc)
  ultimately show ?thesis by simp
qed

lemma month_index_mono: "n \<le> n' \<Longrightarrow> month_index n \<le> month_index n'"
  using first_day_mono [of "month_index n' + 1" "month_index n"] month_index_bounds [of n] month_index_bounds [of n']
  by (fastforce simp: first_day_Suc)

lemma later_month: "month_index n < month_index n' \<Longrightarrow> n < n'"
  using month_index_mono [of n' n] by linarith

lemma month_index_parts: "year_of n = month_index n div 12" "month_of n = month_index n mod 12"
  using month_of_bounds [of n] by (simp_all add: month_index_def)

lemma date_of_bounds: "1 \<le> date_of n" "date_of n \<le> month_length (month_index n)"
  using month_index_bounds [of n] by (simp_all add: date_of_day)

lemma date_in_month: "1 \<le> d \<Longrightarrow> d \<le> month_length i \<Longrightarrow> month_index (first_day i + d - 1) = i \<and> date_of (first_day i + d - 1) = d"
  using month_index_unique [of i "first_day i + d - 1"] by (simp add: date_of_day)

section \<open>Calendars without gaps\<close>

text \<open>
  What is assumed of the zone and the package: every local reading exists; a reading not later than the one
  of an instant has been reached by then, and one at least a day later has not; adding days changes the
  day of the local reading and adding months its month. A zone whose offset is constant is of this kind.
\<close>

definition gapless :: "calendar \<Rightarrow> bool" where
  "gapless c \<longleftrightarrow> (\<forall>w. wall c (unwall c w) = w)
     \<and> (\<forall>t w. w \<le> wall c t \<longrightarrow> unwall c w \<le> t) \<and> (\<forall>t w. wall c t + day_ms \<le> w \<longrightarrow> t < unwall c w)
     \<and> (\<forall>t n. add_days c t n = (if n = 0 then t else unwall c (wall c t + n * day_ms)))
     \<and> (\<forall>t n. month_index (local_day c (add_months c t n)) = month_index (local_day c t) + n)"

lemma gaplessD:
  assumes "gapless c"
  shows "wall c (unwall c w) = w" "w \<le> wall c t \<Longrightarrow> unwall c w \<le> t" "wall c t + day_ms \<le> w \<Longrightarrow> t < unwall c w"
    "add_days c t n = (if n = 0 then t else unwall c (wall c t + n * day_ms))"
    "month_index (local_day c (add_months c t n)) = month_index (local_day c t) + n"
  using assms unfolding gapless_def by blast+

lemma wall_split: "wall c t = local_day c t * day_ms + time_of_day c t"
  by (simp add: local_day_def time_of_day_def)

lemma time_of_day_bounds: "0 \<le> time_of_day c t" "time_of_day c t < day_ms"
  by (simp_all add: time_of_day_def day_ms_def)

lemma at_day:
  assumes "gapless c" "0 \<le> tod" "tod < day_ms"
  shows "local_day c (unwall c (n * day_ms + tod)) = n" "time_of_day c (unwall c (n * day_ms + tod)) = tod"
  using assms by (simp_all add: local_day_def time_of_day_def gaplessD(1) [OF assms(1)] day_ms_def)

text \<open>The same time on another day is later exactly when the day is.\<close>

lemma later_iff:
  assumes "gapless c"
  shows "t < unwall c (n * day_ms + time_of_day c t) \<longleftrightarrow> local_day c t < n"
proof
  assume late: "t < unwall c (n * day_ms + time_of_day c t)"
  show "local_day c t < n"
  proof (rule ccontr)
    assume "\<not> local_day c t < n"
    then have "n * day_ms + time_of_day c t \<le> wall c t" by (simp add: wall_split [of c t] day_ms_def)
    then show False using gaplessD(2) [OF assms] late by force
  qed
next
  assume "local_day c t < n"
  then have "wall c t + day_ms \<le> n * day_ms + time_of_day c t" by (simp add: wall_split [of c t] day_ms_def)
  then show "t < unwall c (n * day_ms + time_of_day c t)" using gaplessD(3) [OF assms] by blast
qed

lemma earlier_day: "gapless c \<Longrightarrow> 0 \<le> tod \<Longrightarrow> tod < day_ms \<Longrightarrow> n < n' \<Longrightarrow> unwall c (n * day_ms + tod) < unwall c (n' * day_ms + tod)"
  using later_iff [of c "unwall c (n * day_ms + tod)" n'] at_day [of c tod n] by simp

section \<open>Clamped months\<close>

lemma month_index_0: "month_index 0 = 23640"
  by code_simp

lemma first_day_1970: "first_day 23640 = 0"
  by code_simp

lemma modern_year: "0 \<le> n \<Longrightarrow> 1970 \<le> year_of n"
  using month_index_mono [of 0 n] by (simp add: month_index_0 month_index_parts)

lemma new_date_day:
  assumes "gapless c" "99 < y" "0 \<le> tod" "tod < day_ms"
  shows "new_date c y m d tod = unwall c ((first_day (12 * y + m) + d - 1) * day_ms + tod)"
    "local_day c (new_date c y m d tod) = first_day (12 * y + m) + d - 1" "time_of_day c (new_date c y m d tod) = tod"
  using assms at_day [of c tod] by (simp_all add: new_date_def make_day_first)

lemma last_day:
  assumes "gapless c" "99 < y"
  shows "getLastDayOfMonth c y m = month_length (12 * y + m)"
proof -
  have "local_day c (new_date c y (m + 1) 0 0) = first_day (12 * y + m) + month_length (12 * y + m) - 1"
    using new_date_day(2) [OF assms, of 0 "m + 1" 0] first_day_Suc [of "12 * y + m"] by (simp add: day_ms_def add.assoc)
  then show ?thesis
    using date_in_month [of "month_length (12 * y + m)" "12 * y + m"] month_length_bounds(1) [of "12 * y + m"]
    by (simp add: getLastDayOfMonth_def getDate_def)
qed

lemma month_parts: "12 * getFullYear c t + getMonth c t = month_index (local_day c t)"
  by (simp add: getFullYear_def getMonth_def month_index_def)

lemma addMonthsClamped_value:
  assumes c: "gapless c" and base: "0 \<le> local_day c base" and "0 \<le> interval"
  defines "i \<equiv> month_index (local_day c base) + interval"
  shows "addMonthsClamped c base interval anchor =
    unwall c ((first_day i + min (case anchor of Some a \<Rightarrow> a | None \<Rightarrow> getDate c base) (month_length i) - 1) * day_ms + time_of_day c base)"
proof -
  let ?seed = "new_date c (getFullYear c base) (getMonth c base + interval) 1 (time_of_day c base)"
  have y: "99 < getFullYear c base" using modern_year [OF base] by (simp add: getFullYear_def)
  have i: "12 * getFullYear c base + (getMonth c base + interval) = i" using month_parts [of c base] by (simp add: i_def)
  have seed: "local_day c ?seed = first_day i"
    using new_date_day(2) [OF c y time_of_day_bounds [of c base], of "getMonth c base + interval" 1] i by simp
  have "month_index (local_day c ?seed) = i"
    using date_in_month [of 1 i] month_length_bounds(1) [of i] by (simp add: seed)
  then have s: "12 * getFullYear c ?seed + getMonth c ?seed = i" by (simp add: month_parts)
  have "first_day 23640 \<le> first_day i"
    using first_day_mono month_index_mono [OF base] \<open>0 \<le> interval\<close> by (simp add: month_index_0 i_def)
  then have "0 \<le> first_day i" by (simp add: first_day_1970)
  then have "1970 \<le> getFullYear c ?seed" using modern_year [of "first_day i"] by (simp only: getFullYear_def [of c ?seed] seed)
  then have "99 < getFullYear c ?seed" by simp
  then show ?thesis
    using last_day [OF c, of "getFullYear c ?seed" "getMonth c ?seed"]
      new_date_day(1) [OF c _ time_of_day_bounds [of c base], of "getFullYear c ?seed" "getMonth c ?seed"] s
    by (simp add: addMonthsClamped_def buildDateWithTime_def Let_def)
qed

lemma addMonthsClamped_lands:
  assumes c: "gapless c" and base: "0 \<le> local_day c base" and "0 \<le> interval" "1 \<le> a"
  defines "i \<equiv> month_index (local_day c base) + interval" and "r \<equiv> addMonthsClamped c base interval (Some a)"
  shows "month_index (local_day c r) = i" "getDate c r = min a (month_length i)" "time_of_day c r = time_of_day c base" "0 \<le> local_day c r"
proof -
  have day: "local_day c r = first_day i + min a (month_length i) - 1" "time_of_day c r = time_of_day c base"
    using addMonthsClamped_value [OF c base \<open>0 \<le> interval\<close>, of "Some a"] at_day [OF c time_of_day_bounds]
    by (simp_all add: r_def i_def)
  moreover have "1 \<le> min a (month_length i)" using assms(4) month_length_bounds(1) [of i] by simp
  ultimately show "month_index (local_day c r) = i" "getDate c r = min a (month_length i)" "time_of_day c r = time_of_day c base"
    using date_in_month [of "min a (month_length i)" i] by (simp_all add: getDate_def)
  have "month_index 0 \<le> i" using month_index_mono [OF base] \<open>0 \<le> interval\<close> by (simp add: i_def)
  then have "first_day (month_index 0) \<le> first_day i" by (rule first_day_mono)
  moreover have "first_day (month_index 0) = 0" by (simp add: month_index_0 first_day_1970)
  ultimately show "0 \<le> local_day c r" using day(1) \<open>1 \<le> min a (month_length i)\<close> by linarith
qed

section \<open>The calendar at UTC\<close>

definition utc :: calendar where
  "utc = \<lparr>wall = (\<lambda>t. t), unwall = (\<lambda>w. w), add_days = (\<lambda>t n. t + n * day_ms),
     add_months = (\<lambda>t n. let i = month_index (t div day_ms) + n in (first_day i + min (date_of (t div day_ms)) (month_length i) - 1) * day_ms + t mod day_ms),
     differenceInCalendarDays = (\<lambda>a b. a div day_ms - b div day_ms), format_date = (\<lambda>t. take 10 (iso_string t)), format_local = (\<lambda>t. take 16 (iso_string t))\<rparr>"

lemma wall_utc: "wall utc t = t"
  by (simp add: utc_def)

lemma gapless_utc: "gapless utc"
proof -
  have "month_index (((first_day i + min (date_of n) (month_length i) - 1) * day_ms + t mod day_ms) div day_ms) = i" for i n t :: int
  proof -
    have "((first_day i + min (date_of n) (month_length i) - 1) * day_ms + t mod day_ms) div day_ms = first_day i + min (date_of n) (month_length i) - 1"
      by (simp add: day_ms_def)
    then show ?thesis
      using date_in_month [of "min (date_of n) (month_length i)" i] date_of_bounds(1) [of n] month_length_bounds(1) [of i] by simp
  qed
  then show ?thesis by (simp add: gapless_def utc_def local_day_def Let_def day_ms_def)
qed

text \<open>
  Monthly steps with an anchor day do not drift: a date after any number of months lies in the month that many
  months on, at the same time, on the anchor day or the last day of a shorter month, and two steps are
  one long step; so February does not pull a task on the 31st down to the 28th for good.
\<close>

theorem anchored_months_do_not_drift:
  assumes "gapless c" "0 \<le> local_day c base" "0 \<le> m" "0 \<le> n" "1 \<le> a"
  shows "month_index (local_day c (addMonthsClamped c base n (Some a))) = month_index (local_day c base) + n
    \<and> getDate c (addMonthsClamped c base n (Some a)) = min a (month_length (month_index (local_day c base) + n))
    \<and> time_of_day c (addMonthsClamped c base n (Some a)) = time_of_day c base
    \<and> addMonthsClamped c (addMonthsClamped c base m (Some a)) n (Some a) = addMonthsClamped c base (m + n) (Some a)"
proof -
  note here = addMonthsClamped_lands [OF assms(1,2,3,5)]
  have "addMonthsClamped c (addMonthsClamped c base m (Some a)) n (Some a) = addMonthsClamped c base (m + n) (Some a)"
    using addMonthsClamped_value [OF assms(1) here(4) \<open>0 \<le> n\<close>, of "Some a"] addMonthsClamped_value [OF assms(1,2), of "m + n" "Some a"]
      here assms(3,4) by (simp add: add.assoc)
  then show ?thesis using addMonthsClamped_lands [OF assms(1,2,4,5)] by simp
qed

theorem anchored_months_do_not_drift_witness:
  "getDate utc (addMonthsClamped utc (30 * day_ms) 1 (Some 31)) = 28
   \<and> getDate utc (addMonthsClamped utc (addMonthsClamped utc (30 * day_ms) 1 (Some 31)) 1 (Some 31)) = 31"
proof -
  have "local_day utc (30 * day_ms) = 30" by (simp add: local_day_def wall_utc day_ms_def)
  moreover have "month_index 30 = 23640" "month_length 23641 = 28" "month_length 23642 = 31" by code_simp+
  ultimately show ?thesis
    using anchored_months_do_not_drift [OF gapless_utc, of "30 * day_ms" 1 1 31] anchored_months_do_not_drift [OF gapless_utc, of "30 * day_ms" 0 2 31]
      anchored_months_do_not_drift [OF gapless_utc, of "30 * day_ms" 0 1 31] by simp
qed

end
