(* ===== verification/Recurrence_Task.thy ===== *)
theory Recurrence_Task
  imports Recurrence_Dates Task_Status
begin

text \<open>
  The next instance of a recurring task (\<^verbatim>\<open>packages/core/src/recurrence.ts\<close>, lines 452 to 682, 947 to 1123 and
  1691 to 1890, with \<^verbatim>\<open>task-relative-start.ts\<close>): what a recurrence value says, the schedule fields rebuilt
  around the next date, and \<open>createNextRecurringTask\<close>. A schedule field is the text of a date or absent,
  the empty text being absent; the identifiers \<open>uuidv4\<close> hands out are the values of a function of their
  number.
\<close>

section \<open>Reading a recurrence value\<close>

text \<open>\<open>typeof value === 'object'\<close> for a value that is not null.\<close>

definition is_object :: "js \<Rightarrow> bool" where
  "is_object v \<longleftrightarrow> is_obj v \<or> is_arr v"

definition rule_named :: "js \<Rightarrow> recurrence_rule option" where
  "rule_named v =
     (if v = JStr ''daily'' then Some Daily else if v = JStr ''weekly'' then Some Weekly
      else if v = JStr ''monthly'' then Some Monthly else if v = JStr ''yearly'' then Some Yearly else None)"

fun rule_text :: "recurrence_rule \<Rightarrow> string" where
  "rule_text Daily = ''daily''"
| "rule_text Weekly = ''weekly''"
| "rule_text Monthly = ''monthly''"
| "rule_text Yearly = ''yearly''"

definition rrule_of :: "host \<Rightarrow> js \<Rightarrow> js" where
  "rrule_of h v = parseRRuleString h (the_str (get v ''rrule''))"

definition getRecurrenceRule :: "host \<Rightarrow> js \<Rightarrow> recurrence_rule option" where
  "getRecurrenceRule h v =
     (if is_str v then rule_named v
      else if is_object v then
        (case rule_named (get v ''rule'') of
           Some r \<Rightarrow> Some r
         | None \<Rightarrow> if truthy (get v ''rrule'') then rule_named (get (rrule_of h v) ''rule'') else None)
      else None)"

datatype recurrence_strategy = Strict | Fluid

definition getRecurrenceStrategy :: "js \<Rightarrow> recurrence_strategy" where
  "getRecurrenceStrategy v = (if is_object v \<and> get v ''strategy'' = JStr ''fluid'' then Fluid else Strict)"

text \<open>\<open>!value || typeof value === 'string'\<close>\<close>

definition plain_recurrence :: "js \<Rightarrow> bool" where
  "plain_recurrence v \<longleftrightarrow> \<not> truthy v \<or> is_str v"

definition getRecurrenceByDay :: "host \<Rightarrow> js \<Rightarrow> js" where
  "getRecurrenceByDay h v =
     (if plain_recurrence v then JUndef
      else
        let explicit = normalizeWeekdays (get v ''byDay'')
        in if elems explicit \<noteq> [] then explicit
           else if truthy (get v ''rrule'') then get (rrule_of h v) ''byDay'' else JUndef)"

definition getRecurrenceByMonthDay :: "host \<Rightarrow> js \<Rightarrow> js" where
  "getRecurrenceByMonthDay h v =
     (if plain_recurrence v then JUndef
      else
        let explicit = (if is_arr (get v ''byMonthDay'') then normalizeMonthDays (map js_string (elems (get v ''byMonthDay''))) else JUndef)
        in if elems explicit \<noteq> [] then explicit
           else if truthy (get v ''rrule'') then get (rrule_of h v) ''byMonthDay'' else JUndef)"

text \<open>An interval that is not an integer counts as the integer below it.\<close>

definition getRecurrenceInterval :: "host \<Rightarrow> js \<Rightarrow> int" where
  "getRecurrenceInterval h v =
     (if plain_recurrence v then 1
      else if truthy (get v ''rrule'') \<and> 0 < the_num (get (rrule_of h v) ''interval'')
      then \<lfloor>the_num (get (rrule_of h v) ''interval'')\<rfloor> else 1)"

definition getRecurrenceWeekStart :: "host \<Rightarrow> js \<Rightarrow> js" where
  "getRecurrenceWeekStart h v =
     (if plain_recurrence v then JUndef
      else
        let explicit = normalizeWeekStart (get v ''weekStart'')
        in if truthy explicit then explicit
           else if truthy (get v ''rrule'') then get (rrule_of h v) ''weekStart'' else JUndef)"

definition getRecurrenceCountValue :: "host \<Rightarrow> js \<Rightarrow> js" where
  "getRecurrenceCountValue h v =
     (if plain_recurrence v then JUndef
      else if finite_num (get v ''count'') \<and> positive_js (get v ''count'') then round_js (get v ''count'')
      else if truthy (get v ''rrule'') \<and> positive_js (get (rrule_of h v) ''count'') then get (rrule_of h v) ''count''
      else JUndef)"

definition getRecurrenceUntilValue :: "host \<Rightarrow> js \<Rightarrow> js" where
  "getRecurrenceUntilValue h v =
     (if plain_recurrence v then JUndef
      else if truthy (get v ''until'') then get v ''until''
      else if truthy (get v ''rrule'') then get (rrule_of h v) ''until'' else JUndef)"

definition getRecurrenceCompletedOccurrencesValue :: "js \<Rightarrow> js" where
  "getRecurrenceCompletedOccurrencesValue v =
     (if plain_recurrence v then JUndef
      else (case get v ''completedOccurrences'' of
              JNum q \<Rightarrow> if q < 0 then JUndef else JNum (of_int \<lfloor>q\<rfloor>)
            | _ \<Rightarrow> JUndef))"

section \<open>Schedule fields and their anchor days\<close>

datatype schedule_field = StartTime | DueDate | ReviewAt

fun field_key :: "schedule_field \<Rightarrow> string" where
  "field_key StartTime = ''startTime''"
| "field_key DueDate = ''dueDate''"
| "field_key ReviewAt = ''reviewAt''"

fun anchor_key :: "schedule_field \<Rightarrow> string" where
  "anchor_key StartTime = ''startAnchorDay''"
| "anchor_key DueDate = ''dueAnchorDay''"
| "anchor_key ReviewAt = ''reviewAnchorDay''"

type_synonym schedule = "schedule_field \<Rightarrow> string option"

definition text_of :: "js \<Rightarrow> string option" where
  "text_of v = (case v of JStr s \<Rightarrow> if s = [] then None else Some s | _ \<Rightarrow> None)"

definition js_of_text :: "string option \<Rightarrow> js" where
  "js_of_text t = (case t of Some s \<Rightarrow> JStr s | None \<Rightarrow> JUndef)"

definition dates_of :: "js \<Rightarrow> schedule" where
  "dates_of task f = text_of (get task (field_key f))"

definition parse_text :: "host \<Rightarrow> string option \<Rightarrow> int option" where
  "parse_text h t = (case t of Some s \<Rightarrow> safeParseDate h (JStr s) | None \<Rightarrow> None)"

fun or_none :: "'a option \<Rightarrow> 'a option \<Rightarrow> 'a option" where
  "or_none (Some x) _ = Some x"
| "or_none None y = y"

definition anchor_of :: "js \<Rightarrow> int option" where
  "anchor_of v = (case normalizeAnchorDay v of JNum q \<Rightarrow> Some \<lfloor>q\<rfloor> | _ \<Rightarrow> None)"

definition getRecurrenceFieldAnchorDay :: "js \<Rightarrow> schedule_field \<Rightarrow> int option" where
  "getRecurrenceFieldAnchorDay v field = (if plain_recurrence v then None else anchor_of (get v (anchor_key field)))"

definition getDateDay :: "host \<Rightarrow> calendar \<Rightarrow> string option \<Rightarrow> int option" where
  "getDateDay h c t = map_option (getDate c) (parse_text h t)"

definition getRecurrenceScheduleAnchorField :: "schedule \<Rightarrow> schedule_field option" where
  "getRecurrenceScheduleAnchorField dates = List.find (\<lambda>f. dates f \<noteq> None) [DueDate, StartTime, ReviewAt]"

definition global_anchor :: "js \<Rightarrow> int option" where
  "global_anchor recurrence = (if is_object recurrence then anchor_of (get recurrence ''anchorDay'') else None)"

definition resolveRecurrenceFieldAnchorDays :: "host \<Rightarrow> calendar \<Rightarrow> js \<Rightarrow> schedule \<Rightarrow> schedule_field \<Rightarrow> int option" where
  "resolveRecurrenceFieldAnchorDays h c recurrence dates field =
     (let ownerField = (if dates DueDate \<noteq> None then Some DueDate
                        else if dates StartTime \<noteq> None then Some StartTime
                        else if dates ReviewAt \<noteq> None then Some ReviewAt else None)
      in or_none (getRecurrenceFieldAnchorDay recurrence field)
           (or_none (if Some field = ownerField then global_anchor recurrence else None)
             (getDateDay h c (dates field))))"

definition js_of_int :: "int option \<Rightarrow> js" where
  "js_of_int n = (case n of Some k \<Rightarrow> JNum (of_int k) | None \<Rightarrow> JUndef)"

definition getNextRecurrenceAnchorDays :: "host \<Rightarrow> calendar \<Rightarrow> js \<Rightarrow> recurrence_rule \<Rightarrow> (string \<times> js) list" where
  "getNextRecurrenceAnchorDays h c task rule =
     (if rule \<noteq> Monthly \<and> rule \<noteq> Yearly then []
      else
        let days = resolveRecurrenceFieldAnchorDays h c (get task ''recurrence'') (dates_of task);
            anchorDay = or_none (global_anchor (get task ''recurrence''))
              (or_none (days DueDate) (or_none (days StartTime) (days ReviewAt)));
            entry = (\<lambda>k d. entry_if (truthy (js_of_int d)) k (js_of_int d))
        in entry ''anchorDay'' anchorDay @ entry ''startAnchorDay'' (days StartTime)
           @ entry ''dueAnchorDay'' (days DueDate) @ entry ''reviewAnchorDay'' (days ReviewAt))"

section \<open>Schedule fields rebuilt around a date\<close>

definition preserveDateOnlyFormat :: "host \<Rightarrow> calendar \<Rightarrow> string option \<Rightarrow> string option \<Rightarrow> string option" where
  "preserveDateOnlyFormat h c nextIso sourceIso =
     (case (nextIso, sourceIso) of
        (Some n, Some s) \<Rightarrow>
          if is_date_only s then (case safeParseDate h (JStr n) of Some t \<Rightarrow> Some (format_date c t) | None \<Rightarrow> Some n) else Some n
      | _ \<Rightarrow> nextIso)"

definition set_time :: "calendar \<Rightarrow> int \<Rightarrow> int \<Rightarrow> int" where
  "set_time c t source = unwall c (local_day c t * day_ms + time_of_day c source)"

definition format_shifted :: "calendar \<Rightarrow> string \<Rightarrow> int \<Rightarrow> string" where
  "format_shifted c sourceIso t =
     (if is_date_only sourceIso then format_date c t
      else if has_timezone sourceIso then iso_string t
      else format_local c t)"

definition shiftScheduleFieldFromAnchor :: "host \<Rightarrow> calendar \<Rightarrow> string \<Rightarrow> string \<Rightarrow> string \<Rightarrow> string" where
  "shiftScheduleFieldFromAnchor h c sourceIso sourceAnchorIso nextAnchorIso =
     (case (safeParseDate h (JStr sourceIso), safeParseDate h (JStr sourceAnchorIso), safeParseDate h (JStr nextAnchorIso)) of
        (Some source, Some sourceAnchor, Some nextAnchor) \<Rightarrow>
          (let shifted = add_days c nextAnchor (differenceInCalendarDays c source sourceAnchor)
           in format_shifted c sourceIso (set_time c shifted source))
      | _ \<Rightarrow> sourceIso)"

definition rebuildScheduleFieldsFromAnchor :: "host \<Rightarrow> calendar \<Rightarrow> schedule \<Rightarrow> schedule_field \<Rightarrow> string \<Rightarrow> schedule" where
  "rebuildScheduleFieldsFromAnchor h c sourceDates anchorField nextAnchorIso field =
     (case sourceDates anchorField of
        None \<Rightarrow> None
      | Some sourceAnchorIso \<Rightarrow>
          (case sourceDates field of
             None \<Rightarrow> None
           | Some sourceIso \<Rightarrow>
               if field = anchorField then preserveDateOnlyFormat h c (Some nextAnchorIso) (Some sourceIso)
               else Some (shiftScheduleFieldFromAnchor h c sourceIso sourceAnchorIso nextAnchorIso)))"

text \<open>Each item takes the next identifier, the first the one with number \<open>n\<close>.\<close>

definition resetChecklist :: "(nat \<Rightarrow> string) \<Rightarrow> nat \<Rightarrow> js \<Rightarrow> js" where
  "resetChecklist uuid n checklist =
     (if elems checklist = [] then JUndef
      else JArr (map (\<lambda>(k, item). puts item [(''id'', JStr (uuid (n + k))), (''isCompleted'', JBool False)])
             (zip [0..<length (elems checklist)] (elems checklist))))"

definition shouldStopAtUntil :: "host \<Rightarrow> calendar \<Rightarrow> string option \<Rightarrow> js \<Rightarrow> bool" where
  "shouldStopAtUntil h c nextIso until =
     (case parse_text h nextIso of
        None \<Rightarrow> False
      | Some nextDate \<Rightarrow>
          if \<not> truthy until then False
          else if is_date_only (the_str until) then the_str until < format_date c nextDate
          else (case safeParseDate h until of None \<Rightarrow> False | Some untilDate \<Rightarrow> untilDate < nextDate))"

section \<open>A start relative to the due date\<close>

definition formatLocalDate :: "calendar \<Rightarrow> int \<Rightarrow> string" where
  "formatLocalDate c t =
     int_str (getFullYear c t) @ ''-'' @ pad_num 2 (getMonth c t + 1) @ ''-'' @ pad_num 2 (getDate c t)"

definition formatLocalDateTime :: "calendar \<Rightarrow> int \<Rightarrow> string" where
  "formatLocalDateTime c t =
     formatLocalDate c t @ ''T'' @ pad_num 2 (time_of_day c t div 3600000) @ '':'' @ pad_num 2 (time_of_day c t div 60000 mod 60)"

definition isSubDayOffset :: "js \<Rightarrow> bool" where
  "isSubDayOffset offset \<longleftrightarrow> get offset ''unit'' = JStr ''minute'' \<or> get offset ''unit'' = JStr ''hour''"

text \<open>The setters move the local reading; a stored offset has one of the four units.\<close>

definition addOffset :: "calendar \<Rightarrow> int \<Rightarrow> js \<Rightarrow> int" where
  "addOffset c date offset =
     (let amount = \<lfloor>the_num (get offset ''amount'')\<rfloor>;
          unit = (if get offset ''unit'' = JStr ''minute'' then 60000
                  else if get offset ''unit'' = JStr ''hour'' then 3600000
                  else if get offset ''unit'' = JStr ''day'' then day_ms else 7 * day_ms)
      in unwall c (wall c date + amount * unit))"

definition computeRelativeStartTime :: "host \<Rightarrow> calendar \<Rightarrow> string option \<Rightarrow> js \<Rightarrow> string option" where
  "computeRelativeStartTime h c dueDate offset =
     (case dueDate of
        None \<Rightarrow> None
      | Some text \<Rightarrow>
          if \<not> truthy offset then None
          else (case safeParseDate h (JStr text) of
            None \<Rightarrow> None
          | Some due \<Rightarrow>
              if \<not> hasTimeComponent text \<and> isSubDayOffset offset then None
              else
                let computed = addOffset c due offset
                in Some (if has_timezone text then iso_string computed
                         else if \<not> hasTimeComponent text \<and> \<not> isSubDayOffset offset then formatLocalDate c computed
                         else formatLocalDateTime c computed)))"

section \<open>The first occurrence after a date\<close>

text \<open>\<open>Date.UTC(...) / 86_400_000\<close> on the local date.\<close>

definition calendarDayNumber :: "calendar \<Rightarrow> int \<Rightarrow> int" where
  "calendarDayNumber c t =
     (let y = getFullYear c t in make_day (if 0 \<le> y \<and> y \<le> 99 then 1900 + y else y) (getMonth c t) (getDate c t))"

definition estimatedSteps :: "calendar \<Rightarrow> recurrence_rule \<Rightarrow> int \<Rightarrow> int \<Rightarrow> int \<Rightarrow> int" where
  "estimatedSteps c rule safeInterval parsedBase projectionBase =
     (let calendarDayDelta = max 0 (calendarDayNumber c projectionBase - calendarDayNumber c parsedBase);
          calendarMonthDelta = max 0 ((getFullYear c projectionBase - getFullYear c parsedBase) * 12
            + getMonth c projectionBase - getMonth c parsedBase);
          calendarYearDelta = max 0 (getFullYear c projectionBase - getFullYear c parsedBase)
      in (case rule of
            Daily \<Rightarrow> calendarDayDelta div safeInterval
          | Weekly \<Rightarrow> calendarDayDelta div (safeInterval * 7)
          | Monthly \<Rightarrow> calendarMonthDelta div safeInterval
          | Yearly \<Rightarrow> calendarYearDelta div safeInterval))"

text \<open>The stepping loop: at most \<open>guard\<close> more steps, while the date is not after the boundary.\<close>

fun step_past :: "host \<Rightarrow> (string \<Rightarrow> string) \<Rightarrow> int \<Rightarrow> nat \<Rightarrow> string \<Rightarrow> nat \<Rightarrow> string \<times> nat" where
  "step_past h following projectionBase 0 nextIso steps = (nextIso, steps)"
| "step_past h following projectionBase (Suc guard) nextIso steps =
     (case safeParseDate h (JStr nextIso) of
        None \<Rightarrow> (nextIso, steps)
      | Some parsedNext \<Rightarrow>
          if projectionBase < parsedNext then (nextIso, steps)
          else if following nextIso = nextIso then (nextIso, steps)
          else step_past h following projectionBase guard (following nextIso) (Suc steps))"

definition simple_shape :: "js \<Rightarrow> recurrence_shape" where
  "simple_shape ws = \<lparr>byDay = [], byMonthDay = [], weekStart = ws\<rparr>"

definition skipped_steps :: "host \<Rightarrow> calendar \<Rightarrow> string \<Rightarrow> recurrence_rule \<Rightarrow> int \<Rightarrow> recurrence_shape \<Rightarrow> int \<Rightarrow> int" where
  "skipped_steps h c baseIso rule projectionBase shape safeInterval =
     (case safeParseDate h (JStr baseIso) of
        None \<Rightarrow> 0
      | Some parsedBase \<Rightarrow>
          if parsedBase < projectionBase \<and> byDay shape = [] \<and> byMonthDay shape = []
          then max 0 (estimatedSteps c rule safeInterval parsedBase projectionBase - 1) else 0)"

definition projectStrictIsoFrom :: "host \<Rightarrow> calendar \<Rightarrow> string \<Rightarrow> recurrence_rule \<Rightarrow> int \<Rightarrow> recurrence_shape \<Rightarrow> int \<Rightarrow> int option \<Rightarrow> string \<times> nat" where
  "projectStrictIsoFrom h c baseIso rule projectionBase shape interval anchorDay =
     (let safeInterval = safe_interval interval;
          skippedSteps = skipped_steps h c baseIso rule projectionBase shape safeInterval;
          fastForwardedBaseIso =
            (if 0 < skippedSteps
             then nextIsoFrom h c baseIso rule projectionBase (simple_shape (weekStart shape)) (safeInterval * skippedSteps) None anchorDay
             else baseIso);
          nextIso = nextIsoFrom h c fastForwardedBaseIso rule projectionBase shape safeInterval None anchorDay
      in step_past h (\<lambda>iso. nextIsoFrom h c iso rule projectionBase shape interval None anchorDay) projectionBase 1000
           nextIso (nat skippedSteps + 1))"

section \<open>createNextRecurringTask\<close>

text \<open>What the first lines of the function read from the recurrence of the task.\<close>

record recurrence_plan =
  plan_rule :: recurrence_rule
  plan_strategy :: recurrence_strategy
  plan_byDay :: js
  plan_byMonthDay :: js
  plan_interval :: int
  plan_weekStart :: js
  plan_count :: js
  plan_until :: js
  plan_completed :: rat

definition plan_of :: "host \<Rightarrow> js \<Rightarrow> recurrence_plan option" where
  "plan_of h recurrence =
     (case getRecurrenceRule h recurrence of
        None \<Rightarrow> None
      | Some rule \<Rightarrow> Some
          \<lparr>plan_rule = rule, plan_strategy = getRecurrenceStrategy recurrence, plan_byDay = getRecurrenceByDay h recurrence,
           plan_byMonthDay = getRecurrenceByMonthDay h recurrence, plan_interval = getRecurrenceInterval h recurrence,
           plan_weekStart = getRecurrenceWeekStart h recurrence, plan_count = getRecurrenceCountValue h recurrence,
           plan_until = getRecurrenceUntilValue h recurrence,
           plan_completed = the_num (coalesce (getRecurrenceCompletedOccurrencesValue recurrence) (JNum 0))\<rparr>)"

definition plan_shape :: "recurrence_plan \<Rightarrow> recurrence_shape" where
  "plan_shape p = \<lparr>byDay = map the_str (elems (plan_byDay p)), byMonthDay = elems (plan_byMonthDay p), weekStart = plan_weekStart p\<rparr>"

definition completed_at :: "host \<Rightarrow> string \<Rightarrow> int" where
  "completed_at h completedAtIso =
     (case safeParseDate h (JStr completedAtIso) of
        Some t \<Rightarrow> t
      | None \<Rightarrow> (case date_parse h completedAtIso of Some t \<Rightarrow> t | None \<Rightarrow> date_now h))"

definition next_anchor :: "host \<Rightarrow> calendar \<Rightarrow> js \<Rightarrow> recurrence_plan \<Rightarrow> string \<Rightarrow> schedule_field \<Rightarrow> string option" where
  "next_anchor h c task p completedAtIso anchorField =
     (let dates = dates_of task; sourceAnchorIso = dates anchorField
      in case sourceAnchorIso of
           None \<Rightarrow> None
         | Some s \<Rightarrow> preserveDateOnlyFormat h c
             (Some (if plan_strategy p = Fluid
                    then nextFluidIsoFrom h c completedAtIso (plan_rule p) (completed_at h completedAtIso) (plan_shape p) (plan_interval p)
                    else nextIsoFrom h c s (plan_rule p) (completed_at h completedAtIso) (plan_shape p) (plan_interval p) None
                           (resolveRecurrenceFieldAnchorDays h c (get task ''recurrence'') dates anchorField)))
             sourceAnchorIso)"

definition rebuilt_fields :: "host \<Rightarrow> calendar \<Rightarrow> schedule \<Rightarrow> schedule_field option \<Rightarrow> string option \<Rightarrow> schedule" where
  "rebuilt_fields h c dates anchorField nextAnchorIso =
     (case (anchorField, nextAnchorIso) of
        (Some f, Some n) \<Rightarrow> if n = [] then (\<lambda>_. None) else rebuildScheduleFieldsFromAnchor h c dates f n
      | _ \<Rightarrow> (\<lambda>_. None))"

text \<open>A late completion: the due date catches up when the next start would not be after it.\<close>

definition catch_up :: "host \<Rightarrow> calendar \<Rightarrow> js \<Rightarrow> recurrence_plan \<Rightarrow> string \<Rightarrow> schedule \<Rightarrow> schedule" where
  "catch_up h c task p completedAtIso rebuilt =
     (let dates = dates_of task; completedAtDate = completed_at h completedAtIso
      in case (dates DueDate, dates StartTime, parse_text h (rebuilt StartTime)) of
           (Some source, Some _, Some nextStart) \<Rightarrow>
             if plan_strategy p = Strict \<and> getRecurrenceScheduleAnchorField dates = Some DueDate
                \<and> \<not> truthy (get task ''relativeStartOffset'') \<and> nextStart \<le> completedAtDate
             then
               let caughtUpAnchor = fst (projectStrictIsoFrom h c source (plan_rule p) completedAtDate (plan_shape p) (plan_interval p)
                     (resolveRecurrenceFieldAnchorDays h c (get task ''recurrence'') dates DueDate))
               in (if caughtUpAnchor = [] then rebuilt
                   else rebuilt_fields h c dates (Some DueDate) (preserveDateOnlyFormat h c (Some caughtUpAnchor) (Some source)))
             else rebuilt
         | _ \<Rightarrow> rebuilt)"

text \<open>The relative start: the offset is kept only while it gives a start.\<close>

definition relative_start :: "host \<Rightarrow> calendar \<Rightarrow> js \<Rightarrow> schedule \<Rightarrow> schedule \<times> js" where
  "relative_start h c offset slots =
     (if \<not> truthy offset then (slots, JUndef)
      else (case computeRelativeStartTime h c (slots DueDate) offset of
              Some start \<Rightarrow> (slots(StartTime := Some start), offset)
            | None \<Rightarrow> (slots, JUndef)))"

definition completion_date_part :: "host \<Rightarrow> calendar \<Rightarrow> string \<Rightarrow> string" where
  "completion_date_part h c completedAtIso =
     (if is_date_only (take 10 completedAtIso) then take 10 completedAtIso
      else format_date c (completed_at h completedAtIso))"

definition next_schedule :: "host \<Rightarrow> calendar \<Rightarrow> js \<Rightarrow> recurrence_plan \<Rightarrow> string \<Rightarrow> schedule \<times> js" where
  "next_schedule h c task p completedAtIso =
     (let dates = dates_of task;
          anchorField = getRecurrenceScheduleAnchorField dates;
          nextAnchorIso = (case anchorField of Some f \<Rightarrow> next_anchor h c task p completedAtIso f | None \<Rightarrow> None);
          rebuilt = catch_up h c task p completedAtIso (rebuilt_fields h c dates anchorField nextAnchorIso);
          (slots, offset) = relative_start h c (get task ''relativeStartOffset'') rebuilt
      in if slots StartTime = None \<and> slots DueDate = None \<and> slots ReviewAt = None
         then (slots(StartTime := Some (nextFluidIsoFrom h c (completion_date_part h c completedAtIso) (plan_rule p)
                 (completed_at h completedAtIso) (plan_shape p) (plan_interval p))), offset)
         else (slots, offset))"

definition series_id_of :: "js \<Rightarrow> js" where
  "series_id_of task =
     (case get (get task ''recurrence'') ''seriesId'' of
        JStr s \<Rightarrow> if trim_str s \<noteq> [] then JStr (trim_str s) else get task ''id''
      | _ \<Rightarrow> get task ''id'')"

definition next_recurrence :: "host \<Rightarrow> calendar \<Rightarrow> js \<Rightarrow> recurrence_plan \<Rightarrow> js" where
  "next_recurrence h c task p =
     (let recurrence = get task ''recurrence'';
          anchors = getNextRecurrenceAnchorDays h c task (plan_rule p);
          count = plan_count p; until = plan_until p
      in if is_object recurrence then
           puts recurrence ([(''seriesId'', series_id_of task)] @ anchors
             @ entry_if (truthy (plan_byMonthDay p)) ''byMonthDay'' (plan_byMonthDay p)
             @ entry_if (finite_num (get recurrence ''count'') \<or> truthy count) ''count'' count
             @ entry_if (is_str (get recurrence ''until'') \<or> truthy until) ''until'' until
             @ entry_if (truthy count) ''completedOccurrences'' (JNum (plan_completed p + 1))
             @ (if truthy (get recurrence ''rrule'')
                then [(''rrule'', JStr (buildRRuleString h (rule_text (plan_rule p)) (plan_byDay p) (JNum (of_int (plan_interval p)))
                        (JObj [(''byMonthDay'', plan_byMonthDay p), (''weekStart'', plan_weekStart p), (''count'', count), (''until'', until)])))]
                else []))
         else JObj ([(''rule'', JStr (rule_text (plan_rule p))), (''seriesId'', series_id_of task)] @ anchors))"

definition copy_attachment :: "(nat \<Rightarrow> string) \<Rightarrow> string \<Rightarrow> nat \<times> js \<Rightarrow> js" where
  "copy_attachment uuid completedAtIso ka =
     puts (snd ka) [(''id'', JStr (uuid (fst ka))), (''createdAt'', JStr completedAtIso), (''updatedAt'', JStr completedAtIso), (''deletedAt'', JUndef)]"

definition duplicated_attachments :: "(nat \<Rightarrow> string) \<Rightarrow> js \<Rightarrow> string \<Rightarrow> js list" where
  "duplicated_attachments uuid task completedAtIso =
     (let live = filter (\<lambda>a. \<not> truthy (get a ''deletedAt'')) (elems (get task ''attachments''))
      in map (copy_attachment uuid completedAtIso) (zip [0..<length live] live))"

definition flag_or_undef :: "js \<Rightarrow> js" where
  "flag_or_undef v = (if truthy v then JBool True else JUndef)"

definition next_instance :: "host \<Rightarrow> calendar \<Rightarrow> (nat \<Rightarrow> string) \<Rightarrow> js \<Rightarrow> recurrence_plan \<Rightarrow> string \<Rightarrow> js \<Rightarrow> schedule \<times> js \<Rightarrow> js" where
  "next_instance h c uuid task p completedAtIso previousStatus schedule =
     (let (slots, offset) = schedule;
          newStatus = (if previousStatus = JStr ''done'' \<or> previousStatus = JStr ''archived'' then JStr ''next'' else previousStatus);
          attachments = duplicated_attachments uuid task completedAtIso;
          keep = (\<lambda>k. (k, get task k));
          stamp = JStr completedAtIso
      in JObj
        [(''id'', JStr (uuid (length attachments))), keep ''title'', (''status'', newStatus), keep ''priority'', keep ''energyLevel'',
         keep ''assignedTo'', keep ''taskMode'', (''startTime'', js_of_text (slots StartTime)), (''relativeStartOffset'', offset),
         (''dueDate'', js_of_text (slots DueDate)), (''recurrence'', next_recurrence h c task p),
         (''showFutureRecurrence'', flag_or_undef (get task ''showFutureRecurrence'')),
         (''suppressMindwtrReminders'', flag_or_undef (get task ''suppressMindwtrReminders'')), keep ''repeatReminderMinutes'',
         (''tags'', JArr (elems (get task ''tags''))), (''contexts'', JArr (elems (get task ''contexts''))),
         (''checklist'', resetChecklist uuid (length attachments + 1) (get task ''checklist'')), keep ''description'', keep ''textDirection'',
         (''attachments'', if attachments \<noteq> [] then JArr attachments else JUndef), keep ''location'', keep ''projectId'', keep ''sectionId'',
         keep ''areaId'', (''isFocusedToday'', JBool False), (''completedAt'', JUndef), (''cancelledAt'', JUndef), keep ''timeEstimate'',
         (''reviewAt'', js_of_text (slots ReviewAt)), (''createdAt'', stamp), (''updatedAt'', stamp)])"

text \<open>\<^verbatim>\<open>count && completedOccurrences + 1 >= count\<close>\<close>

definition count_reached :: "recurrence_plan \<Rightarrow> bool" where
  "count_reached p = (case plan_count p of JNum n \<Rightarrow> n \<noteq> 0 \<and> n \<le> plan_completed p + 1 | _ \<Rightarrow> False)"

definition createNextRecurringTask :: "host \<Rightarrow> calendar \<Rightarrow> (nat \<Rightarrow> string) \<Rightarrow> js \<Rightarrow> string \<Rightarrow> js \<Rightarrow> js option" where
  "createNextRecurringTask h c uuid task completedAtIso previousStatus =
     (case plan_of h (get task ''recurrence'') of
        None \<Rightarrow> None
      | Some p \<Rightarrow>
          let schedule = next_schedule h c task p completedAtIso; slots = fst schedule
          in if count_reached p then None
             else if shouldStopAtUntil h c (or_none (slots DueDate) (or_none (slots StartTime) (slots ReviewAt))) (plan_until p) then None
             else Some (next_instance h c uuid task p completedAtIso previousStatus schedule))"

section \<open>Counted series end\<close>

definition completed_of :: "js \<Rightarrow> rat" where
  "completed_of task = the_num (coalesce (getRecurrenceCompletedOccurrencesValue (get task ''recurrence'')) (JNum 0))"

text \<open>The instances a list of completions makes: each one completes the instance before.\<close>

fun series_of :: "host \<Rightarrow> calendar \<Rightarrow> js \<Rightarrow> ((nat \<Rightarrow> string) \<times> string \<times> js) list \<Rightarrow> js list" where
  "series_of h c task [] = []"
| "series_of h c task ((uuid, completedAtIso, previousStatus) # completions) =
     (case createNextRecurringTask h c uuid task completedAtIso previousStatus of
        None \<Rightarrow> []
      | Some instance_task \<Rightarrow> instance_task # series_of h c instance_task completions)"

lemma createNext_SomeD:
  assumes "createNextRecurringTask h c uuid task completedAtIso previousStatus = Some t"
  obtains p where "plan_of h (get task ''recurrence'') = Some p" "\<not> count_reached p"
    "\<not> shouldStopAtUntil h c (let slots = fst (next_schedule h c task p completedAtIso) in or_none (slots DueDate) (or_none (slots StartTime) (slots ReviewAt))) (plan_until p)"
    "t = next_instance h c uuid task p completedAtIso previousStatus (next_schedule h c task p completedAtIso)"
  using assms by (auto simp: createNextRecurringTask_def Let_def split: option.splits if_splits)

lemma instance_recurrence: "get (next_instance h c uuid task p completedAtIso previousStatus schedule) ''recurrence'' = next_recurrence h c task p"
  by (simp add: next_instance_def Let_def split: prod.split)

lemma no_anchor_entry:
  "k \<notin> {''anchorDay'', ''startAnchorDay'', ''dueAnchorDay'', ''reviewAnchorDay''} \<Longrightarrow> map_of (rev (getNextRecurrenceAnchorDays h c task rule)) k = None"
  by (auto simp: getNextRecurrenceAnchorDays_def Let_def entry_if_def)

lemma count_value_object: "getRecurrenceCountValue h v = JNum n \<Longrightarrow> is_obj v"
  by (cases v) (auto simp: getRecurrenceCountValue_def plain_recurrence_def get_def split: if_splits)

lemma round_pos: "positive_js (JNum q) \<Longrightarrow> round_half_up q \<noteq> 0 \<Longrightarrow> 0 < round_half_up q"
  by (auto simp: positive_js_def round_half_up_def le_floor_iff less_le)

lemma count_value_natural:
  assumes "getRecurrenceCountValue h v = JNum n" "n \<noteq> 0"
  shows "\<exists>k. n = of_int k \<and> 0 < k"
proof -
  have "\<exists>q. positive_js (JNum q) \<and> n = of_int (round_half_up q)"
    using assms(1) by (auto simp: getRecurrenceCountValue_def rrule_of_def parseRRuleString_def Let_def round_js_def positive_js_def
        split: if_splits js.splits)
  then show ?thesis using round_pos assms(2) by fastforce
qed

lemma next_count:
  assumes "createNextRecurringTask h c uuid task completedAtIso previousStatus = Some t"
    and count: "getRecurrenceCountValue h (get task ''recurrence'') = JNum n" "n \<noteq> 0"
  shows "getRecurrenceCountValue h (get t ''recurrence'') = JNum n" "completed_of t = completed_of task + 1" "completed_of task + 2 \<le> n"
proof -
  let ?r = "get task ''recurrence''"
  obtain p where p: "plan_of h ?r = Some p" "\<not> count_reached p"
    "t = next_instance h c uuid task p completedAtIso previousStatus (next_schedule h c task p completedAtIso)"
    using createNext_SomeD [OF assms(1)] .
  have plan: "plan_count p = JNum n" "plan_completed p = completed_of task"
    using p(1) count(1) by (auto simp: plan_of_def completed_of_def split: option.splits)
  then have more: "completed_of task + 1 < n" using p(2) count(2) by (simp add: count_reached_def not_le)
  have r: "get t ''recurrence'' = next_recurrence h c task p" by (simp only: p(3) instance_recurrence)
  have obj: "is_obj ?r" using count_value_object [OF count(1)] .
  obtain m where m: "n = of_int m" "0 < m" using count_value_natural [OF count] by blast
  have made: "get (get t ''recurrence'') ''count'' = JNum n" "get (get t ''recurrence'') ''completedOccurrences'' = JNum (completed_of task + 1)"
    "is_obj (get t ''recurrence'')"
    using obj plan count(2)
    by (simp_all add: r next_recurrence_def is_object_def Let_def get_puts is_obj_puts entry_if_def no_anchor_entry)
  have whole: "completed_of task = of_int \<lfloor>completed_of task\<rfloor>" "0 \<le> completed_of task"
    by (auto simp: completed_of_def getRecurrenceCompletedOccurrencesValue_def coalesce_def split: js.splits if_splits)
  obtain k where "completed_of task = of_int k" using whole(1) by blast
  then show "completed_of task + 2 \<le> n" using more m(1) by (metis add.assoc of_int_add of_int_le_iff of_int_less_iff of_int_1 of_int_numeral one_add_one zless_imp_add1_zle)
  have "\<not> plain_recurrence (get t ''recurrence'')" using made(3) by (cases "get t ''recurrence''") (simp_all add: plain_recurrence_def)
  then show "getRecurrenceCountValue h (get t ''recurrence'') = JNum n" "completed_of t = completed_of task + 1"
    using m made(1,2) whole by (auto simp: getRecurrenceCountValue_def completed_of_def [of t] getRecurrenceCompletedOccurrencesValue_def
        round_js_def positive_js_def coalesce_def)
qed

text \<open>
  C35. A counted series ends: however often its instances are completed, no more instances follow a task than its
  count leaves after the occurrences already completed.
\<close>

theorem counted_series_ends:
  assumes "getRecurrenceCountValue h (get task ''recurrence'') = JNum n" "n \<noteq> 0"
  shows "of_nat (length (series_of h c task completions)) \<le> max 0 (n - completed_of task - 1)"
  using assms
proof (induction h c task completions rule: series_of.induct)
  case (2 h c task uuid completedAtIso previousStatus completions)
  show ?case
  proof (cases "createNextRecurringTask h c uuid task completedAtIso previousStatus")
    case (Some t)
    note next_count = next_count [OF Some "2.prems"]
    have "of_nat (length (series_of h c t completions)) \<le> max 0 (n - completed_of t - 1)"
      using "2.IH" [OF Some next_count(1) "2.prems"(2)] .
    then show ?thesis using Some next_count(2,3) by (auto simp: max_def split: if_splits)
  qed simp
qed simp

text \<open>A daily task due on New Year's Day 1970, to be done twice.\<close>

definition twice_daily_task :: js where
  "twice_daily_task =
     JObj [(''id'', JStr ''t''), (''title'', JStr ''Water''), (''status'', JStr ''next''), (''dueDate'', JStr ''1970-01-01''),
       (''checklist'', JArr [JObj [(''id'', JStr ''i''), (''title'', JStr ''Roses''), (''isCompleted'', JBool True)]]),
       (''recurrence'', JObj [(''rule'', JStr ''daily''), (''count'', JNum 2)])]"

definition numbered_id :: "nat \<Rightarrow> string" where
  "numbered_id n = ''n'' @ nat_str n"

theorem counted_series_ends_witness:
  "of_nat (length (series_of host0 utc twice_daily_task [(numbered_id, ''1970-01-01'', JStr ''next''), (numbered_id, ''1970-01-02'', JStr ''next'')])) \<le> (1 :: rat)"
proof -
  have "getRecurrenceCountValue host0 (get twice_daily_task ''recurrence'') = JNum 2" "completed_of twice_daily_task = 0" by code_simp+
  then show ?thesis using counted_series_ends [of host0 twice_daily_task 2 utc "[(numbered_id, ''1970-01-01'', JStr ''next''), (numbered_id, ''1970-01-02'', JStr ''next'')]"] by (simp del: series_of.simps)
qed

section \<open>A new instance\<close>

definition live_attachments_of :: "js \<Rightarrow> js list" where
  "live_attachments_of task = filter (\<lambda>a. \<not> truthy (get a ''deletedAt'')) (elems (get task ''attachments''))"

text \<open>The identifiers an instance was given: its own, its attachments' and its checklist items'.\<close>

definition new_ids :: "js \<Rightarrow> js list" where
  "new_ids task = map (\<lambda>a. get a ''id'') (elems (get task ''attachments'')) @ [get task ''id''] @ map (\<lambda>i. get i ''id'') (elems (get task ''checklist''))"

lemma zip_ids: "map (\<lambda>kx. f (fst kx)) (zip [0..<length xs] xs) = map f [0..<length xs]"
  by (rule nth_equalityI) simp_all

lemma instance_parts:
  fixes h c uuid task p completedAtIso previousStatus schedule
  defines "t \<equiv> next_instance h c uuid task p completedAtIso previousStatus schedule"
    and "copies \<equiv> duplicated_attachments uuid task completedAtIso"
  shows "elems (get t ''attachments'') = copies" "get t ''id'' = JStr (uuid (length copies))"
    "get t ''checklist'' = resetChecklist uuid (length copies + 1) (get task ''checklist'')"
    "get t ''status'' = (if previousStatus = JStr ''done'' \<or> previousStatus = JStr ''archived'' then JStr ''next'' else previousStatus)"
    "get t ''completedAt'' = JUndef" "get t ''cancelledAt'' = JUndef" "get t ''isFocusedToday'' = JBool False"
  by (cases schedule; simp add: t_def copies_def next_instance_def Let_def)+

lemma instance_ids:
  "new_ids (next_instance h c uuid task p completedAtIso previousStatus schedule)
    = map (\<lambda>k. JStr (uuid k)) [0..<length (live_attachments_of task) + 1 + length (elems (get task ''checklist''))]"
proof -
  let ?live = "live_attachments_of task" and ?items = "elems (get task ''checklist'')"
  have "map (\<lambda>a. get a ''id'') (duplicated_attachments uuid task completedAtIso) = map (\<lambda>k. JStr (uuid k)) [0..<length ?live]"
    using zip_ids [of "\<lambda>k. JStr (uuid k)" ?live]
    by (simp add: duplicated_attachments_def Let_def live_attachments_of_def copy_attachment_def case_prod_beta comp_def)
  moreover have "map (\<lambda>i. get i ''id'') (elems (resetChecklist uuid n (get task ''checklist''))) = map (\<lambda>k. JStr (uuid (n + k))) [0..<length ?items]" for n
    using zip_ids [of "\<lambda>k. JStr (uuid (n + k))" ?items]
    by (auto simp: resetChecklist_def case_prod_beta comp_def)
  moreover have "length (duplicated_attachments uuid task completedAtIso) = length ?live"
    by (simp add: duplicated_attachments_def Let_def live_attachments_of_def)
  moreover have "map (\<lambda>k. JStr (uuid k)) [0..<a + 1 + b] = map (\<lambda>k. JStr (uuid k)) [0..<a] @ [JStr (uuid a)] @ map (\<lambda>k. JStr (uuid (a + 1 + k))) [0..<b]" for a b
    by (induction b) simp_all
  ultimately show ?thesis by (simp only: new_ids_def instance_parts)
qed

lemma series_id_kept:
  assumes "plan_of h (get task ''recurrence'') = Some p" "get task ''id'' = JStr i" "trim_str i = i" "i \<noteq> []"
    "get t ''recurrence'' = next_recurrence h c task p"
  shows "series_id_of t = series_id_of task"
proof -
  have "\<exists>s. series_id_of task = JStr s \<and> trim_str s = s \<and> s \<noteq> []"
    using assms(2-4) by (cases "get (get task ''recurrence'') ''seriesId''") (auto simp: series_id_of_def)
  then obtain s where s: "series_id_of task = JStr s" "trim_str s = s" "s \<noteq> []" by blast
  have "get (next_recurrence h c task p) ''seriesId'' = series_id_of task"
    by (simp add: next_recurrence_def Let_def get_puts entry_if_def no_anchor_entry)
  then show ?thesis using s by (simp add: series_id_of_def [of t] assms(5))
qed

text \<open>
  C36. The instance made by completing a task is open, not focused, belongs to the same series and has identifiers
  of its own: it, its copies of the live attachments and its checklist items share none, and none of its
  attachments is deleted and none of its items checked.
\<close>

theorem new_instance_is_fresh:
  assumes "createNextRecurringTask h c uuid task completedAtIso previousStatus = Some t"
    and "inj uuid" "get task ''id'' = JStr i" "trim_str i = i" "i \<noteq> []"
  shows "get t ''status'' \<notin> {JStr ''done'', JStr ''archived''} \<and> get t ''completedAt'' = JUndef \<and> get t ''isFocusedToday'' = JBool False
    \<and> distinct (new_ids t) \<and> set (new_ids t) \<subseteq> range (\<lambda>k. JStr (uuid k))
    \<and> list_all (\<lambda>a. \<not> truthy (get a ''deletedAt'')) (elems (get t ''attachments''))
    \<and> list_all (\<lambda>item. get item ''isCompleted'' = JBool False) (elems (get t ''checklist''))
    \<and> series_id_of t = series_id_of task"
proof -
  obtain p where p: "plan_of h (get task ''recurrence'') = Some p"
    "t = next_instance h c uuid task p completedAtIso previousStatus (next_schedule h c task p completedAtIso)"
    using createNext_SomeD [OF assms(1)] .
  let ?n = "length (live_attachments_of task) + 1 + length (elems (get task ''checklist''))"
  have ids: "new_ids t = map (\<lambda>k. JStr (uuid k)) [0..<?n]" unfolding p(2) by (rule instance_ids)
  have "distinct (new_ids t)" unfolding ids using assms(2) by (auto simp: distinct_map inj_on_def inj_def simp del: upt_Suc)
  moreover have "set (new_ids t) \<subseteq> range (\<lambda>k. JStr (uuid k))" unfolding ids by auto
  moreover have "list_all (\<lambda>a. \<not> truthy (get a ''deletedAt'')) (elems (get t ''attachments''))"
    unfolding p(2) instance_parts by (simp add: duplicated_attachments_def Let_def copy_attachment_def list_all_iff)
  moreover have "list_all (\<lambda>item. get item ''isCompleted'' = JBool False) (elems (get t ''checklist''))"
    unfolding p(2) instance_parts by (auto simp: resetChecklist_def list_all_iff)
  moreover have "series_id_of t = series_id_of task"
    by (rule series_id_kept [OF p(1) assms(3-5)]) (simp only: p(2) instance_recurrence)
  moreover have "get t ''status'' \<notin> {JStr ''done'', JStr ''archived''}" "get t ''completedAt'' = JUndef" "get t ''isFocusedToday'' = JBool False"
    unfolding p(2) instance_parts by auto
  ultimately show ?thesis by blast
qed

lemma numbered_id_inj: "inj numbered_id"
proof (rule injI)
  fix m n assume "numbered_id m = numbered_id n"
  then have "digits_val 0 (nat_str m) = digits_val 0 (nat_str n)" by (simp add: numbered_id_def)
  then show "m = n" by (simp add: digits_val_nat_str)
qed

theorem new_instance_is_fresh_witness:
  "\<exists>t. createNextRecurringTask host0 utc numbered_id twice_daily_task ''1970-01-01'' (JStr ''next'') = Some t
     \<and> distinct (new_ids t) \<and> series_id_of t = JStr ''t''"
proof -
  let ?r = "get twice_daily_task ''recurrence''"
  have "getRecurrenceRule host0 ?r = Some Daily" "getRecurrenceCountValue host0 ?r = JNum 2" "getRecurrenceUntilValue host0 ?r = JUndef"
    "getRecurrenceCompletedOccurrencesValue ?r = JUndef"
    by code_simp+
  then have "createNextRecurringTask host0 utc numbered_id twice_daily_task ''1970-01-01'' (JStr ''next'') \<noteq> None"
    by (simp add: createNextRecurringTask_def plan_of_def count_reached_def shouldStopAtUntil_def coalesce_def Let_def split: option.split)
  then obtain t where t: "createNextRecurringTask host0 utc numbered_id twice_daily_task ''1970-01-01'' (JStr ''next'') = Some t" by blast
  have "get twice_daily_task ''id'' = JStr ''t''" "trim_str ''t'' = ''t''" "series_id_of twice_daily_task = JStr ''t''" by code_simp+
  then show ?thesis using new_instance_is_fresh [OF t numbered_id_inj, of "''t''"] t by auto
qed

section \<open>The shape of the schedule\<close>

text \<open>What \<open>differenceInCalendarDays\<close> of the package counts.\<close>

definition counts_days :: "calendar \<Rightarrow> bool" where
  "counts_days c \<longleftrightarrow> (\<forall>a b. differenceInCalendarDays c a b = local_day c a - local_day c b)"

lemma set_time_reads:
  assumes "gapless c"
  shows "local_day c (set_time c t source) = local_day c t" "time_of_day c (set_time c t source) = time_of_day c source"
  using at_day [OF assms time_of_day_bounds] by (simp_all add: set_time_def)

lemma add_days_day:
  assumes "gapless c"
  shows "local_day c (add_days c t n) = local_day c t + n"
proof (cases "n = 0")
  case False
  have "wall c t + n * day_ms = (local_day c t + n) * day_ms + time_of_day c t" by (simp add: wall_split [of c t] algebra_simps)
  then show ?thesis using False at_day(1) [OF assms time_of_day_bounds, of "local_day c t + n" c t] by (simp add: gaplessD(4) [OF assms])
qed (simp add: gaplessD(4) [OF assms])

text \<open>
  The fields of a recurring task move together: a start or review date is rebuilt to lie as many calendar days from the next
  anchor date as it lay from the old one, at its own time of day, written in the form of its text.
\<close>

theorem fields_keep_their_distance:
  assumes "gapless c" "counts_days c" "f \<noteq> anchorField"
    and "dates anchorField = Some anchorText" "safeParseDate h (JStr anchorText) = Some anchor"
    and "dates f = Some source" "safeParseDate h (JStr source) = Some t" "safeParseDate h (JStr nextText) = Some upcoming"
  shows "\<exists>t'. rebuildScheduleFieldsFromAnchor h c dates anchorField nextText f = Some (format_shifted c source t')
    \<and> local_day c t' - local_day c upcoming = local_day c t - local_day c anchor \<and> time_of_day c t' = time_of_day c t"
  using assms set_time_reads [OF assms(1)] add_days_day [OF assms(1)]
  by (intro exI [of _ "set_time c (add_days c upcoming (differenceInCalendarDays c t anchor)) t"])
    (simp add: rebuildScheduleFieldsFromAnchor_def shiftScheduleFieldFromAnchor_def counts_days_def)

theorem fields_keep_their_distance_witness:
  "\<exists>t'. rebuildScheduleFieldsFromAnchor host0 utc (\<lambda>f. if f = DueDate then Some ''1970-01-05'' else Some ''1970-01-02T08:30'') DueDate ''1970-02-05'' StartTime
      = Some (format_shifted utc ''1970-01-02T08:30'' t') \<and> local_day utc t' = 32 \<and> time_of_day utc t' = 30600000"
proof -
  have texts: "safeParseDate host0 (JStr ''1970-01-05'') = Some (4 * day_ms)" "safeParseDate host0 (JStr ''1970-02-05'') = Some (35 * day_ms)"
    "safeParseDate host0 (JStr ''1970-01-02T08:30'') = Some (day_ms + 30600000)"
    by code_simp+
  have "counts_days utc" by (simp add: counts_days_def local_day_def wall_utc) (simp add: utc_def)
  moreover have "local_day utc (35 * day_ms) = 35" "local_day utc (4 * day_ms) = 4" "local_day utc (day_ms + 30600000) = 1"
    "time_of_day utc (day_ms + 30600000) = 30600000"
    by (simp_all add: local_day_def time_of_day_def wall_utc day_ms_def)
  ultimately show ?thesis
    using fields_keep_their_distance [OF gapless_utc, of StartTime DueDate "\<lambda>f. if f = DueDate then Some ''1970-01-05'' else Some ''1970-01-02T08:30''"
        "''1970-01-05''" host0 "4 * day_ms" "''1970-01-02T08:30''" "day_ms + 30600000" "''1970-02-05''" "35 * day_ms"] texts
    by simp
qed

end
