(* ===== verification/Recurrence_Search.thy ===== *)
theory Recurrence_Search
  imports Recurrence_Dates
begin

text \<open>
  The searches of \<^verbatim>\<open>packages/core/src/recurrence.ts\<close>, lines 746 to 877, against what they look for: in a
  zone without gaps \<open>nextWeeklyByDay\<close>, \<open>nextMonthlyByDay\<close> and \<open>nextMonthlyByMonthDay\<close> return the first
  later day their rule names. The last section shows what a gap does to the weekly search.
\<close>

section \<open>The next listed weekday\<close>

definition day_offset :: "int \<Rightarrow> string \<Rightarrow> int" where
  "day_offset weekStartIndex weekday = (weekdayIndex weekday - weekStartIndex + 7) mod 7"

lemma ordered_week:
  assumes "ws \<in> set WEEKDAY_ORDER"
  shows "map (day_offset (weekdayIndex ws)) (orderWeekdaysByWeekStart ws) = [0, 1, 2, 3, 4, 5, 6]"
    "set (orderWeekdaysByWeekStart ws) = set WEEKDAY_ORDER" "0 \<le> weekdayIndex ws" "weekdayIndex ws < 7"
proof -
  have "ws = ''SU'' \<or> ws = ''MO'' \<or> ws = ''TU'' \<or> ws = ''WE'' \<or> ws = ''TH'' \<or> ws = ''FR'' \<or> ws = ''SA''"
    using assms by (simp add: WEEKDAY_ORDER_def)
  then show "map (day_offset (weekdayIndex ws)) (orderWeekdaysByWeekStart ws) = [0, 1, 2, 3, 4, 5, 6]"
    by (elim disjE) (simp_all, code_simp+)
  show "set (orderWeekdaysByWeekStart ws) = set WEEKDAY_ORDER"
    by (auto simp: orderWeekdaysByWeekStart_def Let_def simp flip: set_append dest: in_set_dropD in_set_takeD)
      (metis Un_iff append_take_drop_id set_append)+
  show "0 \<le> weekdayIndex ws" "weekdayIndex ws < 7"
    using \<open>ws = ''SU'' \<or> _\<close> by (elim disjE; simp; code_simp)+
qed

lemma weekday_index_range: "d \<in> set WEEKDAY_ORDER \<Longrightarrow> 0 \<le> weekdayIndex d \<and> weekdayIndex d < 7"
  using ordered_week(3,4) by blast

lemma find_map: "List.find P (map f xs) = map_option f (List.find (\<lambda>x. P (f x)) xs)"
  by (induction xs) simp_all

lemma find_cong_on: "(\<And>x. x \<in> set xs \<Longrightarrow> P x = Q x) \<Longrightarrow> List.find P xs = List.find Q xs"
  by (induction xs) auto

lemma find_sorted:
  "sorted_wrt (<) xs \<Longrightarrow> List.find P xs = Some x \<Longrightarrow> x \<in> set xs \<and> P x \<and> (\<forall>y\<in>set xs. y < (x :: int) \<longrightarrow> \<not> P y)"
  by (induction xs) (auto split: if_splits)

lemma find_found: "x \<in> set xs \<Longrightarrow> P x \<Longrightarrow> List.find P xs \<noteq> None"
  by (induction xs) auto

text \<open>The days a weekly search goes through, in its order.\<close>

definition search_days :: "int \<Rightarrow> int \<Rightarrow> int list \<Rightarrow> nat \<Rightarrow> int list" where
  "search_days start step offs n = concat (map (\<lambda>k. map (\<lambda>off. start + 7 * (int k * step) + off) offs) [0..<n])"

lemma search_days_bound: "1 \<le> step \<Longrightarrow> set offs \<subseteq> {0..6} \<Longrightarrow> d \<in> set (search_days start step offs n) \<Longrightarrow> d < start + 7 * (int n * step)"
proof -
  assume "1 \<le> step" "set offs \<subseteq> {0..6}" "d \<in> set (search_days start step offs n)"
  then obtain k off where "k < n" "off \<le> 6" "d = start + 7 * (int k * step) + off"
    unfolding search_days_def set_concat set_map image_image atLeastLessThan_upt [symmetric] by force
  moreover have "(int k + 1) * step \<le> int n * step" using \<open>k < n\<close> \<open>1 \<le> step\<close> by (intro mult_right_mono) auto
  ultimately show ?thesis using \<open>1 \<le> step\<close> by (simp add: algebra_simps)
qed

lemma sorted_search_days: "1 \<le> step \<Longrightarrow> sorted_wrt (<) offs \<Longrightarrow> set offs \<subseteq> {0..6} \<Longrightarrow> sorted_wrt (<) (search_days start step offs n)"
proof (induction n)
  case (Suc n)
  have "sorted_wrt (<) (map (\<lambda>off. start + 7 * (int n * step) + off) offs)"
    using Suc.prems(2) by (simp add: sorted_wrt_map)
  moreover have "d < start + 7 * (int n * step) + off" if "d \<in> set (search_days start step offs n)" "off \<in> set offs" for d off
    using search_days_bound [OF Suc.prems(1,3) that(1)] Suc.prems(3) that(2) by force
  ultimately show ?case using Suc by (auto simp: search_days_def sorted_wrt_append)
qed (simp add: search_days_def)

lemma in_search_days:
  assumes "1 \<le> step" "start \<le> d" "(d - start) div 7 mod step = 0" "(d - start) mod 7 \<in> set offs" "d < start + 7 * (int n * step)"
  shows "d \<in> set (search_days start step offs n)"
proof -
  define k where "k = nat ((d - start) div 7 div step)"
  have nonneg: "0 \<le> (d - start) div 7 div step" using assms(1,2) by (simp add: pos_imp_zdiv_nonneg_iff)
  have "(d - start) div 7 = int k * step"
    using assms(3) nonneg mult_div_mod_eq [of step "(d - start) div 7"] by (simp add: k_def mult.commute)
  then have d: "d = start + 7 * (int k * step) + (d - start) mod 7" using mult_div_mod_eq [of 7 "d - start"] by simp
  have "0 \<le> (d - start) mod 7" by simp
  then have "7 * (int k * step) < 7 * (int n * step)" using assms(5) d by linarith
  then have "int k * step < int n * step" by simp
  then have "k < n" using assms(1) by (metis mult_right_mono not_less of_nat_le_iff order_trans zero_le_one)
  then show ?thesis using d assms(4) by (auto simp: search_days_def)
qed

lemma add_days_at:
  assumes "gapless c" "0 \<le> tod" "tod < day_ms"
  shows "add_days c (unwall c (n * day_ms + tod)) k = unwall c ((n + k) * day_ms + tod)"
  using assms by (simp add: gaplessD(1,4) algebra_simps)

text \<open>The day the week of a date began on, and the test a weekly rule puts to a later day.\<close>

definition week_start_day :: "calendar \<Rightarrow> string \<Rightarrow> int \<Rightarrow> int" where
  "week_start_day c ws base = local_day c base - (getDay c base - weekdayIndex ws + 7) mod 7"

definition weekly_match :: "calendar \<Rightarrow> string \<Rightarrow> string list \<Rightarrow> int \<Rightarrow> int \<Rightarrow> int \<Rightarrow> bool" where
  "weekly_match c ws days step base d \<longleftrightarrow>
     list_ex (\<lambda>wd. weekday_of d = weekdayIndex wd) days \<and> (d - week_start_day c ws base) div 7 mod step = 0"

lemma seven_shift:
  fixes d start :: int
  assumes "(start + 4) mod 7 = wsi" "0 \<le> i" "i < 7"
  shows "(d + 4) mod 7 = i \<longleftrightarrow> (d - start) mod 7 = (i - wsi + 7) mod 7"
proof -
  define q where "q = (start + 4) div 7"
  have start: "start = 7 * q + wsi - 4" using mult_div_mod_eq [of 7 "start + 4"] assms(1) by (simp add: q_def)
  have "(d - start) mod 7 = (i - wsi + 7) mod 7 \<longleftrightarrow> 7 dvd (d - start) - (i - wsi + 7)"
    by (rule mod_eq_dvd_iff)
  also have "(d - start) - (i - wsi + 7) = ((d + 4) - i) - 7 * (q + 1)" by (simp add: start)
  also have "7 dvd ((d + 4) - i) - 7 * (q + 1) \<longleftrightarrow> 7 dvd (d + 4) - i" by (metis dvd_triv_left dvd_diff_left_iff)
  also have "\<dots> \<longleftrightarrow> (d + 4) mod 7 = i" using assms(2,3) mod_eq_dvd_iff [of "d + 4" 7 i] by simp
  finally show ?thesis by simp
qed

lemma weekday_offset:
  "weekday_of start = wsi \<Longrightarrow> 0 \<le> wsi \<Longrightarrow> wsi < 7 \<Longrightarrow> 0 \<le> i \<Longrightarrow> i < 7 \<Longrightarrow> weekday_of d = i \<longleftrightarrow> (d - start) mod 7 = (i - wsi + 7) mod 7"
  unfolding weekday_of_def using seven_shift [of start wsi i d] by simp

lemma week_start_weekday:
  assumes "0 \<le> wsi" "wsi < 7"
  shows "weekday_of (n - (weekday_of n - wsi + 7) mod 7) = wsi"
proof -
  have "(n - (weekday_of n - wsi + 7) mod 7 + 4) mod 7 = (n + 4 - (weekday_of n - wsi + 7)) mod 7"
    by (metis add_diff_eq diff_add_eq mod_diff_right_eq)
  also have "\<dots> = ((n + 4) mod 7 - weekday_of n + wsi - 7) mod 7"
    by (metis (no_types, opaque_lifting) add_diff_eq diff_add_eq diff_diff_eq2 diff_diff_eq mod_diff_left_eq)
  also have "\<dots> = (wsi + 7 * (- 1)) mod 7" by (simp add: weekday_of_def)
  finally show ?thesis using assms by (simp only: weekday_of_def mod_mult_self2) simp
qed

lemma set_date_back: "set_date c base (getDate c base - k) = unwall c ((local_day c base - k) * day_ms + time_of_day c base)"
proof -
  have "make_day (getFullYear c base) (getMonth c base) (getDate c base - k) = local_day c base - k"
    using date_of_day [of "local_day c base"] by (simp add: make_day_first month_parts getDate_def)
  then show ?thesis by (simp add: set_date_def)
qed

lemma weekly_search:
  fixes c base ws days step
  assumes c: "gapless c" and ws: "ws \<in> set WEEKDAY_ORDER" and days: "days \<noteq> []" "set days \<subseteq> set WEEKDAY_ORDER" and step: "1 \<le> step"
  defines "start \<equiv> week_start_day c ws base"
    and "offs \<equiv> map (day_offset (weekdayIndex ws)) (filter (\<lambda>day. day \<in> set days) (orderWeekdaysByWeekStart ws))"
  obtains d where "List.find (\<lambda>n. local_day c base < n) (search_days start step offs 53) = Some d" "local_day c base < d"
    "weekly_match c ws days step base d"
    "\<And>d'. local_day c base < d' \<Longrightarrow> d' < d \<Longrightarrow> \<not> weekly_match c ws days step base d'"
proof -
  note order = ordered_week [OF ws]
  have sorted: "sorted_wrt (<) offs" 
    using order(1) sorted_wrt_filter [of "\<lambda>x y. day_offset (weekdayIndex ws) x < day_offset (weekdayIndex ws) y" "orderWeekdaysByWeekStart ws"]
    unfolding offs_def sorted_wrt_map [symmetric] by (simp add: sorted_wrt_map [symmetric])
  have range: "set offs \<subseteq> {0..6}" by (auto simp: offs_def day_offset_def)
  have start: "weekday_of start = weekdayIndex ws" "start \<le> local_day c base" "local_day c base < start + 7"
    using week_start_weekday [OF order(3,4), of "local_day c base"] by (simp_all add: start_def week_start_day_def getDay_def)
  have offs_iff: "(d - start) mod 7 \<in> set offs \<longleftrightarrow> list_ex (\<lambda>wd. weekday_of d = weekdayIndex wd) days" for d
  proof -
    have "(d - start) mod 7 = day_offset (weekdayIndex ws) wd \<longleftrightarrow> weekday_of d = weekdayIndex wd" if "wd \<in> set WEEKDAY_ORDER" for wd
      using weekday_offset [OF start(1) order(3,4), of "weekdayIndex wd" d] weekday_index_range [OF that] by (simp add: day_offset_def)
    then show ?thesis using days(2) order(2) by (auto simp: offs_def list_ex_iff image_iff)
  qed
  have member: "weekly_match c ws days step base d" if d: "d \<in> set (search_days start step offs 53)" for d
  proof -
    obtain k off where "off \<in> set offs" "d = start + 7 * (int k * step) + off" using d by (auto simp: search_days_def)
    moreover have "0 \<le> off" "off < 7" using range calculation(1) by auto
    ultimately have "(d - start) mod 7 = off" "(d - start) div 7 = int k * step" by simp_all
    then show ?thesis using offs_iff [of d] \<open>off \<in> set offs\<close> by (simp add: weekly_match_def start_def)
  qed
  obtain wd where wd: "wd \<in> set days" using days(1) by (cases days) auto
  then have "day_offset (weekdayIndex ws) wd \<in> set offs" using days(2) order(2) by (auto simp: offs_def)
  moreover have "0 \<le> day_offset (weekdayIndex ws) wd" by (simp add: day_offset_def)
  ultimately have next_week: "start + 7 * (int 1 * step) + day_offset (weekdayIndex ws) wd \<in> set (search_days start step offs 53)"
    "local_day c base < start + 7 * (int 1 * step) + day_offset (weekdayIndex ws) wd"
    using start(3) step by (auto simp: search_days_def intro!: bexI [of _ 1])
  then obtain d where found: "List.find (\<lambda>n. local_day c base < n) (search_days start step offs 53) = Some d"
    using find_found [OF next_week(1), of "\<lambda>n. local_day c base < n"] next_week(2) by auto
  note least = find_sorted [OF sorted_search_days [OF step sorted range] found]
  have "\<not> weekly_match c ws days step base d'" if d': "local_day c base < d'" "d' < d" for d'
  proof
    assume "weekly_match c ws days step base d'"
    then have "(d' - start) div 7 mod step = 0" "(d' - start) mod 7 \<in> set offs"
      using offs_iff [of d'] by (simp_all add: weekly_match_def start_def)
    moreover have "d' < start + 7 * (int 53 * step)" using search_days_bound [OF step range] least d'(2) by force
    ultimately have "d' \<in> set (search_days start step offs 53)" using in_search_days [OF step, of start d' offs 53] start(2) d'(1) by simp
    then show False using least d' by blast
  qed
  then show thesis using that found least member by blast
qed

text \<open>The candidates of the code are the search days at the time of the base, each with its week offset.\<close>

lemma week_candidates_days:
  assumes "gapless c" "set offs \<subseteq> {0..6}" "map (day_offset wsi) orderedDays = offs"
  shows "concat (map (week_candidates c orderedDays wsi (unwall c (start * day_ms + time_of_day c base))) (offsets step 52))
    = map (\<lambda>n. ((n - start) div 7, unwall c (n * day_ms + time_of_day c base))) (search_days start step offs 53)"
proof -
  have "week_candidates c orderedDays wsi (unwall c (start * day_ms + time_of_day c base)) (int k * step)
    = map (\<lambda>n. ((n - start) div 7, unwall c (n * day_ms + time_of_day c base))) (map (\<lambda>off. start + 7 * (int k * step) + off) offs)" for k
  proof -
    have "map (\<lambda>n. ((n - start) div 7, unwall c (n * day_ms + time_of_day c base))) (map (\<lambda>off. start + 7 * (int k * step) + off) offs)
      = map (\<lambda>off. (int k * step, unwall c ((start + 7 * (int k * step) + off) * day_ms + time_of_day c base))) offs"
      using assms(2) by auto
    also have "\<dots> = map (\<lambda>wd. (int k * step, unwall c ((start + 7 * (int k * step) + day_offset wsi wd) * day_ms + time_of_day c base))) orderedDays"
      using assms(3) by auto
    finally show ?thesis
      by (simp add: week_candidates_def Let_def add_weeks_def add_days_at [OF assms(1) time_of_day_bounds] day_offset_def)
  qed
  moreover have "[0..<Suc 52] = [0..<53]" by (rule arg_cong2 [where f = upt]) simp_all
  ultimately show ?thesis by (simp only: offsets_def search_days_def map_map map_concat o_def)
qed

lemma find_candidates:
  assumes c: "gapless c" and start: "local_day c base < start + 7" and step: "1 \<le> step"
    and found: "List.find (\<lambda>n. local_day c base < n) (search_days start step offs 53) = Some d" and offs: "set offs \<subseteq> {0..6}"
  shows "List.find (\<lambda>(weekOffset, candidate). \<not> (weekOffset = 0 \<and> candidate \<le> base))
      (map (\<lambda>n. ((n - start) div 7, unwall c (n * day_ms + time_of_day c base))) (search_days start step offs 53))
    = Some ((d - start) div 7, unwall c (d * day_ms + time_of_day c base))"
proof -
  have "\<not> ((n - start) div 7 = 0 \<and> unwall c (n * day_ms + time_of_day c base) \<le> base) \<longleftrightarrow> local_day c base < n"
    if n: "n \<in> set (search_days start step offs 53)" for n
  proof -
    obtain k off where "off \<in> set offs" "n = start + 7 * (int k * step) + off" using n by (auto simp: search_days_def)
    then have "start \<le> n" using offs step by force
    then have "local_day c base < n" if "(n - start) div 7 \<noteq> 0"
      using that start zdiv_eq_0_iff [of "n - start" 7] by auto
    then show ?thesis using later_iff [OF c, of base n] by auto
  qed
  then have "List.find (\<lambda>n. \<not> ((n - start) div 7 = 0 \<and> unwall c (n * day_ms + time_of_day c base) \<le> base)) (search_days start step offs 53) = Some d"
    by (intro trans [OF find_cong_on found]) simp
  then show ?thesis by (simp add: find_map)
qed

definition week_start_of :: "js \<Rightarrow> string" where
  "week_start_of v = the_str (coalesce (normalizeWeekStart v) (JStr ''MO''))"

lemma week_start_of_weekday: "week_start_of v \<in> set WEEKDAY_ORDER"
  by (auto simp: week_start_of_def normalizeWeekStart_def coalesce_def WEEKDAY_ORDER_def split: option.splits js.splits if_splits)

lemma weekly_days: "set (normalizeWeeklyByDay v) \<subseteq> set WEEKDAY_ORDER"
  by (auto simp: normalizeWeeklyByDay_def weekday_only_def)



section \<open>The next listed day of a month\<close>

text \<open>The days a monthly search may return: later than the base, in a month at one of the offsets, listed.\<close>

definition offered :: "calendar \<Rightarrow> int \<Rightarrow> (int \<Rightarrow> bool) \<Rightarrow> int list \<Rightarrow> int \<Rightarrow> bool" where
  "offered c base listed offs n \<longleftrightarrow>
     local_day c base < n \<and> month_index n - month_index (local_day c base) \<in> set offs \<and> listed n"

definition on_day :: "calendar \<Rightarrow> int \<Rightarrow> int \<Rightarrow> int" where
  "on_day c base n = unwall c (n * day_ms + time_of_day c base)"

definition lists_days :: "calendar \<Rightarrow> int \<Rightarrow> (int \<Rightarrow> bool) \<Rightarrow> (int \<Rightarrow> int \<Rightarrow> int list) \<Rightarrow> bool" where
  "lists_days c base listed dates \<longleftrightarrow>
     (\<forall>y m. 99 < y \<and> 0 \<le> m \<and> m \<le> 11 \<longrightarrow> set (dates y m) = on_day c base ` {n. month_index n = 12 * y + m \<and> listed n})"

lemma on_day_less: "gapless c \<Longrightarrow> on_day c base n < on_day c base n' \<longleftrightarrow> n < n'"
  using earlier_day [of c "time_of_day c base" n n'] earlier_day [of c "time_of_day c base" n' n] time_of_day_bounds [of c base]
  by (cases n n' rule: linorder_cases) (auto simp: on_day_def)

lemma on_day_later: "gapless c \<Longrightarrow> base < on_day c base n \<longleftrightarrow> local_day c base < n"
  using later_iff [of c base n] by (simp add: on_day_def)

lemma on_day_reads: "gapless c \<Longrightarrow> local_day c (on_day c base n) = n" "gapless c \<Longrightarrow> time_of_day c (on_day c base n) = time_of_day c base"
  using at_day [of c "time_of_day c base" n] time_of_day_bounds [of c base] by (simp_all add: on_day_def)

lemma month_dates:
  assumes c: "gapless c" and base: "0 \<le> local_day c base" and dates: "lists_days c base listed dates" and o: "0 \<le> off"
  defines "m \<equiv> add_months c base off"
  shows "set (filter (\<lambda>d. off = 0 \<longrightarrow> base < d) (dates (getFullYear c m) (getMonth c m))) = on_day c base ` Collect (offered c base listed [off])"
proof -
  have i: "month_index (local_day c m) = month_index (local_day c base) + off" using gaplessD(5) [OF c] by (simp add: m_def)
  moreover have "month_index 0 \<le> month_index (local_day c base)" using month_index_mono [OF base] .
  ultimately have "23640 \<le> month_index (local_day c m)" using o by (simp add: month_index_0)
  then have "99 < getFullYear c m" by (simp add: getFullYear_def month_index_parts)
  then have "set (dates (getFullYear c m) (getMonth c m)) = on_day c base ` {n. month_index n = month_index (local_day c base) + off \<and> listed n}"
    using dates month_of_bounds [of "local_day c m"] i month_parts [of c m] by (simp add: lists_days_def getMonth_def)
  then show ?thesis
    using o later_month [of "local_day c base"] by (auto simp: on_day_later [OF c] offered_def)
qed

lemma hd_sort_least: "d \<in> set xs \<Longrightarrow> hd (sort xs) \<le> (d :: int)"
proof -
  assume "d \<in> set xs"
  then have "d \<in> set (sort xs)" "sorted (sort xs)" by simp_all
  then show ?thesis by (cases "sort xs") auto
qed

lemma first_in_months_least:
  assumes c: "gapless c" and base: "0 \<le> local_day c base" and dates: "lists_days c base listed dates"
  shows "sorted_wrt (<) offs \<Longrightarrow> \<forall>off\<in>set offs. 0 \<le> off \<Longrightarrow>
    (case first_in_months c base dates offs of
       None \<Rightarrow> \<forall>n. \<not> offered c base listed offs n
     | Some d \<Rightarrow> \<exists>n. d = on_day c base n \<and> offered c base listed offs n \<and> (\<forall>n'. offered c base listed offs n' \<longrightarrow> n \<le> n'))"
proof (induction offs)
  case Nil
  show ?case by (simp add: offered_def)
next
  case (Cons off offs)
  let ?m = "add_months c base off"
  let ?f = "filter (\<lambda>d. off = 0 \<longrightarrow> base < d) (dates (getFullYear c ?m) (getMonth c ?m))"
  have f: "set ?f = on_day c base ` Collect (offered c base listed [off])" using month_dates [OF c base dates] Cons.prems(2) by simp
  have split: "offered c base listed (off # offs) n \<longleftrightarrow> offered c base listed [off] n \<or> offered c base listed offs n" for n
    by (auto simp: offered_def)
  show ?case
  proof (cases "?f = []")
    case True
    then have "\<not> offered c base listed [off] n" for n using f by auto
    then have same: "offered c base listed (off # offs) n \<longleftrightarrow> offered c base listed offs n" for n using split by blast
    have "first_in_months c base dates (off # offs) = first_in_months c base dates offs" using True by (simp add: Let_def)
    then show ?thesis using Cons by (auto simp: same simp del: first_in_months.simps split: option.splits)
  next
    case False
    then have some: "first_in_months c base dates (off # offs) = Some (hd (sort ?f))"
      by (simp add: Let_def) (metis set_empty2 set_sort)
    have ne: "sort ?f \<noteq> []" using False by (metis set_empty2 set_sort)
    have "hd (sort ?f) \<in> set ?f" using hd_in_set [OF ne] by (simp only: set_sort)
    then have "hd (sort ?f) \<in> on_day c base ` Collect (offered c base listed [off])" by (simp only: f)
    then obtain n where n: "hd (sort ?f) = on_day c base n" "offered c base listed [off] n" by blast
    have "n \<le> n'" if n': "offered c base listed (off # offs) n'" for n'
    proof (cases "offered c base listed [off] n'")
      case True
      then have "on_day c base n' \<in> set ?f" by (simp only: f) blast
      then have "on_day c base n \<le> on_day c base n'" using hd_sort_least n(1) by metis
      then show ?thesis using on_day_less [OF c, of base n' n] by linarith
    next
      case False
      then have "month_index n < month_index n'" using split [of n'] n' n(2) Cons.prems(1) by (auto simp: offered_def)
      then show ?thesis using later_month [of n n'] by simp
    qed
    then show ?thesis using some n split by (auto simp del: first_in_months.simps)
  qed
qed

lemma sorted_offsets: "1 \<le> step \<Longrightarrow> sorted_wrt (<) (offsets step n)" "1 \<le> step \<Longrightarrow> \<forall>off\<in>set (offsets step n). 0 \<le> off"
  by (auto simp: offsets_def sorted_wrt_map simp del: upt_Suc intro: sorted_wrt_mono_rel [OF _ sorted_wrt_upt])

text \<open>What a monthly search returns, and what it falls back to when none of its months offers a day.\<close>

definition first_offered :: "calendar \<Rightarrow> int \<Rightarrow> (int \<Rightarrow> bool) \<Rightarrow> int \<Rightarrow> int \<Rightarrow> bool" where
  "first_offered c base listed step d \<longleftrightarrow>
     (if \<exists>n. offered c base listed (offsets step 12) n
      then base < d \<and> time_of_day c d = time_of_day c base \<and> offered c base listed (offsets step 12) (local_day c d)
         \<and> (\<forall>n. offered c base listed (offsets step 12) n \<longrightarrow> local_day c d \<le> n)
      else d = add_months c base step)"

lemma monthly_search:
  assumes "gapless c" "0 \<le> local_day c base" "lists_days c base listed dates" "1 \<le> step"
  shows "first_offered c base listed step (case first_in_months c base dates (offsets step 12) of Some d \<Rightarrow> d | None \<Rightarrow> add_months c base step)"
proof (cases "first_in_months c base dates (offsets step 12)")
  case None
  then show ?thesis
    using first_in_months_least [OF assms(1-3) sorted_offsets [OF assms(4)], of 12] by (simp add: first_offered_def)
next
  case (Some d)
  then obtain n where "d = on_day c base n" "offered c base listed (offsets step 12) n" "\<forall>n'. offered c base listed (offsets step 12) n' \<longrightarrow> n \<le> n'"
    using first_in_months_least [OF assms(1-3) sorted_offsets [OF assms(4)], of 12] by auto
  then show ?thesis
    using Some on_day_later [OF assms(1)] on_day_reads [OF assms(1)] by (auto simp: first_offered_def offered_def)
qed

definition month_day_listed :: "int list \<Rightarrow> int \<Rightarrow> bool" where
  "month_day_listed days n \<longleftrightarrow> date_of n \<in> set days \<or> (- 1 \<in> set days \<and> date_of n = month_length (month_index n))"

lemma month_day_date:
  assumes c: "gapless c" and y: "99 < y" and m: "0 \<le> m" "m \<le> 11" and d: "1 \<le> d" "d \<le> 31"
  shows "new_date c y m d (time_of_day c base) = on_day c base (first_day (12 * y + m) + d - 1)"
    and "getMonth c (on_day c base (first_day (12 * y + m) + d - 1)) = m \<longleftrightarrow> d \<le> month_length (12 * y + m)"
proof -
  let ?i = "12 * y + m" and ?n = "first_day (12 * y + m) + d - 1"
  show "new_date c y m d (time_of_day c base) = on_day c base ?n"
    using new_date_day(1) [OF c y time_of_day_bounds] by (simp add: on_day_def)
  have i: "?i mod 12 = m" using m by simp
  have "(?i + 1) mod 12 = (m + 1) mod 12" by (metis add.assoc mod_mult_self4)
  also have "\<dots> \<noteq> m" using m by (cases "m = 11") simp_all
  finally have later: "(?i + 1) mod 12 \<noteq> m" .
  show "getMonth c (on_day c base ?n) = m \<longleftrightarrow> d \<le> month_length ?i"
  proof (cases "d \<le> month_length ?i")
    case True
    then show ?thesis using date_in_month [of d ?i] d i by (simp add: getMonth_def on_day_reads [OF c] month_index_parts)
  next
    case False
    then have "?n = first_day (?i + 1) + (d - month_length ?i) - 1" by (simp add: first_day_Suc)
    moreover have "1 \<le> d - month_length ?i" "d - month_length ?i \<le> month_length (?i + 1)"
      using False d month_length_bounds(1) [of ?i] month_length_bounds(1) [of "?i + 1"] by auto
    ultimately have "month_index ?n = ?i + 1" using date_in_month [of "d - month_length ?i" "?i + 1"] by metis
    then show ?thesis using False later by (simp add: getMonth_def on_day_reads [OF c] month_index_parts)
  qed
qed

lemma month_day_lists:
  assumes c: "gapless c" and days: "\<forall>d\<in>set days. d = - 1 \<or> 1 \<le> d \<and> d \<le> 31"
  shows "lists_days c base (month_day_listed days) (month_day_dates c base days)"
  unfolding lists_days_def
proof (intro allI impI)
  fix y m :: int assume ym: "99 < y \<and> 0 \<le> m \<and> m \<le> 11"
  let ?i = "12 * y + m" and ?at = "on_day c base"
  have date: "(let t = new_date c y (if day = - 1 then m + 1 else m) (if day = - 1 then 0 else day) (time_of_day c base) in
      t = ?at (first_day ?i + d - 1) \<and> (getMonth c t = m \<longleftrightarrow> d \<le> month_length ?i))"
    if "day \<in> set days" and d: "d = (if day = - 1 then month_length ?i else day)" for day d
  proof -
    have range: "1 \<le> d" "d \<le> 31" using that days month_length_bounds [of ?i] by auto
    have "new_date c y (m + 1) 0 (time_of_day c base) = ?at (first_day ?i + month_length ?i - 1)"
      using new_date_day(1) [OF c _ time_of_day_bounds, of y "m + 1" 0] ym first_day_Suc [of ?i] by (simp add: on_day_def add.assoc)
    then show ?thesis using month_day_date [OF c, of y m d base] ym range d by (auto simp: Let_def)
  qed
  show "set (month_day_dates c base days y m) = ?at ` {n. month_index n = ?i \<and> month_day_listed days n}"
  proof (intro set_eqI iffI)
    fix t assume "t \<in> set (month_day_dates c base days y m)"
    then obtain day where day: "day \<in> set days" "getMonth c t = m"
      "t = new_date c y (if day = - 1 then m + 1 else m) (if day = - 1 then 0 else day) (time_of_day c base)"
      by (auto simp: month_day_dates_def)
    define d where "d = (if day = - 1 then month_length ?i else day)"
    have t: "t = ?at (first_day ?i + d - 1)" "d \<le> month_length ?i"
      using date [OF day(1) d_def] day(2) unfolding day(3) [symmetric] Let_def by simp_all
    moreover have "1 \<le> d" using days day(1) month_length_bounds(1) [of ?i] by (auto simp: d_def)
    ultimately have n: "month_index (first_day ?i + d - 1) = ?i" "date_of (first_day ?i + d - 1) = d" using date_in_month [of d ?i] by simp_all
    then have "month_day_listed days (first_day ?i + d - 1)" using day(1) by (auto simp: month_day_listed_def d_def)
    then show "t \<in> ?at ` {n. month_index n = ?i \<and> month_day_listed days n}" using t(1) n(1) by blast
  next
    fix t assume "t \<in> ?at ` {n. month_index n = ?i \<and> month_day_listed days n}"
    then obtain n where n: "t = ?at n" "month_index n = ?i" "month_day_listed days n" by blast
    have le: "date_of n \<le> month_length ?i" using date_of_bounds(2) [of n] n(2) by simp
    have day: "first_day ?i + date_of n - 1 = n" using date_of_day [of n] n(2) by simp
    obtain d where "d \<in> set days" "date_of n = (if d = - 1 then month_length ?i else d)"
      using n(2,3) date_of_bounds(1) [of n] by (auto simp: month_day_listed_def)
    then have "new_date c y (if d = - 1 then m + 1 else m) (if d = - 1 then 0 else d) (time_of_day c base) = t" "getMonth c t = m"
      using date [of d "date_of n"] le unfolding day n(1) [symmetric] Let_def by auto
    then show "t \<in> set (month_day_dates c base days y m)" using \<open>d \<in> set days\<close> by (auto simp: month_day_dates_def)
  qed
qed

definition by_day_listed :: "string \<times> int option \<Rightarrow> int \<Rightarrow> bool" where
  "by_day_listed candidate n \<longleftrightarrow> weekday_of n = weekdayIndex (fst candidate) \<and>
     (case snd candidate of None \<Rightarrow> True
      | Some k \<Rightarrow> if 0 < k then (date_of n - 1) div 7 + 1 = k else month_length (month_index n) - date_of n < 7)"

definition supported_by_day :: "string \<times> int option \<Rightarrow> bool" where
  "supported_by_day candidate \<longleftrightarrow> fst candidate \<in> set WEEKDAY_ORDER \<and> (case snd candidate of None \<Rightarrow> True | Some k \<Rightarrow> k = - 1 \<or> 1 \<le> k \<and> k \<le> 4)"

lemma weekday_bounds: "0 \<le> weekday_of n" "weekday_of n < 7"
  by (simp_all add: weekday_of_def)

lemma seven_digits:
  fixes x :: int
  assumes "0 \<le> r" "r < 7"
  shows "x mod 7 = r \<and> x div 7 + 1 = k \<longleftrightarrow> x = r + (k - 1) * 7"
proof
  assume "x mod 7 = r \<and> x div 7 + 1 = k"
  then show "x = r + (k - 1) * 7" using mult_div_mod_eq [of 7 x] by auto
next
  define j where "j = k - 1"
  assume "x = r + (k - 1) * 7"
  then have "x = r + j * 7" by (simp add: j_def)
  then have "x mod 7 = r" "x div 7 = j" using assms by simp_all
  then show "x mod 7 = r \<and> x div 7 + 1 = k" by (simp add: j_def)
qed

lemma seven_back: "weekday_of n = i \<longleftrightarrow> (end_day - n) mod 7 = (weekday_of end_day - i + 7) mod 7" if "0 \<le> i" "i < 7"
proof -
  have "(end_day - n) mod 7 = (weekday_of end_day - weekday_of n + 7) mod 7"
    using weekday_offset [of n "weekday_of n" "weekday_of end_day" end_day] weekday_bounds by blast
  moreover have "(weekday_of end_day - weekday_of n + 7) mod 7 = (weekday_of end_day - i + 7) mod 7 \<longleftrightarrow> weekday_of n = i"
  proof -
    have "(weekday_of end_day - weekday_of n + 7) mod 7 = (weekday_of end_day - i + 7) mod 7 \<longleftrightarrow> 7 dvd i - weekday_of n"
      by (simp add: mod_eq_dvd_iff)
    also have "\<dots> \<longleftrightarrow> i mod 7 = weekday_of n mod 7" by (simp add: mod_eq_dvd_iff)
    finally show ?thesis using that by (auto simp: weekday_of_def)
  qed
  ultimately show ?thesis by simp
qed

text \<open>The one day of a month that an ordinal names.\<close>

definition nth_day :: "int \<Rightarrow> int \<Rightarrow> int \<Rightarrow> int" where
  "nth_day i idx k =
     (if 0 < k then first_day i + (idx - weekday_of (first_day i) + 7) mod 7 + (k - 1) * 7
      else first_day i + month_length i - 1 - (weekday_of (first_day i + month_length i - 1) - idx + 7) mod 7)"

lemma nth_day_month:
  assumes "k = - 1 \<or> 1 \<le> k \<and> k \<le> 4"
  shows "month_index (nth_day i idx k) = i" "date_of (nth_day i idx k) = nth_day i idx k - first_day i + 1"
proof -
  have "first_day i \<le> nth_day i idx k" "nth_day i idx k < first_day i + 28 \<or> nth_day i idx k < first_day i + month_length i"
    using assms month_length_bounds(1) [of i] pos_mod_bound [of 7 "idx - weekday_of (first_day i) + 7"]
      pos_mod_bound [of 7 "weekday_of (first_day i + month_length i - 1) - idx + 7"] 
    by (auto simp: nth_day_def)
  then show "month_index (nth_day i idx k) = i" using month_index_unique month_length_bounds(1) [of i] by force
  then show "date_of (nth_day i idx k) = nth_day i idx k - first_day i + 1" by (simp add: date_of_day)
qed

lemma nth_day_only:
  assumes "supported_by_day (wd, Some k)" "month_index n = i"
  shows "by_day_listed (wd, Some k) n \<longleftrightarrow> n = nth_day i (weekdayIndex wd) k"
proof -
  let ?idx = "weekdayIndex wd"
  have idx: "0 \<le> ?idx" "?idx < 7" using assms(1) weekday_index_range by (auto simp: supported_by_day_def)
  note n = date_of_day [of n] month_index_bounds [of n]
  show ?thesis
  proof (cases "0 < k")
    case True
    have "weekday_of n = ?idx \<longleftrightarrow> (n - first_day i) mod 7 = (?idx - weekday_of (first_day i) + 7) mod 7"
      using weekday_offset [OF refl weekday_bounds idx] .
    then have "by_day_listed (wd, Some k) n \<longleftrightarrow> (n - first_day i) mod 7 = (?idx - weekday_of (first_day i) + 7) mod 7 \<and> (n - first_day i) div 7 + 1 = k"
      using True n(1) assms(2) by (simp add: by_day_listed_def)
    also have "\<dots> \<longleftrightarrow> n - first_day i = (?idx - weekday_of (first_day i) + 7) mod 7 + (k - 1) * 7" by (rule seven_digits) simp_all
    finally show ?thesis using True by (auto simp: nth_day_def)
  next
    case False
    let ?last = "first_day i + month_length i - 1"
    have "weekday_of n = ?idx \<longleftrightarrow> (?last - n) mod 7 = (weekday_of ?last - ?idx + 7) mod 7" using seven_back [OF idx] .
    moreover have "?last - n < 7 \<longleftrightarrow> (?last - n) mod 7 = ?last - n" using n(3) assms(2) by (auto simp: mod_pos_pos_trivial)
    ultimately show ?thesis
      using False n assms(2) by (auto simp: by_day_listed_def nth_day_def)
  qed
qed

lemma nth_weekday_day:
  assumes c: "gapless c" and y: "99 < y" and m: "0 \<le> m" "m \<le> 11" and supported: "supported_by_day (wd, Some k)"
  shows "\<exists>r. getNthWeekdayOfMonth c y m wd k = Some r \<and> local_day c r = nth_day (12 * y + m) (weekdayIndex wd) k"
proof -
  let ?i = "12 * y + m" and ?n = "nth_day (12 * y + m) (weekdayIndex wd) k"
  have k: "k = - 1 \<or> 1 \<le> k \<and> k \<le> 4" using supported by (simp add: supported_by_day_def)
  have "month_of ?n = m" using nth_day_month(1) [OF k] m by (simp add: month_index_parts)
  then have in_month: "getMonth c t = m" if "local_day c t = ?n" for t using that by (simp add: getMonth_def)
  have day: "local_day c (new_date c y m d 0) = first_day ?i + d - 1" for d
    using new_date_day(2) [OF c y, of 0 m d] by (simp add: day_ms_def)
  have last_day: "local_day c (new_date c y (m + 1) 0 0) = first_day ?i + month_length ?i - 1"
    using new_date_day(2) [OF c y, of 0 "m + 1" 0] first_day_Suc [of ?i] by (simp add: day_ms_def add.assoc)
  show ?thesis
  proof (cases "0 < k")
    case True
    define t where "t = new_date c y m (1 + (weekdayIndex wd - getDay c (new_date c y m 1 0) + 7) mod 7 + (k - 1) * 7) 0"
    have "local_day c t = ?n" using True by (simp add: t_def day getDay_def nth_day_def)
    moreover have "getNthWeekdayOfMonth c y m wd k = Some t"
      using True in_month [OF calculation] by (simp add: getNthWeekdayOfMonth_def Let_def t_def)
    ultimately show ?thesis by blast
  next
    case False
    define l where "l = new_date c y (m + 1) 0 0"
    define t where "t = new_date c y m (getDate c l - (getDay c l - weekdayIndex wd + 7) mod 7) 0"
    have "getDate c l = month_length ?i"
      using date_in_month [of "month_length ?i" ?i] month_length_bounds(1) [of ?i] by (simp add: l_def getDate_def last_day)
    then have "local_day c t = ?n" using False by (simp add: t_def day getDay_def l_def last_day nth_day_def)
    moreover have "getNthWeekdayOfMonth c y m wd k = Some t"
      using False k in_month [OF calculation] by (simp add: getNthWeekdayOfMonth_def Let_def t_def l_def)
    ultimately show ?thesis by blast
  qed
qed

lemma build_on_day:
  assumes c: "gapless c" and "99 < getFullYear c r"
  shows "buildDateWithTime c (getFullYear c r) (getMonth c r) (getDate c r) base = on_day c base (local_day c r)"
  using new_date_day(1) [OF assms time_of_day_bounds] date_of_day [of "local_day c r"]
  by (simp add: buildDateWithTime_def on_day_def month_parts getDate_def)

lemma by_day_lists:
  assumes c: "gapless c" and ym: "99 < y \<and> 0 \<le> m \<and> m \<le> 11" and supported: "supported_by_day candidate"
  shows "set (by_day_in_month c base y m candidate) = on_day c base ` {n. month_index n = 12 * y + m \<and> by_day_listed candidate n}"
proof (cases "snd candidate")
  case (Some k)
  let ?wd = "fst candidate" and ?i = "12 * y + m"
  have cand: "supported_by_day (?wd, Some k)" "by_day_listed candidate n \<longleftrightarrow> by_day_listed (?wd, Some k) n" for n
    using supported Some by (simp_all add: supported_by_day_def by_day_listed_def)
  obtain r where r: "getNthWeekdayOfMonth c y m ?wd k = Some r" "local_day c r = nth_day ?i (weekdayIndex ?wd) k"
    using nth_weekday_day [OF c _ _ _ cand(1)] ym by blast
  have i: "month_index (nth_day ?i (weekdayIndex ?wd) k) = ?i" using nth_day_month(1) cand(1) by (simp add: supported_by_day_def)
  then have "99 < getFullYear c r" using r(2) ym by (simp add: getFullYear_def month_index_parts)
  then have "by_day_in_month c base y m candidate = [on_day c base (nth_day ?i (weekdayIndex ?wd) k)]"
    using Some r build_on_day [OF c] by (simp add: by_day_in_month_def)
  moreover have "{n. month_index n = ?i \<and> by_day_listed candidate n} = {nth_day ?i (weekdayIndex ?wd) k}"
    using nth_day_only [OF cand(1), of _ ?i] cand(2) i by (intro set_eqI) (simp only: mem_Collect_eq singleton_iff, metis)
  ultimately show ?thesis by simp
next
  case None
  let ?i = "12 * y + m"
  have day: "buildDateWithTime c y m d base = on_day c base (first_day ?i + d - 1)" for d
    using new_date_day(1) [OF c _ time_of_day_bounds] ym by (simp add: buildDateWithTime_def on_day_def)
  have "{n. month_index n = ?i} = (\<lambda>d. first_day ?i + d - 1) ` {1..month_length ?i}"
  proof (intro set_eqI iffI)
    fix n assume "n \<in> {n. month_index n = ?i}"
    then show "n \<in> (\<lambda>d. first_day ?i + d - 1) ` {1..month_length ?i}"
      using date_of_bounds [of n] date_of_day [of n] by (intro image_eqI [of _ _ "date_of n"]) auto
  qed (use date_in_month in auto)
  then have "{n. month_index n = ?i \<and> by_day_listed candidate n}
    = {n \<in> (\<lambda>d. first_day ?i + d - 1) ` {1..month_length ?i}. weekday_of n = weekdayIndex (fst candidate)}"
    using None by (auto simp: by_day_listed_def)
  then show ?thesis
    using None last_day [OF c] ym by (auto simp: by_day_in_month_def day getDay_def on_day_reads [OF c])
qed

definition by_day_candidates :: "string list \<Rightarrow> (string \<times> int option) list" where
  "by_day_candidates wanted = List.map_filter parseOrdinalByDay (map the_str (elems (normalizeWeekdays (days_js wanted))))"

lemma ordinal_digits:
  "js_digit CHR ''1''" "js_digit CHR ''2''" "js_digit CHR ''3''" "js_digit CHR ''4''"
  "digits_nat ''1'' = 1" "digits_nat ''2'' = 2" "digits_nat ''3'' = 3" "digits_nat ''4'' = 4"
  by code_simp+

lemma parsed_token_supported:
  assumes "parseByDayToken s = Some t"
  shows "\<exists>candidate. parseOrdinalByDay t = Some candidate \<and> supported_by_day candidate"
proof -
  define day sign where "day = drop (length t - 2) t" and "sign = take (length t - 2) t"
  have t: "\<not> length t < 2" "day \<in> set WEEKDAY_ORDER" "sign \<in> {[], ''-1'', ''1'', ''2'', ''3'', ''4''}"
    using assms by (auto simp: parseByDayToken_def Let_def day_def sign_def split: if_splits)
  have "parseOrdinalByDay t =
     (if sign = [] then Some (day, None)
      else if length sign = 1 \<and> js_digit (sign ! 0) then Some (day, Some (int (digits_nat sign)))
      else if length sign = 2 \<and> sign ! 0 = CHR ''-'' \<and> js_digit (sign ! 1) then Some (day, Some (- int (digits_nat (tl sign))))
      else None)"
    unfolding parseOrdinalByDay_def Let_def day_def [symmetric] sign_def [symmetric] using t(1,2) by (simp only: if_False simp_thms)
  then show ?thesis
    using t(3) by (elim insertE emptyE) (simp_all add: ordinal_digits supported_by_day_def t(2))
qed

lemma normal_weekdays:
  "map the_str (elems (normalizeWeekdays days)) = uniq (List.map_filter (\<lambda>d. parseByDayToken (the_str d)) (elems days))"
  by (simp add: normalizeWeekdays_def Let_def uniq_distinct comp_def)

lemma in_map_filter: "x \<in> set (List.map_filter f xs) \<Longrightarrow> \<exists>y. f y = Some x"
  by (induction xs) (auto simp: map_filter_simps split: option.splits)

lemma by_day_candidates_supported:
  assumes "candidate \<in> set (by_day_candidates wanted)"
  shows "supported_by_day candidate"
proof -
  have "\<exists>t \<in> set (map the_str (elems (normalizeWeekdays (days_js wanted)))). parseOrdinalByDay t = Some candidate"
    using assms by (auto simp: by_day_candidates_def map_filter_def)
  then obtain t where t: "t \<in> set (map the_str (elems (normalizeWeekdays (days_js wanted))))" "parseOrdinalByDay t = Some candidate"
    by blast
  obtain s where "parseByDayToken s = Some t"
    using in_map_filter [OF t(1) [unfolded normal_weekdays set_uniq]] by blast
  then show ?thesis using parsed_token_supported t(2) by fastforce
qed

lemma normal_month_days: "elems (normalizeMonthDays days) = map JNum (sort (uniq (List.map_filter (\<lambda>d. valid_month_day (js_number d)) days)))"
  by (simp add: normalizeMonthDays_def Let_def uniq_distinct)

lemma valid_month_day_floor: "valid_month_day v = Some q \<Longrightarrow> \<lfloor>q\<rfloor> = - 1 \<or> 1 \<le> \<lfloor>q\<rfloor> \<and> \<lfloor>q\<rfloor> \<le> 31"
proof -
  assume "valid_month_day v = Some q"
  then have "(1 \<le> q \<and> q \<le> 31) \<or> q = - 1" by (auto simp: valid_month_day_def split: js.splits if_splits)
  moreover have "\<lfloor>- 1 :: rat\<rfloor> = - 1" using floor_of_int [of "- 1", where ?'a = rat] by simp
  ultimately show ?thesis using floor_mono [of q 31] floor_mono [of 1 q] by auto
qed

lemma month_days_range:
  assumes "d \<in> set (month_days wanted)"
  shows "d = - 1 \<or> 1 \<le> d \<and> d \<le> 31"
proof -
  obtain q where q: "q \<in> set (List.map_filter (\<lambda>d. valid_month_day (js_number d)) (map js_string wanted))" "d = \<lfloor>q\<rfloor>"
    using assms by (auto simp: month_days_def normal_month_days)
  show ?thesis using in_map_filter [OF q(1)] valid_month_day_floor q(2) by blast
qed

lemma safe_interval_pos: "1 \<le> safe_interval interval"
  by (simp add: safe_interval_def)

text \<open>
  C31. A monthly rule on given weekdays (any, the n-th or the last one of a month) returns the first later day the rule
  names in the month of the base or one of the months the interval reaches, at the time of the base; no named day
  is skipped, and only when twelve intervals name no day does it fall back to a plain step.
\<close>

theorem next_monthly_weekday_is_the_first:
  assumes "gapless c" "0 \<le> local_day c base" "elems (normalizeWeekdays (days_js wanted)) \<noteq> []"
  shows "first_offered c base (\<lambda>n. list_ex (\<lambda>candidate. by_day_listed candidate n) (by_day_candidates wanted))
    (safe_interval interval) (nextMonthlyByDay c base wanted interval)"
proof -
  let ?listed = "\<lambda>n. list_ex (\<lambda>candidate. by_day_listed candidate n) (by_day_candidates wanted)"
  have "lists_days c base ?listed (\<lambda>y m. concat (map (by_day_in_month c base y m) (by_day_candidates wanted)))"
    unfolding lists_days_def set_concat set_map
    using by_day_lists [OF assms(1) _ by_day_candidates_supported] by (auto simp: list_ex_iff)
  then show ?thesis
    using monthly_search [OF assms(1,2), of ?listed _ "safe_interval interval"] assms(3) safe_interval_pos
    by (simp add: nextMonthlyByDay_def Let_def by_day_candidates_def)
qed

lemma first_offered_is:
  assumes "first_offered c base listed step d" "offered c base listed (offsets step 12) n"
    "list_all (\<lambda>k. \<not> listed k) [local_day c base + 1..n - 1]"
  shows "local_day c d = n"
proof -
  have "local_day c base < local_day c d" "listed (local_day c d)" "local_day c d \<le> n"
    using assms(1) if_P [of "\<exists>n. offered c base listed (offsets step 12) n"] assms(2)
    unfolding first_offered_def offered_def [of c base listed _ "local_day c d"] by metis+
  then show ?thesis using assms(3) by (cases "local_day c d = n") (auto simp: list_all_iff)
qed

theorem next_monthly_weekday_is_the_first_witness:
  "local_day utc (nextMonthlyByDay utc 0 [''-1FR''] 1) = 29"
proof (rule first_offered_is [OF next_monthly_weekday_is_the_first [OF gapless_utc]])
  have zero: "local_day utc 0 = 0" by (simp add: local_day_def wall_utc)
  then show "0 \<le> local_day utc 0" by simp
  show "elems (normalizeWeekdays (days_js [''-1FR''])) \<noteq> []" by code_simp
  have "month_index 29 = month_index 0" "0 \<in> set (offsets (safe_interval 1) 12)"
    "list_ex (\<lambda>candidate. by_day_listed candidate 29) (by_day_candidates [''-1FR''])"
    by code_simp+
  then show "offered utc 0 (\<lambda>n. list_ex (\<lambda>candidate. by_day_listed candidate n) (by_day_candidates [''-1FR''])) (offsets (safe_interval 1) 12) 29"
    by (simp add: offered_def zero)
  have "by_day_candidates [''-1FR''] = [(''FR'', Some (- 1))]" "supported_by_day (''FR'', Some (- 1))"
    "first_day 23640 = 0" "month_length 23640 = 31" "nth_day 23640 (weekdayIndex ''FR'') (- 1) = 29"
    by code_simp+
  moreover then have "\<not> by_day_listed (''FR'', Some (- 1)) k" if "1 \<le> k" "k \<le> 28" for k
    using nth_day_only [of "''FR''" "- 1" k 23640] month_index_unique [of 23640 k] that by simp
  ultimately show "list_all (\<lambda>k. \<not> list_ex (\<lambda>candidate. by_day_listed candidate k) (by_day_candidates [''-1FR''])) [local_day utc 0 + 1..29 - 1]"
    by (simp add: list_all_iff zero)
qed

text \<open>
  A monthly rule on given days of the month returns the first later day the rule names (the last day of a month
  for -1) in the month of the base or one of the months the interval reaches, at the time of the base; a month
  too short for a day offers none, and only when twelve intervals offer no day does it fall back to a plain step.
\<close>

theorem next_month_day_is_the_first:
  assumes "gapless c" "0 \<le> local_day c base" "month_days wanted \<noteq> []"
  shows "first_offered c base (month_day_listed (month_days wanted)) (safe_interval interval) (nextMonthlyByMonthDay c base wanted interval)"
  using monthly_search [OF assms(1,2) month_day_lists [OF assms(1)], of "month_days wanted" "safe_interval interval"] month_days_range assms(3) safe_interval_pos
  by (simp add: nextMonthlyByMonthDay_def Let_def)

theorem next_month_day_is_the_first_witness:
  "local_day utc (nextMonthlyByMonthDay utc (58 * day_ms) [JNum 29] 1) = 87"
proof -
  have days: "month_days [JNum 29] = [29]" by code_simp
  show ?thesis
  proof (rule first_offered_is [OF next_month_day_is_the_first [OF gapless_utc]])
    have base: "local_day utc (58 * day_ms) = 58" by (simp add: local_day_def wall_utc day_ms_def)
    then show "0 \<le> local_day utc (58 * day_ms)" "month_days [JNum 29] \<noteq> []" by (simp_all add: days)
    have "month_index 87 - month_index 58 = 1"
      "1 \<in> set (offsets (safe_interval 1) 12)" "month_day_listed [29] 87"
      by code_simp+
    then show "offered utc (58 * day_ms) (month_day_listed (month_days [JNum 29])) (offsets (safe_interval 1) 12) 87"
      by (simp add: offered_def days base)
    show "list_all (\<lambda>k. \<not> month_day_listed (month_days [JNum 29]) k) [local_day utc (58 * day_ms) + 1..87 - 1]"
    proof -
      have "first_day 23642 = 59" "month_length 23642 = 31" by code_simp+
      moreover then have "month_index k = 23642" if "59 \<le> k" "k \<le> 86" for k
        using month_index_unique [of 23642 k] that by simp
      ultimately show ?thesis by (simp add: list_all_iff days base month_day_listed_def date_of_day)
    qed
  qed
qed

section \<open>A zone with a gap\<close>

text \<open>
  Without the assumption the weekly search can return the day it starts from. In the zone below the clocks went from 2 to 3 on
  a Sunday, the day with number 3: a reading the gap skips is moved on by its length, as the language does.
\<close>

definition hour_ms :: int where
  "hour_ms = 3600000"

definition spring :: calendar where
  "spring =
     (let change = 3 * day_ms + 2 * hour_ms;
          wall_of = (\<lambda>t. if t < change then t else t + hour_ms);
          unwall_of = (\<lambda>w. if w < change + hour_ms then w else w - hour_ms)
      in utc\<lparr>wall := wall_of, unwall := unwall_of, add_days := (\<lambda>t n. if n = 0 then t else unwall_of (wall_of t + n * day_ms))\<rparr>)"

definition wednesday_at_half_past_two :: int where
  "wednesday_at_half_past_two = unwall spring (6 * day_ms + 2 * hour_ms + 1800000)"

text \<open>
  A task due on a Wednesday at 2:30 that repeats every Wednesday, weeks beginning on Sunday: the search
  goes back to the Sunday of the gap, where 2:30 becomes 3:30, and returns that same Wednesday at 3:30.
\<close>

theorem weekly_date_repeats_after_a_gap:
  "local_day spring wednesday_at_half_past_two = 6
   \<and> nextWeeklyByDay spring wednesday_at_half_past_two [''WE''] 1 (JStr ''SU'') = wednesday_at_half_past_two + hour_ms
   \<and> local_day spring (wednesday_at_half_past_two + hour_ms) = 6"
proof -
  have zone: "wall spring t = (if t < 266400000 then t else t + 3600000)" "unwall spring w = (if w < 270000000 then w else w - 3600000)"
    "add_days spring t n = (if n = 0 then t else unwall spring (wall spring t + n * day_ms))" for t w n
    by (simp_all add: spring_def Let_def day_ms_def hour_ms_def)
  have wed: "wednesday_at_half_past_two = 523800000" by (simp add: wednesday_at_half_past_two_def zone day_ms_def hour_ms_def)
  have days: "normalizeWeeklyByDay (days_js [''WE'']) = [''WE'']" "the_str (coalesce (normalizeWeekStart (JStr ''SU'')) (JStr ''MO'')) = ''SU''"
    "filter (\<lambda>day. day \<in> set [''WE'']) (orderWeekdaysByWeekStart ''SU'') = [''WE'']" "weekdayIndex ''SU'' = 0" "weekdayIndex ''WE'' = 3"
    by code_simp+
  have base: "getDay spring 523800000 = 3" by (simp add: getDay_def local_day_def weekday_of_def zone day_ms_def)
  have start: "set_date spring 523800000 (getDate spring 523800000 - 3) = 268200000"
    unfolding set_date_back by (simp add: local_day_def time_of_day_def zone day_ms_def)
  have "nextWeeklyByDay spring 523800000 [''WE''] 1 (JStr ''SU'') = 527400000"
    unfolding nextWeeklyByDay_def Let_def days base
    by (simp add: start safe_interval_def offsets_def week_candidates_def Let_def add_weeks_def days zone day_ms_def del: upt_Suc)
      (simp add: upt_conv_Cons week_candidates_def Let_def add_weeks_def days zone day_ms_def)
  then show ?thesis by (simp add: wed local_day_def zone day_ms_def hour_ms_def)
qed

end
