(* ===== verification/Recurrence_Forward.thy ===== *)
theory Recurrence_Forward
  imports Recurrence_Task Recurrence_Search
begin

text \<open>
  The fast path of \<open>projectStrictIsoFrom\<close> (\<^verbatim>\<open>packages/core/src/recurrence.ts\<close>, lines 1046 to 1123) against plain stepping:
  jumping close to the boundary and finishing with single steps finds the occurrence that stepping
  from the base finds, and counts the same number of steps.
\<close>

section \<open>Steps of an interval\<close>

text \<open>The day a step of \<open>n\<close> units leads to.\<close>

fun day_after :: "recurrence_rule \<Rightarrow> int \<Rightarrow> int \<Rightarrow> int \<Rightarrow> int" where
  "day_after Daily a n d = d + n"
| "day_after Weekly a n d = d + 7 * n"
| "day_after Monthly a n d = first_day (month_index d + n) + min a (month_length (month_index d + n)) - 1"
| "day_after Yearly a n d = first_day (month_index d + 12 * n) + min a (month_length (month_index d + 12 * n)) - 1"

lemma month_of_step:
  assumes "1 \<le> a"
  shows "month_index (day_after Monthly a n d) = month_index d + n" "month_index (day_after Yearly a n d) = month_index d + 12 * n"
  using date_in_month [of "min a (month_length (month_index d + n))" "month_index d + n"] month_length_bounds(1) [of "month_index d + n"]
    date_in_month [of "min a (month_length (month_index d + 12 * n))" "month_index d + 12 * n"] month_length_bounds(1) [of "month_index d + 12 * n"] assms
  by simp_all

lemma day_after_add:
  assumes "1 \<le> a"
  shows "day_after rule a n (day_after rule a m d) = day_after rule a (m + n) d"
proof (cases rule)
  case Monthly
  then show ?thesis using month_of_step(1) [OF assms, of m d] by (simp add: add.assoc)
next
  case Yearly
  then show ?thesis using month_of_step(2) [OF assms, of m d] by (simp add: add.assoc distrib_left)
qed simp_all

lemma day_after_grows:
  assumes "1 \<le> a" "1 \<le> n"
  shows "d < day_after rule a n d"
proof (cases rule)
  case Monthly
  then show ?thesis using later_month [of d "day_after rule a n d"] month_of_step(1) [OF assms(1), of n d] assms(2) by simp
next
  case Yearly
  then show ?thesis using later_month [of d "day_after rule a n d"] month_of_step(2) [OF assms(1), of n d] assms(2) by simp
qed (use assms in simp_all)

lemma addYearsClamped_value:
  assumes c: "gapless c" and base: "0 \<le> local_day c base" and "0 \<le> n"
  shows "addYearsClamped c base n (Some a) = unwall c (day_after Yearly a n (local_day c base) * day_ms + time_of_day c base)"
proof -
  have y: "99 < getFullYear c base + n" using modern_year [OF base] assms(3) by (simp add: getFullYear_def)
  have i: "12 * (getFullYear c base + n) + getMonth c base = month_index (local_day c base) + 12 * n" using month_parts [of c base] by simp
  note lands = last_day [OF c y, of "getMonth c base", unfolded i] new_date_day(1) [OF c y time_of_day_bounds [of c base], of "getMonth c base", unfolded i]
  show ?thesis unfolding addYearsClamped_def buildDateWithTime_def Let_def lands by simp
qed

lemma addInterval_value:
  assumes c: "gapless c" and base: "0 \<le> local_day c base" and "1 \<le> n"
  shows "addInterval c base rule n (Some a) = unwall c (day_after rule a n (local_day c base) * day_ms + time_of_day c base)"
proof (cases rule)
  case Monthly
  then show ?thesis using addMonthsClamped_value [OF c base, of n "Some a"] assms(3) by (simp add: addInterval_def)
next
  case Yearly
  then show ?thesis using addYearsClamped_value [OF c base, of n a] assms(3) by (simp add: addInterval_def)
next
  case Daily
  have "wall c base + n * day_ms = (local_day c base + n) * day_ms + time_of_day c base" by (simp add: wall_split [of c base] distrib_right)
  then show ?thesis using Daily assms(3) by (simp add: addInterval_def gaplessD(4) [OF c])
next
  case Weekly
  have "wall c base + 7 * n * day_ms = (local_day c base + 7 * n) * day_ms + time_of_day c base" by (simp add: wall_split [of c base] distrib_right)
  then show ?thesis using Weekly assms(3) by (simp add: addInterval_def add_weeks_def gaplessD(4) [OF c])
qed

section \<open>Texts and what they parse to\<close>

text \<open>The last day a date text of four-digit years names.\<close>

definition last_text_day :: int where
  "last_text_day = 2932896"

text \<open>
  What is assumed of \<open>format\<close> of the package, of \<open>toISOString\<close> and of the parser, for the years up to 9999: a text says what it
  was made from, to the day, the minute or the millisecond.
\<close>

definition texts_read_back :: "host \<Rightarrow> calendar \<Rightarrow> bool" where
  "texts_read_back h c \<longleftrightarrow>
     (\<forall>t. 0 \<le> local_day c t \<and> local_day c t \<le> last_text_day \<longrightarrow>
        safeParseDate h (JStr (format_date c t)) = Some (unwall c (local_day c t * day_ms)) \<and> is_date_only (format_date c t)
      \<and> safeParseDate h (JStr (format_local c t)) = Some (unwall c (wall c t div 60000 * 60000))
      \<and> \<not> is_date_only (format_local c t) \<and> \<not> has_timezone (format_local c t)
      \<and> safeParseDate h (JStr (iso_string t)) = Some t \<and> \<not> is_date_only (iso_string t) \<and> has_timezone (iso_string t))
   \<and> (\<forall>t t'. local_day c t = local_day c t' \<longrightarrow> format_date c t = format_date c t')
   \<and> (\<forall>t t'. wall c t div 60000 = wall c t' div 60000 \<longrightarrow> format_local c t = format_local c t')"

text \<open>The three kinds of text, what they write and what is read from it.\<close>

datatype text_kind = Day_Text | Local_Text | Zone_Text

definition kind_of :: "string \<Rightarrow> text_kind" where
  "kind_of s = (if is_date_only s then Day_Text else if has_timezone s then Zone_Text else Local_Text)"

fun written :: "calendar \<Rightarrow> text_kind \<Rightarrow> int \<Rightarrow> string" where
  "written c Day_Text t = format_date c t"
| "written c Local_Text t = format_local c t"
| "written c Zone_Text t = iso_string t"

fun read_back :: "calendar \<Rightarrow> text_kind \<Rightarrow> int \<Rightarrow> int" where
  "read_back c Day_Text t = unwall c (local_day c t * day_ms)"
| "read_back c Local_Text t = unwall c (wall c t div 60000 * 60000)"
| "read_back c Zone_Text t = t"

definition text_range :: "calendar \<Rightarrow> int \<Rightarrow> bool" where
  "text_range c t \<longleftrightarrow> 0 \<le> local_day c t \<and> local_day c t \<le> last_text_day"

lemma parse_written:
  assumes "texts_read_back h c" "text_range c t"
  shows "safeParseDate h (JStr (written c k t)) = Some (read_back c k t)" "kind_of (written c k t) = k"
proof -
  note facts = assms(1) [unfolded texts_read_back_def, THEN conjunct1, rule_format, OF assms(2) [unfolded text_range_def]]
  show "safeParseDate h (JStr (written c k t)) = Some (read_back c k t)" "kind_of (written c k t) = k"
    by (cases k; simp add: facts kind_of_def)+
qed

lemma format_same:
  assumes "texts_read_back h c"
  shows "local_day c t = local_day c t' \<Longrightarrow> format_date c t = format_date c t'"
    and "wall c t div 60000 = wall c t' div 60000 \<Longrightarrow> format_local c t = format_local c t'"
  using assms unfolding texts_read_back_def by blast+

lemma minute_div: "(d * day_ms + tod) div 60000 = 1440 * d + tod div 60000"
proof -
  have "d * day_ms + tod = tod + 60000 * (1440 * d)" by (simp add: day_ms_def)
  moreover have "(tod + 60000 * (1440 * d)) div 60000 = 1440 * d + tod div 60000" by (rule div_mult_self2) simp
  ultimately show ?thesis by metis
qed

lemma minute_floor: "(d * day_ms + tod) div 60000 * 60000 = d * day_ms + tod div 60000 * 60000"
  unfolding minute_div by (simp add: day_ms_def)

lemma wall_on_day: "gapless c \<Longrightarrow> t = unwall c (d * day_ms + tod) \<Longrightarrow> wall c t = d * day_ms + tod"
  by (simp add: gaplessD(1))

lemma read_back_day:
  assumes "gapless c" "0 \<le> tod" "tod < day_ms" "t = unwall c (d * day_ms + tod)"
  shows "local_day c (read_back c k t) = d" "\<exists>tod'. 0 \<le> tod' \<and> tod' \<le> tod \<and> read_back c k t = unwall c (d * day_ms + tod')"
proof -
  have w: "wall c t = d * day_ms + tod" "local_day c t = d" using assms at_day(1) by (simp_all add: gaplessD(1))
  have split: "wall c t div 60000 * 60000 = d * day_ms + tod div 60000 * 60000" unfolding w by (rule minute_floor)
  have le: "0 \<le> tod div 60000 * 60000" "tod div 60000 * 60000 \<le> tod" using assms(2) div_bounds(1) [of 60000 tod] by (simp_all add: pos_imp_zdiv_nonneg_iff)
  show "\<exists>tod'. 0 \<le> tod' \<and> tod' \<le> tod \<and> read_back c k t = unwall c (d * day_ms + tod')"
  proof (cases k)
    case Day_Text
    then show ?thesis using assms(2) w by (intro exI [of _ 0]) simp
  next
    case Local_Text
    then show ?thesis using le split by (intro exI [of _ "tod div 60000 * 60000"]) simp
  next
    case Zone_Text
    then show ?thesis using assms(2,4) by (intro exI [of _ tod]) simp
  qed
  then obtain tod' where "0 \<le> tod'" "tod' \<le> tod" "read_back c k t = unwall c (d * day_ms + tod')" by blast
  then show "local_day c (read_back c k t) = d" using at_day(1) [OF assms(1), of tod' d] assms(3) by simp
qed

text \<open>Instants a kind of text does not tell apart.\<close>

lemma written_same:
  assumes "texts_read_back h c" "gapless c" "0 \<le> tod" "tod < day_ms"
    and t: "t = unwall c (d * day_ms + tod)" and t': "t' = unwall c (d * day_ms + time_of_day c (read_back c k (unwall c (e * day_ms + tod))))"
  shows "written c k t' = written c k t"
proof (cases k)
  case Day_Text
  then show ?thesis
    using assms(1) at_day(1) [OF assms(2-4), of d] at_day(1) [OF assms(2) time_of_day_bounds, of _ c "read_back c k (unwall c (e * day_ms + tod))"]
    unfolding t t' by (auto intro: format_same(1) [OF assms(1)])
next
  case Local_Text
  have "wall c (unwall c (e * day_ms + tod)) div 60000 * 60000 = e * day_ms + tod div 60000 * 60000" unfolding gaplessD(1) [OF assms(2)] by (rule minute_floor)
  moreover have "0 \<le> tod div 60000 * 60000" "tod div 60000 * 60000 < day_ms"
    using assms(3,4) div_bounds(1) [of 60000 tod] by (simp_all add: pos_imp_zdiv_nonneg_iff)
  ultimately have "time_of_day c (read_back c k (unwall c (e * day_ms + tod))) = tod div 60000 * 60000"
    using at_day(2) [OF assms(2)] Local_Text by simp
  then have "wall c t' div 60000 = wall c t div 60000" unfolding t t' gaplessD(1) [OF assms(2)] minute_div by simp
  then show ?thesis using Local_Text by (auto intro: format_same(2) [OF assms(1)])
next
  case Zone_Text
  then show ?thesis using at_day(2) [OF assms(2-4), of e] t t' by simp
qed

section \<open>Texts of occurrences\<close>

lemma day_after_nonneg: "1 \<le> a \<Longrightarrow> 1 \<le> n \<Longrightarrow> 0 \<le> d \<Longrightarrow> 0 \<le> day_after rule a n d"
  using day_after_grows [of a n d rule] by simp

lemma next_text:
  assumes c: "gapless c" and a: "1 \<le> a" and n: "1 \<le> n"
    and t: "safeParseDate h (JStr s) = Some t" "0 \<le> local_day c t"
  shows "nextIsoFrom h c s rule fallback (simple_shape ws) n None (Some a)
    = written c (kind_of s) (unwall c (day_after rule a n (local_day c t) * day_ms + time_of_day c t))"
proof -
  let ?r = "unwall c (day_after rule a n (local_day c t) * day_ms + time_of_day c t)"
  have date: "next_date c rule (simple_shape ws) n t (Some a) = ?r"
    using addInterval_value [OF c t(2) n] by (simp add: next_date_def simple_shape_def)
  have r: "local_day c ?r = day_after rule a n (local_day c t)" using at_day(1) [OF c time_of_day_bounds] .
  have "99 < getFullYear c ?r" using modern_year [OF day_after_nonneg [OF a n t(2), of rule]] unfolding getFullYear_def r by linarith
  then have "buildDateWithTime c (getFullYear c ?r) (getMonth c ?r) (getDate c ?r) t = ?r"
    using build_on_day [OF c, of ?r t] by (simp add: on_day_def r)
  then show ?thesis using t(1) by (simp add: nextIsoFrom_def date format_like_def kind_of_def)
qed

definition occurrence_day :: "recurrence_rule \<Rightarrow> int \<Rightarrow> int \<Rightarrow> int \<Rightarrow> nat \<Rightarrow> int" where
  "occurrence_day rule a step d n = day_after rule a (int n * step) d"

definition occurrence :: "calendar \<Rightarrow> recurrence_rule \<Rightarrow> int \<Rightarrow> int \<Rightarrow> int \<Rightarrow> nat \<Rightarrow> int" where
  "occurrence c rule a step t n = unwall c (occurrence_day rule a step (local_day c t) n * day_ms + time_of_day c t)"

lemma occurrence_day_Suc:
  assumes "1 \<le> a" "1 \<le> step" "1 \<le> n"
  shows "occurrence_day rule a step d (Suc n) = day_after rule a step (occurrence_day rule a step d n)"
    "occurrence_day rule a step d n < occurrence_day rule a step d (Suc n)"
proof -
  show e: "occurrence_day rule a step d (Suc n) = day_after rule a step (occurrence_day rule a step d n)"
    using day_after_add [OF assms(1), of rule step "int n * step" d] by (simp add: occurrence_day_def algebra_simps)
  show "occurrence_day rule a step d n < occurrence_day rule a step d (Suc n)"
    unfolding e using day_after_grows [OF assms(1,2)] .
qed

lemma occurrence_day_mono:
  assumes "1 \<le> a" "1 \<le> step" "1 \<le> n" "n \<le> n'"
  shows "occurrence_day rule a step d n \<le> occurrence_day rule a step d n'"
  using assms(4)
proof (induction n' rule: dec_induct)
  case (step i)
  then show ?case using occurrence_day_Suc(2) [OF assms(1,2), of i rule d] assms(3) by simp
qed simp

lemma occurrence_day_ge:
  assumes "1 \<le> a" "1 \<le> step" "1 \<le> n"
  shows "d + int n \<le> occurrence_day rule a step d n"
  using assms(3)
proof (induction n rule: dec_induct)
  case base
  then show ?case using day_after_grows [OF assms(1,2), of d rule] by (simp add: occurrence_day_def)
next
  case (step i)
  then show ?case using occurrence_day_Suc(2) [OF assms(1,2), of i rule d] by simp
qed

lemma occurrence_reads:
  assumes "gapless c"
  shows "local_day c (occurrence c rule a step t n) = occurrence_day rule a step (local_day c t) n"
  using at_day(1) [OF assms time_of_day_bounds] by (simp add: occurrence_def)

lemma step_text:
  assumes c: "gapless c" "texts_read_back h c" and a: "1 \<le> a" and step: "1 \<le> step" and n: "1 \<le> n"
    and range: "text_range c (occurrence c rule a step t n)"
  shows "nextIsoFrom h c (written c k (occurrence c rule a step t n)) rule fallback (simple_shape ws) step None (Some a)
    = written c k (occurrence c rule a step t (Suc n))"
proof -
  let ?d = "occurrence_day rule a step (local_day c t) n"
  note parse = parse_written [OF c(2) range, of k]
  have day: "local_day c (read_back c k (occurrence c rule a step t n)) = ?d"
    using read_back_day(1) [OF c(1) time_of_day_bounds occurrence_def] .
  have "0 \<le> ?d" using range occurrence_reads [OF c(1)] by (simp add: text_range_def)
  then show ?thesis
    using next_text [OF c(1) a step parse(1), of rule fallback ws] day parse(2) occurrence_day_Suc(1) [OF a step n]
      written_same [OF c(2,1) time_of_day_bounds refl refl, where d = "day_after rule a step ?d" and e = ?d]
    by (simp add: occurrence_def)
qed

section \<open>The boundary\<close>

definition seen :: "calendar \<Rightarrow> text_kind \<Rightarrow> recurrence_rule \<Rightarrow> int \<Rightarrow> int \<Rightarrow> int \<Rightarrow> nat \<Rightarrow> int" where
  "seen c k rule a step t n = read_back c k (occurrence c rule a step t n)"

lemma seen_reading:
  assumes "gapless c"
  shows "\<exists>tod. 0 \<le> tod \<and> tod < day_ms \<and> seen c k rule a step t n = unwall c (occurrence_day rule a step (local_day c t) n * day_ms + tod)"
proof -
  have "\<exists>tod. 0 \<le> tod \<and> tod \<le> time_of_day c t
    \<and> read_back c k (occurrence c rule a step t n) = unwall c (occurrence_day rule a step (local_day c t) n * day_ms + tod)"
    by (rule read_back_day(2) [OF assms time_of_day_bounds occurrence_def])
  then show ?thesis unfolding seen_def using time_of_day_bounds(2) [of c t] by force
qed

lemma seen_late:
  assumes "gapless c" "local_day c b + 2 \<le> occurrence_day rule a step (local_day c t) n"
  shows "b < seen c k rule a step t n"
proof -
  obtain tod where tod: "0 \<le> tod" "seen c k rule a step t n = unwall c (occurrence_day rule a step (local_day c t) n * day_ms + tod)"
    using seen_reading [OF assms(1)] by blast
  have "(local_day c b + 2) * day_ms \<le> occurrence_day rule a step (local_day c t) n * day_ms"
    using assms(2) by (intro mult_right_mono) (simp_all add: day_ms_def)
  then have "wall c b + day_ms \<le> occurrence_day rule a step (local_day c t) n * day_ms + tod"
    using tod(1) wall_split [of c b] time_of_day_bounds(2) [of c b] by (simp add: distrib_right)
  then show ?thesis unfolding tod(2) by (rule gaplessD(3) [OF assms(1)])
qed

lemma seen_early:
  assumes "gapless c" "occurrence_day rule a step (local_day c t) n < local_day c b"
  shows "seen c k rule a step t n \<le> b"
proof -
  obtain tod where tod: "tod < day_ms" "seen c k rule a step t n = unwall c (occurrence_day rule a step (local_day c t) n * day_ms + tod)"
    using seen_reading [OF assms(1)] by blast
  have "(occurrence_day rule a step (local_day c t) n + 1) * day_ms \<le> local_day c b * day_ms"
    using assms(2) by (intro mult_right_mono) (simp_all add: day_ms_def)
  then have "occurrence_day rule a step (local_day c t) n * day_ms + tod \<le> wall c b"
    using tod(1) wall_split [of c b] time_of_day_bounds(1) [of c b] by (simp add: distrib_right)
  then show ?thesis unfolding tod(2) by (rule gaplessD(2) [OF assms(1)])
qed

text \<open>A date not before the boundary is at most two days behind it by its reading.\<close>

lemma not_before_days:
  assumes "gapless c" "b \<le> t"
  shows "local_day c b \<le> local_day c t + 2"
proof (rule ccontr)
  assume "\<not> ?thesis"
  then have "(local_day c t + 3) * day_ms \<le> local_day c b * day_ms" by (intro mult_right_mono) (simp_all add: day_ms_def)
  then have w: "wall c t + day_ms \<le> (local_day c t + 2) * day_ms" "(local_day c t + 2) * day_ms \<le> wall c b"
    using wall_split [of c t] wall_split [of c b] time_of_day_bounds [of c t] time_of_day_bounds [of c b] by (simp_all add: distrib_right)
  show False using gaplessD(3) [OF assms(1) w(1)] gaplessD(2) [OF assms(1) w(2)] assms(2) by linarith
qed

section \<open>The estimate\<close>

lemma estimate_bounds:
  fixes s u v n :: int
  assumes "1 \<le> s"
  shows "1 \<le> n \<Longrightarrow> n \<le> max 0 (v - u) div s - 1 \<Longrightarrow> u + n * s < v" "v + 2 \<le> u + (max 0 (v - u) div s + 2) * s"
proof -
  let ?q = "max 0 (v - u) div s"
  have q: "?q * s \<le> max 0 (v - u)" "max 0 (v - u) < ?q * s + s"
    using div_bounds [of s "max 0 (v - u)"] assms by (simp_all add: mult.commute)
  show "v + 2 \<le> u + (?q + 2) * s" using q(2) assms by (simp add: distrib_right)
  assume n: "1 \<le> n" "n \<le> ?q - 1"
  then have "n * s \<le> (?q - 1) * s" using assms by (intro mult_right_mono) simp_all
  moreover have "2 * s \<le> ?q * s" using n assms by (intro mult_right_mono) simp_all
  moreover have "(?q - 1) * s = ?q * s - s" by (simp add: left_diff_distrib)
  ultimately show "u + n * s < v" using q(1) assms by (cases "v \<le> u") linarith+
qed

lemma two_months_later: "month_index d + 2 \<le> month_index e \<Longrightarrow> d + 2 \<le> e"
proof -
  assume "month_index d + 2 \<le> month_index e"
  then have "first_day (month_index d + 2) \<le> e" using first_day_mono [of "month_index d + 2" "month_index e"] month_index_bounds(1) [of e] by simp
  moreover have "first_day (month_index d + 2) = first_day (month_index d) + month_length (month_index d) + month_length (month_index d + 1)"
    using first_day_Suc [of "month_index d"] first_day_Suc [of "month_index d + 1"] by (simp add: add.assoc)
  ultimately show "d + 2 \<le> e" using month_index_bounds(2) [of d] month_length_bounds(1) [of "month_index d + 1"] by simp
qed

lemma calendarDayNumber_day: "0 \<le> local_day c t \<Longrightarrow> calendarDayNumber c t = local_day c t"
  using modern_year [of "local_day c t"] date_of_day [of "local_day c t"]
  by (simp add: calendarDayNumber_def Let_def make_day_first month_parts) (simp add: getFullYear_def getDate_def)

lemma year_of_step: "year_of d + n = (month_index d + 12 * n) div 12"
  by (simp add: month_index_parts)

lemma estimate_of_days:
  fixes c t b a step rule
  assumes c: "0 \<le> local_day c t" "0 \<le> local_day c b" and a: "1 \<le> a" and step: "1 \<le> step"
  defines "q \<equiv> estimatedSteps c rule step t b"
  shows "1 \<le> n \<Longrightarrow> int n \<le> q - 1 \<Longrightarrow> occurrence_day rule a step (local_day c t) n < local_day c b"
    and "int n = q + 2 \<Longrightarrow> local_day c b + 2 \<le> occurrence_day rule a step (local_day c t) n"
proof -
  let ?d = "local_day c t" and ?e = "local_day c b" and ?o = "occurrence_day rule a step (local_day c t) n"
  have "(1 \<le> n \<longrightarrow> int n \<le> q - 1 \<longrightarrow> ?o < ?e) \<and> (int n = q + 2 \<longrightarrow> ?e + 2 \<le> ?o)"
  proof (cases rule)
    case Daily
    then show ?thesis
      using estimate_bounds(1) [OF step, of "int n" ?e ?d] estimate_bounds(2) [OF step, of ?e ?d]
      by (simp add: q_def estimatedSteps_def calendarDayNumber_day c occurrence_day_def Let_def)
  next
    case Weekly
    then show ?thesis
      using estimate_bounds(1) [of "step * 7" "int n" ?e ?d] estimate_bounds(2) [of "step * 7" ?e ?d] step
      by (simp add: q_def estimatedSteps_def calendarDayNumber_day c occurrence_day_def Let_def algebra_simps)
  next
    case Monthly
    have "(getFullYear c b - getFullYear c t) * 12 + getMonth c b - getMonth c t = month_index ?e - month_index ?d"
      using month_parts [of c b] month_parts [of c t] by simp
    then have q: "q = max 0 (month_index ?e - month_index ?d) div step" using Monthly by (simp add: q_def estimatedSteps_def Let_def)
    have oc: "month_index ?o = month_index ?d + int n * step" using Monthly month_of_step(1) [OF a] by (simp add: occurrence_day_def)
    show ?thesis
      using estimate_bounds(1) [OF step, of "int n" "month_index ?e" "month_index ?d"] estimate_bounds(2) [OF step, of "month_index ?e" "month_index ?d"] later_month [of ?o ?e] two_months_later [of ?e ?o]
      unfolding oc q by auto
  next
    case Yearly
    have q: "q = max 0 (year_of ?e - year_of ?d) div step" using Yearly by (simp add: q_def estimatedSteps_def Let_def getFullYear_def)
    have oc: "month_index ?o = month_index ?d + 12 * (int n * step)" using Yearly month_of_step(2) [OF a] by (simp add: occurrence_day_def)
    have y: "year_of ?o = year_of ?d + int n * step" by (simp add: month_index_parts(1) [of ?o] oc year_of_step)
    have "?o < ?e" if "year_of ?o < year_of ?e"
      using that later_month [of ?o ?e] by (cases "month_index ?o < month_index ?e") (auto simp: month_index_parts dest!: zdiv_mono1 [of "month_index ?e" "month_index ?o" 12])
    moreover have "?e + 2 \<le> ?o" if "year_of ?e + 2 \<le> year_of ?o"
    proof -
      have "month_index ?e div 12 + 2 \<le> month_index ?o div 12" using that by (simp add: month_index_parts)
      then have "month_index ?e + 2 \<le> month_index ?o" by linarith
      then show ?thesis by (rule two_months_later)
    qed
    ultimately show ?thesis
      using estimate_bounds(1) [OF step, of "int n" "year_of ?e" "year_of ?d"] estimate_bounds(2) [OF step, of "year_of ?e" "year_of ?d"] unfolding y q by auto
  qed
  then show "1 \<le> n \<Longrightarrow> int n \<le> q - 1 \<Longrightarrow> ?o < ?e" "int n = q + 2 \<Longrightarrow> ?e + 2 \<le> ?o" by blast+
qed

section \<open>The first occurrence after the boundary\<close>

definition following_text :: "host \<Rightarrow> calendar \<Rightarrow> recurrence_rule \<Rightarrow> int \<Rightarrow> js \<Rightarrow> int \<Rightarrow> int \<Rightarrow> string \<Rightarrow> string" where
  "following_text h c rule b ws step a s = nextIsoFrom h c s rule b (simple_shape ws) step None (Some a)"

lemma range_below:
  assumes "gapless c" "1 \<le> a" "1 \<le> step" "0 \<le> local_day c t" "occurrence_day rule a step (local_day c t) N \<le> last_text_day" "1 \<le> n" "n \<le> N"
  shows "text_range c (occurrence c rule a step t n)"
  using occurrence_day_mono [OF assms(2,3,6,7), of rule "local_day c t"] occurrence_day_ge [OF assms(2,3,6), of "local_day c t" rule] assms(4,5)
  by (simp add: text_range_def occurrence_reads [OF assms(1)])

lemma iterated_text:
  assumes c: "gapless c" "texts_read_back h c" and a: "1 \<le> a" and step: "1 \<le> step"
    and t: "safeParseDate h (JStr s) = Some t" "0 \<le> local_day c t"
    and range: "occurrence_day rule a step (local_day c t) N \<le> last_text_day" and n: "1 \<le> n" "n \<le> N"
  shows "(following_text h c rule b ws step a ^^ n) s = written c (kind_of s) (occurrence c rule a step t n)"
  using n
proof (induction n rule: dec_induct)
  case base
  show ?case using next_text [OF c(1) a step t] by (simp add: following_text_def occurrence_def occurrence_day_def)
next
  case (step i)
  then have "text_range c (occurrence c rule a step t i)" using range_below [OF c(1) a assms(4) t(2) range] by simp
  then show ?case using step step_text [OF c a assms(4) step.hyps(1)] by (simp add: following_text_def)
qed

lemma step_past_first:
  assumes "\<And>i. n \<le> i \<Longrightarrow> i \<le> N \<Longrightarrow> safeParseDate h (JStr (tx i)) = Some (sn i)"
    and "\<And>i. n \<le> i \<Longrightarrow> i < N \<Longrightarrow> f (tx i) = tx (Suc i) \<and> sn i \<le> b \<and> sn i \<noteq> sn (Suc i)"
    and "b < sn N" "n \<le> N" "N \<le> n + guard"
  shows "step_past h f b guard (tx n) n = (tx N, N)"
  using assms
proof (induction guard arbitrary: n)
  case (Suc guard)
  show ?case
  proof (cases "n = N")
    case True
    then show ?thesis using Suc.prems by simp
  next
    case False
    then have "n < N" using Suc.prems(4) by simp
    then have f: "f (tx n) = tx (Suc n)" "sn n \<le> b" "sn n \<noteq> sn (Suc n)" using Suc.prems(2) by simp_all
    have "safeParseDate h (JStr (tx n)) = Some (sn n)" "safeParseDate h (JStr (tx (Suc n))) = Some (sn (Suc n))"
      using Suc.prems(1) \<open>n < N\<close> by simp_all
    then have "tx (Suc n) \<noteq> tx n" "\<not> b < sn n" using f(2,3) by auto
    then have "step_past h f b (Suc guard) (tx n) n = step_past h f b guard (tx (Suc n)) (Suc n)"
      using f(1) \<open>safeParseDate h (JStr (tx n)) = Some (sn n)\<close> by simp
    also have "\<dots> = (tx N, N)" using Suc.prems \<open>n < N\<close> by (intro Suc.IH) simp_all
    finally show ?thesis .
  qed
qed simp

lemma skipped_before:
  fixes h c s t b rule a step ws k
  assumes c: "gapless c" and t: "safeParseDate h (JStr s) = Some t" "0 \<le> local_day c t" "0 \<le> local_day c b" and a: "1 \<le> a" and step: "1 \<le> step"
  defines "j \<equiv> nat (skipped_steps h c s rule b (simple_shape ws) step)"
  shows "1 \<le> i \<Longrightarrow> i \<le> j \<Longrightarrow> seen c k rule a step t i \<le> b" and "\<exists>i. 1 \<le> i \<and> i \<le> j + 4 \<and> b < seen c k rule a step t i"
proof -
  let ?q = "estimatedSteps c rule step t b"
  have j: "j = (if t < b then nat (?q - 1) else 0)" using t(1) by (simp add: j_def skipped_steps_def simple_shape_def max_def)
  show "seen c k rule a step t i \<le> b" if i: "1 \<le> i" "i \<le> j"
  proof (rule seen_early [OF c])
    have "int i \<le> ?q - 1" using i j by (simp split: if_splits)
    then show "occurrence_day rule a step (local_day c t) i < local_day c b" using estimate_of_days(1) [OF t(2,3) a step i(1)] by blast
  qed
  show "\<exists>i. 1 \<le> i \<and> i \<le> j + 4 \<and> b < seen c k rule a step t i"
  proof (cases "t < b")
    case True
    have "0 \<le> ?q" using step by (cases rule) (simp_all add: estimatedSteps_def Let_def pos_imp_zdiv_nonneg_iff)
    then have "b < seen c k rule a step t (nat (?q + 2))" using estimate_of_days(2) [OF t(2,3) a step] by (intro seen_late [OF c]) simp
    then show ?thesis using True j \<open>0 \<le> ?q\<close> by (intro exI [of _ "nat (?q + 2)"]) auto
  next
    case False
    then have "local_day c b + 2 \<le> occurrence_day rule a step (local_day c t) 4"
      using not_before_days [OF c, of b t] occurrence_day_ge [OF a step, of 4 "local_day c t" rule] by simp
    then show ?thesis using seen_late [OF c] by (intro exI [of _ 4]) simp
  qed
qed


section \<open>The texts at UTC\<close>

lemma pad_num_1: "0 \<le> n \<Longrightarrow> n < 10 \<Longrightarrow> nat_str (nat n) = [digit_char (nat n)]"
  by (subst nat_str.simps) (simp add: nat_less_iff)

lemma nat_str_two: "10 \<le> n \<Longrightarrow> n < 100 \<Longrightarrow> nat_str n = [digit_char (n div 10), digit_char (n mod 10)]"
proof -
  assume "10 \<le> n" "n < 100"
  then have "\<not> n < 10" "n div 10 < 10" by simp_all
  then show ?thesis using nat_str.simps [of n] nat_str.simps [of "n div 10"] by simp
qed

lemma pad_two: "0 \<le> n \<Longrightarrow> n < 100 \<Longrightarrow> \<exists>a b. a < 10 \<and> b < 10 \<and> pad_num 2 n = [digit_char a, digit_char b]"
proof (cases "n < 10")
  case True
  assume "0 \<le> n"
  then show ?thesis using True pad_num_1 [of n] by (intro exI [of _ 0] exI [of _ "nat n"]) (simp add: pad_num_def digit_char_0 nat_less_iff)
next
  case False
  assume "0 \<le> n" "n < 100"
  then have "10 \<le> nat n" "nat n < 100" using False by simp_all
  then show ?thesis using nat_str_two [of "nat n"] by (intro exI [of _ "nat n div 10"] exI [of _ "nat n mod 10"]) (simp add: pad_num_def)
qed

lemma pad_four: "1000 \<le> n \<Longrightarrow> n < 10000 \<Longrightarrow> \<exists>a b e f. a < 10 \<and> b < 10 \<and> e < 10 \<and> f < 10 \<and> pad_num 4 n = [digit_char a, digit_char b, digit_char e, digit_char f]"
proof -
  assume "1000 \<le> n" "n < 10000"
  then have n: "1000 \<le> nat n" "nat n < 10000" by simp_all
  have "nat_str k = [digit_char (k div 100 div 10), digit_char (k div 100 mod 10), digit_char (k div 10 mod 10), digit_char (k mod 10)]"
    if "1000 \<le> k" "k < 10000" for k
  proof -
    have three: "nat_str m = [digit_char (m div 10 div 10), digit_char (m div 10 mod 10), digit_char (m mod 10)]" if "100 \<le> m" "m < 1000" for m
      using that nat_str_two [of "m div 10"] by (subst nat_str.simps) simp
    show ?thesis using that three [of "k div 10"] by (subst nat_str.simps) (simp add: div_mult2_eq [symmetric])
  qed
  then show ?thesis using n
    by (intro exI [of _ "nat n div 100 div 10"] exI [of _ "nat n div 100 mod 10"] exI [of _ "nat n div 10 mod 10"] exI [of _ "nat n mod 10"])
      (simp add: pad_num_def)
qed

lemma digit_facts:
  assumes "k < 10"
  shows "js_digit (digit_char k)" "digit_char k \<noteq> CHR ''+''" "digit_char k \<noteq> CHR ''-''" "digit_char k \<noteq> CHR '':''" "digit_char k \<noteq> CHR ''T''"
    "digit_char k \<noteq> CHR ''Z''"
proof -
  have of: "of_char (digit_char k) = 48 + k" using assms by (simp add: digit_char_def)
  show "js_digit (digit_char k)" using digit_val_char [OF assms] by (simp add: js_digit_def)
  show "digit_char k \<noteq> CHR ''+''" "digit_char k \<noteq> CHR ''-''" "digit_char k \<noteq> CHR '':''" "digit_char k \<noteq> CHR ''T''" "digit_char k \<noteq> CHR ''Z''"
    using assms of by (auto dest!: arg_cong [of _ _ "of_char :: char \<Rightarrow> nat"])
qed

definition date_text :: "int \<Rightarrow> int \<Rightarrow> int \<Rightarrow> string" where
  "date_text y m d = pad_num 4 y @ CHR ''-'' # pad_num 2 m @ CHR ''-'' # pad_num 2 d"

lemma date_text_shape:
  assumes "1000 \<le> y" "y < 10000" "0 \<le> m" "m < 100" "0 \<le> d" "d < 100"
  shows "length (date_text y m d) = 10" "is_date_only (date_text y m d)" "\<not> has_timezone (date_text y m d)"
    "scan_ymd (date_text y m d @ r) = Some (y, m, d, r)"
proof -
  obtain a b e f where y: "a < 10" "b < 10" "e < 10" "f < 10" "pad_num 4 y = [digit_char a, digit_char b, digit_char e, digit_char f]"
    using pad_four [OF assms(1,2)] by blast
  obtain m1 m2 where m: "m1 < 10" "m2 < 10" "pad_num 2 m = [digit_char m1, digit_char m2]" using pad_two [OF assms(3,4)] by blast
  obtain d1 d2 where d: "d1 < 10" "d2 < 10" "pad_num 2 d = [digit_char d1, digit_char d2]" using pad_two [OF assms(5,6)] by blast
  show "length (date_text y m d) = 10" "is_date_only (date_text y m d)" "\<not> has_timezone (date_text y m d)"
    using y(1-4) m(1,2) d(1,2)
    by (simp_all add: date_text_def y(5) m(3) d(3) is_date_only_def has_timezone_def ends_with_def starts_with_def Let_def digit_facts)
  have "scan_num 4 (pad_num 4 y @ r') = Some (y, r')" for r' using assms by (intro scan_pad_num) simp_all
  then show "scan_ymd (date_text y m d @ r) = Some (y, m, d, r)"
    using assms by (simp add: date_text_def scan_ymd_def scan_sep_num_def scan_char_def)
qed

definition clock_text :: "int \<Rightarrow> int \<Rightarrow> string" where
  "clock_text hh mi = pad_num 2 hh @ CHR '':'' # pad_num 2 mi"

lemma clock_text_shape:
  assumes "0 \<le> hh" "hh < 100" "0 \<le> mi" "mi < 100" and day: "length s = 10" "is_date_only s"
  shows "length (s @ CHR ''T'' # clock_text hh mi) = 16" "\<not> is_date_only (s @ CHR ''T'' # clock_text hh mi)"
    "\<not> has_timezone (s @ CHR ''T'' # clock_text hh mi)"
proof -
  obtain a b where h: "a < 10" "b < 10" "pad_num 2 hh = [digit_char a, digit_char b]" using pad_two [OF assms(1,2)] by blast
  obtain e f where mi: "e < 10" "f < 10" "pad_num 2 mi = [digit_char e, digit_char f]" using pad_two [OF assms(3,4)] by blast
  show "length (s @ CHR ''T'' # clock_text hh mi) = 16" "\<not> is_date_only (s @ CHR ''T'' # clock_text hh mi)"
    using day by (simp_all add: clock_text_def h(3) mi(3) is_date_only_def)
  show "\<not> has_timezone (s @ CHR ''T'' # clock_text hh mi)"
    using day h(1,2) mi(1,2) by (simp add: clock_text_def h(3) mi(3) has_timezone_def ends_with_def starts_with_def Let_def digit_facts)
qed

lemma date_text_valid:
  assumes "civil_of_day n = (y, m, d)" "0 \<le> n" "n \<le> last_text_day"
  shows "1000 \<le> y" "y < 10000" "0 \<le> m" "m < 100" "0 \<le> d" "d < 100" "isValidCalendarDate y m d" "day_number y m d = n"
proof -
  note civil = civil_of_day [OF assms(1)]
  have y: "y = year_of n" using assms(1) by (simp add: year_of_def)
  have "month_index n \<le> month_index last_text_day" "month_index last_text_day = 119999"
    using month_index_mono [OF assms(3)] by (simp_all add: last_text_day_def, code_simp)
  then have "month_index n div 12 \<le> 119999 div 12" by (intro zdiv_mono1) simp_all
  then have "year_of n \<le> 9999" by (simp add: month_index_parts)
  then show "1000 \<le> y" "y < 10000" using modern_year [OF assms(2)] y by simp_all
  have "d \<le> 31" using civil(4) by (auto simp: days_in_month_def split: if_splits)
  then show "0 \<le> m" "m < 100" "0 \<le> d" "d < 100" "isValidCalendarDate y m d" "day_number y m d = n"
    using civil by (simp_all add: isValidCalendarDate_def)
qed

lemma iso_string_parts:
  assumes "civil_of_day (t div day_ms) = (y, m, d)" "1000 \<le> y" "y < 10000"
  shows "iso_string t = date_text y m d @ CHR ''T'' # clock_text (t mod day_ms div 3600000) (t mod day_ms div 60000 mod 60)
    @ CHR '':'' # pad_num 2 (t mod day_ms div 1000 mod 60) @ CHR ''.'' # pad_num 3 (t mod day_ms mod 1000) @ ''Z''"
  using assms by (simp add: iso_string_def day_ms_def Let_def date_text_def clock_text_def year_str_def)

lemma utc_day_text:
  assumes "civil_of_day n = (y, m, d)" "0 \<le> n" "n \<le> last_text_day"
  shows "safeParseDate host0 (JStr (date_text y m d)) = Some (n * day_ms)"
proof -
  note valid = date_text_valid [OF assms]
  note shape = date_text_shape [OF valid(1-6)]
  have "date_text y m d \<noteq> []" using shape(1) by auto
  moreover have "iso_instant (date_text y m d) = None" using shape(4) [of "[]"] by (simp add: iso_instant_def scan_char_def)
  moreover have "local_pattern (date_text y m d) = Some (y, m, d, 0, 0, 0, 0)" using shape(4) [of "[]"] by (simp add: local_pattern_def)
  ultimately show ?thesis
    using shape(3) valid(7,8) by (simp add: safeParseDate_def Let_def host0_def utc_time_def day_ms_def)
qed

lemma utc_clock_text:
  assumes "civil_of_day n = (y, m, d)" "0 \<le> n" "n \<le> last_text_day" "0 \<le> hh" "hh < 24" "0 \<le> mi" "mi < 60"
  shows "safeParseDate host0 (JStr (date_text y m d @ CHR ''T'' # clock_text hh mi)) = Some (n * day_ms + hh * 3600000 + mi * 60000)"
proof -
  note valid = date_text_valid [OF assms(1-3)]
  note shape = date_text_shape [OF valid(1-6)]
  let ?s = "date_text y m d @ CHR ''T'' # clock_text hh mi"
  have hh: "scan_num 2 (pad_num 2 hh @ r) = Some (hh, r)" "scan_num 2 (pad_num 2 mi @ r) = Some (mi, r)" for r using assms by simp_all
  have mi: "scan_num 2 (pad_num 2 mi) = Some (mi, [])" using hh(2) [of "[]"] by simp
  have "\<not> offset_tail []" "\<not> offset_tail (CHR '':'' # r)" for r by (simp_all add: offset_tail_def)
  then have "iso_instant ?s = None"
    using shape(4) [of "CHR ''T'' # clock_text hh mi"] hh(1) mi by (simp add: iso_instant_def scan_char_def scan_sep_num_def clock_text_def)
  moreover have "local_pattern ?s = Some (y, m, d, hh, mi, 0, 0)"
    using shape(4) [of "CHR ''T'' # clock_text hh mi"] hh(1) mi by (simp add: local_pattern_def scan_char_def scan_sep_num_def clock_text_def)
  moreover have "\<not> has_timezone ?s" using clock_text_shape(3) [OF assms(4) _ assms(6) _ shape(1,2)] assms(5,7) by simp
  ultimately show ?thesis
    using valid(7,8) by (simp add: safeParseDate_def Let_def host0_def utc_time_def day_ms_def)
qed

lemma clock_bounds:
  "0 \<le> t mod day_ms div 3600000" "t mod day_ms div 3600000 < 24" "0 \<le> t mod day_ms div 60000 mod 60" "t mod day_ms div 60000 mod 60 < 60"
proof -
  have r: "0 \<le> t mod day_ms" "t mod day_ms < 24 * 3600000" using pos_mod_bound [of day_ms t] by (simp_all add: day_ms_def)
  show "0 \<le> t mod day_ms div 3600000" using r(1) by (simp add: pos_imp_zdiv_nonneg_iff)
  show "t mod day_ms div 3600000 < 24" using zdiv_mono1 [of "t mod day_ms" "24 * 3600000 - 1" 3600000] r(2) by simp
qed simp_all

lemma minute_parts: "t div 60000 * 60000 = t div day_ms * day_ms + t mod day_ms div 3600000 * 3600000 + t mod day_ms div 60000 mod 60 * 60000"
proof -
  define r where "r = t mod day_ms"
  have "t = t div day_ms * day_ms + r" by (simp add: r_def)
  then have "t div 60000 * 60000 = t div day_ms * day_ms + r div 60000 * 60000" using minute_floor [of "t div day_ms" r] by metis
  moreover have "r div 60000 = r div 60000 div 60 * 60 + r div 60000 mod 60" by simp
  moreover have "r div 60000 div 60 = r div 3600000" using zdiv_zmult2_eq [of 60 r 60000] by simp
  ultimately show ?thesis unfolding r_def [symmetric] by linarith
qed

lemma long_pad: "w \<le> length (pad_num w n)"
  by (simp add: pad_num_def Let_def)

lemma utc_formats:
  "t div day_ms = t' div day_ms \<Longrightarrow> take 10 (iso_string t) = take 10 (iso_string t')"
  "t div 60000 = t' div 60000 \<Longrightarrow> take 16 (iso_string t) = take 16 (iso_string t')"
proof -
  define head where "head n = (case civil_of_day n of (y, m, d) \<Rightarrow> year_str y @ CHR ''-'' # pad_num 2 m @ CHR ''-'' # pad_num 2 d)" for n
  define clock where "clock r = pad_num 2 (r div 3600000) @ CHR '':'' # pad_num 2 (r div 60000 mod 60)" for r
  have iso: "\<exists>rest. iso_string t = head (t div day_ms) @ CHR ''T'' # clock (t mod day_ms) @ rest" for t
    by (auto simp: iso_string_def head_def clock_def day_ms_def Let_def split: prod.split)
  have year: "4 \<le> length (year_str y)" for y using long_pad [of 4 y] long_pad [of 6 "\<bar>y\<bar>"] by (simp add: year_str_def)
  have head: "10 \<le> length (head n)" for n
  proof -
    obtain y m d where "civil_of_day n = (y, m, d)" by (cases "civil_of_day n")
    then show ?thesis using year [of y] long_pad [of 2 m] long_pad [of 2 d] by (simp add: head_def)
  qed
  have clock: "5 \<le> length (clock r)" for r
    using long_pad [of 2 "r div 3600000"] long_pad [of 2 "r div 60000 mod 60"] by (simp add: clock_def)
  show "take 10 (iso_string t) = take 10 (iso_string t')" if day: "t div day_ms = t' div day_ms"
  proof -
    have heads: "\<exists>r. iso_string u = head (u div day_ms) @ r" for u using iso [of u] by blast
    obtain r where "iso_string t = head (t' div day_ms) @ r" using heads [of t] unfolding day by blast
    moreover obtain r' where "iso_string t' = head (t' div day_ms) @ r'" using heads [of t'] by blast
    ultimately show ?thesis using head by simp
  qed
  show "take 16 (iso_string t) = take 16 (iso_string t')" if same: "t div 60000 = t' div 60000"
  proof -
    have days: "t div day_ms = t div 60000 div 1440" for t using zdiv_zmult2_eq [of 1440 t 60000] by (simp add: day_ms_def)
    have "t mod day_ms div 60000 = t div 60000 - t div day_ms * 1440" for t
      using minute_div [of "t div day_ms" "t mod day_ms"] by simp
    then have minutes: "t mod day_ms div 60000 = t' mod day_ms div 60000" using same days by simp
    have "r div 3600000 = r div 60000 div 60" for r :: int using zdiv_zmult2_eq [of 60 r 60000] by simp
    then have "clock (t mod day_ms) = clock (t' mod day_ms)" using minutes by (simp add: clock_def)
    define pre where "pre = head (t div day_ms) @ CHR ''T'' # clock (t mod day_ms)"
    have prefixed: "\<exists>r. iso_string u = (head (u div day_ms) @ CHR ''T'' # clock (u mod day_ms)) @ r" for u using iso [of u] by simp
    obtain r where "iso_string t = pre @ r" using prefixed [of t] unfolding pre_def by blast
    moreover obtain r' where "iso_string t' = pre @ r'" using prefixed [of t'] \<open>clock (t mod day_ms) = clock (t' mod day_ms)\<close> same days
      unfolding pre_def by metis
    moreover have "16 \<le> length pre" using head [of "t div day_ms"] clock [of "t mod day_ms"] by (simp add: pre_def)
    ultimately show ?thesis by simp
  qed
qed

lemma texts_read_back_utc: "texts_read_back host0 utc"
proof -
  have formats: "format_date utc t = take 10 (iso_string t)" "format_local utc t = take 16 (iso_string t)" "wall utc t = t" "unwall utc w = w" "local_day utc t = t div day_ms" for t w
    by (simp_all add: utc_def local_day_def)
  have texts: "safeParseDate host0 (JStr (format_date utc t)) = Some (t div day_ms * day_ms) \<and> is_date_only (format_date utc t)
      \<and> safeParseDate host0 (JStr (format_local utc t)) = Some (t div 60000 * 60000)
      \<and> \<not> is_date_only (format_local utc t) \<and> \<not> has_timezone (format_local utc t)
      \<and> safeParseDate host0 (JStr (iso_string t)) = Some t \<and> \<not> is_date_only (iso_string t) \<and> has_timezone (iso_string t)"
    if day: "0 \<le> t div day_ms" "t div day_ms \<le> last_text_day" for t
  proof -
    obtain y m d where civil: "civil_of_day (t div day_ms) = (y, m, d)" by (cases "civil_of_day (t div day_ms)")
    note valid = date_text_valid [OF civil day]
    note shape = date_text_shape [OF valid(1-6)]
    let ?hh = "t mod day_ms div 3600000" and ?mi = "t mod day_ms div 60000 mod 60"
    have hh: "?hh < 100" and mi: "?mi < 100" using clock_bounds(2,4) [of t] by linarith+
    note clock = clock_text_shape [OF clock_bounds(1) hh clock_bounds(3) mi shape(1,2)]
    note iso = iso_string_parts [OF civil valid(1,2)]
    have date: "format_date utc t = date_text y m d" unfolding formats iso using shape(1) by simp
    have local: "format_local utc t = date_text y m d @ CHR ''T'' # clock_text ?hh ?mi" unfolding formats iso using clock(1) shape(1) by simp
    have "year_of_day (t div 86400000) = y" using civil_of_day(6) [OF civil] by (simp add: day_ms_def)
    moreover have "- max_time \<le> t" "t \<le> max_time"
      using day div_bounds [of day_ms t] by (simp_all add: day_ms_def last_text_day_def max_time_def)
    ultimately have parse: "date_parse host0 (iso_string t) = Some t" using date_parse_iso_string [of t host0] valid(1,2) by simp
    have zone: "has_timezone (iso_string t)" by (simp add: iso has_timezone_def ends_with_def starts_with_def Let_def)
    moreover have "parse_iso host0 (iso_string t) = Some t" using parse by (simp add: date_parse_def host0_def split: option.splits)
    moreover have "iso_string t \<noteq> []" by (simp add: iso)
    ultimately have "safeParseDate host0 (JStr (iso_string t)) = Some t"
      using parse by (simp add: safeParseDate_def Let_def split: option.split)
    moreover have "\<not> is_date_only (iso_string t)" using shape(1) by (simp add: iso is_date_only_def)
    ultimately show ?thesis using zone
      using date local shape(2) clock(2,3) utc_day_text [OF civil day] utc_clock_text [OF civil day clock_bounds [of t]] minute_parts [of t] by simp
  qed
  show ?thesis unfolding texts_read_back_def
  proof (intro conjI allI impI)
    fix t t'
    show "format_date utc t = format_date utc t'" if "local_day utc t = local_day utc t'" using that utc_formats(1) unfolding formats by blast
    show "format_local utc t = format_local utc t'" if "wall utc t div 60000 = wall utc t' div 60000" using that utc_formats(2) unfolding formats by blast
  qed (use texts in \<open>auto simp: formats\<close>)
qed


end
