(* ===== verification/Recurrence_Projection.thy ===== *)
theory Recurrence_Projection
  imports Recurrence_Task
begin

text \<open>
  Occurrences shown ahead of time (\<^verbatim>\<open>packages/core/src/recurrence.ts\<close>, lines 77 to 110 and 1034 to 1040, 1125 to 1442 and 1449 to 1684): the projection
  of one occurrence, the walk over the occurrences in a calendar range with its caps, and the sharing of one budget
  of projections among all series. A default argument \<open>new Date().toISOString()\<close> is an argument here.
\<close>

section \<open>Synthetic tasks\<close>

definition PROJECTED_RECURRENCE_ID_SUFFIX :: string where
  "PROJECTED_RECURRENCE_ID_SUFFIX = '':projected-recurrence''"

definition getProjectedRecurringTaskId :: "string \<Rightarrow> string" where
  "getProjectedRecurringTaskId taskId = taskId @ PROJECTED_RECURRENCE_ID_SUFFIX"

definition getRangeProjectedRecurringTaskId :: "string \<Rightarrow> string \<Rightarrow> string" where
  "getRangeProjectedRecurringTaskId taskId occurrenceIso = taskId @ PROJECTED_RECURRENCE_ID_SUFFIX @ '':'' @ occurrenceIso"

fun includes_text :: "string \<Rightarrow> string \<Rightarrow> bool" where
  "includes_text part [] \<longleftrightarrow> part = []"
| "includes_text part (x # s) \<longleftrightarrow> take (length part) (x # s) = part \<or> includes_text part s"

definition isProjectedRecurringTaskId :: "js \<Rightarrow> bool" where
  "isProjectedRecurringTaskId taskId = (case taskId of JStr s \<Rightarrow> includes_text PROJECTED_RECURRENCE_ID_SUFFIX s | _ \<Rightarrow> False)"

definition isProjectedRecurringTask :: "js \<Rightarrow> bool" where
  "isProjectedRecurringTask task \<longleftrightarrow> get task ''isProjectedRecurringTask'' = JBool True \<and> is_str (get task ''sourceTaskId'')"

definition getTaskCalendarOccurrenceDate :: "js \<Rightarrow> js" where
  "getTaskCalendarOccurrenceDate task = coalesce (get task ''startTime'') (get task ''dueDate'')"

definition getProjectionBaseDate :: "host \<Rightarrow> string \<Rightarrow> int" where
  "getProjectionBaseDate h projectedAtIso =
     (case safeParseDate h (JStr projectedAtIso) of
        Some t \<Rightarrow> t
      | None \<Rightarrow> (case date_parse h projectedAtIso of Some t \<Rightarrow> t | None \<Rightarrow> date_now h))"

section \<open>Repeat after completion\<close>

definition source_text :: "host \<Rightarrow> calendar \<Rightarrow> string \<Rightarrow> string \<Rightarrow> string" where
  "source_text h c s baseIso = (case preserveDateOnlyFormat h c (Some s) (Some baseIso) of Some r \<Rightarrow> r | None \<Rightarrow> s)"

fun catch_up_loop :: "host \<Rightarrow> (string \<Rightarrow> int \<Rightarrow> string) \<Rightarrow> int \<Rightarrow> nat \<Rightarrow> string \<Rightarrow> int option \<Rightarrow> nat \<Rightarrow> string \<times> nat" where
  "catch_up_loop h following catchUpBase 0 nextIso parsedNext steps = (nextIso, steps)"
| "catch_up_loop h following catchUpBase (Suc guard) nextIso parsedNext steps =
     (case parsedNext of
        None \<Rightarrow> (nextIso, steps)
      | Some parsed \<Rightarrow>
          if catchUpBase < parsed then (nextIso, steps)
          else
            let followingIso = following nextIso parsed
            in if followingIso = [] \<or> followingIso = nextIso then (nextIso, steps)
               else catch_up_loop h following catchUpBase guard followingIso (safeParseDate h (JStr followingIso)) (Suc steps))"

definition fluid_skipped :: "calendar \<Rightarrow> recurrence_rule \<Rightarrow> recurrence_shape \<Rightarrow> int \<Rightarrow> int \<Rightarrow> int \<Rightarrow> int" where
  "fluid_skipped c rule shape safeInterval catchUpBase parsedNext =
     (if (rule = Daily \<or> rule = Weekly) \<and> byDay shape = [] \<and> byMonthDay shape = []
      then
        let calendarDayDelta = max 0 (calendarDayNumber c catchUpBase - calendarDayNumber c parsedNext);
            recurrenceDays = safeInterval * (if rule = Weekly then 7 else 1)
        in max 0 (calendarDayDelta div recurrenceDays - 1)
      else 0)"

definition projectFluidIsoFrom :: "host \<Rightarrow> calendar \<Rightarrow> string \<Rightarrow> recurrence_rule \<Rightarrow> string \<Rightarrow> int \<Rightarrow> int option \<Rightarrow> recurrence_shape \<Rightarrow> int \<Rightarrow> string \<times> nat" where
  "projectFluidIsoFrom h c baseIso rule projectedAtIso projectionBase catchUpBase shape interval =
     (let fieldBaseDate = safeParseDate h (JStr baseIso);
          fieldIsFuture = (case fieldBaseDate of Some t \<Rightarrow> projectionBase < t | None \<Rightarrow> False);
          fluidBaseIso = (if fieldIsFuture then baseIso else projectedAtIso);
          fluidFallbackBase = (case fieldBaseDate of Some t \<Rightarrow> if fieldIsFuture then t else projectionBase | None \<Rightarrow> projectionBase);
          nextIso = source_text h c (nextFluidIsoFrom h c fluidBaseIso rule fluidFallbackBase shape interval) baseIso;
          safeInterval = safe_interval interval
      in case (catchUpBase, safeParseDate h (JStr nextIso)) of
           (Some bound, Some parsedNext) \<Rightarrow>
             if bound < parsedNext then (nextIso, 1)
             else
               let skippedSteps = fluid_skipped c rule shape safeInterval bound parsedNext;
                   jumped = (if 0 < skippedSteps
                     then source_text h c (nextIsoFrom h c nextIso rule bound (simple_shape (weekStart shape)) (safeInterval * skippedSteps) None None) baseIso
                     else nextIso)
               in catch_up_loop h (\<lambda>s parsed. source_text h c (nextFluidIsoFrom h c s rule parsed shape safeInterval) baseIso) bound 1000
                    jumped (safeParseDate h (JStr jumped)) (1 + nat skippedSteps)
         | _ \<Rightarrow> (nextIso, 1))"

section \<open>One occurrence\<close>

definition projectUnscheduledMonthlyStart :: "host \<Rightarrow> calendar \<Rightarrow> recurrence_rule \<Rightarrow> int \<Rightarrow> recurrence_shape \<Rightarrow> int \<Rightarrow> string option" where
  "projectUnscheduledMonthlyStart h c rule projectionBase shape interval =
     (if rule \<noteq> Monthly \<or> (byMonthDay shape = [] \<and> byDay shape = []) then None
      else Some (nextIsoFrom h c (format_date c projectionBase) rule projectionBase shape interval None None))"

definition projectNextRecurringOccurrenceFields ::
  "host \<Rightarrow> calendar \<Rightarrow> js \<Rightarrow> recurrence_plan \<Rightarrow> schedule \<Rightarrow> string \<Rightarrow> int \<Rightarrow> (schedule_field \<Rightarrow> int option) \<Rightarrow> int option \<Rightarrow> (schedule \<times> nat) option" where
  "projectNextRecurringOccurrenceFields h c task p base projectedAtIso projectionBase anchors fluidCatchUpBase =
     (case getRecurrenceScheduleAnchorField base of
        None \<Rightarrow>
          (case projectUnscheduledMonthlyStart h c (plan_rule p) projectionBase (plan_shape p) (plan_interval p) of
             Some s \<Rightarrow> Some ((\<lambda>_. None)(StartTime := Some s), 1)
           | None \<Rightarrow> None)
      | Some anchorField \<Rightarrow>
          (case base anchorField of
             None \<Rightarrow> None
           | Some baseIso \<Rightarrow>
               let (nextIso, steps) =
                     (if plan_strategy p = Fluid
                      then projectFluidIsoFrom h c baseIso (plan_rule p) projectedAtIso projectionBase fluidCatchUpBase (plan_shape p) (plan_interval p)
                      else projectStrictIsoFrom h c baseIso (plan_rule p) projectionBase (plan_shape p) (plan_interval p) (anchors anchorField));
                   slots = rebuilt_fields h c base (Some anchorField) (Some nextIso);
                   start = (if truthy (get task ''relativeStartOffset'') \<and> slots DueDate \<noteq> None
                            then or_none (computeRelativeStartTime h c (slots DueDate) (get task ''relativeStartOffset'')) (slots StartTime)
                            else slots StartTime)
               in if nextIso = [] \<or> steps = 0 \<or> (start = None \<and> slots DueDate = None) then None
                  else Some (slots(StartTime := start), steps)))"

definition anchor_text :: "schedule \<Rightarrow> string option" where
  "anchor_text slots = or_none (slots DueDate) (or_none (slots StartTime) (slots ReviewAt))"

definition projected_task :: "js \<Rightarrow> string \<Rightarrow> schedule \<Rightarrow> string \<Rightarrow> js" where
  "projected_task task taskId slots projectedAtIso =
     puts task
       [(''id'', JStr taskId), (''sourceTaskId'', get task ''id''), (''isProjectedRecurringTask'', JBool True),
        (''startTime'', js_of_text (slots StartTime)), (''dueDate'', js_of_text (slots DueDate)), (''reviewAt'', js_of_text (slots ReviewAt)),
        (''attachments'', JUndef), (''completedAt'', JUndef), (''deletedAt'', JUndef), (''purgedAt'', JUndef),
        (''isFocusedToday'', JBool False), (''createdAt'', get task ''createdAt''), (''updatedAt'', JStr projectedAtIso)]"

text \<open>What every projection asks of a task first: its recurrence, when it may be projected.\<close>

definition projectable :: "host \<Rightarrow> js \<Rightarrow> recurrence_plan option" where
  "projectable h task =
     (if \<not> truthy (get task ''showFutureRecurrence'') \<or> isProjectedRecurringTask task
         \<or> truthy (get task ''deletedAt'') \<or> \<not> isTaskActionable (get task ''status'')
      then None else plan_of h (get task ''recurrence''))"

definition count_passed :: "recurrence_plan \<Rightarrow> nat \<Rightarrow> bool" where
  "count_passed p steps = (case plan_count p of JNum n \<Rightarrow> n \<noteq> 0 \<and> n \<le> plan_completed p + of_nat steps | _ \<Rightarrow> False)"

definition createCurrentRecurringCalendarTask :: "host \<Rightarrow> calendar \<Rightarrow> js \<Rightarrow> string \<Rightarrow> js option" where
  "createCurrentRecurringCalendarTask h c task projectedAtIso =
     (case projectable h task of
        None \<Rightarrow> None
      | Some p \<Rightarrow>
          if getRecurrenceScheduleAnchorField (dates_of task) \<noteq> None \<or> count_passed p 0 then None
          else
            (case projectUnscheduledMonthlyStart h c (plan_rule p) (getProjectionBaseDate h projectedAtIso) (plan_shape p) (plan_interval p) of
               None \<Rightarrow> None
             | Some start \<Rightarrow>
                 if start = [] \<or> shouldStopAtUntil h c (Some start) (plan_until p) then None
                 else Some (put task ''startTime'' (JStr start))))"

definition current_or_self :: "host \<Rightarrow> calendar \<Rightarrow> js \<Rightarrow> string \<Rightarrow> js" where
  "current_or_self h c task projectedAtIso =
     (case createCurrentRecurringCalendarTask h c task projectedAtIso of Some t \<Rightarrow> t | None \<Rightarrow> task)"

definition createProjectedRecurringTask :: "host \<Rightarrow> calendar \<Rightarrow> js \<Rightarrow> string \<Rightarrow> js option" where
  "createProjectedRecurringTask h c task projectedAtIso =
     (case projectable h task of
        None \<Rightarrow> None
      | Some p \<Rightarrow>
          let base = dates_of (current_or_self h c task projectedAtIso);
              anchors = resolveRecurrenceFieldAnchorDays h c (get task ''recurrence'') base
          in (case projectNextRecurringOccurrenceFields h c task p base projectedAtIso (getProjectionBaseDate h projectedAtIso) anchors None of
                None \<Rightarrow> None
              | Some (slots, steps) \<Rightarrow>
                  if count_passed p steps \<or> shouldStopAtUntil h c (anchor_text slots) (plan_until p) then None
                  else Some (projected_task task (getProjectedRecurringTaskId (the_str (get task ''id''))) slots projectedAtIso)))"

definition getProjectedRecurringTaskCalendarDate :: "host \<Rightarrow> calendar \<Rightarrow> js \<Rightarrow> string \<Rightarrow> js" where
  "getProjectedRecurringTaskCalendarDate h c task projectedAtIso =
     (case createProjectedRecurringTask h c task projectedAtIso of Some t \<Rightarrow> getTaskCalendarOccurrenceDate t | None \<Rightarrow> JUndef)"

definition getRecurringTaskPreviewDate :: "host \<Rightarrow> calendar \<Rightarrow> js \<Rightarrow> string \<Rightarrow> js" where
  "getRecurringTaskPreviewDate h c task projectedAtIso =
     (let previewSource = (if truthy (get task ''showFutureRecurrence'') then task else put task ''showFutureRecurrence'' (JBool True));
          current = createCurrentRecurringCalendarTask h c previewSource projectedAtIso
      in case current of
           Some t \<Rightarrow> if truthy (get t ''startTime'') then get t ''startTime'' else getProjectedRecurringTaskCalendarDate h c previewSource projectedAtIso
         | None \<Rightarrow> getProjectedRecurringTaskCalendarDate h c previewSource projectedAtIso)"

definition expandCalendarRecurringTasks :: "host \<Rightarrow> calendar \<Rightarrow> js \<Rightarrow> string \<Rightarrow> js list" where
  "expandCalendarRecurringTasks h c task projectedAtIso =
     current_or_self h c task projectedAtIso #
       (case createProjectedRecurringTask h c task projectedAtIso of Some t \<Rightarrow> [t] | None \<Rightarrow> [])"

section \<open>Every occurrence in a calendar range\<close>

fun or_default :: "'a \<Rightarrow> 'a option \<Rightarrow> 'a" where
  "or_default d None = d"
| "or_default d (Some x) = x"

definition CALENDAR_RANGE_PROJECTION_PER_TASK_CAP :: nat where
  "CALENDAR_RANGE_PROJECTION_PER_TASK_CAP = 62"

definition CALENDAR_RANGE_PROJECTION_TOTAL_CAP :: rat where
  "CALENDAR_RANGE_PROJECTION_TOTAL_CAP = 500"

definition MAX_RANGE_PROJECTION_ITERATIONS :: nat where
  "MAX_RANGE_PROJECTION_ITERATIONS = 800"

text \<open>
  The walk of \<^verbatim>\<open>expandCalendarRecurringTasksInRange\<close>: \<open>step\<close> is the projection from one occurrence to the next, an
  \<open>opening\<close> of \<open>None\<close> is the unbounded range start of the code (minus infinity).
\<close>

definition range_occurrence :: "js \<Rightarrow> schedule \<Rightarrow> string \<Rightarrow> js" where
  "range_occurrence task slots projectedAtIso =
     projected_task task (getRangeProjectedRecurringTaskId (the_str (get task ''id'')) (or_default [] (anchor_text slots))) slots projectedAtIso"

definition opens_before :: "int option \<Rightarrow> int \<Rightarrow> bool" where
  "opens_before opening t = (case opening of Some s \<Rightarrow> s \<le> t | None \<Rightarrow> True)"

fun range_walk ::
  "host \<Rightarrow> calendar \<Rightarrow> js \<Rightarrow> recurrence_plan \<Rightarrow> string \<Rightarrow> (schedule \<Rightarrow> (schedule \<times> nat) option) \<Rightarrow> int option \<Rightarrow> int \<Rightarrow> nat \<Rightarrow>
   nat \<Rightarrow> schedule \<Rightarrow> nat \<Rightarrow> nat \<Rightarrow> js list" where
  "range_walk h c task p projectedAtIso step opening closing cap 0 base stepsSoFar pushedCount = []"
| "range_walk h c task p projectedAtIso step opening closing cap (Suc rounds) base stepsSoFar pushedCount =
     (if cap \<le> pushedCount then []
      else
        (case step base of
           None \<Rightarrow> []
         | Some (slots, steps) \<Rightarrow>
             if count_passed p (stepsSoFar + steps) \<or> shouldStopAtUntil h c (anchor_text slots) (plan_until p) then []
             else
               (case parse_text h (anchor_text slots) of
                  None \<Rightarrow> []
                | Some t \<Rightarrow>
                    if closing < t then []
                    else
                      let occurrenceTask = range_occurrence task slots projectedAtIso;
                          go_on = range_walk h c task p projectedAtIso step opening closing cap rounds (dates_of occurrenceTask) (stepsSoFar + steps)
                      in if opens_before opening t then occurrenceTask # go_on (Suc pushedCount) else go_on pushedCount)))"

record calendar_range =
  startIso :: string
  endIso :: string

definition catch_up_base :: "int option \<Rightarrow> int \<Rightarrow> int option" where
  "catch_up_base opening projectionBase =
     (case opening of Some s \<Rightarrow> if projectionBase < s then Some (s - 1) else None | None \<Rightarrow> None)"

definition range_step :: "host \<Rightarrow> calendar \<Rightarrow> js \<Rightarrow> recurrence_plan \<Rightarrow> schedule \<Rightarrow> string \<Rightarrow> int option \<Rightarrow> schedule \<Rightarrow> (schedule \<times> nat) option" where
  "range_step h c task p current projectedAtIso opening base =
     (let projectionBase = getProjectionBaseDate h projectedAtIso;
          catchUpBase = catch_up_base opening projectionBase;
          anchors = resolveRecurrenceFieldAnchorDays h c (get task ''recurrence'') current
      in projectNextRecurringOccurrenceFields h c task p base projectedAtIso
           (if plan_strategy p = Strict then or_default projectionBase catchUpBase else projectionBase) anchors
           (if plan_strategy p = Fluid then catchUpBase else None))"

definition expandCalendarRecurringTasksInRange :: "host \<Rightarrow> calendar \<Rightarrow> js \<Rightarrow> calendar_range \<Rightarrow> string \<Rightarrow> int \<Rightarrow> js list" where
  "expandCalendarRecurringTasksInRange h c task window projectedAtIso maxOccurrences =
     (let currentTask = current_or_self h c task projectedAtIso
      in currentTask #
         (case (projectable h task, safeParseDate h (JStr (endIso window))) of
            (Some p, Some closing) \<Rightarrow>
              let opening = safeParseDate h (JStr (startIso window)); current = dates_of currentTask
              in range_walk h c task p projectedAtIso (range_step h c task p current projectedAtIso opening) opening closing
                   (nat (min (int CALENDAR_RANGE_PROJECTION_PER_TASK_CAP) maxOccurrences)) MAX_RANGE_PROJECTION_ITERATIONS current 0 0
          | _ \<Rightarrow> []))"

section \<open>One budget for all series\<close>

record budget =
  allocationByTaskId :: "(js \<times> nat) list"
  expansionByTaskId :: "(js \<times> js list) list"
  activeTaskIds :: "js list"

definition allocation :: "budget \<Rightarrow> js \<Rightarrow> nat" where
  "allocation b i = or_default 0 (map_of (allocationByTaskId b) i)"

definition allocate :: "nat \<Rightarrow> js \<Rightarrow> budget \<Rightarrow> budget" where
  "allocate n task b = b\<lparr>allocationByTaskId := AList.update (get task ''id'') n (allocationByTaskId b)\<rparr>"

definition emitted :: "js list \<Rightarrow> nat" where
  "emitted expansion = length expansion - 1"

text \<open>\<open>expand\<close> is the range expansion of one task with an allocation, \<open>perTaskCap\<close> the most a task may get.\<close>

definition expand_allocated :: "(js \<Rightarrow> nat \<Rightarrow> js list) \<Rightarrow> nat \<Rightarrow> js \<Rightarrow> budget \<Rightarrow> budget" where
  "expand_allocated expand perTaskCap task b =
     (let i = get task ''id''; a = allocation b i
      in if a = 0 then b\<lparr>expansionByTaskId := AList.update i [task] (expansionByTaskId b)\<rparr>
         else
           let expansion = expand task a
           in b\<lparr>expansionByTaskId := AList.update i expansion (expansionByTaskId b),
                activeTaskIds := (if emitted expansion < a \<or> perTaskCap \<le> a then removeAll i (activeTaskIds b) else activeTaskIds b)\<rparr>)"

definition projectedCount :: "budget \<Rightarrow> nat" where
  "projectedCount b = sum_list (map (\<lambda>(_, expansion). emitted expansion) (expansionByTaskId b))"

fun first_shares :: "nat \<Rightarrow> nat \<Rightarrow> nat \<Rightarrow> js list \<Rightarrow> budget \<Rightarrow> budget" where
  "first_shares baseShare perTaskCap remainder [] b = b"
| "first_shares baseShare perTaskCap remainder (task # candidates) b =
     (let extra = (if baseShare < perTaskCap \<and> 0 < remainder then 1 else 0)
      in first_shares baseShare perTaskCap (remainder - extra) candidates (allocate (baseShare + extra) task b))"

fun last_index_of :: "js \<Rightarrow> js list \<Rightarrow> nat" where
  "last_index_of i [] = 0"
| "last_index_of i (task # candidates) =
     (if i \<in> (\<lambda>t. get t ''id'') ` set candidates then Suc (last_index_of i candidates) else 0)"

text \<open>One round of water-filling: the tasks whose allocation grows, and to what.\<close>

definition raised :: "nat \<Rightarrow> js list \<Rightarrow> nat \<Rightarrow> budget \<Rightarrow> js list \<times> nat" where
  "raised perTaskCap candidates remainder b =
     (let share = (\<lambda>task. allocation b (get task ''id''));
          activeTasks = sort_key share (sort_key (\<lambda>task. last_index_of (get task ''id'') candidates)
            (filter (\<lambda>task. get task ''id'' \<in> set (activeTaskIds b)) candidates));
          minimumAllocation = share (hd activeTasks);
          lowest = filter (\<lambda>task. share task = minimumAllocation) activeTasks;
          nextAllocation = List.find (\<lambda>task. minimumAllocation < share task) activeTasks;
          nextLevel = min perTaskCap (case nextAllocation of Some task \<Rightarrow> share task | None \<Rightarrow> perTaskCap);
          fullLevelIncrease = min (nextLevel - minimumAllocation) (remainder div length lowest)
      in if 0 < fullLevelIncrease then (lowest, minimumAllocation + fullLevelIncrease)
         else (take remainder lowest, minimumAllocation + 1))"

fun redistribute :: "(js \<Rightarrow> nat \<Rightarrow> js list) \<Rightarrow> nat \<Rightarrow> nat \<Rightarrow> js list \<Rightarrow> nat \<Rightarrow> budget \<Rightarrow> budget option" where
  "redistribute expand perTaskCap totalCap candidates 0 b = None"
| "redistribute expand perTaskCap totalCap candidates (Suc fuel) b =
     (let remainder = totalCap - projectedCount b
      in if remainder = 0 \<or> activeTaskIds b = [] then Some b
         else
           let (changed, level) = raised perTaskCap candidates remainder b
           in if changed = [] then Some b
              else redistribute expand perTaskCap totalCap candidates fuel
                (fold (expand_allocated expand perTaskCap) changed (fold (allocate level) changed b)))"

definition projection_candidate :: "host \<Rightarrow> js \<Rightarrow> bool" where
  "projection_candidate h task \<longleftrightarrow> get task ''showFutureRecurrence'' = JBool True \<and> projectable h task \<noteq> None"

definition first_budget :: "(js \<Rightarrow> nat \<Rightarrow> js list) \<Rightarrow> nat \<Rightarrow> js list \<Rightarrow> budget" where
  "first_budget expand totalCap candidates =
     (let perTaskCap = min CALENDAR_RANGE_PROJECTION_PER_TASK_CAP totalCap;
          baseShare = min perTaskCap (totalCap div length candidates);
          b = first_shares baseShare perTaskCap (totalCap - baseShare * length candidates) candidates
                \<lparr>allocationByTaskId = [], expansionByTaskId = [], activeTaskIds = remdups (map (\<lambda>task. get task ''id'') candidates)\<rparr>
      in fold (expand_allocated expand perTaskCap) candidates b)"

definition expandCalendarRecurringTaskSetInRange ::
  "nat \<Rightarrow> host \<Rightarrow> calendar \<Rightarrow> js list \<Rightarrow> calendar_range \<Rightarrow> string \<Rightarrow> rat \<Rightarrow> js list option" where
  "expandCalendarRecurringTaskSetInRange fuel h c taskList window projectedAtIso totalProjectionCap =
     (let projectionCandidates = filter (projection_candidate h) taskList;
          boundedTotalCap = nat \<lfloor>totalProjectionCap\<rfloor>;
          expand = (\<lambda>task n. expandCalendarRecurringTasksInRange h c task window projectedAtIso (int n))
      in if projectionCandidates = [] then Some taskList
         else
           (case redistribute expand (min CALENDAR_RANGE_PROJECTION_PER_TASK_CAP boundedTotalCap) boundedTotalCap projectionCandidates fuel
                   (first_budget expand boundedTotalCap projectionCandidates) of
              None \<Rightarrow> None
            | Some b \<Rightarrow> Some (concat (map (\<lambda>task. or_default [task] (map_of (expansionByTaskId b) (get task ''id''))) taskList))))"

end
