(* ===== verification/Recurrence_Budget.thy ===== *)
theory Recurrence_Budget
  imports Recurrence_Projection "HOL-Library.AList"
begin

text \<open>
  The calendar's occurrences: what the walk over one range shows, and how \<^verbatim>\<open>expandCalendarRecurringTaskSetInRange\<close>
  shares its budget. The sharing knows of a series only that a larger allocation shows more of the same occurrences
  (locale \<open>occurrence_source\<close>); the range expansion provides it.
\<close>

section \<open>The walk over one range\<close>

text \<open>A larger cap shows the same occurrences, and then more.\<close>

lemma range_walk_prefix:
  "pushed \<le> cap \<Longrightarrow> cap \<le> cap' \<Longrightarrow>
   range_walk h c task p now step opening closing cap n base steps pushed
   = take (cap - pushed) (range_walk h c task p now step opening closing cap' n base steps pushed)"
proof (induction n arbitrary: base steps pushed)
  case (Suc n)
  show ?case
  proof (cases "cap = pushed")
    case False
    then have "Suc pushed \<le> cap" and "\<not> cap \<le> pushed" and "\<not> cap' \<le> pushed" using Suc.prems by auto
    moreover from this have "cap - pushed = Suc (cap - Suc pushed)" by simp
    ultimately show ?thesis
      using Suc.IH[of "Suc pushed"] Suc.IH[of pushed] Suc.prems
      by (simp add: Let_def split: option.splits prod.splits)
  qed simp
qed simp

lemmas walk_prefix = range_walk_prefix[where pushed = 0, simplified]

definition expansion_at :: "host \<Rightarrow> calendar \<Rightarrow> calendar_range \<Rightarrow> string \<Rightarrow> js \<Rightarrow> nat \<Rightarrow> js list" where
  "expansion_at h c window projectedAtIso task n = expandCalendarRecurringTasksInRange h c task window projectedAtIso (int n)"

lemma nat_cap: "nat (min (int k) (int n)) = min k n"
  by (simp add: min_def)

lemma expansion_prefix:
  assumes "n \<le> 62"
  shows "expansion_at h c window now task n = take (Suc n) (expansion_at h c window now task 62)"
proof -
  have "nat (min (int CALENDAR_RANGE_PROJECTION_PER_TASK_CAP) (int n)) = n"
    and "nat (min (int CALENDAR_RANGE_PROJECTION_PER_TASK_CAP) (int 62)) = 62"
    using assms by (simp_all add: nat_cap CALENDAR_RANGE_PROJECTION_PER_TASK_CAP_def)
  then show ?thesis
    unfolding expansion_at_def expandCalendarRecurringTasksInRange_def Let_def
    using assms by (simp add: walk_prefix[of n 62] split: option.splits del: range_walk.simps)
qed

lemma expansion_nonempty: "expansion_at h c window now task n \<noteq> []"
  by (simp add: expansion_at_def expandCalendarRecurringTasksInRange_def Let_def)

lemma range_walk_length:
  "pushed \<le> cap \<Longrightarrow> length (range_walk h c task p now step opening closing cap n base steps pushed) \<le> cap - pushed"
  by (subst range_walk_prefix[where cap' = cap]) simp_all

definition occurrence_fits :: "host \<Rightarrow> calendar \<Rightarrow> js \<Rightarrow> int option \<Rightarrow> int \<Rightarrow> string option \<Rightarrow> bool" where
  "occurrence_fits h c until opening closing anchor \<longleftrightarrow>
     (case parse_text h anchor of Some t \<Rightarrow> opens_before opening t \<and> t \<le> closing | None \<Rightarrow> False)
     \<and> \<not> shouldStopAtUntil h c anchor until"

lemma range_walk_shows:
  "shown \<in> set (range_walk h c task p now step opening closing cap n base steps pushed) \<Longrightarrow>
   \<exists>slots. shown = range_occurrence task slots now \<and> occurrence_fits h c (plan_until p) opening closing (anchor_text slots)"
proof (induction n arbitrary: base steps pushed)
  case (Suc n)
  from Suc.prems obtain slots k where step: "step base = Some (slots, k)"
    by (cases "step base") (auto split: if_splits)
  let ?more = "range_walk h c task p now step opening closing cap n (dates_of (range_occurrence task slots now)) (steps + k)"
  from Suc.prems step have "shown = range_occurrence task slots now \<and> occurrence_fits h c (plan_until p) opening closing (anchor_text slots)
      \<or> shown \<in> set (?more (Suc pushed)) \<or> shown \<in> set (?more pushed)"
    by (auto simp: Let_def occurrence_fits_def split: if_splits option.splits)
  then show ?case using Suc.IH by blast
qed simp

lemma includes_text_append: "includes_text part (pre @ part @ post)"
proof (induction pre)
  case Nil
  have "take (length part) (part @ post) = part" by simp
  then show ?case by (cases "part @ post") auto
qed simp

lemma range_occurrence_id:
  "get (range_occurrence task slots now) ''sourceTaskId'' = get task ''id''"
  "get (range_occurrence task slots now) ''isProjectedRecurringTask'' = JBool True"
  "isProjectedRecurringTaskId (get (range_occurrence task slots now) ''id'')"
  using includes_text_append by (simp_all add: range_occurrence_def projected_task_def isProjectedRecurringTaskId_def getRangeProjectedRecurringTaskId_def)

lemma occurrence_anchor:
  assumes "occurrence_fits h c until opening closing (anchor_text slots)"
  shows "anchor_text (dates_of (range_occurrence task slots now)) = anchor_text slots"
proof -
  have "safeParseDate h (JStr []) = None" by (simp add: safeParseDate_def)
  then have "slots DueDate \<noteq> Some []" "slots DueDate = None \<Longrightarrow> slots StartTime \<noteq> Some []"
    "slots DueDate = None \<Longrightarrow> slots StartTime = None \<Longrightarrow> slots ReviewAt \<noteq> Some []"
    using assms by (auto simp: occurrence_fits_def anchor_text_def parse_text_def)
  then show ?thesis
    by (auto simp: range_occurrence_def projected_task_def anchor_text_def dates_of_def js_of_text_def text_of_def split: option.splits)
qed

section \<open>Sharing one budget\<close>

text \<open>How far the open series may still grow.\<close>

definition openness :: "nat \<Rightarrow> js list \<Rightarrow> budget \<Rightarrow> nat" where
  "openness cap candidates b =
     (\<Sum>t \<in> {t \<in> set candidates. get t ''id'' \<in> set (activeTaskIds b)}. cap - allocation b (get t ''id''))"

locale occurrence_source =
  fixes expand :: "js \<Rightarrow> nat \<Rightarrow> js list" and own :: "js \<Rightarrow> js list" and most :: nat
  assumes expand_prefix: "n \<le> most \<Longrightarrow> \<exists>first. expand task n = first # take n (own task)"
begin

definition shown :: "js \<Rightarrow> nat \<Rightarrow> js list" where
  "shown task n = (if n = 0 then [task] else expand task n)"

lemma emitted_shown: "n \<le> most \<Longrightarrow> emitted (shown task n) = min n (length (own task))"
  using expand_prefix[of n task] by (auto simp: shown_def emitted_def)

text \<open>The state of the sharing: what each series of \<open>candidates\<close> was allocated is what it shows.\<close>

definition tracks :: "js list \<Rightarrow> budget \<Rightarrow> bool" where
  "tracks candidates b \<longleftrightarrow>
     distinct (map fst (expansionByTaskId b)) \<and> fst ` set (expansionByTaskId b) = (\<lambda>t. get t ''id'') ` set candidates
     \<and> (\<forall>t\<in>set candidates. allocation b (get t ''id'') \<le> most
          \<and> map_of (expansionByTaskId b) (get t ''id'') = Some (shown t (allocation b (get t ''id''))))"

definition fair :: "nat \<Rightarrow> nat \<Rightarrow> js list \<Rightarrow> budget \<Rightarrow> bool" where
  "fair share totalCap candidates b \<longleftrightarrow>
     tracks candidates b \<and> set (activeTaskIds b) \<subseteq> (\<lambda>t. get t ''id'') ` set candidates \<and> projectedCount b \<le> totalCap
     \<and> (\<forall>t\<in>set candidates. let i = get t ''id''; a = allocation b i in
          share \<le> a \<and> a \<le> min most totalCap
          \<and> (if i \<in> set (activeTaskIds b) then a \<le> length (own t) \<and> (a = 0 \<or> a < min most totalCap)
             else length (own t) < a \<or> a = min most totalCap))"

end

lemma allocation_fold_allocate:
  "allocation (fold (allocate level) changed b) i = (if i \<in> (\<lambda>t. get t ''id'') ` set changed then level else allocation b i)"
proof (induction changed arbitrary: b)
  case (Cons t changed)
  have "allocation (allocate level t b) i = (if i = get t ''id'' then level else allocation b i)"
    by (simp add: allocate_def allocation_def update_conv')
  then show ?case by (auto simp: Cons)
qed simp

lemma fold_allocate_fields [simp]:
  "expansionByTaskId (fold (allocate level) changed b) = expansionByTaskId b"
  "activeTaskIds (fold (allocate level) changed b) = activeTaskIds b"
  by (induction changed arbitrary: b) (simp_all add: allocate_def)

lemma projectedCount_keys:
  assumes "distinct (map fst (expansionByTaskId b))"
  shows "projectedCount b = (\<Sum>i \<in> fst ` set (expansionByTaskId b). emitted (or_default [] (map_of (expansionByTaskId b) i)))"
proof -
  have "projectedCount b = (\<Sum>x \<leftarrow> expansionByTaskId b. emitted (or_default [] (map_of (expansionByTaskId b) (fst x))))"
    unfolding projectedCount_def
  proof (intro arg_cong[where f = sum_list] map_cong refl)
    fix x assume "x \<in> set (expansionByTaskId b)"
    then have "map_of (expansionByTaskId b) (fst x) = Some (snd x)" using assms by (intro map_of_is_SomeI) simp_all
    then show "(case x of (_, expansion) \<Rightarrow> emitted expansion) = emitted (or_default [] (map_of (expansionByTaskId b) (fst x)))"
      by (simp add: split_beta)
  qed
  also have "\<dots> = (\<Sum>i \<leftarrow> map fst (expansionByTaskId b). emitted (or_default [] (map_of (expansionByTaskId b) i)))"
    by (simp add: comp_def)
  also have "\<dots> = (\<Sum>i \<in> fst ` set (expansionByTaskId b). emitted (or_default [] (map_of (expansionByTaskId b) i)))"
    unfolding sum_list_distinct_conv_sum_set[OF assms] by simp
  finally show ?thesis .
qed

context occurrence_source
begin

definition closed_at :: "nat \<Rightarrow> js \<Rightarrow> nat \<Rightarrow> bool" where
  "closed_at cap t a \<longleftrightarrow> a \<noteq> 0 \<and> (emitted (shown t a) < a \<or> cap \<le> a)"

lemma expand_allocated_eq:
  "expand_allocated expand cap t b =
     (let i = get t ''id''; a = allocation b i
      in b\<lparr>expansionByTaskId := AList.update i (shown t a) (expansionByTaskId b),
           activeTaskIds := (if closed_at cap t a then removeAll i (activeTaskIds b) else activeTaskIds b)\<rparr>)"
  by (simp add: expand_allocated_def Let_def closed_at_def shown_def)

lemma fold_expand_allocation: "allocation (fold (expand_allocated expand cap) changed b) = allocation b"
proof (induction changed arbitrary: b)
  case (Cons t changed)
  have "allocation (expand_allocated expand cap t b) = allocation b"
    by (simp add: expand_allocated_eq allocation_def Let_def fun_eq_iff)
  then show ?case using Cons by simp
qed simp

lemma expand_one_allocation [simp]: "allocation (expand_allocated expand cap t b) = allocation b"
  using fold_expand_allocation[of cap "[t]"] by simp

lemma fold_expand_keys:
  assumes "distinct (map fst (expansionByTaskId b))"
  shows "distinct (map fst (expansionByTaskId (fold (expand_allocated expand cap) changed b)))
    \<and> fst ` set (expansionByTaskId (fold (expand_allocated expand cap) changed b))
      = fst ` set (expansionByTaskId b) \<union> (\<lambda>t. get t ''id'') ` set changed"
  using assms
proof (induction changed arbitrary: b)
  case (Cons t changed)
  let ?b = "expand_allocated expand cap t b"
  have "distinct (map fst (expansionByTaskId ?b))"
    and "fst ` set (expansionByTaskId ?b) = insert (get t ''id'') (fst ` set (expansionByTaskId b))"
    using Cons.prems by (simp_all add: expand_allocated_eq Let_def distinct_update dom_update)
  then show ?case using Cons.IH[of ?b] by auto
qed simp

lemma fold_expand_active:
  "set (activeTaskIds (fold (expand_allocated expand cap) changed b))
   = {i \<in> set (activeTaskIds b). \<not> (\<exists>t\<in>set changed. get t ''id'' = i \<and> closed_at cap t (allocation b i))}"
proof (induction changed arbitrary: b)
  case (Cons t changed)
  have "set (activeTaskIds (expand_allocated expand cap t b))
      = {i \<in> set (activeTaskIds b). \<not> (get t ''id'' = i \<and> closed_at cap t (allocation b i))}"
    by (auto simp: expand_allocated_eq Let_def)
  then show ?case using Cons.IH[of "expand_allocated expand cap t b"] by auto
qed simp

lemma fold_expand_expansion:
  assumes "inj_on (\<lambda>t. get t ''id'') (set candidates)" and "set changed \<subseteq> set candidates" and "t \<in> set candidates"
  shows "map_of (expansionByTaskId (fold (expand_allocated expand cap) changed b)) (get t ''id'')
    = (if t \<in> set changed then Some (shown t (allocation b (get t ''id''))) else map_of (expansionByTaskId b) (get t ''id''))"
  using assms(2)
proof (induction changed arbitrary: b)
  case (Cons t' changed)
  have "t = t'" if "get t ''id'' = get t' ''id''" using that assms(1,3) Cons.prems by (auto dest: inj_onD)
  then have "map_of (expansionByTaskId (expand_allocated expand cap t' b)) (get t ''id'')
      = (if t = t' then Some (shown t (allocation b (get t ''id''))) else map_of (expansionByTaskId b) (get t ''id''))"
    by (auto simp: expand_allocated_eq Let_def update_conv')
  then show ?case using Cons by auto
qed simp

end

lemma raised_grows:
  assumes raised: "raised cap candidates remainder b = (changed, level)"
    and room: "0 < remainder" "distinct candidates" "activeTaskIds b \<noteq> []" "set (activeTaskIds b) \<subseteq> (\<lambda>t. get t ''id'') ` set candidates"
    and below: "\<And>t. t \<in> set candidates \<Longrightarrow> get t ''id'' \<in> set (activeTaskIds b) \<Longrightarrow> allocation b (get t ''id'') < cap"
  obtains m where "changed \<noteq> []" "distinct changed" "set changed \<subseteq> {t \<in> set candidates. get t ''id'' \<in> set (activeTaskIds b)}"
    "\<And>t. t \<in> set changed \<Longrightarrow> allocation b (get t ''id'') = m" "m < level" "level \<le> cap" "length changed * (level - m) \<le> remainder"
proof -
  define share where "share = (\<lambda>t. allocation b (get t ''id''))"
  define act where "act = sort_key share (sort_key (\<lambda>t. last_index_of (get t ''id'') candidates)
    (filter (\<lambda>t. get t ''id'' \<in> set (activeTaskIds b)) candidates))"
  define m where "m = share (hd act)"
  define low where "low = filter (\<lambda>t. share t = m) act"
  define up where "up = min cap (case List.find (\<lambda>t. m < share t) act of Some t \<Rightarrow> share t | None \<Rightarrow> cap)"
  define inc where "inc = min (up - m) (remainder div length low)"
  have result: "(changed, level) = (if 0 < inc then (low, m + inc) else (take remainder low, m + 1))"
    using raised unfolding raised_def Let_def share_def act_def m_def low_def up_def inc_def by simp
  have act_set: "set act = {t \<in> set candidates. get t ''id'' \<in> set (activeTaskIds b)}" and "distinct act"
    unfolding act_def using room(2) by auto
  obtain i where "i \<in> set (activeTaskIds b)" using room(3) by (cases "activeTaskIds b") auto
  then obtain t where "t \<in> set act" using room(4) act_set by auto
  then have "act \<noteq> []" by auto
  then have "hd act \<in> set act" by simp
  then have "hd act \<in> set low" and "m < cap" using below act_set by (auto simp: low_def m_def share_def)
  then have "low \<noteq> []" by auto
  have "m < up" using \<open>m < cap\<close> by (auto simp: up_def find_Some_iff split: option.splits)
  have low_sub: "set low \<subseteq> set act" "distinct low" "\<And>t. t \<in> set low \<Longrightarrow> allocation b (get t ''id'') = m"
    using \<open>distinct act\<close> by (auto simp: low_def share_def)
  show thesis
  proof (cases "0 < inc")
    case True
    then have eq: "changed = low" "level = m + inc" using result by simp_all
    have "length low * inc \<le> length low * (remainder div length low)" by (intro mult_left_mono) (simp_all add: inc_def)
    then have "length low * inc \<le> remainder" using times_div_less_eq_dividend le_trans by blast
    moreover have "inc \<le> up - m" "up \<le> cap" by (simp_all add: inc_def up_def)
    ultimately show thesis
      using that[of m] low_sub act_set True \<open>low \<noteq> []\<close> \<open>m < cap\<close> eq by auto
  next
    case False
    then have eq: "changed = take remainder low" "level = m + 1" using result by simp_all
    have "set changed \<subseteq> set low" using eq by (auto dest: in_set_takeD)
    then show thesis
      using that[of m] low_sub act_set \<open>low \<noteq> []\<close> \<open>m < cap\<close> room(1) eq by auto
  qed
qed

context occurrence_source
begin

lemma tracked_count:
  assumes "tracks candidates b" and "inj_on (\<lambda>t. get t ''id'') (set candidates)"
  shows "projectedCount b = (\<Sum>t \<in> set candidates. min (allocation b (get t ''id'')) (length (own t)))"
proof -
  have "projectedCount b = (\<Sum>i \<in> (\<lambda>t. get t ''id'') ` set candidates. emitted (or_default [] (map_of (expansionByTaskId b) i)))"
    using assms(1) by (simp add: tracks_def projectedCount_keys)
  also have "\<dots> = (\<Sum>t \<in> set candidates. min (allocation b (get t ''id'')) (length (own t)))"
    unfolding sum.reindex[OF assms(2)] using assms(1) by (intro sum.cong) (auto simp: tracks_def emitted_shown)
  finally show ?thesis .
qed

lemma closed_at_eq: "a \<le> most \<Longrightarrow> closed_at cap t a \<longleftrightarrow> a \<noteq> 0 \<and> (length (own t) < a \<or> cap \<le> a)"
  by (auto simp: closed_at_def emitted_shown)

text \<open>A raise of some tasks, expanded anew, keeps the allocations and the expansions in step.\<close>

lemma tracks_raise:
  assumes "tracks candidates b" and "inj_on (\<lambda>t. get t ''id'') (set candidates)" and "set changed \<subseteq> set candidates" and "level \<le> most"
  shows "tracks candidates (fold (expand_allocated expand cap) changed (fold (allocate level) changed b))"
proof -
  have "get t ''id'' \<in> (\<lambda>t. get t ''id'') ` set changed \<longleftrightarrow> t \<in> set changed" if "t \<in> set candidates" for t
    using that assms(2,3) by (auto dest: inj_onD)
  moreover have "(\<lambda>t. get t ''id'') ` set changed \<subseteq> (\<lambda>t. get t ''id'') ` set candidates" using assms(3) by auto
  ultimately show ?thesis
    using assms fold_expand_keys[of "fold (allocate level) changed b" cap changed]
      fold_expand_expansion[OF assms(2,3), of _ cap "fold (allocate level) changed b"]
    by (auto simp: tracks_def fold_expand_allocation allocation_fold_allocate)
qed

end

context occurrence_source
begin

lemma fair_step:
  assumes fair: "fair share totalCap candidates b" and keys: "distinct (map (\<lambda>t. get t ''id'') candidates)"
    and raised: "raised (min most totalCap) candidates (totalCap - projectedCount b) b = (changed, level)"
    and room: "totalCap - projectedCount b \<noteq> 0" "activeTaskIds b \<noteq> []" and most: "0 < most"
  defines "b' \<equiv> fold (expand_allocated expand (min most totalCap)) changed (fold (allocate level) changed b)"
  shows "changed \<noteq> [] \<and> fair share totalCap candidates b'
    \<and> openness (min most totalCap) candidates b' < openness (min most totalCap) candidates b"
proof -
  let ?cap = "min most totalCap" and ?a = "\<lambda>t. allocation b (get t ''id'')" and ?a' = "\<lambda>t. allocation b' (get t ''id'')"
  have inj: "inj_on (\<lambda>t. get t ''id'') (set candidates)" and "distinct candidates" using keys by (simp_all add: distinct_map)
  have tracks: "tracks candidates b" and active: "set (activeTaskIds b) \<subseteq> (\<lambda>t. get t ''id'') ` set candidates"
    and each: "\<And>t. t \<in> set candidates \<Longrightarrow> share \<le> ?a t \<and> ?a t \<le> ?cap
          \<and> (if get t ''id'' \<in> set (activeTaskIds b) then ?a t \<le> length (own t) \<and> (?a t = 0 \<or> ?a t < ?cap)
             else length (own t) < ?a t \<or> ?a t = ?cap)"
    using fair by (auto simp: fair_def Let_def)
  have "?a t < ?cap" if "t \<in> set candidates" "get t ''id'' \<in> set (activeTaskIds b)" for t
    using each[OF that(1)] that(2) most room(1) by auto
  then obtain m where grown: "changed \<noteq> []" "distinct changed" "set changed \<subseteq> {t \<in> set candidates. get t ''id'' \<in> set (activeTaskIds b)}"
    "\<And>t. t \<in> set changed \<Longrightarrow> ?a t = m" "m < level" "level \<le> ?cap" "length changed * (level - m) \<le> totalCap - projectedCount b"
    using raised_grows[OF raised _ \<open>distinct candidates\<close> room(2) active] room(1) by auto
  then have sub: "set changed \<subseteq> set candidates" by auto
  then have hit: "get t ''id'' \<in> (\<lambda>t. get t ''id'') ` set changed \<longleftrightarrow> t \<in> set changed" if "t \<in> set candidates" for t
    using that inj by (auto dest: inj_onD)
  then have a': "?a' t = (if t \<in> set changed then level else ?a t)" if "t \<in> set candidates" for t
    using that by (simp add: b'_def fold_expand_allocation allocation_fold_allocate)
  have tracks': "tracks candidates b'" unfolding b'_def using tracks_raise[OF tracks inj sub] grown(6) by simp
  have act': "get t ''id'' \<in> set (activeTaskIds b') \<longleftrightarrow>
      get t ''id'' \<in> set (activeTaskIds b) \<and> \<not> (t \<in> set changed \<and> closed_at ?cap t level)" if "t \<in> set candidates" for t
    using that inj sub by (auto simp: b'_def fold_expand_active allocation_fold_allocate dest: inj_onD)
  have "projectedCount b' = (\<Sum>t \<in> set candidates. min (?a' t) (length (own t)))" by (rule tracked_count[OF tracks' inj])
  also have "\<dots> \<le> (\<Sum>t \<in> set candidates. min (?a t) (length (own t)) + (if t \<in> set changed then level - m else 0))"
  proof (rule sum_mono)
    fix t assume t: "t \<in> set candidates"
    show "min (?a' t) (length (own t)) \<le> min (?a t) (length (own t)) + (if t \<in> set changed then level - m else 0)"
      using each[OF t] grown(3,4,5) by (auto simp: a'[OF t])
  qed
  also have "\<dots> = projectedCount b + length changed * (level - m)"
    using tracked_count[OF tracks inj] sub grown(2)
    by (simp add: sum.distrib sum.If_cases Int_absorb1 distinct_card)
  also have "\<dots> \<le> totalCap" using grown(7) room(1) by simp
  finally have count': "projectedCount b' \<le> totalCap" .
  have "fair share totalCap candidates b'"
    unfolding fair_def Let_def
  proof (intro conjI ballI tracks' count')
    show "set (activeTaskIds b') \<subseteq> (\<lambda>t. get t ''id'') ` set candidates"
      using active by (auto simp: b'_def fold_expand_active)
    fix t assume t: "t \<in> set candidates"
    show "share \<le> ?a' t" and "?a' t \<le> ?cap" using each[OF t] grown(3-6) t by (auto simp: a')
    show "if get t ''id'' \<in> set (activeTaskIds b') then ?a' t \<le> length (own t) \<and> (?a' t = 0 \<or> ?a' t < ?cap)
        else length (own t) < ?a' t \<or> ?a' t = ?cap"
      using each[OF t] grown(3,5,6) by (auto simp: a'[OF t] act'[OF t] closed_at_eq)
  qed
  moreover have "openness ?cap candidates b' < openness ?cap candidates b"
  proof -
    have "openness ?cap candidates b' \<le> (\<Sum>t \<in> {t \<in> set candidates. get t ''id'' \<in> set (activeTaskIds b)}. ?cap - ?a' t)"
      unfolding openness_def using act' by (intro sum_mono2) auto
    also have "\<dots> < openness ?cap candidates b"
      unfolding openness_def
    proof (rule sum_strict_mono_ex1)
      show "\<forall>t\<in>{t \<in> set candidates. get t ''id'' \<in> set (activeTaskIds b)}. ?cap - ?a' t \<le> ?cap - ?a t"
        using grown(4,5) by (auto simp: a')
      have "hd changed \<in> set changed" using grown(1) by simp
      then show "\<exists>t\<in>{t \<in> set candidates. get t ''id'' \<in> set (activeTaskIds b)}. ?cap - ?a' t < ?cap - ?a t"
        using grown(3-6) sub by (intro bexI[of _ "hd changed"]) (auto simp: a' subset_iff)
    qed simp
    finally show ?thesis .
  qed
  ultimately show ?thesis using grown(1) by simp
qed

end

lemma first_shares_fields [simp]:
  "expansionByTaskId (first_shares base cap r candidates b) = expansionByTaskId b"
  "activeTaskIds (first_shares base cap r candidates b) = activeTaskIds b"
  by (induction candidates arbitrary: r b) (simp_all add: allocate_def Let_def)

lemma first_shares_other:
  "i \<notin> (\<lambda>t. get t ''id'') ` set candidates \<Longrightarrow> allocation (first_shares base cap r candidates b) i = allocation b i"
  by (induction candidates arbitrary: r b) (auto simp: allocation_def allocate_def Let_def update_conv')

lemma first_shares_allocation:
  assumes "distinct (map (\<lambda>t. get t ''id'') candidates)" and "base \<le> cap"
  shows "(\<forall>t\<in>set candidates. base \<le> allocation (first_shares base cap r candidates b) (get t ''id'')
      \<and> allocation (first_shares base cap r candidates b) (get t ''id'') \<le> cap)
    \<and> (\<Sum>t \<leftarrow> candidates. allocation (first_shares base cap r candidates b) (get t ''id'')) \<le> base * length candidates + r"
  using assms
proof (induction candidates arbitrary: r b)
  case (Cons t candidates)
  define extra :: nat where "extra = (if base < cap \<and> 0 < r then 1 else 0)"
  have "get t ''id'' \<notin> (\<lambda>t. get t ''id'') ` set candidates" using Cons.prems by auto
  then have "allocation (first_shares base cap (r - extra) candidates (allocate (base + extra) t b)) (get t ''id'') = base + extra"
    using first_shares_other[where base = base and cap = cap and r = "r - extra" and b = "allocate (base + extra) t b"]
      allocation_fold_allocate[of "base + extra" "[t]" b] by simp
  moreover have "base + extra \<le> cap" "extra \<le> r" using Cons.prems by (auto simp: extra_def)
  ultimately show ?case
    using Cons.IH[of "r - extra" "allocate (base + extra) t b"] Cons.prems by (auto simp: Let_def extra_def[symmetric])
qed simp

context occurrence_source
begin

lemma redistribute_fair:
  assumes "distinct (map (\<lambda>t. get t ''id'') candidates)" and "0 < most"
  shows "fair share totalCap candidates b \<Longrightarrow> openness (min most totalCap) candidates b < fuel \<Longrightarrow>
    \<exists>b'. redistribute expand (min most totalCap) totalCap candidates fuel b = Some b' \<and> fair share totalCap candidates b'
      \<and> (projectedCount b' = totalCap \<or> activeTaskIds b' = [])"
proof (induction fuel arbitrary: b)
  case (Suc fuel)
  show ?case
  proof (cases "totalCap - projectedCount b = 0 \<or> activeTaskIds b = []")
    case True
    moreover have "projectedCount b \<le> totalCap" using Suc.prems by (simp add: fair_def)
    ultimately show ?thesis using Suc.prems by auto
  next
    case False
    obtain changed level where raised: "raised (min most totalCap) candidates (totalCap - projectedCount b) b = (changed, level)"
      by (cases "raised (min most totalCap) candidates (totalCap - projectedCount b) b")
    show ?thesis
      using fair_step[OF Suc.prems(1) assms(1) raised _ _ assms(2)] False Suc.prems(2)
        Suc.IH[of "fold (expand_allocated expand (min most totalCap)) changed (fold (allocate level) changed b)"]
      by (auto simp: Let_def raised)
  qed
qed simp

lemma first_budget_fair:
  assumes keys: "distinct (map (\<lambda>t. get t ''id'') candidates)" and most: "most = CALENDAR_RANGE_PROJECTION_PER_TASK_CAP"
  shows "fair (min (min most totalCap) (totalCap div length candidates)) totalCap candidates (first_budget expand totalCap candidates)"
proof -
  let ?cap = "min most totalCap"
  let ?share = "min ?cap (totalCap div length candidates)"
  define b where "b = first_shares ?share ?cap (totalCap - ?share * length candidates) candidates
    \<lparr>allocationByTaskId = [], expansionByTaskId = [], activeTaskIds = remdups (map (\<lambda>task. get task ''id'') candidates)\<rparr>"
  let ?b = "fold (expand_allocated expand ?cap) candidates b" and ?a = "\<lambda>t. allocation b (get t ''id'')"
  have first: "first_budget expand totalCap candidates = ?b"
    by (simp add: first_budget_def b_def most Let_def)
  have inj: "inj_on (\<lambda>t. get t ''id'') (set candidates)" and dist: "distinct candidates" using keys by (simp_all add: distinct_map)
  have "?share * length candidates \<le> totalCap div length candidates * length candidates" by (intro mult_right_mono) simp_all
  then have "?share * length candidates \<le> totalCap" by (metis div_times_less_eq_dividend le_trans)
  moreover have shares: "(\<forall>t\<in>set candidates. ?share \<le> ?a t \<and> ?a t \<le> ?cap)
      \<and> (\<Sum>t \<leftarrow> candidates. ?a t) \<le> ?share * length candidates + (totalCap - ?share * length candidates)"
    unfolding b_def by (rule first_shares_allocation[OF keys]) (rule min.cobounded1)
  ultimately have "(\<Sum>t \<leftarrow> candidates. ?a t) \<le> totalCap" by linarith
  have alloc: "\<And>t. t \<in> set candidates \<Longrightarrow> ?share \<le> ?a t \<and> ?a t \<le> ?cap" using shares by blast
  have total: "(\<Sum>t \<in> set candidates. ?a t) \<le> totalCap"
    using \<open>(\<Sum>t \<leftarrow> candidates. ?a t) \<le> totalCap\<close> by (simp add: sum_list_distinct_conv_sum_set dist)
  have "expansionByTaskId b = []" by (simp add: b_def)
  then have tracks: "tracks candidates ?b"
    using fold_expand_keys[of b ?cap candidates] fold_expand_expansion[OF inj subset_refl, of _ ?cap b] alloc
    by (auto simp: tracks_def fold_expand_allocation)
  have "projectedCount ?b \<le> (\<Sum>t \<in> set candidates. ?a t)"
    unfolding tracked_count[OF tracks inj] by (intro sum_mono) (simp add: fold_expand_allocation)
  then have count: "projectedCount ?b \<le> totalCap" using total by simp
  have act: "get t ''id'' \<in> set (activeTaskIds ?b) \<longleftrightarrow> \<not> closed_at ?cap t (?a t)" if "t \<in> set candidates" for t
    using that inj by (auto simp: fold_expand_active b_def dest: inj_onD)
  show ?thesis
    unfolding first fair_def Let_def
  proof (intro conjI ballI tracks count)
    show "set (activeTaskIds ?b) \<subseteq> (\<lambda>t. get t ''id'') ` set candidates" by (auto simp: fold_expand_active b_def)
    fix t assume t: "t \<in> set candidates"
    have same: "allocation ?b (get t ''id'') = ?a t" by (simp add: fold_expand_allocation)
    show "?share \<le> allocation ?b (get t ''id'')" and "allocation ?b (get t ''id'') \<le> ?cap" unfolding same using alloc[OF t] by blast+
    have "?a t \<le> most" "?a t \<le> ?cap" using alloc[OF t] by simp_all
    then show "if get t ''id'' \<in> set (activeTaskIds ?b)
        then allocation ?b (get t ''id'') \<le> length (own t) \<and> (allocation ?b (get t ''id'') = 0 \<or> allocation ?b (get t ''id'') < ?cap)
        else length (own t) < allocation ?b (get t ''id'') \<or> allocation ?b (get t ''id'') = ?cap"
      unfolding same act[OF t] closed_at_eq[OF \<open>?a t \<le> most\<close>] by (cases "?a t = 0") (auto split: if_split)
  qed
qed

end

section \<open>The calendar as a source of occurrences\<close>

definition own_occurrences :: "host \<Rightarrow> calendar \<Rightarrow> calendar_range \<Rightarrow> string \<Rightarrow> js \<Rightarrow> js list" where
  "own_occurrences h c window projectedAtIso task = tl (expansion_at h c window projectedAtIso task 62)"

interpretation cal: occurrence_source "expansion_at h c window now" "own_occurrences h c window now" 62 for h c window now
proof unfold_locales
  fix n :: nat and task
  assume "n \<le> 62"
  then have "expansion_at h c window now task n = take (Suc n) (expansion_at h c window now task 62)" by (rule expansion_prefix)
  then show "\<exists>first. expansion_at h c window now task n = first # take n (own_occurrences h c window now task)"
    using expansion_nonempty[of h c window now task 62]
    by (cases "expansion_at h c window now task 62") (auto simp: own_occurrences_def)
qed

text \<open>What one series shows with an allocation of \<open>n\<close>: nothing but the task itself for none.\<close>

definition series_shown :: "host \<Rightarrow> calendar \<Rightarrow> calendar_range \<Rightarrow> string \<Rightarrow> js \<Rightarrow> nat \<Rightarrow> js list" where
  "series_shown h c window projectedAtIso task n = (if n = 0 then [task] else expansion_at h c window projectedAtIso task n)"

lemma shown_series: "cal.shown h c window now = series_shown h c window now"
  by (simp add: cal.shown_def series_shown_def fun_eq_iff)

lemma series_shown_tail:
  assumes "n \<le> 62"
  shows "tl (series_shown h c window now task n) = take n (own_occurrences h c window now task)"
  using cal.expand_prefix[OF assms, of h c window now task] by (auto simp: series_shown_def)

lemma openness_bound: "openness cap candidates b \<le> cap * length candidates"
proof -
  let ?open = "{t \<in> set candidates. get t ''id'' \<in> set (activeTaskIds b)}"
  have "openness cap candidates b \<le> card ?open * cap"
    unfolding openness_def using sum_bounded_above[of ?open "\<lambda>t. cap - allocation b (get t ''id'')" cap] by simp
  also have "card ?open \<le> card (set candidates)" by (intro card_mono) auto
  then have "card ?open * cap \<le> length candidates * cap" by (intro mult_right_mono) (auto intro: le_trans card_length)
  finally show ?thesis by (simp add: mult.commute)
qed

lemma shared_set_expansion:
  fixes totalProjectionCap :: rat
  assumes keys: "distinct (map (\<lambda>task. get task ''id'') taskList)" and fuel: "62 * length taskList < fuel"
    and some: "filter (projection_candidate h) taskList \<noteq> []"
  defines "candidates \<equiv> filter (projection_candidate h) taskList" and "budgetCap \<equiv> nat \<lfloor>totalProjectionCap\<rfloor>"
  obtains b where "cal.fair h c window now (min (min 62 budgetCap) (budgetCap div length candidates)) budgetCap candidates b"
    and "projectedCount b = budgetCap \<or> activeTaskIds b = []"
    and "expandCalendarRecurringTaskSetInRange fuel h c taskList window now totalProjectionCap
      = Some (concat (map (\<lambda>task. or_default [task] (map_of (expansionByTaskId b) (get task ''id''))) taskList))"
proof -
  let ?expand = "expansion_at h c window now"
  have dist: "distinct (map (\<lambda>t. get t ''id'') candidates)"
    using keys unfolding candidates_def by (simp add: distinct_map_filter)
  have first: "cal.fair h c window now (min (min 62 budgetCap) (budgetCap div length candidates)) budgetCap candidates (first_budget ?expand budgetCap candidates)"
    by (rule cal.first_budget_fair[OF dist]) (simp add: CALENDAR_RANGE_PROJECTION_PER_TASK_CAP_def)
  have "openness (min 62 budgetCap) candidates (first_budget ?expand budgetCap candidates) \<le> min 62 budgetCap * length candidates" by (rule openness_bound)
  also have "\<dots> \<le> 62 * length taskList" unfolding candidates_def by (intro mult_le_mono) simp_all
  also have "\<dots> < fuel" by (rule fuel)
  finally obtain b where b: "redistribute ?expand (min 62 budgetCap) budgetCap candidates fuel (first_budget ?expand budgetCap candidates) = Some b"
    "cal.fair h c window now (min (min 62 budgetCap) (budgetCap div length candidates)) budgetCap candidates b" "projectedCount b = budgetCap \<or> activeTaskIds b = []"
    using cal.redistribute_fair[OF dist _ first] by auto
  have "?expand = (\<lambda>task n. expandCalendarRecurringTasksInRange h c task window now (int n))" by (simp add: expansion_at_def fun_eq_iff)
  then have "expandCalendarRecurringTaskSetInRange fuel h c taskList window now totalProjectionCap
      = Some (concat (map (\<lambda>task. or_default [task] (map_of (expansionByTaskId b) (get task ''id''))) taskList))"
    using b(1) some unfolding expandCalendarRecurringTaskSetInRange_def Let_def
    by (simp add: candidates_def budgetCap_def CALENDAR_RANGE_PROJECTION_PER_TASK_CAP_def)
  then show thesis using that b by blast
qed

section \<open>Properties\<close>

text \<open>
  C33. The calendar's budget is shared fairly and used up. For tasks with distinct ids and enough fuel the expansion of a
  task set ends, shows every task once in its place, and gives each projected series an allocation between the equal
  share of the budget and the cap of one task. The occurrences shown never exceed the budget; when they stay below it,
  every series already shows all it could with the largest allocation.
\<close>

theorem calendar_budget_is_shared:
  assumes keys: "distinct (map (\<lambda>task. get task ''id'') taskList)" and fuel: "62 * length taskList < fuel"
  shows "let candidates = filter (projection_candidate h) taskList; budgetCap = nat \<lfloor>totalProjectionCap\<rfloor>; most = min 62 budgetCap;
             shown = series_shown h c window now
         in \<exists>a. expandCalendarRecurringTaskSetInRange fuel h c taskList window now totalProjectionCap
                = Some (concat (map (\<lambda>task. if projection_candidate h task then shown task (a task) else [task]) taskList))
              \<and> (\<forall>task\<in>set candidates. min most (budgetCap div length candidates) \<le> a task \<and> a task \<le> most)
              \<and> (\<Sum>task\<leftarrow>candidates. length (tl (shown task (a task)))) \<le> budgetCap
              \<and> ((\<Sum>task\<leftarrow>candidates. length (tl (shown task (a task)))) = budgetCap
                 \<or> (\<forall>task\<in>set candidates. tl (shown task (a task)) = tl (shown task most)))"
proof (cases "filter (projection_candidate h) taskList = []")
  case True
  then have "projection_candidate h task \<Longrightarrow> task \<notin> set taskList" for task by (auto simp: filter_empty_conv)
  then have "map (\<lambda>task. if projection_candidate h task then series_shown h c window now task 0 else [task]) taskList = map (\<lambda>task. [task]) taskList"
    by (intro map_cong) auto
  then have "concat (map (\<lambda>task. if projection_candidate h task then series_shown h c window now task 0 else [task]) taskList) = taskList"
    by (simp only: concat_map_singleton map_ident)
  then show ?thesis
    using True by (auto simp: Let_def expandCalendarRecurringTaskSetInRange_def intro!: exI[of _ "\<lambda>_. 0"])
next
  case False
  let ?candidates = "filter (projection_candidate h) taskList" and ?cap = "nat \<lfloor>totalProjectionCap\<rfloor>"
  obtain b where fair: "cal.fair h c window now (min (min 62 ?cap) (?cap div length ?candidates)) ?cap ?candidates b"
    and stop: "projectedCount b = ?cap \<or> activeTaskIds b = []"
    and result: "expandCalendarRecurringTaskSetInRange fuel h c taskList window now totalProjectionCap
      = Some (concat (map (\<lambda>task. or_default [task] (map_of (expansionByTaskId b) (get task ''id''))) taskList))"
    by (rule shared_set_expansion[OF keys fuel False, where totalProjectionCap = totalProjectionCap])
  define a where "a = (\<lambda>task. allocation b (get task ''id''))"
  have dist: "distinct ?candidates" and inj: "inj_on (\<lambda>t. get t ''id'') (set ?candidates)"
    using keys by (auto simp: distinct_map inj_on_def)
  have each: "min (min 62 ?cap) (?cap div length ?candidates) \<le> a t \<and> a t \<le> min 62 ?cap
      \<and> map_of (expansionByTaskId b) (get t ''id'') = Some (series_shown h c window now t (a t))" if "t \<in> set ?candidates" for t
    using fair that by (auto simp: cal.fair_def cal.tracks_def Let_def a_def shown_series)
  have tails: "tl (series_shown h c window now t (a t)) = take (a t) (own_occurrences h c window now t)" if "t \<in> set ?candidates" for t
    using each[OF that] by (intro series_shown_tail) simp
  have "or_default [t] (map_of (expansionByTaskId b) (get t ''id'')) = (if projection_candidate h t then series_shown h c window now t (a t) else [t])"
    if t: "t \<in> set taskList" for t
  proof (cases "projection_candidate h t")
    case True
    then show ?thesis using each[of t] t by simp
  next
    case False
    have "get t ''id'' \<notin> (\<lambda>t. get t ''id'') ` set ?candidates"
      using False t keys by (auto simp: distinct_map dest: inj_onD)
    then have "map_of (expansionByTaskId b) (get t ''id'') = None"
      using fair by (simp add: cal.fair_def cal.tracks_def map_of_eq_None_iff)
    then show ?thesis using False by simp
  qed
  then have shows_all: "map (\<lambda>task. or_default [task] (map_of (expansionByTaskId b) (get task ''id''))) taskList
      = map (\<lambda>task. if projection_candidate h task then series_shown h c window now task (a task) else [task]) taskList"
    by (intro map_cong) auto
  have count: "(\<Sum>task\<leftarrow>?candidates. length (tl (series_shown h c window now task (a task)))) = projectedCount b"
  proof -
    have "projectedCount b = (\<Sum>t \<in> set ?candidates. min (a t) (length (own_occurrences h c window now t)))"
      unfolding a_def using fair inj by (intro cal.tracked_count) (simp_all add: cal.fair_def)
    also have "\<dots> = (\<Sum>t \<in> set ?candidates. length (tl (series_shown h c window now t (a t))))"
      by (intro sum.cong refl) (simp add: tails min.commute del: set_filter)
    finally show ?thesis using dist by (simp add: sum_list_distinct_conv_sum_set del: set_filter)
  qed
  have full: "tl (series_shown h c window now t (a t)) = tl (series_shown h c window now t (min 62 ?cap))"
    if none: "activeTaskIds b = []" and t: "t \<in> set ?candidates" for t
  proof -
    have "length (own_occurrences h c window now t) < a t \<or> a t = min 62 ?cap"
      using fair t none by (auto simp: cal.fair_def Let_def a_def)
    then show ?thesis unfolding tails[OF t] using each[OF t] by (auto simp: series_shown_tail)
  qed
  show ?thesis
    unfolding Let_def
  proof (intro exI[of _ a] conjI ballI)
    show "expandCalendarRecurringTaskSetInRange fuel h c taskList window now totalProjectionCap
        = Some (concat (map (\<lambda>task. if projection_candidate h task then series_shown h c window now task (a task) else [task]) taskList))"
      unfolding result shows_all ..
    show "(\<Sum>task\<leftarrow>?candidates. length (tl (series_shown h c window now task (a task)))) \<le> ?cap"
      unfolding count using fair by (simp add: cal.fair_def)
    show "(\<Sum>task\<leftarrow>?candidates. length (tl (series_shown h c window now task (a task)))) = ?cap
        \<or> (\<forall>task\<in>set ?candidates. tl (series_shown h c window now task (a task)) = tl (series_shown h c window now task (min 62 ?cap)))"
      unfolding count using stop full by blast
  qed (use each in blast)+
qed

definition daily_series :: "string \<Rightarrow> js" where
  "daily_series i = JObj [(''id'', JStr i), (''status'', JStr ''next''), (''showFutureRecurrence'', JBool True), (''dueDate'', JStr ''1970-01-02''),
     (''recurrence'', JObj [(''rule'', JStr ''daily'')])]"

lemma daily_series_projectable: "projection_candidate host0 (daily_series i)"
proof -
  have "getRecurrenceRule host0 (get (daily_series i) ''recurrence'') = Some Daily" by (simp add: daily_series_def) code_simp
  then show ?thesis
    by (simp add: projection_candidate_def projectable_def plan_of_def isProjectedRecurringTask_def daily_series_def isTaskActionable_def)
qed

theorem calendar_budget_is_shared_witness:
  "\<exists>a a'. expandCalendarRecurringTaskSetInRange 125 host0 utc [daily_series ''x'', daily_series ''y''] \<lparr>startIso = ''1970-01-05'', endIso = ''1970-01-07''\<rparr> ''1970-01-01'' 3
       = Some (series_shown host0 utc \<lparr>startIso = ''1970-01-05'', endIso = ''1970-01-07''\<rparr> ''1970-01-01'' (daily_series ''x'') a @ series_shown host0 utc \<lparr>startIso = ''1970-01-05'', endIso = ''1970-01-07''\<rparr> ''1970-01-01'' (daily_series ''y'') a')
     \<and> 1 \<le> a \<and> 1 \<le> a' \<and> a \<le> 3 \<and> a' \<le> 3"
proof -
  let ?x = "daily_series ''x''" and ?y = "daily_series ''y''"
  have ids: "get ?x ''id'' = JStr ''x''" "get ?y ''id'' = JStr ''y''" by (simp_all add: daily_series_def)
  then have "?x \<noteq> ?y" by auto
  moreover have half: "3 div Suc (Suc 0) = Suc 0" by (simp flip: numeral_2_eq_2)
  moreover obtain a where "expandCalendarRecurringTaskSetInRange 125 host0 utc [?x, ?y] \<lparr>startIso = ''1970-01-05'', endIso = ''1970-01-07''\<rparr> ''1970-01-01'' 3
        = Some (concat (map (\<lambda>task. if projection_candidate host0 task then series_shown host0 utc \<lparr>startIso = ''1970-01-05'', endIso = ''1970-01-07''\<rparr> ''1970-01-01'' task (a task) else [task]) [?x, ?y]))"
    and "\<forall>task\<in>set (filter (projection_candidate host0) [?x, ?y]).
        min (min 62 (nat \<lfloor>3 :: rat\<rfloor>)) (nat \<lfloor>3 :: rat\<rfloor> div length (filter (projection_candidate host0) [?x, ?y])) \<le> a task \<and> a task \<le> min 62 (nat \<lfloor>3 :: rat\<rfloor>)"
    using calendar_budget_is_shared [of "[?x, ?y]" 125 host0 3 utc "\<lparr>startIso = ''1970-01-05'', endIso = ''1970-01-07''\<rparr>" "''1970-01-01''"] ids unfolding Let_def by auto
  ultimately show ?thesis
    by - (rule exI[of _ "a ?x"], rule exI[of _ "a ?y"], simp add: daily_series_projectable half)
qed

text \<open>
  C34. The range expansion of a projectable task is the task (or its current occurrence) followed by at most as many projections as asked for, and never
  more than 62; each projection belongs to the task, is marked as synthetic by its flag and its id, and its date lies in
  the range, both ends included, and is not past the end date of the rule.
\<close>

theorem range_shows_only_its_window:
  assumes "projectable h task = Some p" and "safeParseDate h (JStr (endIso window)) = Some closing"
  shows "\<exists>occurrences. expandCalendarRecurringTasksInRange h c task window now maxOccurrences = current_or_self h c task now # occurrences
    \<and> int (length occurrences) \<le> max 0 (min 62 maxOccurrences)
    \<and> (\<forall>t\<in>set occurrences. get t ''sourceTaskId'' = get task ''id'' \<and> get t ''isProjectedRecurringTask'' = JBool True
         \<and> isProjectedRecurringTaskId (get t ''id'')
         \<and> occurrence_fits h c (plan_until p) (safeParseDate h (JStr (startIso window))) closing (anchor_text (dates_of t)))"
proof -
  let ?opening = "safeParseDate h (JStr (startIso window))" and ?current = "current_or_self h c task now"
  let ?cap = "nat (min (int CALENDAR_RANGE_PROJECTION_PER_TASK_CAP) maxOccurrences)"
  let ?walk = "range_walk h c task p now (range_step h c task p (dates_of ?current) now ?opening) ?opening closing
    ?cap MAX_RANGE_PROJECTION_ITERATIONS (dates_of ?current) 0 0"
  have "expandCalendarRecurringTasksInRange h c task window now maxOccurrences = ?current # ?walk"
    using assms by (simp add: expandCalendarRecurringTasksInRange_def Let_def)
  moreover have "length ?walk \<le> ?cap" using range_walk_length[of 0 ?cap] by simp
  then have "int (length ?walk) \<le> max 0 (min 62 maxOccurrences)" by (simp add: CALENDAR_RANGE_PROJECTION_PER_TASK_CAP_def)
  moreover have "get t ''sourceTaskId'' = get task ''id'' \<and> get t ''isProjectedRecurringTask'' = JBool True \<and> isProjectedRecurringTaskId (get t ''id'')
      \<and> occurrence_fits h c (plan_until p) ?opening closing (anchor_text (dates_of t))" if "t \<in> set ?walk" for t
  proof -
    obtain slots where slots: "t = range_occurrence task slots now" "occurrence_fits h c (plan_until p) ?opening closing (anchor_text slots)"
      using range_walk_shows[OF \<open>t \<in> set ?walk\<close>] by blast
    then show ?thesis
      by (simp add: occurrence_anchor) (simp add: range_occurrence_id)
  qed
  ultimately show ?thesis by blast
qed

theorem range_shows_only_its_window_witness:
  "\<exists>occurrences. expandCalendarRecurringTasksInRange host0 utc (daily_series ''x'') \<lparr>startIso = ''1970-01-05'', endIso = ''1970-01-07''\<rparr> ''1970-01-01'' 9
      = current_or_self host0 utc (daily_series ''x'') ''1970-01-01'' # occurrences \<and> length occurrences \<le> 9"
proof -
  have "projectable host0 (daily_series ''x'') \<noteq> None" using daily_series_projectable by (simp add: projection_candidate_def)
  then obtain p where p: "projectable host0 (daily_series ''x'') = Some p" by blast
  have "safeParseDate host0 (JStr ''1970-01-07'') = Some (6 * day_ms)" by code_simp
  then show ?thesis
    using range_shows_only_its_window [OF p, of "\<lparr>startIso = ''1970-01-05'', endIso = ''1970-01-07''\<rparr>" "6 * day_ms" utc "''1970-01-01''" 9] by auto
qed

end
