(* ===== verification/Recurrence_Edit.thy ===== *)
theory Recurrence_Edit
  imports Recurrence_Task
begin

text \<open>
  The recurrence of a task in its editor (\<^verbatim>\<open>packages/core/src/recurrence.ts\<close>): the RRULE text the editor starts from, the
  edit of an existing text that carries every token it does not own, the labels of the lists; and the updates of a
  relative start (\<^verbatim>\<open>task-relative-start.ts\<close>). The translation of a key and the format of a date are arguments, as in the code.
\<close>

section \<open>Editing an RRULE text\<close>

definition EDITABLE_RRULE_TOKEN_KEYS :: "string list" where
  "EDITABLE_RRULE_TOKEN_KEYS = [''FREQ'', ''INTERVAL'', ''BYDAY'', ''BYMONTHDAY'', ''COUNT'', ''WKST'', ''UNTIL'']"

text \<open>An explicit \<open>undefined\<close> overrides: only an absent property is taken from the text.\<close>

definition overridden :: "js \<Rightarrow> js \<Rightarrow> string \<Rightarrow> js" where
  "overridden overrides parsed key = (if has_own overrides key then get overrides key else get parsed key)"

definition opaque_token :: "string \<Rightarrow> bool" where
  "opaque_token part \<longleftrightarrow> CHR ''='' \<in> set part \<and> before_eq part \<noteq> [] \<and> after_eq part \<noteq> []
     \<and> upper (trim_str (before_eq part)) \<notin> set EDITABLE_RRULE_TOKEN_KEYS"

definition opaque_tokens :: "string \<Rightarrow> string list" where
  "opaque_tokens rrule = filter opaque_token (map trim_str (split_on (CHR '';'') rrule))"

definition editRRuleString :: "host \<Rightarrow> string \<Rightarrow> recurrence_rule \<Rightarrow> js \<Rightarrow> string" where
  "editRRuleString h existingRRule rule overrides =
     (let parsed = parseRRuleString h existingRRule;
          pick = overridden overrides parsed;
          edited = buildRRuleString h (rule_text rule) (pick ''byDay'') (pick ''interval'')
            (JObj [(''byMonthDay'', pick ''byMonthDay''), (''count'', pick ''count''), (''weekStart'', pick ''weekStart''), (''until'', pick ''until'')]);
          opaque = opaque_tokens existingRRule
      in if opaque \<noteq> [] then edited @ '';'' @ join '';'' opaque else edited)"

definition getRecurrenceRRuleValue :: "host \<Rightarrow> js \<Rightarrow> string" where
  "getRecurrenceRRuleValue h v =
     (if plain_recurrence v \<or> \<not> truthy (get v ''rule'') then []
      else if truthy (get v ''rrule'') then the_str (get v ''rrule'')
      else
        let count = getRecurrenceCountValue h v; until = getRecurrenceUntilValue h v; rule = the_str (get v ''rule'');
            ends = [(''count'', count), (''weekStart'', get v ''weekStart''), (''until'', until)]
        in if elems (get v ''byDay'') \<noteq> [] then buildRRuleString h rule (get v ''byDay'') JUndef (JObj ends)
           else if elems (get v ''byMonthDay'') \<noteq> []
           then buildRRuleString h rule JUndef JUndef (JObj ((''byMonthDay'', get v ''byMonthDay'') # ends))
           else buildRRuleString h rule JUndef JUndef (JObj ends))"

definition hasRecurrenceRule :: "host \<Rightarrow> js \<Rightarrow> bool" where
  "hasRecurrenceRule h v \<longleftrightarrow> getRecurrenceRule h v \<noteq> None"

section \<open>Labels\<close>

definition formatRecurrenceCountLabel :: "js \<Rightarrow> js \<Rightarrow> (string \<Rightarrow> string) \<Rightarrow> string" where
  "formatRecurrenceCountLabel count completedOccurrences t =
     (let progress = (if positive_js completedOccurrences
            then js_string completedOccurrences @ '' '' @ t ''recurrence.occurrenceProgressOf'' @ '' '' else [])
      in t ''recurrence.endsAfterCount'' @ '' '' @ progress @ js_string count @ '' '' @ t ''recurrence.occurrenceUnit'')"

fun unit_key :: "recurrence_rule \<Rightarrow> string" where
  "unit_key Daily = ''recurrence.dayUnit''"
| "unit_key Weekly = ''recurrence.weekUnit''"
| "unit_key Monthly = ''recurrence.monthUnit''"
| "unit_key Yearly = ''recurrence.yearUnit''"

definition middle_dot :: string where
  "middle_dot = '' '' @ [CHR 0xB7] @ '' ''"

definition formatRecurrenceLabel :: "host \<Rightarrow> js \<Rightarrow> (string \<Rightarrow> string) \<Rightarrow> (string \<Rightarrow> string) \<Rightarrow> string" where
  "formatRecurrenceLabel h recurrence t formatDate =
     (case getRecurrenceRule h recurrence of
        None \<Rightarrow> []
      | Some rule \<Rightarrow>
          let interval = getRecurrenceInterval h recurrence; until = getRecurrenceUntilValue h recurrence;
              count = getRecurrenceCountValue h recurrence; completed = getRecurrenceCompletedOccurrencesValue recurrence;
              named = t (''recurrence.'' @ rule_text rule)
          in join middle_dot (filter (\<lambda>s. s \<noteq> [])
            [(if named \<noteq> [] then named else rule_text rule)
               @ (if getRecurrenceStrategy recurrence = Fluid then middle_dot @ t ''recurrence.afterCompletionShort'' else []),
             (if 1 < interval then t ''recurrence.repeatEvery'' @ '' '' @ int_str interval @ '' '' @ t (unit_key rule) else []),
             (if truthy until then t ''recurrence.endsOnDate'' @ '' '' @ formatDate (the_str until) else []),
             (if truthy count then formatRecurrenceCountLabel count completed t else [])]))"

section \<open>A relative start under edits\<close>

text \<open>\<open>(a ?? undefined) !== (b ?? undefined)\<close>\<close>

definition resolveRelativeStartUpdates :: "host \<Rightarrow> calendar \<Rightarrow> js \<Rightarrow> js \<Rightarrow> js" where
  "resolveRelativeStartUpdates h c oldTask updates =
     (let hasDueDateUpdate = has_own updates ''dueDate''; hasStartTimeUpdate = has_own updates ''startTime'';
          hasOffsetUpdate = has_own updates ''relativeStartOffset'';
          nextDueDate = (if hasDueDateUpdate then get updates ''dueDate'' else get oldTask ''dueDate'');
          meaningfulStartEdit = (hasStartTimeUpdate
            \<and> coalesce (get updates ''startTime'') JUndef \<noteq> coalesce (get oldTask ''startTime'') JUndef);
          cleared = put updates ''relativeStartOffset'' JUndef;
          start_from = (\<lambda>offset. computeRelativeStartTime h c (text_of nextDueDate) offset)
      in if \<not> hasDueDateUpdate \<and> \<not> hasStartTimeUpdate \<and> \<not> hasOffsetUpdate then updates
         else if hasOffsetUpdate then
           (let offset = normalizeRelativeStartOffset (get updates ''relativeStartOffset'');
                nextUpdates = put updates ''relativeStartOffset'' offset
            in if \<not> truthy offset \<or> \<not> truthy nextDueDate then cleared
               else (case start_from offset of Some s \<Rightarrow> put nextUpdates ''startTime'' (JStr s) | None \<Rightarrow> cleared))
         else if meaningfulStartEdit then cleared
         else
           (let existingOffset = normalizeRelativeStartOffset (get oldTask ''relativeStartOffset'')
            in if hasDueDateUpdate \<and> truthy existingOffset then
                 (if \<not> truthy nextDueDate then cleared
                  else (case start_from existingOffset of
                          Some s \<Rightarrow> puts updates [(''startTime'', JStr s), (''relativeStartOffset'', existingOffset)]
                        | None \<Rightarrow> cleared))
               else updates))"

section \<open>What an edit keeps\<close>

definition plain_text :: "string \<Rightarrow> bool" where
  "plain_text s \<longleftrightarrow> (\<forall>c\<in>set s. \<not> js_ws c \<and> c \<noteq> CHR '';'')"

lemma plain_text_simps [simp]:
  "plain_text []" "plain_text (s @ t) \<longleftrightarrow> plain_text s \<and> plain_text t"
  "plain_text (c # s) \<longleftrightarrow> (\<not> js_ws c \<and> c \<noteq> CHR '';'') \<and> plain_text s"
  by (auto simp: plain_text_def)

lemma plain_join: "(\<And>s. s \<in> set ss \<Longrightarrow> plain_text s) \<Longrightarrow> plain_text (join '','' ss)"
  by (induction ss rule: induct_list012) (auto simp: js_ws_def)

lemma plain_digit: "n < 10 \<Longrightarrow> \<not> js_ws (digit_char n) \<and> digit_char n \<noteq> CHR '';''"
  by (simp add: digit_char_def js_ws_def) (auto simp: of_char_of dest!: arg_cong[where f = "of_char :: char \<Rightarrow> nat"])

lemma plain_nat_str: "plain_text (nat_str n)"
proof (induction n rule: nat_str.induct)
  case (1 n)
  then show ?case by (subst nat_str.simps) (simp add: plain_digit)
qed

lemma plain_int_str: "plain_text (int_str i)"
  by (simp add: int_str_def plain_nat_str js_ws_def)

lemma plain_pad_num: "plain_text (pad_num w n)"
  by (auto simp: pad_num_def Let_def plain_nat_str) (simp add: plain_text_def js_ws_def)

lemma plain_frac_digits: "0 \<le> q \<Longrightarrow> q < 1 \<Longrightarrow> plain_text (frac_digits n q)"
proof (induction n arbitrary: q)
  case (Suc n)
  have "0 \<le> \<lfloor>q * 10\<rfloor>" "\<lfloor>q * 10\<rfloor> < 10" using Suc.prems by (simp_all add: floor_less_iff)
  then have "nat \<lfloor>q * 10\<rfloor> < 10" by linarith
  moreover have "0 \<le> q * 10 - of_int \<lfloor>q * 10\<rfloor>" "q * 10 - of_int \<lfloor>q * 10\<rfloor> < 1" by linarith+
  ultimately show ?case using Suc.IH plain_digit by simp
qed simp

lemma plain_num_str: "plain_text (num_str q)"
proof -
  have "0 \<le> \<bar>q\<bar> - of_int \<lfloor>\<bar>q\<bar>\<rfloor>" "\<bar>q\<bar> - of_int \<lfloor>\<bar>q\<bar>\<rfloor> < 1" by linarith+
  then show ?thesis by (simp add: num_str_def plain_int_str plain_nat_str plain_frac_digits js_ws_def)
qed

lemma plain_weekday: "day \<in> set WEEKDAY_ORDER \<Longrightarrow> plain_text day"
  by (auto simp: WEEKDAY_ORDER_def js_ws_def)

lemma plain_by_day:
  assumes "parseByDayToken s = Some t"
  shows "plain_text t"
proof -
  define t' where "t' = trim_str (upper s)"
  have t: "t = t'" "drop (length t' - 2) t' \<in> set WEEKDAY_ORDER" "take (length t' - 2) t' \<in> {[], ''-1'', ''1'', ''2'', ''3'', ''4''}"
    using assms by (auto simp: parseByDayToken_def Let_def t'_def split: if_splits)
  have "plain_text (take (length t' - 2) t')" using t(3) by (auto simp: js_ws_def)
  then have "plain_text (take (length t' - 2) t' @ drop (length t' - 2) t')" using plain_weekday[OF t(2)] by (simp only: plain_text_simps)
  then show ?thesis using t(1) by simp
qed

lemma plain_normalized_days:
  assumes "d \<in> set (map the_str (elems (normalizeWeekdays days)))"
  shows "plain_text d"
proof -
  have "d \<in> set (List.map_filter (\<lambda>x. parseByDayToken (the_str x)) (elems days))"
    using assms by (auto simp: normalizeWeekdays_def Let_def split: if_splits)
  then show ?thesis by (auto simp: map_filter_def plain_by_day)
qed

lemma plain_month_days:
  assumes "d \<in> set (map js_string (elems (normalizeMonthDays days)))"
  shows "plain_text d"
  using assms by (auto simp: normalizeMonthDays_def Let_def plain_num_str split: if_splits)

lemma sort_by_members: "set (sort_by cmp xs) = set xs"
proof (induction xs)
  case (Cons x xs)
  have "set (insert_by cmp x ys) = insert x (set ys)" for ys by (induction ys) auto
  then show ?case using Cons by simp
qed simp

lemma plain_digits: "list_all js_digit s \<Longrightarrow> plain_text s"
  by (auto simp: list_all_iff plain_text_def js_digit_def js_ws_def digit_val_def split: if_splits)

lemma plain_count: "positive_js v \<Longrightarrow> plain_text (js_string (round_js v))"
  by (cases v) (auto simp: round_js_def positive_js_def plain_num_str js_ws_def)

lemma digits_val_digits: "digits_val a s = Some v \<Longrightarrow> list_all js_digit s"
  by (induction a s arbitrary: v rule: digits_val.induct) (auto simp: js_digit_def split: option.splits)

lemma scan_num_digits: "scan_num n s = Some (v, r) \<Longrightarrow> plain_text (take n s) \<and> r = drop n s \<and> n \<le> length s"
  by (auto simp: scan_num_def split: if_splits dest!: digits_val_digits plain_digits)

lemma scan_sep_num_text:
  "scan_sep_num (CHR ''-'') n s = Some (v, r) \<Longrightarrow> \<exists>ds. s = CHR ''-'' # ds @ r \<and> plain_text ds \<and> length ds = n"
  by (auto simp: scan_sep_num_def scan_char_def split: list.splits if_splits option.splits dest!: scan_num_digits)
    (metis append_take_drop_id length_take min.absorb2)

lemma scan_ymd_plain:
  assumes "scan_ymd s = Some x" "length s = 10"
  shows "plain_text s"
proof -
  obtain y r1 m r2 d r3 where "scan_num 4 s = Some (y, r1)" "scan_sep_num (CHR ''-'') 2 r1 = Some (m, r2)" "scan_sep_num (CHR ''-'') 2 r2 = Some (d, r3)"
    using assms(1) by (auto simp: scan_ymd_def split: option.splits prod.splits)
  then obtain m' d' where "plain_text (take 4 s)" "drop 4 s = CHR ''-'' # m' @ CHR ''-'' # d' @ r3" "plain_text m'" "plain_text d'" "length m' = 2" "length d' = 2"
    using scan_num_digits[of 4 s] scan_sep_num_text[of 2 r1] scan_sep_num_text[of 2 r2] by blast
  moreover have "r3 = []"
  proof -
    have "length (drop 4 s) = length (CHR ''-'' # m' @ CHR ''-'' # d' @ r3)" using calculation(2) by (rule arg_cong)
    then show ?thesis using calculation(5,6) assms(2) by simp
  qed
  ultimately have "plain_text (drop 4 s)" by (simp add: js_ws_def)
  then have "plain_text (take 4 s @ drop 4 s)" unfolding plain_text_simps using \<open>plain_text (take 4 s)\<close> by blast
  then show ?thesis by simp
qed

lemma plain_until: "plain_text (formatUntilToken h v)"
proof -
  have dashes: "plain_text s \<Longrightarrow> plain_text (filter P s)" for s P by (auto simp: plain_text_def)
  have year: "plain_text (replicate n (CHR ''0''))" for n by (simp add: plain_text_def js_ws_def)
  have ymd: "plain_text s" if "length s = 10 \<and> (case scan_ymd s of Some _ \<Rightarrow> True | None \<Rightarrow> False)" for s
    using that scan_ymd_plain by (auto split: option.splits)
  define s where "s = trim_str (js_string (or_else v (JStr '''')))"
  have ws: "\<not> js_ws (CHR ''T'')" "\<not> js_ws (CHR ''Z'')" by (simp_all add: js_ws_def)
  have stamp: "plain_text (if y < 0 then replicate n (CHR ''0'') @ int_str y else pad_num 4 y)" for y n by (simp add: plain_pad_num plain_int_str year)
  consider "s = []" | "s \<noteq> []" "length s = 10 \<and> (case scan_ymd s of Some _ \<Rightarrow> True | None \<Rightarrow> False)"
    | "s \<noteq> []" "\<not> (length s = 10 \<and> (case scan_ymd s of Some _ \<Rightarrow> True | None \<Rightarrow> False))" by blast
  then show ?thesis
  proof cases
    case 1
    then show ?thesis by (simp add: formatUntilToken_def s_def[symmetric])
  next
    case 2
    then show ?thesis using dashes[OF ymd[OF 2(2)]] by (simp add: formatUntilToken_def s_def[symmetric])
  next
    case 3
    then show ?thesis
      unfolding formatUntilToken_def s_def[symmetric] Let_def if_not_P[OF 3(1)] if_not_P[OF 3(2)]
      by (cases "safeParseDate h (JStr s)") (simp_all add: split_beta stamp plain_pad_num ws)
  qed
qed

text \<open>The parts of a built text: a field the editor owns, its key, and a value without white space.\<close>

definition owned_part :: "string list \<Rightarrow> string \<Rightarrow> bool" where
  "owned_part owned part \<longleftrightarrow> (\<exists>key value. part = key @ CHR ''='' # value \<and> key \<in> set owned \<and> plain_text value)"

lemma built_parts:
  "\<exists>parts. buildRRuleString h rrule days interval options = join '';'' ((''FREQ='' @ upper rrule) # parts)
     \<and> list_all (owned_part (tl EDITABLE_RRULE_TOKEN_KEYS)) parts"
proof -
  let ?own = "owned_part (tl EDITABLE_RRULE_TOKEN_KEYS)"
  have part: "?own (key @ ''='' @ v)" if "key \<in> set (tl EDITABLE_RRULE_TOKEN_KEYS)" "plain_text v" for key v
    using that by (auto simp: owned_part_def)
  have own: "?own (''INTERVAL='' @ v)" "?own (''BYDAY='' @ v)" "?own (''BYMONTHDAY='' @ v)" "?own (''COUNT='' @ v)" "?own (''WKST='' @ v)" "?own (''UNTIL='' @ v)"
    if "plain_text v" for v
    using part[OF _ that, of "''INTERVAL''"] part[OF _ that, of "''BYDAY''"] part[OF _ that, of "''BYMONTHDAY''"] part[OF _ that, of "''COUNT''"]
      part[OF _ that, of "''WKST''"] part[OF _ that, of "''UNTIL''"]
    by (simp_all add: EDITABLE_RRULE_TOKEN_KEYS_def)
  let ?days = "normalizeWeekdays days" and ?month = "normalizeMonthDays (map js_string (elems (get options ''byMonthDay'')))"
    and ?start = "normalizeWeekStart (get options ''weekStart'')"
  have "list_all ?own (case interval of JNum q \<Rightarrow> if 1 < q then [''INTERVAL='' @ num_str q] else [] | JInf False \<Rightarrow> [''INTERVAL=Infinity''] | _ \<Rightarrow> [])"
    using own(1)[OF plain_num_str] own(1)[of "''Infinity''"] by (auto simp: js_ws_def split: js.splits bool.splits)
  moreover have "list_all ?own (if ?days \<noteq> JUndef then
            (if rrule = ''weekly'' then
               (if filter (\<lambda>day. day \<in> set (normalizeWeeklyByDay ?days)) WEEKDAY_ORDER \<noteq> []
                then [''BYDAY='' @ join '','' (filter (\<lambda>day. day \<in> set (normalizeWeeklyByDay ?days)) WEEKDAY_ORDER)] else [])
             else if rrule = ''monthly'' then [''BYDAY='' @ join '','' (sort_by (locale_compare h) (map the_str (elems ?days)))] else [])
          else if rrule = ''monthly'' \<and> ?month \<noteq> JUndef then [''BYMONTHDAY='' @ join '','' (map js_string (elems ?month))] else [])"
  proof -
    have "plain_text (join '','' (filter (\<lambda>day. day \<in> set (normalizeWeeklyByDay ?days)) WEEKDAY_ORDER))"
      by (intro plain_join) (auto intro: plain_weekday)
    moreover have "plain_text (join '','' (sort_by (locale_compare h) (map the_str (elems ?days))))"
      by (intro plain_join plain_normalized_days) (simp add: sort_by_members)
    moreover have "plain_text (join '','' (map js_string (elems ?month)))" by (intro plain_join plain_month_days)
    ultimately show ?thesis using own by auto
  qed
  moreover have "list_all ?own (if positive_js (get options ''count'') then [''COUNT='' @ js_string (round_js (get options ''count''))] else [])"
    using own(4)[OF plain_count] by simp
  moreover have "list_all ?own (if rrule = ''weekly'' \<and> ?start \<noteq> JUndef then [''WKST='' @ the_str ?start] else [])"
  proof -
    have "plain_text (the_str ?start)" by (auto simp: normalizeWeekStart_def plain_weekday split: option.splits if_splits)
    then show ?thesis using own(5) by simp
  qed
  moreover have "list_all ?own (if formatUntilToken h (get options ''until'') \<noteq> [] then [''UNTIL='' @ formatUntilToken h (get options ''until'')] else [])"
    using own(6)[OF plain_until] by simp
  ultimately show ?thesis
    unfolding buildRRuleString_def Let_def by (intro exI conjI) (rule arg_cong[where f = "join '';''"], simp, simp)
qed

lemma before_eq_key: "CHR ''='' \<notin> set key \<Longrightarrow> before_eq (key @ CHR ''='' # value) = key"
  by (induction key) (auto simp: before_eq_def)

lemma owned_key_plain:
  "key \<in> set EDITABLE_RRULE_TOKEN_KEYS \<Longrightarrow> CHR ''='' \<notin> set key \<and> plain_text key \<and> upper key = key"
  by (auto simp: EDITABLE_RRULE_TOKEN_KEYS_def js_ws_def upper_def upper_char_def Let_def)

lemma owned_part_facts:
  assumes "owned_part owned part" "set owned \<subseteq> set EDITABLE_RRULE_TOKEN_KEYS"
  shows "plain_text part" "\<not> opaque_token (trim_str part)" "before_eq part \<in> set owned" "upper (before_eq part) = before_eq part"
proof -
  obtain key v where part: "part = key @ CHR ''='' # v" "key \<in> set owned" "plain_text v" using assms(1) by (auto simp: owned_part_def)
  have key: "CHR ''='' \<notin> set key" "plain_text key" "upper key = key" "key \<in> set EDITABLE_RRULE_TOKEN_KEYS"
    using owned_key_plain[of key] part(2) assms(2) by auto
  show plain: "plain_text part" using part key by (simp add: js_ws_def)
  show "before_eq part \<in> set owned" "upper (before_eq part) = before_eq part" using part key by (simp_all add: before_eq_key)
  have "trim_str part = part" "trim_str key = key" using plain key(2) by (auto simp: plain_text_def intro: trim_no_ws)
  then show "\<not> opaque_token (trim_str part)" using part key by (simp add: opaque_token_def before_eq_key)
qed

lemma trim_members: "set (trim_str s) \<subseteq> set s"
  by (auto simp: trim_str_def dest!: set_dropWhileD)

lemma opaque_facts:
  assumes "part \<in> set (opaque_tokens rrule)"
  shows "CHR '';'' \<notin> set part" "trim_str part = part" "opaque_token part" "upper (before_eq part) \<noteq> ''FREQ''"
proof -
  obtain p where p: "p \<in> set (split_on (CHR '';'') rrule)" "part = trim_str p" using assms by (auto simp: opaque_tokens_def)
  show "CHR '';'' \<notin> set part" using split_on_parts[OF p(1)] trim_members[of p] p(2) by auto
  show "trim_str part = part" using p(2) by simp
  show opaque: "opaque_token part" using assms by (simp add: opaque_tokens_def)
  show "upper (before_eq part) \<noteq> ''FREQ''"
  proof
    assume freq: "upper (before_eq part) = ''FREQ''"
    have "\<not> js_ws c" if "c \<in> set (before_eq part)" for c
    proof
      assume "js_ws c"
      then have "upper_char c = [c]" by (auto simp: js_ws_def upper_char_def Let_def)
      then have "c \<in> set (upper (before_eq part))" using that by (force simp: upper_def)
      then show False using freq \<open>js_ws c\<close> by (auto simp: js_ws_def)
    qed
    then have "trim_str (before_eq part) = before_eq part" by (intro trim_no_ws) blast
    then show False using opaque freq by (simp add: opaque_token_def EDITABLE_RRULE_TOKEN_KEYS_def)
  qed
qed

lemma split_head: "split_on (CHR ''='') part ! 0 = before_eq part \<or> length (split_on (CHR ''='') part) = 1"
proof (cases "CHR ''='' \<in> set part")
  case True
  then obtain key v where "part = key @ CHR ''='' # v" "CHR ''='' \<notin> set key" by (metis split_list_first)
  then show ?thesis by (simp add: split_on_append before_eq_key)
qed (simp add: split_on_plain)

lemma token_of_first:
  assumes "\<forall>part\<in>set parts. upper (before_eq part) \<noteq> key"
  shows "map_of (foldl (\<lambda>acc part. (let kv = split_on (CHR ''='') part
        in if 2 \<le> length kv \<and> kv ! 0 \<noteq> [] \<and> kv ! 1 \<noteq> [] then AList.update (upper (kv ! 0)) (kv ! 1) acc else acc)) acc parts) key
    = map_of acc key"
  using assms
proof (induction parts arbitrary: acc)
  case (Cons part parts)
  then show ?case using split_head[of part] by (auto simp: Let_def update_conv')
qed simp

lemma join_append: "xs \<noteq> [] \<Longrightarrow> ys \<noteq> [] \<Longrightarrow> join sep (xs @ ys) = join sep xs @ sep @ join sep ys"
proof (induction xs rule: induct_list012)
  case (2 x)
  then show ?case by (cases ys) simp_all
qed simp_all

lemma rule_text_facts:
  "plain_text (''FREQ='' @ upper (rule_text rule))" "split_on (CHR ''='') (''FREQ='' @ upper (rule_text rule)) = [''FREQ'', upper (rule_text rule)]"
  "upper ''FREQ'' = ''FREQ''" "upper (rule_text rule) \<noteq> []" "map_of RRULE_FREQ_MAP (upper (rule_text rule)) = Some (rule_text rule)"
  "upper (upper (rule_text rule)) = upper (rule_text rule)"
proof -
  have up: "upper ''daily'' = ''DAILY''" "upper ''weekly'' = ''WEEKLY''" "upper ''monthly'' = ''MONTHLY''" "upper ''yearly'' = ''YEARLY''"
    "upper ''DAILY'' = ''DAILY''" "upper ''WEEKLY'' = ''WEEKLY''" "upper ''MONTHLY'' = ''MONTHLY''" "upper ''YEARLY'' = ''YEARLY''"
    and "upper ''FREQ'' = ''FREQ''"
    by code_simp+
  then show "upper ''FREQ'' = ''FREQ''" by blast
  show "plain_text (''FREQ='' @ upper (rule_text rule))" by (cases rule) (simp_all add: up js_ws_def)
  show "split_on (CHR ''='') (''FREQ='' @ upper (rule_text rule)) = [''FREQ'', upper (rule_text rule)]" by (cases rule) (simp_all add: up)
  show "upper (rule_text rule) \<noteq> []" "upper (upper (rule_text rule)) = upper (rule_text rule)" by (cases rule; simp add: up)+
  show "map_of RRULE_FREQ_MAP (upper (rule_text rule)) = Some (rule_text rule)" by (cases rule) (simp_all add: up RRULE_FREQ_MAP_def)
qed

text \<open>
  C37. Editing the RRULE of a task keeps what the editor does not own: whatever the text and the edit, the tokens under
  other keys (the series id among them) are in the new text unchanged and in their order, and the new text reads back
  with the frequency it was given.
\<close>

theorem edit_keeps_other_tokens:
  "opaque_tokens (editRRuleString h existingRRule rule overrides) = opaque_tokens existingRRule
   \<and> get (parseRRuleString h (editRRuleString h existingRRule rule overrides)) ''rule'' = JStr (rule_text rule)"
proof -
  let ?edit = "editRRuleString h existingRRule rule overrides" and ?opaque = "opaque_tokens existingRRule"
    and ?freq = "''FREQ='' @ upper (rule_text rule)"
  obtain parts where built: "?edit = join '';'' (?freq # parts @ ?opaque)" and owned: "list_all (owned_part (tl EDITABLE_RRULE_TOKEN_KEYS)) parts"
  proof -
    have "\<exists>parts. ?edit = (if ?opaque \<noteq> [] then join '';'' (?freq # parts) @ '';'' @ join '';'' ?opaque else join '';'' (?freq # parts))
        \<and> list_all (owned_part (tl EDITABLE_RRULE_TOKEN_KEYS)) parts"
      unfolding editRRuleString_def Let_def using built_parts by metis
    then show thesis using that join_append[of "?freq # _" ?opaque "'';''"] by (auto split: if_splits)
  qed
  have own: "plain_text p" "\<not> opaque_token (trim_str p)" "upper (before_eq p) \<noteq> ''FREQ''" if "p \<in> set parts" for p
    using owned_part_facts[of "tl EDITABLE_RRULE_TOKEN_KEYS" p] owned that
    by (auto simp: list_all_iff EDITABLE_RRULE_TOKEN_KEYS_def)
  have freq: "plain_text ?freq" "split_on (CHR ''='') ?freq = [''FREQ'', upper (rule_text rule)]"
    "upper ''FREQ'' = ''FREQ''" "upper (rule_text rule) \<noteq> []" "map_of RRULE_FREQ_MAP (upper (rule_text rule)) = Some (rule_text rule)"
    "upper (upper (rule_text rule)) = upper (rule_text rule)"
    using rule_text_facts by blast+
  have "plain_text (upper (rule_text rule))" using freq(1) by simp
  then have first: "owned_part [''FREQ''] ?freq" by (auto simp: owned_part_def)
  have parts: "split_on (CHR '';'') ?edit = ?freq # parts @ ?opaque"
    unfolding built using freq(1) own(1) opaque_facts(1) by (intro split_on_join) (auto simp: plain_text_def)
  have "opaque_tokens ?edit = filter opaque_token (map trim_str ?opaque)"
    unfolding opaque_tokens_def[of ?edit] parts
    using own(2) owned_part_facts(2)[OF first] by (auto simp: EDITABLE_RRULE_TOKEN_KEYS_def filter_empty_conv)
  also have "map trim_str ?opaque = ?opaque" using opaque_facts(2) by (intro map_idI)
  also have "filter opaque_token ?opaque = ?opaque" using opaque_facts(3) by (simp add: filter_id_conv)
  finally have keeps: "opaque_tokens ?edit = ?opaque" .
  have "map_of (rrule_tokens ?edit) ''FREQ'' = Some (upper (rule_text rule))"
  proof -
    have rest: "\<forall>part\<in>set (parts @ ?opaque). upper (before_eq part) \<noteq> ''FREQ''" using own(3) opaque_facts(4) by auto
    show ?thesis
      unfolding rrule_tokens_def parts foldl_Cons token_of_first[OF rest] unfolding Let_def freq(2) by (simp add: freq)
  qed
  moreover have "?edit \<noteq> []"
  proof
    assume "?edit = []"
    then show False using parts by simp
  qed
  ultimately have "get (parseRRuleString h ?edit) ''rule'' = JStr (rule_text rule)"
    by (simp add: parseRRuleString_def Let_def token_def freq)
  then show ?thesis using keeps by blast
qed

section \<open>A relative start stays in step\<close>

text \<open>A task whose relative start is set has a due date, and the start the offset gives.\<close>

definition start_in_step :: "host \<Rightarrow> calendar \<Rightarrow> js \<Rightarrow> bool" where
  "start_in_step h c task \<longleftrightarrow>
     (let offset = normalizeRelativeStartOffset (get task ''relativeStartOffset'')
      in \<not> truthy offset \<or>
         (case computeRelativeStartTime h c (text_of (get task ''dueDate'')) offset of
            Some s \<Rightarrow> get task ''startTime'' = JStr s | None \<Rightarrow> False))"

text \<open>\<open>{ ...task, ...updates }\<close>, as the store applies an update.\<close>

definition apply_updates :: "js \<Rightarrow> js \<Rightarrow> js" where
  "apply_updates task updates = puts task (props updates)"

lemma get_applied:
  assumes "obj_wf updates"
  shows "get (apply_updates task updates) k = (if has_own updates k then get updates k else get task k)"
proof -
  have "get (apply_updates task updates) k = (case map_of (props updates) k of Some x \<Rightarrow> x | None \<Rightarrow> get task k)"
    using assms by (simp add: apply_updates_def get_puts map_of_rev_same obj_wf_def keys_def)
  moreover have "has_own updates k \<longleftrightarrow> map_of (props updates) k \<noteq> None"
    by (simp add: has_own_def keys_def map_of_eq_None_iff)
  ultimately show ?thesis using get_own_eq[of updates k] by (auto split: option.splits)
qed

text \<open>An update that leaves the offset out, or sets it with the start it gives, is in step.\<close>

lemma cleared_in_step:
  assumes "obj_wf updates"
  shows "start_in_step h c (apply_updates task (put updates ''relativeStartOffset'' JUndef))"
proof -
  have "normalizeRelativeStartOffset JUndef = JUndef" by (simp add: normalizeRelativeStartOffset_def get_def)
  then show ?thesis using assms by (simp add: start_in_step_def get_applied obj_wf_put)
qed

lemma normalized_again: "normalizeRelativeStartOffset (normalizeRelativeStartOffset v) = normalizeRelativeStartOffset v"
  by (auto simp: normalizeRelativeStartOffset_def split: js.splits)

lemma set_in_step:
  assumes "obj_wf u" "get u ''relativeStartOffset'' = offset" "has_own u ''relativeStartOffset''" "normalizeRelativeStartOffset offset = offset"
    and "get u ''startTime'' = JStr s" "has_own u ''startTime''"
    and "computeRelativeStartTime h c (text_of (if has_own u ''dueDate'' then get u ''dueDate'' else get task ''dueDate'')) offset = Some s"
  shows "start_in_step h c (apply_updates task u)"
  using assms by (simp add: start_in_step_def get_applied)

lemma computed_start:
  "computeRelativeStartTime h c (text_of due) offset = Some s \<Longrightarrow> truthy offset \<and> truthy due"
  by (auto simp: computeRelativeStartTime_def text_of_def split: option.splits js.splits if_splits)

text \<open>The four outcomes of resolving an update.\<close>

lemma resolved_updates:
  fixes h c oldTask updates
  defines "r \<equiv> resolveRelativeStartUpdates h c oldTask updates"
    and "offset \<equiv> normalizeRelativeStartOffset (get updates ''relativeStartOffset'')"
    and "old \<equiv> normalizeRelativeStartOffset (get oldTask ''relativeStartOffset'')"
    and "due \<equiv> if has_own updates ''dueDate'' then get updates ''dueDate'' else get oldTask ''dueDate''"
    and "edited \<equiv> has_own updates ''startTime'' \<and> coalesce (get updates ''startTime'') JUndef \<noteq> coalesce (get oldTask ''startTime'') JUndef"
  obtains (gone) "r = put updates ''relativeStartOffset'' JUndef"
    | (kept) "r = updates" "\<not> has_own updates ''relativeStartOffset''" "\<not> (has_own updates ''dueDate'' \<and> truthy old)" "\<not> edited"
    | (offset) s where "r = put (put updates ''relativeStartOffset'' offset) ''startTime'' (JStr s)" "computeRelativeStartTime h c (text_of due) offset = Some s"
    | (due) s where "r = puts updates [(''startTime'', JStr s), (''relativeStartOffset'', old)]" "computeRelativeStartTime h c (text_of due) old = Some s"
proof (cases "has_own updates ''relativeStartOffset''")
  case True
  have "r = (case computeRelativeStartTime h c (text_of due) offset of
      Some s \<Rightarrow> put (put updates ''relativeStartOffset'' offset) ''startTime'' (JStr s) | None \<Rightarrow> put updates ''relativeStartOffset'' JUndef)"
    using True computed_start[of h c due offset]
    unfolding r_def resolveRelativeStartUpdates_def Let_def offset_def[symmetric] due_def[symmetric] by (auto split: option.splits)
  then show thesis using that(1,3) by (cases "computeRelativeStartTime h c (text_of due) offset") simp_all
next
  case False
  have r: "r = (if edited then put updates ''relativeStartOffset'' JUndef
      else if has_own updates ''dueDate'' \<and> truthy old
      then (case computeRelativeStartTime h c (text_of due) old of
          Some s \<Rightarrow> puts updates [(''startTime'', JStr s), (''relativeStartOffset'', old)] | None \<Rightarrow> put updates ''relativeStartOffset'' JUndef)
      else updates)"
    using False computed_start[of h c due old]
    unfolding r_def resolveRelativeStartUpdates_def Let_def old_def[symmetric] due_def[symmetric] edited_def[symmetric]
    by (auto simp: edited_def split: option.splits)
  then show thesis
    using that(1,2,4) False by (cases "computeRelativeStartTime h c (text_of due) old") (auto split: if_splits)
qed

text \<open>
  C38. A relative start stays in step with its due date: if the task's start is the one its offset gives from its due
  date, then after any update resolved by the code the start is again the one the offset gives, or the offset is gone.
\<close>

theorem relative_start_stays_in_step:
  assumes "start_in_step h c oldTask" and "obj_wf updates"
  shows "start_in_step h c (apply_updates oldTask (resolveRelativeStartUpdates h c oldTask updates))"
proof (cases rule: resolved_updates[of h c oldTask updates])
  case gone
  then show ?thesis using cleared_in_step[OF assms(2)] by simp
next
  case kept
  then show ?thesis using assms by (auto simp: start_in_step_def get_applied coalesce_def Let_def split: option.splits if_splits)
next
  case (offset s)
  show ?thesis
    unfolding offset(1) using offset(2)
    by (intro set_in_step[where offset = "normalizeRelativeStartOffset (get updates ''relativeStartOffset'')" and s = s])
      (auto simp: assms(2) obj_wf_put normalized_again split: if_splits)
next
  case (due s)
  show ?thesis
    unfolding due(1) using due(2)
    by (intro set_in_step[where offset = "normalizeRelativeStartOffset (get oldTask ''relativeStartOffset'')" and s = s])
      (auto simp: assms(2) obj_wf_put normalized_again split: if_splits)
qed

definition started_task :: js where
  "started_task = JObj [(''dueDate'', JStr ''1970-01-05''), (''startTime'', JStr ''1970-01-03''),
     (''relativeStartOffset'', JObj [(''amount'', JNum (- 2)), (''unit'', JStr ''day'')])]"

theorem relative_start_stays_in_step_witness:
  "start_in_step host0 utc started_task
   \<and> start_in_step host0 utc (apply_updates started_task
        (resolveRelativeStartUpdates host0 utc started_task (JObj [(''dueDate'', JStr ''1970-01-08'')])))"
proof -
  let ?offset = "JObj [(''amount'', JNum (- 2)), (''unit'', JStr ''day'')]"
  have texts: "safeParseDate host0 (JStr ''1970-01-05'') = Some (4 * day_ms)" "\<not> hasTimeComponent ''1970-01-05''" "\<not> has_timezone ''1970-01-05''"
    and offset: "normalizeRelativeStartOffset ?offset = ?offset" "truthy ?offset" "\<not> isSubDayOffset ?offset"
    by code_simp+
  have "addOffset utc (4 * day_ms) ?offset = 2 * day_ms"
    by (simp add: addOffset_def wall_utc) (simp add: utc_def day_ms_def)
  moreover have "local_day utc (2 * day_ms) = 2" by (simp add: local_day_def wall_utc day_ms_def)
  then have "formatLocalDate utc (2 * day_ms) = ''1970-01-03''"
    unfolding formatLocalDate_def getFullYear_def getMonth_def getDate_def date_of_def by simp code_simp
  ultimately have "computeRelativeStartTime host0 utc (Some ''1970-01-05'') ?offset = Some ''1970-01-03''"
    by (simp add: computeRelativeStartTime_def texts offset Let_def del: truthy.simps hasTimeComponent.simps)
  then have "start_in_step host0 utc started_task"
    using offset by (simp add: start_in_step_def started_task_def text_of_def)
  moreover have "obj_wf (JObj [(''dueDate'', JStr ''1970-01-08'')])" by (simp add: obj_wf_def keys_def)
  ultimately show ?thesis using relative_start_stays_in_step by blast
qed

end
