(* ===== verification/Saved_Filter_Match.thy ===== *)
theory Saved_Filter_Match
  imports Saved_Filters Recurrence_Projection
begin

text \<open>
  Matching tasks against a filter (\<^verbatim>\<open>packages/core/src/saved-filters.ts\<close>, lines 190 to 440, with the token forms of
  \<^verbatim>\<open>bulk-task-tokens.ts\<close> and \<^verbatim>\<open>hierarchy-utils.ts\<close> and the time estimates of \<^verbatim>\<open>calendar-scheduling.ts\<close>). The days,
  weeks and months of date-fns are the record \<open>periods\<close>, an argument; a week starts on the given weekday.
\<close>

section \<open>Time estimates\<close>

definition CUSTOM_TIME_ESTIMATE_PREFIX :: string where
  "CUSTOM_TIME_ESTIMATE_PREFIX = ''custom:''"

definition CALENDAR_TIME_ESTIMATE_OPTIONS :: "(string \<times> int) list" where
  "CALENDAR_TIME_ESTIMATE_OPTIONS =
     [(''5min'', 5), (''10min'', 10), (''15min'', 15), (''30min'', 30), (''1hr'', 60), (''2hr'', 120), (''3hr'', 180), (''4hr'', 240)]"

definition normalizeExactTimeEstimateMinutes :: "rat \<Rightarrow> int" where
  "normalizeExactTimeEstimateMinutes minutes = max 1 (round_half_up minutes)"

definition customTimeEstimateToMinutes :: "js \<Rightarrow> int option" where
  "customTimeEstimateToMinutes estimate =
     (case estimate of
        JStr s \<Rightarrow>
          if \<not> starts_with s CUSTOM_TIME_ESTIMATE_PREFIX then None
          else (case js_number (drop (length CUSTOM_TIME_ESTIMATE_PREFIX) s) of
                  JNum minutes \<Rightarrow> if minutes < 1 then None else Some (normalizeExactTimeEstimateMinutes minutes)
                | _ \<Rightarrow> None)
      | _ \<Rightarrow> None)"

definition timeEstimateToMinutes :: "js \<Rightarrow> js \<Rightarrow> int" where
  "timeEstimateToMinutes estimate enabled =
     (if enabled = JBool False then 30 else
      case customTimeEstimateToMinutes estimate of
        Some m \<Rightarrow> m
      | None \<Rightarrow>
          if estimate = JStr ''4hr+'' then 240
          else (case estimate of
                  JStr s \<Rightarrow> or_default 30 (map_of CALENDAR_TIME_ESTIMATE_OPTIONS s)
                | _ \<Rightarrow> 30))"

definition minutesToTimeEstimateBucket :: "rat \<Rightarrow> string" where
  "minutesToTimeEstimateBucket minutes =
     (let normalized = normalizeExactTimeEstimateMinutes minutes
      in case List.find (\<lambda>(_, m). m = normalized) CALENDAR_TIME_ESTIMATE_OPTIONS of
           Some (estimate, _) \<Rightarrow> estimate
         | None \<Rightarrow>
             (case List.find (\<lambda>(_, m). normalized \<le> m) CALENDAR_TIME_ESTIMATE_OPTIONS of
                Some (estimate, _) \<Rightarrow> estimate | None \<Rightarrow> ''4hr+''))"

definition timeEstimateToFilterBucket :: "js \<Rightarrow> js" where
  "timeEstimateToFilterBucket estimate =
     (if \<not> truthy estimate then JUndef else JStr (minutesToTimeEstimateBucket (of_int (timeEstimateToMinutes estimate JUndef))))"

section \<open>Tokens\<close>

definition matchesHierarchicalToken :: "string \<Rightarrow> string \<Rightarrow> bool" where
  "matchesHierarchicalToken wanted held_token =
     (let normalizedFilter = rev (dropWhile (\<lambda>c. c = CHR ''/'') (rev wanted))
      in held_token = normalizedFilter \<or> starts_with held_token (normalizedFilter @ ''/''))"

definition normalizeBulkTaskTokenInput :: "string \<Rightarrow> char \<Rightarrow> string" where
  "normalizeBulkTaskTokenInput value prefix =
     (let withoutPrefix = trim_str (dropWhile (\<lambda>c. c \<in> set ''@#'') (trim_str value))
      in if trim_str value = [] \<or> withoutPrefix = [] then [] else prefix # withoutPrefix)"

definition token_present :: "js list \<Rightarrow> char \<Rightarrow> js \<Rightarrow> bool" where
  "token_present actual prefix selected =
     list_ex (\<lambda>t. matchesHierarchicalToken (the_str selected) (normalizeBulkTaskTokenInput (the_str t) prefix)) actual"

definition matchesAnyToken :: "js list \<Rightarrow> js list \<Rightarrow> char \<Rightarrow> bool" where
  "matchesAnyToken selected actual prefix \<longleftrightarrow> selected = [] \<or> list_ex (token_present actual prefix) selected"

definition matchesAllTokens :: "js list \<Rightarrow> js list \<Rightarrow> char \<Rightarrow> bool" where
  "matchesAllTokens selected actual prefix \<longleftrightarrow> selected = [] \<or> list_all (token_present actual prefix) selected"

definition matchesTokens :: "js list \<Rightarrow> js list \<Rightarrow> char \<Rightarrow> js \<Rightarrow> bool" where
  "matchesTokens selected actual prefix mode =
     (if mode = JStr ''all'' then matchesAllTokens selected actual prefix else matchesAnyToken selected actual prefix)"

section \<open>Dates\<close>

record periods =
  startOfDay :: "int \<Rightarrow> int"
  endOfDay :: "int \<Rightarrow> int"
  startOfWeek :: "nat \<Rightarrow> int \<Rightarrow> int"
  endOfWeek :: "nat \<Rightarrow> int \<Rightarrow> int"
  startOfMonth :: "int \<Rightarrow> int"
  endOfMonth :: "int \<Rightarrow> int"

definition safeParseDueDate :: "host \<Rightarrow> js \<Rightarrow> int option" where
  "safeParseDueDate h v =
     (case safeParseDate h v of
        None \<Rightarrow> None
      | Some t \<Rightarrow> Some (if hasTimeComponent (the_str v) then t else local_day_end h t))"

definition matchesDateRange :: "host \<Rightarrow> periods \<Rightarrow> js \<Rightarrow> js \<Rightarrow> (js \<Rightarrow> int option) \<Rightarrow> int \<Rightarrow> nat \<Rightarrow> bool" where
  "matchesDateRange h d v window parser at_time weekStart_day =
     (if \<not> truthy window then True
      else if has_own window ''preset'' \<and> get window ''preset'' = JStr ''no_date'' then \<not> truthy v
      else if \<not> truthy v then False
      else
        (case parser v of
           None \<Rightarrow> False
         | Some t \<Rightarrow>
             if has_own window ''preset'' then
               (let preset = get window ''preset''
                in if preset = JStr ''today'' then startOfDay d at_time \<le> t \<and> t \<le> endOfDay d at_time
                   else if preset = JStr ''this_week'' then startOfWeek d weekStart_day at_time \<le> t \<and> t \<le> endOfWeek d weekStart_day at_time
                   else if preset = JStr ''this_month'' then startOfMonth d at_time \<le> t \<and> t \<le> endOfMonth d at_time
                   else if preset = JStr ''overdue'' then t < startOfDay d at_time
                   else True)
             else
               (case (if truthy (get window ''from'') then safeParseDate h (get window ''from'') else None) of
                  Some from_day \<Rightarrow> startOfDay d from_day \<le> t | None \<Rightarrow> True)
               \<and> (case (if truthy (get window ''to'') then safeParseDate h (get window ''to'') else None) of
                    Some to_day \<Rightarrow> t \<le> endOfDay d to_day | None \<Rightarrow> True)))"

section \<open>Other fields\<close>

definition folded :: "js \<Rightarrow> string" where
  "folded v = (case v of JStr s \<Rightarrow> lower (trim_str s) | _ \<Rightarrow> [])"

definition matchesAssignedTo :: "js list \<Rightarrow> js \<Rightarrow> bool" where
  "matchesAssignedTo selected assignedTo \<longleftrightarrow>
     selected = [] \<or> folded assignedTo \<noteq> [] \<and> list_ex (\<lambda>item. folded item = folded assignedTo) selected"

definition matchesLocation :: "js list \<Rightarrow> js \<Rightarrow> bool" where
  "matchesLocation selected location \<longleftrightarrow>
     selected = [] \<or> folded location \<noteq> [] \<and> list_ex (\<lambda>item. includes_text (folded item) (folded location)) selected"

definition matchesPriority :: "js list \<Rightarrow> js \<Rightarrow> bool" where
  "matchesPriority selected priority \<longleftrightarrow>
     selected = [] \<or> list_ex (\<lambda>item. if item = JStr ''none'' then \<not> truthy priority else priority = item) selected"

definition matchesTimeEstimateRange :: "js \<Rightarrow> js \<Rightarrow> bool" where
  "matchesTimeEstimateRange bounds estimate =
     (if \<not> truthy bounds then True
      else if \<not> truthy estimate then False
      else
        let minutes = of_int (timeEstimateToMinutes estimate JUndef)
        in \<not> (get bounds ''min'' \<noteq> JUndef \<and> minutes < the_num (get bounds ''min''))
           \<and> \<not> (get bounds ''max'' \<noteq> JUndef \<and> the_num (get bounds ''max'') < minutes))"

section \<open>A task against the criteria\<close>

definition SAVED_FILTER_NO_PROJECT_ID :: string where
  "SAVED_FILTER_NO_PROJECT_ID = ''__no_project__''"

definition hasActiveFilterCriteria :: "js \<Rightarrow> bool" where
  "hasActiveFilterCriteria criteria \<longleftrightarrow>
     truthy criteria \<and>
     (let n = normalizeFilterCriteria criteria
      in list_ex (\<lambda>k. elems (get n k) \<noteq> [])
           [''contexts'', ''excludedContexts'', ''areas'', ''projects'', ''tags'', ''excludedTags'', ''energy'', ''priority'']
         \<or> truthy (get n ''dueDateRange'') \<or> truthy (get n ''startDateRange'')
         \<or> list_ex (\<lambda>k. elems (get n k) \<noteq> []) [''statuses'', ''assignedTo'', ''locations'']
         \<or> truthy (get n ''timeEstimateRange'') \<or> elems (get n ''timeEstimates'') \<noteq> []
         \<or> get n ''hasDescription'' \<noteq> JUndef \<or> get n ''isStarred'' \<noteq> JUndef)"

record apply_filter_options =
  filter_now :: "int option"
  filter_projects :: "js list option"
  tokenMatchMode :: js
  weekStartsOn :: "nat option"

record prepared_filter =
  normalized_criteria :: js
  projectById :: "(js \<times> js) list"
  filter_time :: int
  with_contextMode :: js
  with_tagMode :: js
  week_start_day :: nat

definition prepareFilterContext :: "host \<Rightarrow> js \<Rightarrow> apply_filter_options \<Rightarrow> prepared_filter" where
  "prepareFilterContext h criteria options =
     (let n = normalizeFilterCriteria criteria; mode = coalesce (tokenMatchMode options) (JStr ''any'')
      in \<lparr>normalized_criteria = n,
          projectById = (case filter_projects options of Some ps \<Rightarrow> js_map (map (\<lambda>p. (get p ''id'', p)) ps) | None \<Rightarrow> []),
          filter_time = (case filter_now options of Some t \<Rightarrow> t | None \<Rightarrow> date_now h),
          with_contextMode = coalesce (get n ''contextMatchMode'') mode,
          with_tagMode = coalesce (get n ''tagMatchMode'') mode,
          week_start_day = or_default 1 (weekStartsOn options)\<rparr>)"

definition effective_area :: "(js \<times> js) list \<Rightarrow> js \<Rightarrow> js" where
  "effective_area projectsById task =
     coalesce (get task ''areaId'')
       (if truthy (get task ''projectId'')
        then (case map_of projectsById (get task ''projectId'') of Some p \<Rightarrow> get p ''areaId'' | None \<Rightarrow> JUndef) else JUndef)"

text \<open>The tests of \<^verbatim>\<open>taskMatchesPreparedFilterCriteria\<close>, in its order.\<close>

definition token_tests :: "prepared_filter \<Rightarrow> js \<Rightarrow> bool" where
  "token_tests x task \<longleftrightarrow>
     (let n = normalized_criteria x; wanted = (\<lambda>k. elems (get n k)); held = (\<lambda>k. elems (get task k))
      in \<not> (wanted ''statuses'' \<noteq> [] \<and> get task ''status'' \<notin> set (wanted ''statuses''))
       \<and> matchesTokens (wanted ''contexts'') (held ''contexts'') (CHR ''@'') (with_contextMode x)
       \<and> matchesTokens (wanted ''tags'') (held ''tags'') (CHR ''#'') (with_tagMode x)
       \<and> \<not> (wanted ''excludedContexts'' \<noteq> [] \<and> matchesAnyToken (wanted ''excludedContexts'') (held ''contexts'') (CHR ''@''))
       \<and> \<not> (wanted ''excludedTags'' \<noteq> [] \<and> matchesAnyToken (wanted ''excludedTags'') (held ''tags'') (CHR ''#'')))"

definition place_tests :: "prepared_filter \<Rightarrow> js \<Rightarrow> bool" where
  "place_tests x task \<longleftrightarrow>
     (let n = normalized_criteria x; wanted = (\<lambda>k. elems (get n k)); area = effective_area (projectById x) task
      in \<not> (wanted ''areas'' \<noteq> [] \<and> (\<not> truthy area \<or> area \<notin> set (wanted ''areas'')))
       \<and> \<not> (wanted ''projects'' \<noteq> [] \<and>
             \<not> list_ex (\<lambda>i. if i = JStr SAVED_FILTER_NO_PROJECT_ID then \<not> truthy (get task ''projectId'') else get task ''projectId'' = i)
                 (wanted ''projects'')))"

definition field_tests :: "host \<Rightarrow> periods \<Rightarrow> prepared_filter \<Rightarrow> js \<Rightarrow> bool" where
  "field_tests h d x task \<longleftrightarrow>
     (let n = normalized_criteria x; wanted = (\<lambda>k. elems (get n k));
          dated = (\<lambda>k range_key parser. matchesDateRange h d (get task k) (get n range_key) parser (filter_time x) (week_start_day x));
          bucket = timeEstimateToFilterBucket (get task ''timeEstimate'')
      in \<not> (wanted ''energy'' \<noteq> [] \<and> (\<not> truthy (get task ''energyLevel'') \<or> get task ''energyLevel'' \<notin> set (wanted ''energy'')))
       \<and> matchesPriority (wanted ''priority'') (get task ''priority'')
       \<and> dated ''dueDate'' ''dueDateRange'' (safeParseDueDate h)
       \<and> dated ''startTime'' ''startDateRange'' (safeParseDate h)
       \<and> matchesAssignedTo (wanted ''assignedTo'') (get task ''assignedTo'')
       \<and> matchesLocation (wanted ''locations'') (get task ''location'')
       \<and> \<not> (wanted ''timeEstimates'' \<noteq> [] \<and> (\<not> truthy bucket \<or> bucket \<notin> set (wanted ''timeEstimates'')))
       \<and> matchesTimeEstimateRange (get n ''timeEstimateRange'') (get task ''timeEstimate'')
       \<and> \<not> (get n ''hasDescription'' \<noteq> JUndef \<and> JBool (trim_str (the_str (get task ''description'')) \<noteq> []) \<noteq> get n ''hasDescription'')
       \<and> \<not> (get n ''isStarred'' \<noteq> JUndef \<and> JBool (truthy (get task ''isFocusedToday'')) \<noteq> get n ''isStarred''))"

definition taskMatchesPreparedFilterCriteria :: "host \<Rightarrow> periods \<Rightarrow> js \<Rightarrow> prepared_filter \<Rightarrow> bool" where
  "taskMatchesPreparedFilterCriteria h d task x \<longleftrightarrow>
     \<not> truthy (get task ''deletedAt'') \<and> token_tests x task \<and> place_tests x task \<and> field_tests h d x task"

definition taskMatchesFilterCriteria :: "host \<Rightarrow> periods \<Rightarrow> js \<Rightarrow> js \<Rightarrow> apply_filter_options \<Rightarrow> bool" where
  "taskMatchesFilterCriteria h d task criteria options = taskMatchesPreparedFilterCriteria h d task (prepareFilterContext h criteria options)"

definition createTaskFilterPredicate :: "host \<Rightarrow> periods \<Rightarrow> js \<Rightarrow> apply_filter_options \<Rightarrow> js \<Rightarrow> bool" where
  "createTaskFilterPredicate h d criteria options =
     (let x = prepareFilterContext h criteria options in (\<lambda>task. taskMatchesPreparedFilterCriteria h d task x))"

definition applyFilter :: "host \<Rightarrow> periods \<Rightarrow> js list \<Rightarrow> js \<Rightarrow> apply_filter_options \<Rightarrow> js list" where
  "applyFilter h d taskList criteria options = filter (createTaskFilterPredicate h d criteria options) taskList"

section \<open>Filters that say nothing\<close>

lemma no_wish [simp]:
  "matchesTokens [] actual prefix mode" "matchesAnyToken [] actual prefix" "matchesPriority [] p" "matchesAssignedTo [] a" "matchesLocation [] l"
  by (simp_all add: matchesTokens_def matchesAllTokens_def matchesAnyToken_def matchesPriority_def matchesAssignedTo_def matchesLocation_def)

lemma no_bounds [simp]: "\<not> truthy r \<Longrightarrow> matchesDateRange h d v r parser t w" "\<not> truthy r \<Longrightarrow> matchesTimeEstimateRange r e"
  by (simp_all add: matchesDateRange_def matchesTimeEstimateRange_def)

lemma inactive_fields:
  fixes criteria
  defines "n \<equiv> normalizeFilterCriteria criteria"
  assumes "\<not> hasActiveFilterCriteria criteria"
  shows "elems (get n ''contexts'') = []" "elems (get n ''excludedContexts'') = []" "elems (get n ''areas'') = []"
    "elems (get n ''projects'') = []" "elems (get n ''tags'') = []" "elems (get n ''excludedTags'') = []" "elems (get n ''energy'') = []"
    "elems (get n ''priority'') = []" "elems (get n ''statuses'') = []" "elems (get n ''assignedTo'') = []" "elems (get n ''locations'') = []"
    "elems (get n ''timeEstimates'') = []" "\<not> truthy (get n ''dueDateRange'')" "\<not> truthy (get n ''startDateRange'')"
    "\<not> truthy (get n ''timeEstimateRange'')" "get n ''hasDescription'' = JUndef" "get n ''isStarred'' = JUndef"
proof -
  have "truthy criteria \<or> n = JObj []"
    unfolding n_def by (cases criteria) (simp_all add: normalizeFilterCriteria_def)
  moreover have "get (JObj []) k = JUndef" for k by (simp add: get_def)
  ultimately have *: "(truthy criteria \<and> \<not> hasActiveFilterCriteria criteria) \<or> (\<forall>k. get n k = JUndef)" using assms(2) by auto
  note active = hasActiveFilterCriteria_def Let_def n_def[symmetric]
  show "elems (get n ''contexts'') = []" "elems (get n ''excludedContexts'') = []" "elems (get n ''areas'') = []"
    "elems (get n ''projects'') = []" "elems (get n ''tags'') = []" "elems (get n ''excludedTags'') = []" "elems (get n ''energy'') = []"
    "elems (get n ''priority'') = []" "elems (get n ''statuses'') = []" "elems (get n ''assignedTo'') = []" "elems (get n ''locations'') = []"
    "elems (get n ''timeEstimates'') = []" "\<not> truthy (get n ''dueDateRange'')" "\<not> truthy (get n ''startDateRange'')"
    "\<not> truthy (get n ''timeEstimateRange'')" "get n ''hasDescription'' = JUndef" "get n ''isStarred'' = JUndef"
    using * unfolding active by (elim disjE; simp)+
qed

text \<open>
  C39. The test for active criteria and the matching speak of the same fields: a filter without active criteria, whatever its value,
  keeps every task that is not deleted, in order; any other filter keeps only such tasks, and matching against stored
  criteria is matching against their normal form.
\<close>

theorem inactive_filter_keeps_live_tasks:
  "applyFilter h d taskList criteria options
     = filter (\<lambda>task. \<not> truthy (get task ''deletedAt'') \<and> (if hasActiveFilterCriteria criteria then taskMatchesFilterCriteria h d task criteria options else True)) taskList
   \<and> taskMatchesFilterCriteria h d task (normalizeFilterCriteria criteria) options = taskMatchesFilterCriteria h d task criteria options"
proof -
  have "taskMatchesFilterCriteria h d t criteria options \<longleftrightarrow> \<not> truthy (get t ''deletedAt'')" if "\<not> hasActiveFilterCriteria criteria" for t
  proof -
    note inactive_fields[OF that]
    then show ?thesis
      by (simp add: taskMatchesFilterCriteria_def taskMatchesPreparedFilterCriteria_def prepareFilterContext_def token_tests_def place_tests_def field_tests_def Let_def)
  qed
  moreover have "taskMatchesFilterCriteria h d t criteria options \<Longrightarrow> \<not> truthy (get t ''deletedAt'')" for t
    by (simp add: taskMatchesFilterCriteria_def taskMatchesPreparedFilterCriteria_def)
  ultimately have "applyFilter h d taskList criteria options
     = filter (\<lambda>task. \<not> truthy (get task ''deletedAt'') \<and> (if hasActiveFilterCriteria criteria then taskMatchesFilterCriteria h d task criteria options else True)) taskList"
    unfolding applyFilter_def createTaskFilterPredicate_def Let_def taskMatchesFilterCriteria_def by (intro filter_cong) auto
  then show ?thesis by (simp add: taskMatchesFilterCriteria_def prepareFilterContext_def criteria_again)
qed

section \<open>Time estimates as filter chips\<close>


end
