(* ===== verification/Spec2Isabelle.thy ===== *)
theory Spec2Isabelle
  imports Cycle_Properties Merge_Properties Merge_Settings Sync_Mutex Sync_Comparison Auto_Sync Attachment_Cleanup
    Recurrence_Forward Recurrence_Budget Recurrence_Edit Saved_Filter_Match
begin

text \<open>
  Verification of the sync core and the recurrence engine of Mindwtr (\<^verbatim>\<open>packages/core/src\<close>).

  \<^bold>\<open>The program.\<close> A device keeps its document (\<open>AppData\<close>: tasks, projects, sections, areas, people, settings) locally and
  exchanges it with a remote copy. \<^verbatim>\<open>auto-sync-controller.ts\<close> decides when, through the orchestrator
  (\<^verbatim>\<open>sync-orchestrator.ts\<close>) that turns requests into cycles one after another and the executor (\<^verbatim>\<open>sync-cycle.ts\<close>) that
  chains them. A cycle (\<^verbatim>\<open>sync.ts\<close>) reads both documents, normalises and merges them entity by entity, repairs the
  references of the result, validates it, writes it locally with a marker, writes the remote, and clears the marker.
  Deleted entities live on as tombstones that are compacted and one day expire; files they leave behind are removed by
  \<^verbatim>\<open>attachment-cleanup.ts\<close>. Recurring tasks (\<^verbatim>\<open>recurrence.ts\<close>) make their next instance when completed and show
  projected ones in the calendar.

  \<^bold>\<open>Conventions.\<close> A synced entity is an open JavaScript object, a value of the datatype \<open>js\<close>: the code spreads it, tests own
  keys, tells a missing key from \<open>undefined\<close>, and keeps what it does not know. \<open>get\<close>, \<open>put\<close>, \<open>puts\<close>, \<open>has_own\<close>,
  \<open>truthy\<close>, \<open>coalesce\<close> are the operations of the language. The document is the record \<open>AppData\<close>. What a platform decides is the
  record \<open>host\<close> (clock, time zone, collation, the URL parser, dates outside the standard format), for the recurrence the
  record \<open>calendar\<close> (time zone and the functions of date-fns); every definition that needs them takes them as an
  argument, and the concrete \<open>host0\<close>, \<open>utc\<close> and \<open>spring\<close> (a zone with a gap) serve the witnesses. Errors are values: \<open>Inl\<close> a message,
  or a list of messages, or a thrown value; back ends and callbacks are functions on an arbitrary world that may throw.

  \<^bold>\<open>Theories.\<close>
  \<^item> Prelude: \<open>Js_Values\<close> (values, objects, maps, sorting), \<open>Js_Text\<close> (\<open>JSON.stringify\<close>, \<open>Date.parse\<close>, \<open>toISOString\<close> and
    their round trip), \<open>Js_Library\<close> (\<open>String\<close>, \<open>Number\<close>, URI coding, \<open>safeParseDate\<close> of \<^verbatim>\<open>date.ts\<close>), \<open>App_Data\<close>.
  \<^item> Entities: \<open>Sync_Revision\<close>, \<open>Tombstone_Compaction\<close>, \<open>Sync_Tombstones\<close>, \<open>Sync_Signatures\<close> (with the 32-bit hash on words),
    \<open>Attachment_Uri\<close>, \<open>Task_Status\<close>, \<open>Sync_Normalization\<close>, \<open>Container_Rules\<close>, \<open>Area_Utils\<close>: one per file of that name, the
    normalisers of \<^verbatim>\<open>sync-normalization.ts\<close> included. \<open>Purged_Normalization\<close> shows that normalising a purged tombstone is
    done once (locales \<open>compaction\<close>, \<open>compaction_repair\<close>).
  \<^item> Merge: \<open>Sync_Merge\<close> is \<open>mergeEntitiesWithStats\<close> with every inner rule; \<open>Sync_Convergence\<close> shows it to be a keyed join
    (locales \<open>keyed_merge\<close>, \<open>entity_join\<close>) and that replicas agree; \<open>Merge_Properties\<close> has idempotence and the deciding rules
    (locale \<open>idempotent_join\<close>). \<open>Sync_Repair\<close> and \<open>Sync_Validation\<close> are the second half of \<^verbatim>\<open>sync-normalization.ts\<close>,
    \<open>Repair_Validation\<close> relates them. \<open>Saved_Filters\<close>, \<open>Settings_Options\<close>, \<open>Merge_Settings\<close> merge the settings;
    \<open>Merge_App_Data\<close> is the merge of two documents, \<open>Merge_Document\<close> and \<open>Merge_Attachments\<close> its invariants.
  \<^item> Cycle: \<open>Sync_Document\<close> (reading), \<open>Sync_Outbound\<close> and \<open>Sync_Comparison\<close> (\<^verbatim>\<open>sync-helpers.ts\<close>: what leaves the device, and
    when a write can be skipped), \<open>Sync_Cycle\<close> (the cycle with a trace of its calls) and \<open>Cycle_Properties\<close> (order of writes,
    outcomes, retry schedule), \<open>Attachment_Cleanup\<close> (a run over callbacks that may throw).
  \<^item> Scheduling: \<open>Sync_Mutex\<close>, \<open>Sync_Orchestrator\<close> and \<open>Auto_Sync\<close> are state machines: a step is one synchronous stretch of the
    code, the interleaving is any sequence of steps, and the properties are invariants of reachable states or say that
    a state leads on. \<open>Sync_Backoff\<close> has the retry loop and the cooldowns.
  \<^item> Recurrence: \<open>Recurrence_Rule\<close> (RRULE texts, load normalisation), \<open>Recurrence_Dates\<close> (the next date of a rule),
    \<open>Recurrence_Search\<close> (the searches return the first day their rule names), \<open>Recurrence_Task\<close> (the next instance),
    \<open>Recurrence_Forward\<close> (the fast path against single steps), \<open>Recurrence_Projection\<close> and \<open>Recurrence_Budget\<close> (projections, the
    calendar's range and its shared budget, locale \<open>occurrence_source\<close>), \<open>Recurrence_Edit\<close> (editing a text, labels, relative starts).
  \<^item> Filters: \<open>Saved_Filter_Match\<close> matches tasks against saved filters (\<^verbatim>\<open>saved-filters.ts\<close>, with the time estimates of
    \<^verbatim>\<open>calendar-scheduling.ts\<close>; the days, weeks and months of date-fns are the record \<open>periods\<close>).

  \<^bold>\<open>What is shown.\<close> Devices that merge the same two documents keep the same entities whoever calls itself local, merging
  again changes nothing, and which copy wins is stated rule by rule. A merged document satisfies the reference checks,
  and an accepted one is sound. A cycle writes in one of two orders and only validated documents, whatever throws; with answering
  back ends it ends in one of three known ways. No cycle overlaps another, requests made meanwhile become one follow-up,
  a failed cycle is tried again. Nothing secret or device-local leaves the device; cleanup deletes no file in use. A
  recurring task gets the first date its rule names, a counted series ends, the calendar's budget is kept and shared fairly.
  A filter that says nothing keeps every task that is not deleted.

  \<^bold>\<open>Bounds.\<close> Loops of the code with a counter keep it as fuel of the same size: 1000 single steps of a projection, 800 rounds of
  a range walk, the attempts of the retry loop, the decodings of an attachment URI (4 and 32 in the two copies of the check), and the months a search tries. Other
  recursion is on the value or the text, with a measure where it is not structural. The redistribution of the calendar's budget is unbounded in the code: it takes fuel here,
  and 62 rounds per task are shown to be enough, since every round raises an allocation or closes a series.

  \<^bold>\<open>Not modelled.\<close> Logging, traces and progress callbacks. Caches keyed by object identity: they return what they would
  compute. Number arithmetic is rational: the sources stay inside the integers a double represents. Strings have code units below 256.
  References to one object are compared by content; where the code spreads a value that its type
  says is an object, it is one. Recurrence intervals are whole numbers, as the editor writes them. The WebDAV address
  normaliser needs the URL parser of the platform; hashing of file contents is cryptography of the platform. Of \<^verbatim>\<open>date.ts\<close> the
  display formats, of \<^verbatim>\<open>sync-log-utils.ts\<close> the messages are left out. Outside the
  development are the transports (\<^verbatim>\<open>webdav.ts\<close>, \<^verbatim>\<open>cloud.ts\<close>, \<^verbatim>\<open>dropbox.ts\<close>), encryption, the store and its persistence, queries and
  views, capture, importers, and the applications: input and output, user interface, and glue around the core.
\<close>

end
